(* ===== verification/DDS_Prelude.thy ===== *)
theory DDS_Prelude
  imports Main "HOL-Library.Word"
begin

text \<open>
  Shared vocabulary of the development: machine-integer types, the collections of rewrite rules the
  component proofs use, generic facts on maps, lists and words, and the contract \<open>transition_system\<close>
  that lifts a one-step invariant to whole runs of a component.
\<close>

unbundle bit_operations_syntax

subsection \<open>Types\<close>

type_synonym u8 = "8 word"
type_synonym u16 = "16 word"
type_synonym u32 = "32 word"
type_synonym u64 = "64 word"

subsection \<open>Rule collections\<close>

named_theorems dds_mask \<open>algebra of the low four bits and the high twelve bits of a 16-bit level\<close>
named_theorems dds_meta \<open>what the metadata manager does to the views of the store\<close>
named_theorems dds_inv \<open>invariant preservation, one lemma per operation\<close>

subsection \<open>Maps\<close>

lemma map_le_upd_same [intro]: "m \<subseteq>\<^sub>m n \<Longrightarrow> m(k := None) \<subseteq>\<^sub>m n(k := v)"
  by (auto simp: map_le_def)

lemma map_le_upd_both [intro]: "m \<subseteq>\<^sub>m n \<Longrightarrow> m(k := v) \<subseteq>\<^sub>m n(k := v)"
  by (auto simp: map_le_def)

lemma map_le_forget: "m \<subseteq>\<^sub>m n \<Longrightarrow> m(k := None) \<subseteq>\<^sub>m n"
  by (auto simp: map_le_def)

lemma map_le_SomeD: "m \<subseteq>\<^sub>m n \<Longrightarrow> m k = Some v \<Longrightarrow> n k = Some v"
  by (auto simp: map_le_def dom_def)

lemma map_le_insert: "m \<subseteq>\<^sub>m n \<Longrightarrow> n k = Some v \<Longrightarrow> m(k \<mapsto> v) \<subseteq>\<^sub>m n"
  by (auto simp: map_le_def)

text \<open>Several keys forgotten at once: what a batch of cache deletions leaves.\<close>

definition forget_all :: "'k list \<Rightarrow> ('k \<rightharpoonup> 'v) \<Rightarrow> ('k \<rightharpoonup> 'v)" where
  "forget_all ks m = m |` (- set ks)"

lemma forget_all_Nil [simp]: "forget_all [] m = m"
  by (auto simp: forget_all_def restrict_map_def)

lemma forget_all_Cons: "forget_all (k # ks) m = forget_all ks (m(k := None))"
  by (auto simp: forget_all_def restrict_map_def fun_eq_iff)

lemma forget_all_apply: "forget_all ks m k = (if k \<in> set ks then None else m k)"
  by (simp add: forget_all_def)

lemma forget_all_le_map_upds:
  "m \<subseteq>\<^sub>m n \<Longrightarrow> forget_all (map fst es) m \<subseteq>\<^sub>m n ++ map_of es"
  by (force simp: map_le_def forget_all_def restrict_map_def map_add_def dom_def
      split: option.splits if_splits dest!: map_of_SomeD)

lemma forget_all_le_forget: "m \<subseteq>\<^sub>m n \<Longrightarrow> forget_all ks m \<subseteq>\<^sub>m forget_all ks n"
  by (auto simp: map_le_def forget_all_def restrict_map_def dom_def)

lemma forget_all_le: "m \<subseteq>\<^sub>m n \<Longrightarrow> forget_all ks m \<subseteq>\<^sub>m n"
  by (auto simp: map_le_def forget_all_def restrict_map_def dom_def)

subsection \<open>Runs of a component\<close>

text \<open>
  Every stateful component below is a function from a state and a request to the next state. The
  contract says that each request keeps the component's invariant; the consequence is that every
  sequence of requests does.
\<close>

fun run_steps :: "('s \<Rightarrow> 'e \<Rightarrow> 's) \<Rightarrow> 's \<Rightarrow> 'e list \<Rightarrow> 's" where
  "run_steps step s [] = s"
| "run_steps step s (e # es) = run_steps step (step s e) es"

lemma run_steps_append: "run_steps step s (xs @ ys) = run_steps step (run_steps step s xs) ys"
  by (induction xs arbitrary: s) auto

lemma run_steps_fold: "run_steps step s es = fold (\<lambda>e s. step s e) es s"
  by (induction es arbitrary: s) auto

lemma run_steps_guarded:
  "I s \<Longrightarrow> list_all P es \<Longrightarrow> (\<And>s e. I s \<Longrightarrow> P e \<Longrightarrow> I (step s e)) \<Longrightarrow> I (run_steps step s es)"
  by (induction es arbitrary: s) auto

locale transition_system =
  fixes step :: "'s \<Rightarrow> 'e \<Rightarrow> 's" and inv :: "'s \<Rightarrow> bool"
  assumes inv_step: "inv s \<Longrightarrow> inv (step s e)"
begin

lemma inv_run: "inv s \<Longrightarrow> inv (run_steps step s es)"
  by (induction es arbitrary: s) (auto intro: inv_step)

end

end
