(* ===== verification/Serializable.thy ===== *)
theory Serializable
  imports DDS_Prelude "HOL-Library.AList"
begin

text \<open>
  Serializable objects (framework/serializable/serializable.cpp and its header). The document tree of
  the JSON library is a datatype; \<open>GetSubNode\<close>, the \<open>GetValue\<close> family and the \<open>SetValue\<close> family are
  the functions of the class, one definition per overload. A failed \<open>GetValue\<close> leaves the target as
  it was. Signed integers are words read with \<open>sint\<close>; a double is its 64-bit pattern.

  Writing a document as text and parsing it again turns a non-negative signed number into an unsigned
  one (\<open>json_norm\<close>); the readers below accept both forms.
\<close>

subsection \<open>Documents\<close>

datatype json =
    JNull
  | JDiscarded
  | JBool bool
  | JUInt nat
  | JInt int
  | JFloat u64
  | JStr string
  | JArr "json list"
  | JObj "(string \<times> json) list"

fun json_norm :: "json \<Rightarrow> json" where
  "json_norm (JInt i) = (if 0 \<le> i then JUInt (nat i) else JInt i)"
| "json_norm (JArr js) = JArr (map json_norm js)"
| "json_norm (JObj kvs) = JObj (map (\<lambda>(k, j). (k, json_norm j)) kvs)"
| "json_norm j = j"

text \<open>\<open>node[name] = value\<close>: a null node becomes an object, an object gets or replaces the member.\<close>

fun json_put :: "json \<Rightarrow> string \<Rightarrow> json \<Rightarrow> json" where
  "json_put JNull name j = JObj [(name, j)]"
| "json_put (JObj kvs) name j = JObj (AList.update name j kvs)"
| "json_put node name j = node"

definition GetSubNode :: "json \<Rightarrow> string \<Rightarrow> json" where
  "GetSubNode node name =
     (if node = JDiscarded \<or> node = JNull then JNull
      else if name = [] then node
      else case node of
        JObj kvs \<Rightarrow> (case map_of kvs name of None \<Rightarrow> JNull | Some j \<Rightarrow> j)
      | _ \<Rightarrow> JNull)"

subsection \<open>Reading\<close>

fun GetValue_string :: "json \<Rightarrow> string \<Rightarrow> string \<Rightarrow> bool \<times> string" where
  "GetValue_string node name value =
     (case GetSubNode node name of JStr s \<Rightarrow> (True, s) | _ \<Rightarrow> (False, value))"

fun GetValue_u32 :: "json \<Rightarrow> string \<Rightarrow> u32 \<Rightarrow> bool \<times> u32" where
  "GetValue_u32 node name value =
     (case GetSubNode node name of JUInt n \<Rightarrow> (True, of_nat n) | _ \<Rightarrow> (False, value))"

fun GetValue_i32 :: "json \<Rightarrow> string \<Rightarrow> u32 \<Rightarrow> bool \<times> u32" where
  "GetValue_i32 node name value =
     (case GetSubNode node name of
        JUInt n \<Rightarrow> (True, of_nat n) | JInt i \<Rightarrow> (True, of_int i) | _ \<Rightarrow> (False, value))"

fun GetValue_i64 :: "json \<Rightarrow> string \<Rightarrow> u64 \<Rightarrow> bool \<times> u64" where
  "GetValue_i64 node name value =
     (case GetSubNode node name of
        JUInt n \<Rightarrow> (True, of_nat n) | JInt i \<Rightarrow> (True, of_int i) | _ \<Rightarrow> (False, value))"

fun GetValue_u64 :: "json \<Rightarrow> string \<Rightarrow> u64 \<Rightarrow> bool \<times> u64" where
  "GetValue_u64 node name value =
     (case GetSubNode node name of JUInt n \<Rightarrow> (True, of_nat n) | _ \<Rightarrow> (False, value))"

fun GetValue_u16 :: "json \<Rightarrow> string \<Rightarrow> u16 \<Rightarrow> bool \<times> u16" where
  "GetValue_u16 node name value =
     (case GetSubNode node name of JUInt n \<Rightarrow> (True, of_nat n) | _ \<Rightarrow> (False, value))"

fun GetValue_bool :: "json \<Rightarrow> string \<Rightarrow> bool \<Rightarrow> bool \<times> bool" where
  "GetValue_bool node name value =
     (case GetSubNode node name of
        JBool b \<Rightarrow> (True, b)
      | JUInt n \<Rightarrow> (True, (of_nat n :: u32) \<noteq> 0)
      | _ \<Rightarrow> (False, value))"

fun GetValue_double :: "json \<Rightarrow> string \<Rightarrow> u64 \<Rightarrow> bool \<times> u64" where
  "GetValue_double node name value =
     (case GetSubNode node name of JFloat d \<Rightarrow> (True, d) | _ \<Rightarrow> (False, value))"

text \<open>Nested objects and vectors take the reader of the element as an argument.\<close>

fun GetValue_object :: "(json \<Rightarrow> 'v \<Rightarrow> bool \<times> 'v) \<Rightarrow> json \<Rightarrow> string \<Rightarrow> 'v \<Rightarrow> bool \<times> 'v" where
  "GetValue_object Unmarshal node name value =
     (case GetSubNode node name of JObj kvs \<Rightarrow> Unmarshal (JObj kvs) value | _ \<Rightarrow> (False, value))"

fun read_elements :: "(json \<Rightarrow> string \<Rightarrow> 'v \<Rightarrow> bool \<times> 'v) \<Rightarrow> json list \<Rightarrow> 'v list \<Rightarrow> bool \<Rightarrow> bool \<times> 'v list" where
  "read_elements get (j # js) (v # vs) result =
     (case get j [] v of (ok, v') \<Rightarrow>
        (case read_elements get js vs (ok \<and> result) of (res, vs') \<Rightarrow> (res, v' # vs')))"
| "read_elements get _ vs result = (result, vs)"

definition resize :: "'v \<Rightarrow> nat \<Rightarrow> 'v list \<Rightarrow> 'v list" where
  "resize fresh n vs = take n vs @ replicate (n - length vs) fresh"

fun GetValue_vector ::
    "(json \<Rightarrow> string \<Rightarrow> 'v \<Rightarrow> bool \<times> 'v) \<Rightarrow> 'v \<Rightarrow> json \<Rightarrow> string \<Rightarrow> 'v list \<Rightarrow> bool \<times> 'v list" where
  "GetValue_vector get fresh node name values =
     (case GetSubNode node name of
        JArr js \<Rightarrow> read_elements get js (resize fresh (length js) values) True
      | _ \<Rightarrow> (False, values))"

subsection \<open>Writing\<close>

definition SetValue_string :: "string \<Rightarrow> json" where "SetValue_string value = JStr value"
definition SetValue_u32 :: "u32 \<Rightarrow> json" where "SetValue_u32 value = JUInt (unat value)"
definition SetValue_i32 :: "u32 \<Rightarrow> json" where "SetValue_i32 value = JInt (sint value)"
definition SetValue_i64 :: "u64 \<Rightarrow> json" where "SetValue_i64 value = JInt (sint value)"
definition SetValue_u64 :: "u64 \<Rightarrow> json" where "SetValue_u64 value = JUInt (unat value)"
definition SetValue_u16 :: "u16 \<Rightarrow> json" where "SetValue_u16 value = JUInt (unat value)"
definition SetValue_double :: "u64 \<Rightarrow> json" where "SetValue_double value = JFloat value"
definition SetValue_bool :: "bool \<Rightarrow> json" where "SetValue_bool value = JBool value"

definition SetValue_vector :: "('v \<Rightarrow> json) \<Rightarrow> 'v list \<Rightarrow> json" where
  "SetValue_vector put values = JArr (map put values)"

subsection \<open>Parsing text\<close>

text \<open>
  \<open>ToJson\<close> and \<open>Unmarshall\<close> parse a text; when that fails they try again without its first character.
  The parser is the JSON library's and is an argument.
\<close>

definition ToJson :: "(string \<Rightarrow> json) \<Rightarrow> string \<Rightarrow> json" where
  "ToJson parse jsonStr =
     (let jsonObj = parse jsonStr
      in if jsonObj = JDiscarded
         then if jsonStr = [] then JNull
              else let jsonObj = parse (tl jsonStr)
                   in if jsonObj = JDiscarded then JNull else jsonObj
         else jsonObj)"

definition Unmarshall_text ::
    "(string \<Rightarrow> json) \<Rightarrow> (json \<Rightarrow> 'v \<Rightarrow> bool \<times> 'v) \<Rightarrow> string \<Rightarrow> 'v \<Rightarrow> bool \<times> 'v" where
  "Unmarshall_text parse Unmarshal jsonStr value =
     (let jsonObj = parse jsonStr
      in if jsonObj = JDiscarded
         then if jsonStr = [] then (False, value)
              else let jsonObj = parse (tl jsonStr)
                   in if jsonObj = JDiscarded then (False, value) else Unmarshal jsonObj value
         else Unmarshal jsonObj value)"

subsection \<open>What the readers see\<close>

text \<open>
  The member view of an object: enough to compute every reader, and closed under \<open>json_put\<close> and
  \<open>json_norm\<close>.
\<close>

definition member :: "json \<Rightarrow> string \<Rightarrow> json option" where
  "member node name = (case node of JObj kvs \<Rightarrow> map_of kvs name | _ \<Rightarrow> None)"

definition is_obj :: "json \<Rightarrow> bool" where
  "is_obj node \<longleftrightarrow> (\<exists>kvs. node = JObj kvs)"

lemma is_obj_put [simp]: "is_obj (json_put (JObj kvs) name j)" "is_obj (json_put JNull name j)"
  "is_obj node \<Longrightarrow> is_obj (json_put node name j)"
  by (auto simp: is_obj_def)

lemma is_obj_norm [simp]: "is_obj node \<Longrightarrow> is_obj (json_norm node)"
  by (auto simp: is_obj_def)

lemma GetSubNode_obj:
  "is_obj node \<Longrightarrow> name \<noteq> [] \<Longrightarrow> GetSubNode node name = (case member node name of None \<Rightarrow> JNull | Some j \<Rightarrow> j)"
  by (auto simp: GetSubNode_def member_def is_obj_def)

lemma member_put_null [simp]: "member (json_put JNull name j) name' = (if name' = name then Some j else None)"
  by (simp add: member_def)

lemma member_put [simp]:
  "is_obj node \<Longrightarrow> member (json_put node name j) name' = (if name' = name then Some j else member node name')"
  by (auto simp: member_def is_obj_def update_conv' fun_upd_def)

lemma member_norm [simp]:
  "is_obj node \<Longrightarrow> member (json_norm node) name = map_option json_norm (member node name)"
proof -
  have "map_of (map (\<lambda>(k, j). (k, json_norm j)) kvs) name = map_option json_norm (map_of kvs name)" for kvs
    by (induction kvs) auto
  then show "is_obj node \<Longrightarrow> member (json_norm node) name = map_option json_norm (member node name)"
    by (auto simp: member_def is_obj_def)
qed

lemma length_resize [simp]: "length (resize fresh n vs) = n"
  by (simp add: resize_def)

subsection \<open>Every reader inverts its writer\<close>

text \<open>
  Whatever the target held before, and also after the document went through text: this is the
  contract between the two families, and the round trips of the metadata records rest on it.
\<close>

lemma sint_nat: "0 \<le> sint (w :: 'a :: len word) \<Longrightarrow> word_of_nat (nat (sint w)) = w"
  using of_nat_nat [of "sint w", where 'a = "'a word"] of_int_sint [of w] by simp

locale json_field =
  fixes put :: "'v \<Rightarrow> json" and get :: "json \<Rightarrow> string \<Rightarrow> 'v \<Rightarrow> bool \<times> 'v"
  assumes get_put: "GetSubNode node name = put v \<Longrightarrow> get node name old = (True, v)"
    and get_norm: "GetSubNode node name = json_norm (put v) \<Longrightarrow> get node name old = (True, v)"
    and put_value: "put v \<noteq> JNull \<and> put v \<noteq> JDiscarded"
begin

lemma norm_value: "json_norm (put v) \<noteq> JNull \<and> json_norm (put v) \<noteq> JDiscarded"
  using put_value [of v] by (cases "put v") auto

lemma get_here: "get (put v) [] old = (True, v)" "get (json_norm (put v)) [] old = (True, v)"
  using put_value [of v] norm_value [of v] by (auto simp: GetSubNode_def intro: get_put get_norm)

lemma get_member:
  "is_obj node \<Longrightarrow> name \<noteq> [] \<Longrightarrow> member node name = Some (put v) \<Longrightarrow> get node name old = (True, v)"
  by (rule get_put) (simp add: GetSubNode_obj)

lemma get_member_norm:
  "is_obj node \<Longrightarrow> name \<noteq> [] \<Longrightarrow> member node name = Some (json_norm (put v)) \<Longrightarrow> get node name old = (True, v)"
  by (rule get_norm) (simp add: GetSubNode_obj)

lemma read_elements_put:
  "length olds = length vs \<Longrightarrow> read_elements get (map put vs) olds ok = (ok, vs)"
  "length olds = length vs \<Longrightarrow> read_elements get (map (json_norm \<circ> put) vs) olds ok = (ok, vs)"
  by (induction vs arbitrary: olds) (auto simp: length_Suc_conv get_here)

lemma vector_field: "json_field (SetValue_vector put) (GetValue_vector get fresh)"
  by unfold_locales (auto simp: SetValue_vector_def read_elements_put)

end

interpretation string_field: json_field SetValue_string GetValue_string
  by unfold_locales (auto simp: SetValue_string_def)

interpretation u32_field: json_field SetValue_u32 GetValue_u32
  by unfold_locales (auto simp: SetValue_u32_def)

interpretation i32_field: json_field SetValue_i32 GetValue_i32
  by unfold_locales (auto simp: SetValue_i32_def sint_nat)

interpretation i64_field: json_field SetValue_i64 GetValue_i64
  by unfold_locales (auto simp: SetValue_i64_def sint_nat)

interpretation u64_field: json_field SetValue_u64 GetValue_u64
  by unfold_locales (auto simp: SetValue_u64_def)

interpretation u16_field: json_field SetValue_u16 GetValue_u16
  by unfold_locales (auto simp: SetValue_u16_def)

interpretation bool_field: json_field SetValue_bool GetValue_bool
  by unfold_locales (auto simp: SetValue_bool_def)

interpretation double_field: json_field SetValue_double GetValue_double
  by unfold_locales (auto simp: SetValue_double_def)

interpretation strings_field: json_field "SetValue_vector SetValue_string" "GetValue_vector GetValue_string []"
  by (rule string_field.vector_field)

interpretation u32s_field: json_field "SetValue_vector SetValue_u32" "GetValue_vector GetValue_u32 0"
  by (rule u32_field.vector_field)

interpretation i32s_field: json_field "SetValue_vector SetValue_i32" "GetValue_vector GetValue_i32 0"
  by (rule i32_field.vector_field)

subsection \<open>Objects\<close>

text \<open>
  The same contract for a class with its own \<open>Marshal\<close> and \<open>Unmarshal\<close>: it gives the contract of a
  field, so that objects nest and appear in vectors.
\<close>

locale json_object =
  fixes Marshal :: "'v \<Rightarrow> json \<Rightarrow> json" and Unmarshal :: "json \<Rightarrow> 'v \<Rightarrow> bool \<times> 'v"
  assumes marshal_obj: "is_obj (Marshal v JNull)"
    and unmarshal_marshal: "Unmarshal (Marshal v JNull) old = (True, v)"
    and unmarshal_norm: "Unmarshal (json_norm (Marshal v JNull)) old = (True, v)"

lemma GetValue_object_obj: "GetSubNode node name = j \<Longrightarrow> is_obj j \<Longrightarrow> GetValue_object U node name old = U j old"
  by (auto simp: is_obj_def)

lemma is_obj_value: "is_obj j \<Longrightarrow> j \<noteq> JNull \<and> j \<noteq> JDiscarded"
  by (auto simp: is_obj_def)

sublocale json_object \<subseteq> as_field: json_field "\<lambda>v. Marshal v JNull" "GetValue_object Unmarshal"
proof unfold_locales
  fix node :: json and name :: string and v old :: 'v
  note obj = marshal_obj [of v]
  show "GetValue_object Unmarshal node name old = (True, v)" if "GetSubNode node name = Marshal v JNull"
    using GetValue_object_obj [OF that obj] unmarshal_marshal by metis
  show "GetValue_object Unmarshal node name old = (True, v)" if "GetSubNode node name = json_norm (Marshal v JNull)"
    using GetValue_object_obj [OF that is_obj_norm [OF obj]] unmarshal_norm by metis
  show "Marshal v JNull \<noteq> JNull \<and> Marshal v JNull \<noteq> JDiscarded"
    by (rule is_obj_value [OF obj])
qed

text \<open>A sequence of \<open>SetValue(node[name], value)\<close> statements.\<close>

fun json_puts :: "(string \<times> json) list \<Rightarrow> json \<Rightarrow> json" where
  "json_puts [] node = node"
| "json_puts ((name, j) # kvs) node = json_puts kvs (json_put node name j)"

lemma is_obj_puts [simp]: "is_obj node \<Longrightarrow> is_obj (json_puts kvs node)"
  by (induction kvs arbitrary: node) auto

lemma json_puts_null: "kvs \<noteq> [] \<Longrightarrow> json_puts kvs JNull = json_puts kvs (JObj [])"
  by (cases kvs) auto

lemma is_obj_puts_null [simp]: "kvs \<noteq> [] \<Longrightarrow> is_obj (json_puts kvs JNull)"
  by (simp add: json_puts_null is_obj_def [of "JObj _"])

lemma member_puts:
  "is_obj node \<Longrightarrow> distinct (map fst kvs) \<Longrightarrow>
   member (json_puts kvs node) name = (case map_of kvs name of Some j \<Rightarrow> Some j | None \<Rightarrow> member node name)"
proof (induction kvs arbitrary: node)
  case (Cons kv kvs)
  obtain k j where kv: "kv = (k, j)" by (cases kv)
  have "map_of kvs k = None" using Cons.prems(2) kv by (simp add: map_of_eq_None_iff)
  then show ?case using Cons kv by (auto split: option.splits)
qed simp

lemma member_puts_null:
  "distinct (map fst kvs) \<Longrightarrow> kvs \<noteq> [] \<Longrightarrow> member (json_puts kvs JNull) name = map_of kvs name"
  by (simp add: json_puts_null member_puts is_obj_def [of "JObj _"] member_def [of "JObj _"] split: option.splits)

lemma GetSubNode_puts:
  "distinct (map fst kvs) \<Longrightarrow> kvs \<noteq> [] \<Longrightarrow> name \<noteq> [] \<Longrightarrow>
   GetSubNode (json_puts kvs JNull) name = (case map_of kvs name of None \<Rightarrow> JNull | Some j \<Rightarrow> j)"
  by (simp add: GetSubNode_obj member_puts_null)

lemma GetSubNode_puts_norm:
  "distinct (map fst kvs) \<Longrightarrow> kvs \<noteq> [] \<Longrightarrow> name \<noteq> [] \<Longrightarrow>
   GetSubNode (json_norm (json_puts kvs JNull)) name = (case map_of kvs name of None \<Rightarrow> JNull | Some j \<Rightarrow> json_norm j)"
  by (simp add: GetSubNode_obj member_puts_null split: option.splits)

lemmas GetValue_simps =
  GetValue_string.simps GetValue_u32.simps GetValue_i32.simps GetValue_i64.simps GetValue_u64.simps GetValue_u16.simps
  GetValue_bool.simps GetValue_double.simps GetValue_object.simps GetValue_vector.simps

declare GetValue_simps [simp del]

text \<open>A document that shows every member as \<open>Marshal\<close> wrote it, or as its text form does.\<close>

definition holds_members :: "json \<Rightarrow> (string \<times> json) list \<Rightarrow> bool" where
  "holds_members node kvs \<longleftrightarrow>
     (\<forall>name j. name \<noteq> [] \<longrightarrow> map_of kvs name = Some j \<longrightarrow> GetSubNode node name = j \<or> GetSubNode node name = json_norm j)"

lemma holds_membersD:
  "holds_members node kvs \<Longrightarrow> name \<noteq> [] \<Longrightarrow> map_of kvs name = Some j \<Longrightarrow>
   GetSubNode node name = j \<or> GetSubNode node name = json_norm j"
  by (simp add: holds_members_def)

lemma holds_puts:
  assumes "distinct (map fst kvs)" "kvs \<noteq> []"
  shows "holds_members (json_puts kvs JNull) kvs" "holds_members (json_norm (json_puts kvs JNull)) kvs"
  using assms by (auto simp: holds_members_def GetSubNode_puts GetSubNode_puts_norm)

lemma field_of_members:
  assumes "json_field put get" "holds_members node kvs" "name \<noteq> []" "map_of kvs name = Some (put v)"
  shows "get node name old = (True, v)"
  using holds_membersD [OF assms(2-4)] json_field.get_put [OF assms(1)] json_field.get_norm [OF assms(1)] by blast

lemmas reads =
  field_of_members [OF string_field.json_field_axioms] field_of_members [OF u32_field.json_field_axioms]
  field_of_members [OF i32_field.json_field_axioms] field_of_members [OF bool_field.json_field_axioms]
  field_of_members [OF i64_field.json_field_axioms] field_of_members [OF u64_field.json_field_axioms]
  field_of_members [OF u16_field.json_field_axioms] field_of_members [OF double_field.json_field_axioms]
  field_of_members [OF strings_field.json_field_axioms] field_of_members [OF u32s_field.json_field_axioms]
  field_of_members [OF i32s_field.json_field_axioms]

text \<open>
  What a class has to show for the contract of an object: the names it writes differ, and reading a
  document that shows its members gives the record.
\<close>

lemma json_object_by_members:
  assumes "\<And>m node. Marshal m node = json_puts (members m) node"
    and "\<And>node m old. holds_members node (members m) \<Longrightarrow> Unmarshal node old = (True, m)"
    and "\<And>m. distinct (map fst (members m))" and "\<And>m. members m \<noteq> []"
  shows "json_object Marshal Unmarshal"
  using assms(2) [OF holds_puts(1)] assms(2) [OF holds_puts(2)] assms(1,3,4)
  by unfold_locales auto

end
