(* ===== verification/CPP_String.thy ===== *)
theory CPP_String
  imports DDS_Prelude "HOL-Library.Sublist"
begin

text \<open>
  The operations of \<open>std::string\<close> the sources use, on lists of characters. A position of \<open>npos\<close> is
  \<open>None\<close>. The facts below say what the searches return: the first, respectively the last, position
  at which the pattern occurs.
\<close>

subsection \<open>Searching\<close>

fun find0 :: "'a list \<Rightarrow> 'a list \<Rightarrow> nat option" where
  "find0 pat [] = (if pat = [] then Some 0 else None)"
| "find0 pat (c # cs) = (if prefix pat (c # cs) then Some 0 else map_option Suc (find0 pat cs))"

definition str_find :: "string \<Rightarrow> string \<Rightarrow> nat \<Rightarrow> nat option" where
  "str_find s pat pos = (if length s < pos then None else map_option ((+) pos) (find0 pat (drop pos s)))"

fun rfind0 :: "'a list \<Rightarrow> 'a list \<Rightarrow> nat option" where
  "rfind0 pat [] = (if pat = [] then Some 0 else None)"
| "rfind0 pat (c # cs) =
     (case rfind0 pat cs of Some i \<Rightarrow> Some (Suc i) | None \<Rightarrow> if prefix pat (c # cs) then Some 0 else None)"

definition str_rfind :: "string \<Rightarrow> string \<Rightarrow> nat option" where
  "str_rfind s pat = rfind0 pat s"

definition substr :: "string \<Rightarrow> nat \<Rightarrow> nat \<Rightarrow> string" where
  "substr s pos n = take n (drop pos s)"

definition str_replace :: "string \<Rightarrow> nat \<Rightarrow> nat \<Rightarrow> string \<Rightarrow> string" where
  "str_replace s pos n t = take pos s @ t @ drop (pos + n) s"

text \<open>\<open>occurs_at pat s i\<close>: the pattern stands at position \<open>i\<close> of the text.\<close>

definition occurs_at :: "'a list \<Rightarrow> 'a list \<Rightarrow> nat \<Rightarrow> bool" where
  "occurs_at pat s i \<longleftrightarrow> i \<le> length s \<and> prefix pat (drop i s)"

lemma occurs_at_0 [simp]: "occurs_at pat s 0 = prefix pat s"
  by (simp add: occurs_at_def)

lemma occurs_at_Suc [simp]: "occurs_at pat (c # cs) (Suc i) = occurs_at pat cs i"
  by (simp add: occurs_at_def)

lemma occurs_at_Nil: "occurs_at pat [] i \<longleftrightarrow> i = 0 \<and> pat = []"
  by (auto simp: occurs_at_def)

lemma occurs_at_iff: "occurs_at pat s i \<longleftrightarrow> i + length pat \<le> length s \<and> take (length pat) (drop i s) = pat"
  by (auto simp: occurs_at_def prefix_def dest: arg_cong [of _ _ length])
    (metis append_take_drop_id)

lemma occurs_at_drop: "i \<le> length s \<Longrightarrow> occurs_at pat (drop i s) j = occurs_at pat s (i + j)"
  by (auto simp: occurs_at_def add.commute)

lemma find0_Some: "find0 pat s = Some i \<longleftrightarrow> occurs_at pat s i \<and> (\<forall>j<i. \<not> occurs_at pat s j)"
proof (induction s arbitrary: i)
  case Nil
  then show ?case by (auto simp: occurs_at_Nil)
next
  case (Cons c cs)
  then show ?case by (cases i) (auto simp: All_less_Suc2)
qed

lemma find0_None: "find0 pat s = None \<longleftrightarrow> (\<forall>i. \<not> occurs_at pat s i)"
proof (induction s)
  case Nil
  then show ?case by (auto simp: occurs_at_Nil)
next
  case (Cons c cs)
  have "(\<forall>i. \<not> occurs_at pat (c # cs) i) \<longleftrightarrow> \<not> prefix pat (c # cs) \<and> (\<forall>i. \<not> occurs_at pat cs i)"
    by (metis occurs_at_0 occurs_at_Suc not0_implies_Suc)
  with Cons show ?case by simp
qed

lemma str_find_Some:
  "str_find s pat pos = Some i \<longleftrightarrow> pos \<le> i \<and> occurs_at pat s i \<and> (\<forall>j. pos \<le> j \<longrightarrow> j < i \<longrightarrow> \<not> occurs_at pat s j)"
proof (cases "pos \<le> length s")
  case True
  show ?thesis
  proof
    assume "str_find s pat pos = Some i"
    then obtain k where k: "find0 pat (drop pos s) = Some k" "i = pos + k"
      using True by (auto simp: str_find_def)
    have "\<not> occurs_at pat s j" if "pos \<le> j" "j < i" for j
      using k that find0_Some [of pat "drop pos s" k] occurs_at_drop [OF True, of pat "j - pos"] by auto
    with k True show "pos \<le> i \<and> occurs_at pat s i \<and> (\<forall>j. pos \<le> j \<longrightarrow> j < i \<longrightarrow> \<not> occurs_at pat s j)"
      by (auto simp: find0_Some occurs_at_drop)
  next
    assume r: "pos \<le> i \<and> occurs_at pat s i \<and> (\<forall>j. pos \<le> j \<longrightarrow> j < i \<longrightarrow> \<not> occurs_at pat s j)"
    then have "find0 pat (drop pos s) = Some (i - pos)"
      using True by (auto simp: find0_Some occurs_at_drop)
    with True r show "str_find s pat pos = Some i" by (auto simp: str_find_def)
  qed
next
  case False
  then show ?thesis by (auto simp: str_find_def occurs_at_def)
qed

lemma str_find_None: "str_find s pat pos = None \<longleftrightarrow> (\<forall>i \<ge> pos. \<not> occurs_at pat s i)"
proof (cases "pos \<le> length s")
  case True
  then have "str_find s pat pos = None \<longleftrightarrow> (\<forall>k. \<not> occurs_at pat s (pos + k))"
    by (simp add: str_find_def find0_None occurs_at_drop)
  also have "\<dots> \<longleftrightarrow> (\<forall>i \<ge> pos. \<not> occurs_at pat s i)" by (metis le_iff_add)
  finally show ?thesis .
next
  case False
  then show ?thesis by (auto simp: str_find_def occurs_at_def)
qed

lemma rfind0_cases:
  "(rfind0 pat s = None \<longleftrightarrow> (\<forall>j. \<not> occurs_at pat s j)) \<and>
   (\<forall>i. rfind0 pat s = Some i \<longleftrightarrow> occurs_at pat s i \<and> (\<forall>j>i. \<not> occurs_at pat s j))"
proof (induction s)
  case Nil
  then show ?case by (auto simp: occurs_at_Nil)
next
  case (Cons c cs)
  have all: "(\<forall>j. P j) \<longleftrightarrow> P 0 \<and> (\<forall>j. P (Suc j))" for P by (metis not0_implies_Suc)
  have step: "occurs_at pat (c # cs) i \<longleftrightarrow> (case i of 0 \<Rightarrow> prefix pat (c # cs) | Suc k \<Rightarrow> occurs_at pat cs k)" for i
    by (cases i) auto
  show ?case
    using Cons by (subst (1 2) all) (auto simp: step split: option.splits nat.splits, metis+)
qed

lemmas rfind0_None = rfind0_cases [THEN conjunct1]
lemmas rfind0_Some = rfind0_cases [THEN conjunct2, rule_format]

subsection \<open>Numbers as text\<close>

text \<open>\<open>std::to_string\<close> on integers, and \<open>atoi\<close>: white space, a sign, then digits up to the first other character.\<close>

definition digit_char :: "nat \<Rightarrow> char" where
  "digit_char d = char_of (48 + d)"

fun nat_to_string :: "nat \<Rightarrow> string" where
  "nat_to_string n = (if n < 10 then [digit_char n] else nat_to_string (n div 10) @ [digit_char (n mod 10)])"

declare nat_to_string.simps [simp del]

definition to_string :: "int \<Rightarrow> string" where
  "to_string i = (if i < 0 then CHR ''-'' # nat_to_string (nat (- i)) else nat_to_string (nat i))"

definition is_digit :: "char \<Rightarrow> bool" where
  "is_digit c \<longleftrightarrow> 48 \<le> (of_char c :: nat) \<and> (of_char c :: nat) \<le> 57"

definition is_space :: "char \<Rightarrow> bool" where
  "is_space c \<longleftrightarrow> (of_char c :: nat) = 32 \<or> (9 \<le> (of_char c :: nat) \<and> (of_char c :: nat) \<le> 13)"

definition digits_value :: "string \<Rightarrow> nat" where
  "digits_value ds = foldl (\<lambda>v c. 10 * v + (of_char c - 48)) 0 ds"

definition atoi :: "string \<Rightarrow> int" where
  "atoi s =
     (case dropWhile is_space s of
        [] \<Rightarrow> 0
      | c # cs \<Rightarrow>
          if c = CHR ''-'' then - int (digits_value (takeWhile is_digit cs))
          else if c = CHR ''+'' then int (digits_value (takeWhile is_digit cs))
          else int (digits_value (takeWhile is_digit (c # cs))))"

lemma of_digit_char [simp]: "d < 10 \<Longrightarrow> (of_char (digit_char d) :: nat) = 48 + d"
  by (simp add: digit_char_def)

lemma is_digit_char [simp]: "d < 10 \<Longrightarrow> is_digit (digit_char d)"
  by (simp add: is_digit_def)

lemma nat_to_string_digits: "c \<in> set (nat_to_string n) \<Longrightarrow> is_digit c"
proof (induction n rule: nat_to_string.induct)
  case (1 n)
  then show ?case
    by (subst (asm) (2) nat_to_string.simps) (auto split: if_splits)
qed

lemma nat_to_string_not_Nil [simp]: "nat_to_string n \<noteq> []"
  by (subst nat_to_string.simps) simp

lemma digits_value_nat_to_string [simp]: "digits_value (nat_to_string n) = n"
proof (induction n rule: nat_to_string.induct)
  case (1 n)
  show ?case
    using 1 by (subst nat_to_string.simps) (auto simp: digits_value_def)
qed

lemma is_digit_not_sign: "is_digit c \<Longrightarrow> c \<noteq> CHR ''-'' \<and> c \<noteq> CHR ''+'' \<and> c \<noteq> CHR ''#'' \<and> \<not> is_space c"
  by (auto simp: is_digit_def is_space_def)

lemma takeWhile_digits [simp]: "takeWhile is_digit (nat_to_string n) = nat_to_string n"
  by (meson nat_to_string_digits takeWhile_eq_all_conv)

lemma atoi_to_string [simp]: "atoi (to_string i) = i"
proof (cases "i < 0")
  case True
  then show ?thesis by (simp add: atoi_def to_string_def is_space_def)
next
  case False
  obtain c cs where cs: "nat_to_string (nat i) = c # cs" by (cases "nat_to_string (nat i)") auto
  then have "is_digit c" using nat_to_string_digits [of c "nat i"] by simp
  then show ?thesis
    using False cs takeWhile_digits [of "nat i"] digits_value_nat_to_string [of "nat i"]
    by (simp add: atoi_def to_string_def is_digit_not_sign takeWhile_eq_all_conv [THEN iffD2])
qed

lemma to_string_inj: "to_string i = to_string j \<longleftrightarrow> i = j"
  by (metis atoi_to_string)

lemma to_string_chars: "c \<in> set (to_string i) \<Longrightarrow> is_digit c \<or> c = CHR ''-''"
  by (auto simp: to_string_def dest: nat_to_string_digits split: if_splits)

lemma to_string_no_hash [simp]: "CHR ''#'' \<notin> set (to_string i)"
  by (auto dest: to_string_chars is_digit_not_sign)

end
