(* ===== verification/Text_Utils.thy ===== *)
theory Text_Utils
  imports CPP_String
begin

text \<open>
  The text helpers of framework/utils/constant.cpp: joining key parts, splitting at a delimiter, and
  the check that keeps relative components out of paths.
\<close>

subsection \<open>Definitions\<close>

definition Concatenate :: "string list \<Rightarrow> string" where
  "Concatenate stringList = fold (\<lambda>str result. result @ str) stringList []"

definition Join :: "string \<Rightarrow> string \<Rightarrow> string list \<Rightarrow> string" where
  "Join pfx separator params = fold (\<lambda>str result. result @ separator @ str) params pfx"

text \<open>
  The loop of \<open>Split\<close> advances by the length of the delimiter, so it does not end when the delimiter
  is empty: not returning is \<open>None\<close>.
\<close>

partial_function (option) Split_loop :: "string \<Rightarrow> string \<Rightarrow> nat \<Rightarrow> string list \<Rightarrow> string list option" where
  "Split_loop str delim pos res =
     (if pos < length str
      then (case str_find str delim pos of
              None \<Rightarrow> Some (res @ [drop pos str])
            | Some found \<Rightarrow>
                Split_loop str delim (found + length delim) (res @ [substr str pos (found - pos)]))
      else Some res)"

definition Split :: "string \<Rightarrow> string \<Rightarrow> string list option" where
  "Split str delim = (if str = [] then Some [str] else Split_loop str delim 0 [])"

definition Equal :: "bool \<Rightarrow> bool \<Rightarrow> bool" where
  "Equal first second = ((first \<and> second) \<or> (\<not> first \<and> \<not> second))"

definition NotEqual :: "bool \<Rightarrow> bool \<Rightarrow> bool" where
  "NotEqual first second = ((first \<or> second) \<and> (\<not> first \<or> \<not> second))"

abbreviation FILE_SEPARATOR_CHAR :: char where "FILE_SEPARATOR_CHAR \<equiv> CHR ''/''"
abbreviation BACKSLASH :: char where "BACKSLASH \<equiv> CHR 0x5C"

definition PATH_INVALID_FLAG_LEADING :: string where "PATH_INVALID_FLAG_LEADING = ''../''"
definition PATH_INVALID_FLAG_TRAILING :: string where "PATH_INVALID_FLAG_TRAILING = ''/..''"
definition PATH_INVALID_FLAG_LEN :: nat where "PATH_INVALID_FLAG_LEN = 3"

text \<open>The loop over the occurrences of the leading flag: false as soon as one starts a component.\<close>

function leading_ok :: "string \<Rightarrow> nat option \<Rightarrow> bool" where
  "leading_ok path None = True"
| "leading_ok path (Some pos) =
     (if pos = 0 \<or> path ! (pos - 1) = FILE_SEPARATOR_CHAR then False
      else leading_ok path (str_find path PATH_INVALID_FLAG_LEADING (pos + PATH_INVALID_FLAG_LEN)))"
  by pat_completeness auto
termination
proof (relation "measure (\<lambda>(path, p). case p of None \<Rightarrow> 0 | Some pos \<Rightarrow> Suc (Suc (length path) - pos))")
  fix path :: string and pos
  have "pos < i \<and> i \<le> length path" if "str_find path PATH_INVALID_FLAG_LEADING (pos + PATH_INVALID_FLAG_LEN) = Some i" for i
    using that by (simp add: str_find_Some PATH_INVALID_FLAG_LEN_def occurs_at_def)
  then show "((path, str_find path PATH_INVALID_FLAG_LEADING (pos + PATH_INVALID_FLAG_LEN)), path, Some pos)
      \<in> measure (\<lambda>(path, p). case p of None \<Rightarrow> 0 | Some pos \<Rightarrow> Suc (Suc (length path) - pos))"
    by (fastforce split: option.splits)
qed simp

definition IsValidPath :: "string \<Rightarrow> bool" where
  "IsValidPath path =
     (if path = ''..'' \<or> str_find path [BACKSLASH] 0 \<noteq> None then False
      else if \<not> leading_ok path (str_find path PATH_INVALID_FLAG_LEADING 0) then False
      else case str_rfind path PATH_INVALID_FLAG_TRAILING of
        None \<Rightarrow> True
      | Some pos \<Rightarrow> length path - pos \<noteq> PATH_INVALID_FLAG_LEN)"

subsection \<open>Joining\<close>

lemma Concatenate_concat: "Concatenate ss = concat ss"
proof -
  have "fold (\<lambda>str result. result @ str) ss acc = acc @ concat ss" for acc
    by (induction ss arbitrary: acc) auto
  then show ?thesis by (simp add: Concatenate_def)
qed

lemma Join_simps [simp]:
  "Join p sep [] = p" "Join p sep (x # xs) = Join (p @ sep @ x) sep xs"
  by (simp_all add: Join_def)

lemma Join_concat: "Join p sep xs = p @ concat (map (\<lambda>x. sep @ x) xs)"
  by (induction xs arbitrary: p) auto

lemma Join_append: "Join p sep (xs @ ys) = Join (Join p sep xs) sep ys"
  by (simp add: Join_concat)

text \<open>
  Parts that do not contain the first character of the separator can be read back from the joined
  text; this is what makes the metadata keys unambiguous.
\<close>

lemma concat_sep_inj:
  assumes "sep = c # cs" and "\<forall>x \<in> set xs. c \<notin> set x" and "\<forall>y \<in> set ys. c \<notin> set y"
    and "concat (map (\<lambda>x. sep @ x) xs) = concat (map (\<lambda>x. sep @ x) ys)"
  shows "xs = ys"
  using assms(2-4)
proof (induction xs arbitrary: ys)
  case Nil
  then show ?case using assms(1) by (cases ys) auto
next
  case (Cons x xs)
  then obtain y zs where ys: "ys = y # zs" using assms(1) by (cases ys) auto
  let ?X = "concat (map (\<lambda>x. sep @ x) xs)" and ?Y = "concat (map (\<lambda>x. sep @ x) zs)"
  have eq: "x @ ?X = y @ ?Y" using Cons.prems(3) ys by simp
  have start: "takeWhile (\<lambda>a. a \<noteq> c) (w @ concat (map (\<lambda>x. sep @ x) ws)) = w" if "c \<notin> set w" for w ws
    using that assms(1) by (cases ws) (auto simp: takeWhile_append intro!: takeWhile_eq_all_conv [THEN iffD2])
  have "x = y"
    using arg_cong [OF eq, of "takeWhile (\<lambda>a. a \<noteq> c)"] start [of x xs] start [of y zs] Cons.prems ys by auto
  with eq Cons.IH [of zs] Cons.prems ys show ?case by auto
qed

lemma Join_inj:
  assumes "sep = c # cs" and "\<forall>x \<in> set xs. c \<notin> set x" and "\<forall>y \<in> set ys. c \<notin> set y"
    and "Join p sep xs = Join p sep ys"
  shows "xs = ys"
  using concat_sep_inj [OF assms(1-3)] assms(4) by (simp add: Join_concat)

subsection \<open>Splitting\<close>

fun glue :: "string \<Rightarrow> string list \<Rightarrow> string" where
  "glue delim [] = []"
| "glue delim [x] = x"
| "glue delim (x # y # zs) = x @ delim @ glue delim (y # zs)"

lemma glue_Cons: "ps \<noteq> [] \<Longrightarrow> glue delim (x # ps) = x @ delim @ glue delim ps"
  by (cases ps) auto

text \<open>What is left of the text is the parts still to come, up to one delimiter at the very end.\<close>

definition split_rest :: "string \<Rightarrow> string \<Rightarrow> string list \<Rightarrow> bool" where
  "split_rest delim rest ps \<longleftrightarrow>
     (if rest = [] then ps = [] else ps \<noteq> [] \<and> (glue delim ps = rest \<or> glue delim ps @ delim = rest)) \<and>
     (\<forall>p \<in> set ps. \<forall>i. \<not> occurs_at delim p i)"

lemma split_rest_step:
  assumes "delim \<noteq> []" and found: "str_find str delim pos = Some found"
    and rest: "split_rest delim (drop (found + length delim) str) ps"
  shows "split_rest delim (drop pos str) (substr str pos (found - pos) # ps)"
proof -
  let ?x = "substr str pos (found - pos)"
  from found have f: "pos \<le> found" "occurs_at delim str found"
    "\<And>j. pos \<le> j \<Longrightarrow> j < found \<Longrightarrow> \<not> occurs_at delim str j"
    by (auto simp: str_find_Some)
  have here: "take (length delim) (drop found str) = delim" "found + length delim \<le> length str"
    using f(2) by (auto simp: occurs_at_iff)
  have "drop pos str = ?x @ drop found str"
    using f(1) by (simp add: substr_def) (metis append_take_drop_id drop_drop le_add_diff_inverse2)
  moreover have "drop found str = delim @ drop (found + length delim) str"
    using here by (metis add.commute append_take_drop_id drop_drop)
  ultimately have split: "drop pos str = ?x @ delim @ drop (found + length delim) str" by simp
  have fresh: "\<not> occurs_at delim ?x i" for i
  proof
    assume o: "occurs_at delim ?x i"
    then have i: "i + length delim \<le> found - pos" "take (length delim) (drop i ?x) = delim"
      using here by (auto simp: occurs_at_iff substr_def)
    have "take (length delim) (drop i ?x) = take (length delim) (drop (pos + i) str)"
      using i(1) by (simp add: substr_def drop_take min_def add.commute)
    with i here f(1) have "occurs_at delim str (pos + i)" by (simp add: occurs_at_iff)
    moreover have "pos + i < found" using i(1) assms(1) f(1) by (cases delim) auto
    ultimately show False using f(3) by simp
  qed
  show ?thesis
    using assms(1) rest split fresh
    by (cases "drop (found + length delim) str = []") (auto simp: split_rest_def glue_Cons)
qed

lemma Split_loop_spec:
  assumes "delim \<noteq> []"
  shows "\<exists>ps. Split_loop str delim pos res = Some (res @ ps) \<and> split_rest delim (drop pos str) ps"
proof (induction "length str - pos" arbitrary: pos res rule: less_induct)
  case less
  show ?case
  proof (cases "pos < length str")
    case False
    then show ?thesis by (subst Split_loop.simps) (auto simp: split_rest_def)
  next
    case True
    show ?thesis
    proof (cases "str_find str delim pos")
      case None
      have "\<not> occurs_at delim (drop pos str) i" for i
        using None True by (simp add: str_find_None occurs_at_drop)
      with None True show ?thesis
        by (subst Split_loop.simps) (auto simp: split_rest_def)
    next
      case (Some found)
      have "length str - (found + length delim) < length str - pos"
        using Some True assms by (cases delim) (auto simp: str_find_Some)
      from less [OF this, of "res @ [substr str pos (found - pos)]"] obtain ps where
        "Split_loop str delim (found + length delim) (res @ [substr str pos (found - pos)]) =
           Some ((res @ [substr str pos (found - pos)]) @ ps)"
        "split_rest delim (drop (found + length delim) str) ps" by blast
      with Some True split_rest_step [OF assms Some] show ?thesis
        by (subst Split_loop.simps) auto
    qed
  qed
qed

lemma Split_loop_empty_delim: "pos < length str \<Longrightarrow> Split_loop str [] pos res = None"
proof (rule ccontr)
  assume pos: "pos < length str" and "Split_loop str [] pos res \<noteq> None"
  then obtain r where r: "Split_loop str [] pos res = Some r" by blast
  have find: "str_find s [] p = Some p" if "p < length s" for s :: string and p
    using that by (simp add: str_find_Some occurs_at_def)
  have "([] :: string) = [] \<longrightarrow> length str \<le> pos"
  proof (rule Split_loop.raw_induct [where P = "\<lambda>str delim pos res r. delim = [] \<longrightarrow> length str \<le> pos", OF _ r])
    fix f :: "string \<Rightarrow> string \<Rightarrow> nat \<Rightarrow> string list \<Rightarrow> string list option" and str delim pos res r
    assume IH: "\<And>str delim pos res r. f str delim pos res = Some r \<Longrightarrow> delim = [] \<longrightarrow> length str \<le> pos"
      and eq: "(if pos < length str then case str_find str delim pos of None \<Rightarrow> Some (res @ [drop pos str])
          | Some found \<Rightarrow> f str delim (found + length delim) (res @ [substr str pos (found - pos)])
        else Some res) = Some r"
    show "delim = [] \<longrightarrow> length str \<le> pos"
      using IH [of str "[]" pos "res @ [substr str pos 0]" r] eq find [of pos str]
      by (cases "pos < length str") auto
  qed
  with pos show False by simp
qed



text \<open>\<open>Split\<close> with an empty delimiter never returns, unless the text is empty too.\<close>

theorem Split_empty_delim: "Split str [] = (if str = [] then Some [[]] else None)"
  by (simp add: Split_def Split_loop_empty_delim)

subsection \<open>Paths\<close>

text \<open>The components of a path, between separators.\<close>

fun path_components :: "string \<Rightarrow> string list" where
  "path_components [] = [[]]"
| "path_components (c # cs) =
     (if c = FILE_SEPARATOR_CHAR then [] # path_components cs
      else (c # hd (path_components cs)) # tl (path_components cs))"

lemma path_components_not_Nil [simp]: "path_components s \<noteq> []"
  by (cases s) auto

lemma hd_path_components: "hd (path_components s) = takeWhile (\<lambda>c. c \<noteq> FILE_SEPARATOR_CHAR) s"
  by (induction s) auto

lemma tl_path_components:
  "x \<in> set (tl (path_components s)) \<longleftrightarrow>
     (\<exists>u v. s = u @ FILE_SEPARATOR_CHAR # v \<and> x = takeWhile (\<lambda>c. c \<noteq> FILE_SEPARATOR_CHAR) v)"
proof (induction s)
  case (Cons c cs)
  have "x \<in> set (path_components cs) \<longleftrightarrow>
      x = takeWhile (\<lambda>c. c \<noteq> FILE_SEPARATOR_CHAR) cs \<or> x \<in> set (tl (path_components cs))"
    by (cases "path_components cs") (auto simp flip: hd_path_components)
  with Cons show ?case by (auto simp: Cons_eq_append_conv)
qed simp

lemma path_components_iff:
  "x \<in> set (path_components s) \<longleftrightarrow> (\<exists>u v. s = u @ v \<and> (u = [] \<or> last u = FILE_SEPARATOR_CHAR)
     \<and> x = takeWhile (\<lambda>c. c \<noteq> FILE_SEPARATOR_CHAR) v)" (is "_ \<longleftrightarrow> ?R")
proof
  assume "x \<in> set (path_components s)"
  then consider "x = hd (path_components s)" | "x \<in> set (tl (path_components s))"
    by (cases "path_components s") auto
  then show ?R
  proof cases
    case 1
    then show ?thesis by (auto simp: hd_path_components)
  next
    case 2
    then obtain u v where "s = (u @ [FILE_SEPARATOR_CHAR]) @ v" "x = takeWhile (\<lambda>c. c \<noteq> FILE_SEPARATOR_CHAR) v"
      by (auto simp: tl_path_components)
    then show ?thesis by (metis last_snoc)
  qed
next
  assume ?R
  then obtain u v where uv: "s = u @ v" "u = [] \<or> last u = FILE_SEPARATOR_CHAR"
    "x = takeWhile (\<lambda>c. c \<noteq> FILE_SEPARATOR_CHAR) v" by blast
  show "x \<in> set (path_components s)"
  proof (cases "u = []")
    case True
    with uv have "x = hd (path_components s)" by (simp add: hd_path_components)
    then show ?thesis by simp
  next
    case False
    with uv have "s = butlast u @ FILE_SEPARATOR_CHAR # v" by (metis append.assoc append_Cons append_Nil append_butlast_last_id)
    with uv have "x \<in> set (tl (path_components s))" by (auto simp: tl_path_components)
    then show ?thesis by (rule list.set_sel(2) [OF path_components_not_Nil])
  qed
qed


lemma leading_no_overlap: "occurs_at ''../'' s i \<Longrightarrow> i < j \<Longrightarrow> j < i + 3 \<Longrightarrow> \<not> occurs_at ''../'' s j"
proof
  assume o: "occurs_at ''../'' s i" "occurs_at ''../'' s j" and j: "i < j" "j < i + 3"
  then have "s ! (i + 2) = FILE_SEPARATOR_CHAR" "s ! j = CHR ''.''" "s ! (j + 1) = CHR ''.''"
    by (auto simp: occurs_at_iff numeral_eq_Suc take_Suc_conv_app_nth)
  moreover have "j = i + 2 \<or> j + 1 = i + 2" using j by auto
  ultimately show False by auto
qed

lemma leading_ok_iff:
  "leading_ok path (str_find path PATH_INVALID_FLAG_LEADING p) \<longleftrightarrow>
     (\<forall>i \<ge> p. occurs_at ''../'' path i \<longrightarrow> i \<noteq> 0 \<and> path ! (i - 1) \<noteq> FILE_SEPARATOR_CHAR)"
proof (induction "Suc (length path) - p" arbitrary: p rule: less_induct)
  case less
  show ?case
  proof (cases "str_find path PATH_INVALID_FLAG_LEADING p")
    case None
    then have "\<forall>i \<ge> p. \<not> occurs_at ''../'' path i" by (simp add: str_find_None PATH_INVALID_FLAG_LEADING_def)
    then show ?thesis unfolding None by (simp only: leading_ok.simps simp_thms) blast
  next
    case (Some pos)
    then have pos: "p \<le> pos" "occurs_at ''../'' path pos" "\<And>j. p \<le> j \<Longrightarrow> j < pos \<Longrightarrow> \<not> occurs_at ''../'' path j"
      by (auto simp: str_find_Some PATH_INVALID_FLAG_LEADING_def)
    have len: "pos \<le> length path" using pos(2) by (simp add: occurs_at_def)
    have IH: "leading_ok path (str_find path PATH_INVALID_FLAG_LEADING (pos + 3)) \<longleftrightarrow>
       (\<forall>i \<ge> pos + 3. occurs_at ''../'' path i \<longrightarrow> i \<noteq> 0 \<and> path ! (i - 1) \<noteq> FILE_SEPARATOR_CHAR)"
      using less [of "pos + 3"] pos(1) len by simp
    have range: "(\<forall>i \<ge> p. occurs_at ''../'' path i \<longrightarrow> Q i) \<longleftrightarrow>
        Q pos \<and> (\<forall>i \<ge> pos + 3. occurs_at ''../'' path i \<longrightarrow> Q i)" for Q
    proof
      assume "\<forall>i \<ge> p. occurs_at ''../'' path i \<longrightarrow> Q i"
      then show "Q pos \<and> (\<forall>i \<ge> pos + 3. occurs_at ''../'' path i \<longrightarrow> Q i)" using pos(1,2) by auto
    next
      assume Q: "Q pos \<and> (\<forall>i \<ge> pos + 3. occurs_at ''../'' path i \<longrightarrow> Q i)"
      have "i = pos \<or> pos + 3 \<le> i" if "p \<le> i" "occurs_at ''../'' path i" for i
        using pos(3) [of i] leading_no_overlap [OF pos(2), of i] that by linarith
      with Q show "\<forall>i \<ge> p. occurs_at ''../'' path i \<longrightarrow> Q i" by blast
    qed
    have "leading_ok path (Some pos) \<longleftrightarrow> (pos \<noteq> 0 \<and> path ! (pos - 1) \<noteq> FILE_SEPARATOR_CHAR) \<and>
        leading_ok path (str_find path PATH_INVALID_FLAG_LEADING (pos + 3))"
      by (simp add: PATH_INVALID_FLAG_LEN_def)
    then show ?thesis unfolding range Some IH .
  qed
qed

lemma takeWhile_dotdot:
  "''..'' = takeWhile (\<lambda>c. c \<noteq> FILE_SEPARATOR_CHAR) v \<longleftrightarrow> v = ''..'' \<or> prefix ''../'' v"
proof
  assume a: "''..'' = takeWhile (\<lambda>c. c \<noteq> FILE_SEPARATOR_CHAR) v"
  then have v: "v = ''..'' @ dropWhile (\<lambda>c. c \<noteq> FILE_SEPARATOR_CHAR) v" by (metis takeWhile_dropWhile_id)
  show "v = ''..'' \<or> prefix ''../'' v"
  proof (cases "dropWhile (\<lambda>c. c \<noteq> FILE_SEPARATOR_CHAR) v")
    case (Cons d ds)
    then have "d = FILE_SEPARATOR_CHAR" by (metis (full_types) dropWhile_eq_Cons_conv)
    with Cons v show ?thesis by (metis append_Cons append_Nil prefix_code(2) prefixI)
  next
    case Nil
    with v show ?thesis by (metis append_Nil2)
  qed
qed (auto simp: prefix_def)

lemma dotdot_component:
  "''..'' \<in> set (path_components path) \<longleftrightarrow>
     path = ''..'' \<or>
     (\<exists>i. occurs_at ''../'' path i \<and> (i = 0 \<or> path ! (i - 1) = FILE_SEPARATOR_CHAR)) \<or>
     (\<exists>i. occurs_at ''/..'' path i \<and> length path = i + 3)" (is "_ \<longleftrightarrow> ?R")
proof
  assume "''..'' \<in> set (path_components path)"
  then obtain u v where uv: "path = u @ v" "u = [] \<or> last u = FILE_SEPARATOR_CHAR" "v = ''..'' \<or> prefix ''../'' v"
    by (auto simp: path_components_iff takeWhile_dotdot)
  have lastu: "u \<noteq> [] \<Longrightarrow> path ! (length u - 1) = last u"
    using uv(1) by (simp add: nth_append last_conv_nth)
  consider "u = []" "v = ''..''" | "prefix ''../'' v" | "u \<noteq> []" "v = ''..''" using uv(3) by blast
  then show ?R
  proof cases
    case 2
    with uv(1) have "occurs_at ''../'' path (length u)" by (simp add: occurs_at_def)
    with uv(2) lastu show ?thesis by (cases "u = []") (auto intro!: exI [of _ "length u"])
  next
    case 3
    with uv have "path = butlast u @ ''/..''" by (metis append.assoc append_Cons append_Nil append_butlast_last_id)
    then have "occurs_at ''/..'' path (length (butlast u)) \<and> length path = length (butlast u) + 3"
      by (simp add: occurs_at_def del: length_butlast)
    then show ?thesis by blast
  qed (use uv in simp)
next
  have mem: "''..'' \<in> set (path_components path)"
    if "path = u @ v" "u = [] \<or> last u = FILE_SEPARATOR_CHAR" "v = ''..'' \<or> prefix ''../'' v" for u v
    using that takeWhile_dotdot [of v] path_components_iff by blast
  assume ?R
  then consider "path = ''..''" | i where "occurs_at ''../'' path i" "i = 0 \<or> path ! (i - 1) = FILE_SEPARATOR_CHAR"
    | i where "occurs_at ''/..'' path i" "length path = i + 3" by blast
  then show "''..'' \<in> set (path_components path)"
  proof cases
    case 1
    then show ?thesis using mem [of "[]" "''..''"] by simp
  next
    case 2
    have "take i path = [] \<or> last (take i path) = FILE_SEPARATOR_CHAR"
      using 2 last_conv_nth [of "take i path"] by (cases "take i path = []") (auto simp: occurs_at_def min_def)
    with 2 show ?thesis by (intro mem [of "take i path" "drop i path"]) (auto simp: occurs_at_def)
  next
    case 3
    then have "drop i path = ''/..''" by (simp add: occurs_at_iff)
    then have "path = (take i path @ ''/'') @ ''..''" by (metis append.assoc append_Cons append_Nil append_take_drop_id)
    then show ?thesis by (rule mem) auto
  qed
qed

lemma occurs_at_single: "(\<forall>i. \<not> occurs_at [c] s i) \<longleftrightarrow> c \<notin> set s"
proof -
  have "c \<in> set s" if "occurs_at [c] s i" for i
    using that in_set_dropD [of c i s] by (auto simp: occurs_at_def prefix_def)
  moreover have "\<exists>i. occurs_at [c] s i" if "c \<in> set s"
  proof -
    from split_list [OF that] obtain u v where "s = u @ c # v" by blast
    then have "occurs_at [c] s (length u)" by (simp add: occurs_at_def)
    then show ?thesis by blast
  qed
  ultimately show ?thesis by blast
qed

lemma trailing_iff:
  "(case str_rfind path PATH_INVALID_FLAG_TRAILING of None \<Rightarrow> True
      | Some pos \<Rightarrow> length path - pos \<noteq> PATH_INVALID_FLAG_LEN) \<longleftrightarrow>
   \<not> (\<exists>i. occurs_at ''/..'' path i \<and> length path = i + 3)"
proof -
  have late: "i + 3 \<le> length path" if "occurs_at ''/..'' path i" for i
    using that by (simp add: occurs_at_iff)
  show ?thesis
  proof (cases "rfind0 ''/..'' path")
    case None
    then have "\<forall>j. \<not> occurs_at ''/..'' path j" by (simp add: rfind0_None)
    with None show ?thesis by (simp add: str_rfind_def PATH_INVALID_FLAG_TRAILING_def)
  next
    case (Some pos)
    then have "occurs_at ''/..'' path pos" "\<And>j. pos < j \<Longrightarrow> \<not> occurs_at ''/..'' path j"
      by (auto simp: rfind0_Some)
    then have "(\<exists>i. occurs_at ''/..'' path i \<and> length path = i + 3) \<longleftrightarrow> length path = pos + 3"
      using late by (metis add.commute linorder_neqE_nat nat_add_left_cancel_le not_less)
    moreover have "pos + 3 \<le> length path" using Some late by (simp add: rfind0_Some)
    ultimately show ?thesis
      using Some by (simp add: str_rfind_def PATH_INVALID_FLAG_TRAILING_def PATH_INVALID_FLAG_LEN_def)
        linarith
  qed
qed

text \<open>\<open>IsValidPath\<close> accepts exactly the paths that contain no backslash and none of whose components
  between separators is \<open>..\<close>, so an accepted path never climbs out of its directory.\<close>

theorem IsValidPath_iff:
  "IsValidPath path \<longleftrightarrow> BACKSLASH \<notin> set path \<and> ''..'' \<notin> set (path_components path)"
proof -
  have bs: "str_find path [BACKSLASH] 0 = None \<longleftrightarrow> BACKSLASH \<notin> set path"
    by (simp add: str_find_None occurs_at_single)
  have tr: "(case str_rfind path PATH_INVALID_FLAG_TRAILING of None \<Rightarrow> True
      | Some pos \<Rightarrow> length path - pos \<noteq> PATH_INVALID_FLAG_LEN) \<longleftrightarrow>
      \<not> (\<exists>i. occurs_at ''/..'' path i \<and> length path = i + 3)"
    by (rule trailing_iff)
  show ?thesis
    unfolding IsValidPath_def dotdot_component leading_ok_iff bs tr by auto
qed

end
