(* ===== verification/Store_Meta.thy ===== *)
theory Store_Meta
  imports Serializable Text_Utils
begin

text \<open>
  The metadata record of a store (framework/metadata/store_meta_data.cpp with its header), the local
  metadata of a store (store_meta_data_local.cpp), strategies (strategy_meta_data.cpp) and the keys of
  secret keys, debug information and automatic launches. Every class has its fields as a record, its
  \<open>Marshal\<close> as the sequence of members it writes and its \<open>Unmarshal\<close> as the sequence of members it
  reads. An \<open>int32_t\<close> is a 32-bit word read with \<open>sint\<close>.

  The results: reading back what was written gives the same record, also through text; the keys of
  two stores collide only when the stores agree; which changes the comparison does not see.
\<close>

subsection \<open>Keys\<close>

definition KEY_SEPARATOR :: string where "KEY_SEPARATOR = ''###''"

lemma KEY_SEPARATOR_Cons: "KEY_SEPARATOR = CHR ''#'' # ''##''"
  by (simp add: KEY_SEPARATOR_def)

definition GetKey_fields :: "string list \<Rightarrow> string" where
  "GetKey_fields fields = fold (\<lambda>field pfx. pfx @ KEY_SEPARATOR @ field) fields ''KvStoreMetaData''"

definition GetPrefix_fields :: "string list \<Rightarrow> string" where
  "GetPrefix_fields fields = GetKey_fields fields @ KEY_SEPARATOR"

definition Local_GetKey :: "string list \<Rightarrow> string" where
  "Local_GetKey fields = Join ''KvStoreMetaDataLocal'' KEY_SEPARATOR fields"

definition Local_GetPrefix :: "string list \<Rightarrow> string" where
  "Local_GetPrefix fields = Join ''KvStoreMetaDataLocal'' KEY_SEPARATOR fields @ KEY_SEPARATOR"

definition Secret_GetPrefix :: "string list \<Rightarrow> string" where
  "Secret_GetPrefix fields = fold (\<lambda>field pfx. pfx @ KEY_SEPARATOR @ field) fields ''SecretKey'' @ KEY_SEPARATOR"

definition Secret_GetKey :: "string list \<Rightarrow> string" where
  "Secret_GetKey fields = Secret_GetPrefix fields @ ''SINGLE_KEY''"

definition Secret_GetBackupPrefix :: "string list \<Rightarrow> string" where
  "Secret_GetBackupPrefix fields =
     fold (\<lambda>field pfx. pfx @ KEY_SEPARATOR @ field) fields ''BackupSecretKey'' @ KEY_SEPARATOR"

definition Secret_GetBackupKey :: "string list \<Rightarrow> string" where
  "Secret_GetBackupKey fields = Secret_GetBackupPrefix fields"

definition Secret_GetCloneKey :: "string list \<Rightarrow> string" where
  "Secret_GetCloneKey fields = ''Clone'' @ KEY_SEPARATOR @ Secret_GetKey fields"

definition Strategy_GetPrefix :: "string list \<Rightarrow> string" where
  "Strategy_GetPrefix fields = Join ''StrategyMetaData'' KEY_SEPARATOR fields"

definition AutoLaunch_GetPrefix :: "string list \<Rightarrow> string" where
  "AutoLaunch_GetPrefix fields = Join ''AutoLaunchMetaData'' KEY_SEPARATOR fields"

definition DebugInfo_GetPrefix :: "string list \<Rightarrow> string" where
  "DebugInfo_GetPrefix fields = Join ''StoreDebugInfo'' KEY_SEPARATOR fields"

definition DfxInfo_GetPrefix :: "string list \<Rightarrow> string" where
  "DfxInfo_GetPrefix fields = Join ''StoreDfxInfo'' KEY_SEPARATOR fields @ KEY_SEPARATOR"

subsection \<open>The record\<close>

definition CURRENT_VERSION :: u32 where "CURRENT_VERSION = 0x03000006"
definition FIELD_CHANGED_TAG :: u32 where "FIELD_CHANGED_TAG = 0x03000003"
definition UUID_CHANGED_TAG :: u32 where "UUID_CHANGED_TAG = 0x03000004"

record StoreMetaData =
  sm_version :: u32
  sm_isAutoSync :: bool
  sm_autoSyncSwitch :: bool
  sm_isBackup :: bool
  sm_isDirty :: bool
  sm_isEncrypt :: bool
  sm_isManualClean :: bool
  sm_isManualCleanDevice :: bool
  sm_isSearchable :: bool
  sm_isNeedCompress :: bool
  sm_enableCloud :: bool
  sm_cloudAutoSync :: bool
  sm_customSwitch :: bool
  sm_dataType :: u32
  sm_storeType :: u32
  sm_securityLevel :: u32
  sm_area :: u32
  sm_uid :: u32
  sm_instanceId :: u32
  sm_haMode :: u32
  sm_tokenId :: u32
  sm_appId :: string
  sm_appType :: string
  sm_bundleName :: string
  sm_hapName :: string
  sm_dataDir :: string
  sm_customDir :: string
  sm_deviceId :: string
  sm_schema :: string
  sm_storeId :: string
  sm_user :: string
  sm_account :: string
  sm_authType :: u32
  sm_asyncDownloadAsset :: bool
  sm_isNeedUpdateDeviceId :: bool
  sm_assetConflictPolicy :: u32
  sm_assetTempPath :: string
  sm_assetDownloadOnDemand :: bool
  sm_filterMode :: u32

definition StoreMetaData_new :: StoreMetaData where
  "StoreMetaData_new = \<lparr>
     sm_version = CURRENT_VERSION,
     sm_isAutoSync = False,
     sm_autoSyncSwitch = True,
     sm_isBackup = False,
     sm_isDirty = False,
     sm_isEncrypt = False,
     sm_isManualClean = False,
     sm_isManualCleanDevice = False,
     sm_isSearchable = False,
     sm_isNeedCompress = False,
     sm_enableCloud = False,
     sm_cloudAutoSync = False,
     sm_customSwitch = False,
     sm_dataType = - 1,
     sm_storeType = - 1,
     sm_securityLevel = 0,
     sm_area = 0,
     sm_uid = - 1,
     sm_instanceId = 0,
     sm_haMode = 0,
     sm_tokenId = 0,
     sm_appId = [],
     sm_appType = [],
     sm_bundleName = [],
     sm_hapName = [],
     sm_dataDir = [],
     sm_customDir = [],
     sm_deviceId = [],
     sm_schema = [],
     sm_storeId = [],
     sm_user = [],
     sm_account = [],
     sm_authType = 0,
     sm_asyncDownloadAsset = False,
     sm_isNeedUpdateDeviceId = False,
     sm_assetConflictPolicy = 0,
     sm_assetTempPath = [],
     sm_assetDownloadOnDemand = False,
     sm_filterMode = 0\<rparr>"

definition StoreMetaData_of :: "string \<Rightarrow> string \<Rightarrow> string \<Rightarrow> StoreMetaData" where
  "StoreMetaData_of userId appId storeId =
     StoreMetaData_new\<lparr>sm_appId := appId, sm_storeId := storeId, sm_user := userId\<rparr>"

record StoreInfo =
  si_tokenId :: u32
  si_bundleName :: string
  si_storeName :: string
  si_instanceId :: u32
  si_user :: u32
  si_deviceId :: string
  si_syncId :: u64
  si_path :: string

definition StoreMetaData_of_info :: "StoreInfo \<Rightarrow> StoreMetaData" where
  "StoreMetaData_of_info storeInfo =
     StoreMetaData_new\<lparr>sm_instanceId := si_instanceId storeInfo, sm_bundleName := si_bundleName storeInfo,
       sm_dataDir := si_path storeInfo, sm_storeId := si_storeName storeInfo,
       sm_user := to_string (sint (si_user storeInfo))\<rparr>"

subsection \<open>Marshal and Unmarshal\<close>

definition StoreMetaData_members :: "StoreMetaData \<Rightarrow> (string \<times> json) list" where
  "StoreMetaData_members m = [
     (''version'', SetValue_u32 (sm_version m)),
     (''isAutoSync'', SetValue_bool (sm_isAutoSync m)),
     (''autoSyncSwitch'', SetValue_bool (sm_autoSyncSwitch m)),
     (''isBackup'', SetValue_bool (sm_isBackup m)),
     (''isEncrypt'', SetValue_bool (sm_isEncrypt m)),
     (''isManualClean'', SetValue_bool (sm_isManualClean m)),
     (''isManualCleanDevice'', SetValue_bool (sm_isManualCleanDevice m)),
     (''isDirty'', SetValue_bool (sm_isDirty m)),
     (''isSearchable'', SetValue_bool (sm_isSearchable m)),
     (''isNeedCompress'', SetValue_bool (sm_isNeedCompress m)),
     (''storeType'', SetValue_i32 (sm_storeType m)),
     (''securityLevel'', SetValue_i32 (sm_securityLevel m)),
     (''area'', SetValue_i32 (sm_area m)),
     (''uid'', SetValue_i32 (sm_uid m)),
     (''tokenId'', SetValue_u32 (sm_tokenId m)),
     (''instanceId'', SetValue_i32 (sm_instanceId m)),
     (''appId'', SetValue_string (sm_appId m)),
     (''appType'', SetValue_string (sm_appType m)),
     (''bundleName'', SetValue_string (sm_bundleName m)),
     (''hapName'', SetValue_string (sm_hapName m)),
     (''dataDir'', SetValue_string (sm_dataDir m)),
     (''deviceId'', SetValue_string (sm_deviceId m)),
     (''schema'', SetValue_string (sm_schema m)),
     (''storeId'', SetValue_string (sm_storeId m)),
     (''user'', SetValue_string (sm_user m)),
     (''account'', SetValue_string (sm_account m)),
     (''dataType'', SetValue_i32 (sm_dataType m)),
     (''enableCloud'', SetValue_bool (sm_enableCloud m)),
     (''customSwitch'', SetValue_bool (sm_customSwitch m)),
     (''cloudAutoSync'', SetValue_bool (sm_cloudAutoSync m)),
     (''asyncDownloadAsset'', SetValue_bool (sm_asyncDownloadAsset m)),
     (''isNeedUpdateDeviceId'', SetValue_bool (sm_isNeedUpdateDeviceId m)),
     (''assetConflictPolicy'', SetValue_i32 (sm_assetConflictPolicy m)),
     (''assetTempPath'', SetValue_string (sm_assetTempPath m)),
     (''assetDownloadOnDemand'', SetValue_bool (sm_assetDownloadOnDemand m)),
     (''filterMode'', SetValue_u32 (sm_filterMode m)),
     (''kvStoreType'', SetValue_i32 (sm_storeType m)),
     (''deviceAccountID'', SetValue_string (sm_user m)),
     (''userId'', SetValue_string (sm_account m)),
     (''UID'', SetValue_i32 (sm_uid m)),
     (''customDir'', SetValue_string (sm_customDir m)),
     (''authType'', SetValue_i32 (sm_authType m)),
     (''haMode'', SetValue_i32 (sm_haMode m))]"

definition StoreMetaData_Marshal :: "StoreMetaData \<Rightarrow> json \<Rightarrow> json" where
  "StoreMetaData_Marshal m node = json_puts (StoreMetaData_members m) node"

text \<open>Every result of \<open>GetValue\<close> is dropped here: a missing member keeps the default.\<close>

definition read_current :: "json \<Rightarrow> StoreMetaData \<Rightarrow> StoreMetaData" where
  "read_current node m = m\<lparr>
     sm_version := snd (GetValue_u32 node ''version'' (sm_version m)),
     sm_isAutoSync := snd (GetValue_bool node ''isAutoSync'' (sm_isAutoSync m)),
     sm_autoSyncSwitch := snd (GetValue_bool node ''autoSyncSwitch'' (sm_autoSyncSwitch m)),
     sm_isBackup := snd (GetValue_bool node ''isBackup'' (sm_isBackup m)),
     sm_isDirty := snd (GetValue_bool node ''isDirty'' (sm_isDirty m)),
     sm_isEncrypt := snd (GetValue_bool node ''isEncrypt'' (sm_isEncrypt m)),
     sm_isManualClean := snd (GetValue_bool node ''isManualClean'' (sm_isManualClean m)),
     sm_isManualCleanDevice := snd (GetValue_bool node ''isManualCleanDevice'' (sm_isManualCleanDevice m)),
     sm_isSearchable := snd (GetValue_bool node ''isSearchable'' (sm_isSearchable m)),
     sm_isNeedCompress := snd (GetValue_bool node ''isNeedCompress'' (sm_isNeedCompress m)),
     sm_storeType := snd (GetValue_i32 node ''storeType'' (sm_storeType m)),
     sm_securityLevel := snd (GetValue_i32 node ''securityLevel'' (sm_securityLevel m)),
     sm_area := snd (GetValue_i32 node ''area'' (sm_area m)),
     sm_uid := snd (GetValue_i32 node ''uid'' (sm_uid m)),
     sm_tokenId := snd (GetValue_u32 node ''tokenId'' (sm_tokenId m)),
     sm_instanceId := snd (GetValue_i32 node ''instanceId'' (sm_instanceId m)),
     sm_appId := snd (GetValue_string node ''appId'' (sm_appId m)),
     sm_appType := snd (GetValue_string node ''appType'' (sm_appType m)),
     sm_bundleName := snd (GetValue_string node ''bundleName'' (sm_bundleName m)),
     sm_hapName := snd (GetValue_string node ''hapName'' (sm_hapName m)),
     sm_dataDir := snd (GetValue_string node ''dataDir'' (sm_dataDir m)),
     sm_deviceId := snd (GetValue_string node ''deviceId'' (sm_deviceId m)),
     sm_schema := snd (GetValue_string node ''schema'' (sm_schema m)),
     sm_storeId := snd (GetValue_string node ''storeId'' (sm_storeId m)),
     sm_user := snd (GetValue_string node ''user'' (sm_user m)),
     sm_account := snd (GetValue_string node ''account'' (sm_account m)),
     sm_dataType := snd (GetValue_i32 node ''dataType'' (sm_dataType m)),
     sm_enableCloud := snd (GetValue_bool node ''enableCloud'' (sm_enableCloud m)),
     sm_customSwitch := snd (GetValue_bool node ''customSwitch'' (sm_customSwitch m)),
     sm_cloudAutoSync := snd (GetValue_bool node ''cloudAutoSync'' (sm_cloudAutoSync m)),
     sm_asyncDownloadAsset := snd (GetValue_bool node ''asyncDownloadAsset'' (sm_asyncDownloadAsset m)),
     sm_isNeedUpdateDeviceId := snd (GetValue_bool node ''isNeedUpdateDeviceId'' (sm_isNeedUpdateDeviceId m)),
     sm_assetConflictPolicy := snd (GetValue_i32 node ''assetConflictPolicy'' (sm_assetConflictPolicy m)),
     sm_assetTempPath := snd (GetValue_string node ''assetTempPath'' (sm_assetTempPath m)),
     sm_assetDownloadOnDemand := snd (GetValue_bool node ''assetDownloadOnDemand'' (sm_assetDownloadOnDemand m)),
     sm_filterMode := snd (GetValue_u32 node ''filterMode'' (sm_filterMode m))\<rparr>"

definition read_legacy :: "json \<Rightarrow> StoreMetaData \<Rightarrow> StoreMetaData" where
  "read_legacy node m = m\<lparr>
     sm_storeType := snd (GetValue_i32 node ''kvStoreType'' (sm_storeType m)),
     sm_uid := snd (GetValue_i32 node ''UID'' (sm_uid m)),
     sm_user := snd (GetValue_string node ''deviceAccountID'' (sm_user m)),
     sm_account := snd (GetValue_string node ''userId'' (sm_account m))\<rparr>"

definition read_last :: "json \<Rightarrow> StoreMetaData \<Rightarrow> StoreMetaData" where
  "read_last node m = m\<lparr>
     sm_customDir := snd (GetValue_string node ''customDir'' (sm_customDir m)),
     sm_authType := snd (GetValue_i32 node ''authType'' (sm_authType m)),
     sm_haMode := snd (GetValue_i32 node ''haMode'' (sm_haMode m))\<rparr>"

definition StoreMetaData_Unmarshal :: "json \<Rightarrow> StoreMetaData \<Rightarrow> bool \<times> StoreMetaData" where
  "StoreMetaData_Unmarshal node m =
     (let m = read_current node m;
          m = (if sm_version m < FIELD_CHANGED_TAG then read_legacy node m else m)
      in (True, read_last node m))"

subsection \<open>Comparison\<close>

text \<open>
  \<open>Constant::NotEqual\<close> takes two booleans, so a number is first converted: \<open>filterMode\<close> is compared
  as zero or non-zero.
\<close>

definition StoreMetaData_eq :: "StoreMetaData \<Rightarrow> StoreMetaData \<Rightarrow> bool" where
  "StoreMetaData_eq a b =
     (if NotEqual (sm_isAutoSync a) (sm_isAutoSync b) \<or> NotEqual (sm_isBackup a) (sm_isBackup b) \<or>
         NotEqual (sm_isDirty a) (sm_isDirty b) \<or> NotEqual (sm_isEncrypt a) (sm_isEncrypt b) \<or>
         NotEqual (sm_isSearchable a) (sm_isSearchable b) \<or>
         NotEqual (sm_isNeedCompress a) (sm_isNeedCompress b) \<or>
         NotEqual (sm_enableCloud a) (sm_enableCloud b) \<or>
         NotEqual (sm_filterMode a \<noteq> 0) (sm_filterMode b \<noteq> 0) \<or>
         NotEqual (sm_customSwitch a) (sm_customSwitch b) \<or>
         NotEqual (sm_cloudAutoSync a) (sm_cloudAutoSync b) \<or>
         NotEqual (sm_isManualClean a) (sm_isManualClean b) \<or>
         NotEqual (sm_isManualCleanDevice a) (sm_isManualCleanDevice b) \<or>
         NotEqual (sm_isNeedUpdateDeviceId a) (sm_isNeedUpdateDeviceId b)
      then False
      else sm_version a = sm_version b \<and> sm_storeType a = sm_storeType b \<and> sm_dataType a = sm_dataType b \<and>
           sm_securityLevel a = sm_securityLevel b \<and> sm_area a = sm_area b \<and> sm_uid a = sm_uid b \<and>
           sm_tokenId a = sm_tokenId b \<and> sm_instanceId a = sm_instanceId b \<and> sm_appId a = sm_appId b \<and>
           sm_appType a = sm_appType b \<and> sm_bundleName a = sm_bundleName b \<and> sm_dataDir a = sm_dataDir b \<and>
           sm_storeId a = sm_storeId b \<and> sm_user a = sm_user b \<and> sm_deviceId a = sm_deviceId b \<and>
           sm_account a = sm_account b \<and> sm_authType a = sm_authType b \<and> sm_haMode a = sm_haMode b)"

subsection \<open>The keys of a store\<close>

definition GetKey :: "StoreMetaData \<Rightarrow> string" where
  "GetKey m =
     (if sm_instanceId m = 0 then GetKey_fields [sm_deviceId m, sm_user m, ''default'', sm_bundleName m, sm_storeId m, sm_dataDir m]
      else GetKey_fields [sm_deviceId m, sm_user m, ''default'', sm_bundleName m, sm_storeId m, to_string (sint (sm_instanceId m)), sm_dataDir m])"

definition GetKeyLocal :: "StoreMetaData \<Rightarrow> string" where
  "GetKeyLocal m =
     (if sm_instanceId m = 0 then Local_GetKey [sm_deviceId m, sm_user m, ''default'', sm_bundleName m, sm_storeId m, sm_dataDir m]
      else Local_GetKey [sm_deviceId m, sm_user m, ''default'', sm_bundleName m, sm_storeId m, to_string (sint (sm_instanceId m)), sm_dataDir m])"

definition GetSecretKey :: "StoreMetaData \<Rightarrow> string" where
  "GetSecretKey m =
     (if sm_version m < UUID_CHANGED_TAG then Secret_GetKey [sm_user m, ''default'', sm_bundleName m, sm_storeId m, sm_dataDir m]
      else Secret_GetKey [sm_user m, ''default'', sm_bundleName m, sm_storeId m, to_string (sint (sm_instanceId m)), sm_dataDir m])"

definition GetBackupSecretKey :: "StoreMetaData \<Rightarrow> string" where
  "GetBackupSecretKey m =
     (if sm_version m < UUID_CHANGED_TAG then Secret_GetBackupKey [sm_user m, ''default'', sm_bundleName m, sm_storeId m]
      else Secret_GetBackupKey [sm_user m, ''default'', sm_bundleName m, sm_storeId m, to_string (sint (sm_instanceId m))])"

definition GetAutoLaunchKey :: "StoreMetaData \<Rightarrow> string" where
  "GetAutoLaunchKey m = AutoLaunch_GetPrefix [sm_deviceId m, sm_user m, ''default'', sm_bundleName m, sm_storeId m]"

definition GetDebugInfoKey :: "StoreMetaData \<Rightarrow> string" where
  "GetDebugInfoKey m = DebugInfo_GetPrefix [sm_deviceId m, sm_user m, ''default'', sm_bundleName m, sm_storeId m, to_string (sint (sm_instanceId m)), sm_dataDir m]"

definition GetDebugInfoKeyWithoutPath :: "StoreMetaData \<Rightarrow> string" where
  "GetDebugInfoKeyWithoutPath m = DebugInfo_GetPrefix [sm_deviceId m, sm_user m, ''default'', sm_bundleName m, sm_storeId m, to_string (sint (sm_instanceId m))]"

definition GetDfxInfoKey :: "StoreMetaData \<Rightarrow> string" where
  "GetDfxInfoKey m = DfxInfo_GetPrefix [sm_deviceId m, sm_user m, ''default'', sm_bundleName m, sm_storeId m, to_string (sint (sm_instanceId m)), sm_dataDir m]"

definition GetDfxInfoKeyWithoutPath :: "StoreMetaData \<Rightarrow> string" where
  "GetDfxInfoKeyWithoutPath m = DfxInfo_GetPrefix [sm_deviceId m, sm_user m, ''default'', sm_bundleName m, sm_storeId m, to_string (sint (sm_instanceId m))]"

definition GetStrategyKey :: "StoreMetaData \<Rightarrow> string" where
  "GetStrategyKey m =
     (if sm_instanceId m = 0 then Strategy_GetPrefix [sm_deviceId m, sm_user m, ''default'', sm_bundleName m, sm_storeId m]
      else Strategy_GetPrefix [sm_deviceId m, sm_user m, ''default'', sm_bundleName m, sm_storeId m, to_string (sint (sm_instanceId m))])"

definition GetCloneSecretKey :: "StoreMetaData \<Rightarrow> string" where
  "GetCloneSecretKey m = Secret_GetCloneKey [sm_user m, ''default'', sm_bundleName m, sm_storeId m, to_string (sint (sm_instanceId m))]"

definition GetKeyWithoutPath :: "StoreMetaData \<Rightarrow> string" where
  "GetKeyWithoutPath m =
     (if sm_instanceId m = 0 then GetKey_fields [sm_deviceId m, sm_user m, ''default'', sm_bundleName m, sm_storeId m]
      else GetKey_fields [sm_deviceId m, sm_user m, ''default'', sm_bundleName m, sm_storeId m, to_string (sint (sm_instanceId m))])"

definition GetKeyLocalWithoutPath :: "StoreMetaData \<Rightarrow> string" where
  "GetKeyLocalWithoutPath m =
     (if sm_instanceId m = 0 then Local_GetKey [sm_deviceId m, sm_user m, ''default'', sm_bundleName m, sm_storeId m]
      else Local_GetKey [sm_deviceId m, sm_user m, ''default'', sm_bundleName m, sm_storeId m, to_string (sint (sm_instanceId m))])"

definition GetSecretKeyWithoutPath :: "StoreMetaData \<Rightarrow> string" where
  "GetSecretKeyWithoutPath m =
     (if sm_version m < UUID_CHANGED_TAG then Secret_GetKey [sm_user m, ''default'', sm_bundleName m, sm_storeId m]
      else Secret_GetKey [sm_user m, ''default'', sm_bundleName m, sm_storeId m, to_string (sint (sm_instanceId m))])"

definition StoreInfo_new :: StoreInfo where
  "StoreInfo_new = \<lparr>si_tokenId = 0, si_bundleName = [], si_storeName = [], si_instanceId = 0, si_user = 0,
     si_deviceId = [], si_syncId = 0, si_path = []\<rparr>"

definition GetStoreInfo :: "StoreMetaData \<Rightarrow> StoreInfo" where
  "GetStoreInfo m = StoreInfo_new\<lparr>si_instanceId := sm_instanceId m, si_bundleName := sm_bundleName m,
     si_storeName := sm_storeId m, si_user := of_int (atoi (sm_user m))\<rparr>"

subsection \<open>The mapping record\<close>

record StoreMetaMapping =
  smm_meta :: StoreMetaData
  smm_cloudPath :: string
  smm_devicePath :: string
  smm_searchPath :: string

definition StoreMetaMapping_Marshal :: "StoreMetaMapping \<Rightarrow> json \<Rightarrow> json" where
  "StoreMetaMapping_Marshal m node =
     json_puts [(''cloudPath'', SetValue_string (smm_cloudPath m)), (''devicePath'', SetValue_string (smm_devicePath m)),
       (''searchPath'', SetValue_string (smm_searchPath m))] (StoreMetaData_Marshal (smm_meta m) node)"

definition StoreMetaMapping_Unmarshal :: "json \<Rightarrow> StoreMetaMapping \<Rightarrow> bool \<times> StoreMetaMapping" where
  "StoreMetaMapping_Unmarshal node m =
     (True, m\<lparr>smm_meta := snd (StoreMetaData_Unmarshal node (smm_meta m)),
       smm_cloudPath := snd (GetValue_string node ''cloudPath'' (smm_cloudPath m)),
       smm_devicePath := snd (GetValue_string node ''devicePath'' (smm_devicePath m)),
       smm_searchPath := snd (GetValue_string node ''searchPath'' (smm_searchPath m))\<rparr>)"

definition Mapping_GetKey_fields :: "string list \<Rightarrow> string" where
  "Mapping_GetKey_fields flds = fold (\<lambda>field pfx. pfx @ KEY_SEPARATOR @ field) flds ''StoreMetaMapping''"

definition Mapping_GetPrefix :: "string list \<Rightarrow> string" where
  "Mapping_GetPrefix flds = Mapping_GetKey_fields flds @ KEY_SEPARATOR"

definition Mapping_GetKey :: "StoreMetaMapping \<Rightarrow> string" where
  "Mapping_GetKey mm = (let m = smm_meta mm in
     if sm_instanceId m = 0 then Mapping_GetKey_fields [sm_deviceId m, sm_user m, ''default'', sm_bundleName m, sm_storeId m]
     else Mapping_GetKey_fields [sm_deviceId m, sm_user m, ''default'', sm_bundleName m, sm_storeId m, to_string (sint (sm_instanceId m))])"

definition GetStoreMetaKeyWithPath :: "StoreMetaMapping \<Rightarrow> string \<Rightarrow> string" where
  "GetStoreMetaKeyWithPath mm path = (let m = smm_meta mm in
     if sm_instanceId m = 0 then GetKey_fields [sm_deviceId m, sm_user m, ''default'', sm_bundleName m, sm_storeId m, path]
     else GetKey_fields [sm_deviceId m, sm_user m, ''default'', sm_bundleName m, sm_storeId m, to_string (sint (sm_instanceId m)), path])"

definition GetCloudStoreMetaKey :: "StoreMetaMapping \<Rightarrow> string" where
  "GetCloudStoreMetaKey mm = GetStoreMetaKeyWithPath mm (smm_cloudPath mm)"

definition Mapping_assign :: "StoreMetaMapping \<Rightarrow> StoreMetaData \<Rightarrow> StoreMetaMapping" where
  "Mapping_assign mm meta = mm\<lparr>smm_meta := meta\<rparr>"

subsection \<open>Round trips\<close>

lemma members_distinct [simp]: "distinct (map fst (StoreMetaData_members m))"
  by (simp add: StoreMetaData_members_def)

lemma members_not_Nil [simp]: "StoreMetaData_members m \<noteq> []"
  by (simp add: StoreMetaData_members_def)

lemma store_reads:
  assumes "holds_members node (StoreMetaData_members m)"
  shows
    "GetValue_u32 node ''version'' w = (True, sm_version m)"
    and "GetValue_bool node ''isAutoSync'' b = (True, sm_isAutoSync m)"
    and "GetValue_bool node ''autoSyncSwitch'' b = (True, sm_autoSyncSwitch m)"
    and "GetValue_bool node ''isBackup'' b = (True, sm_isBackup m)"
    and "GetValue_bool node ''isEncrypt'' b = (True, sm_isEncrypt m)"
    and "GetValue_bool node ''isManualClean'' b = (True, sm_isManualClean m)"
    and "GetValue_bool node ''isManualCleanDevice'' b = (True, sm_isManualCleanDevice m)"
    and "GetValue_bool node ''isDirty'' b = (True, sm_isDirty m)"
    and "GetValue_bool node ''isSearchable'' b = (True, sm_isSearchable m)"
    and "GetValue_bool node ''isNeedCompress'' b = (True, sm_isNeedCompress m)"
    and "GetValue_i32 node ''storeType'' w = (True, sm_storeType m)"
    and "GetValue_i32 node ''securityLevel'' w = (True, sm_securityLevel m)"
    and "GetValue_i32 node ''area'' w = (True, sm_area m)"
    and "GetValue_i32 node ''uid'' w = (True, sm_uid m)"
    and "GetValue_u32 node ''tokenId'' w = (True, sm_tokenId m)"
    and "GetValue_i32 node ''instanceId'' w = (True, sm_instanceId m)"
    and "GetValue_string node ''appId'' s = (True, sm_appId m)"
    and "GetValue_string node ''appType'' s = (True, sm_appType m)"
    and "GetValue_string node ''bundleName'' s = (True, sm_bundleName m)"
    and "GetValue_string node ''hapName'' s = (True, sm_hapName m)"
    and "GetValue_string node ''dataDir'' s = (True, sm_dataDir m)"
    and "GetValue_string node ''deviceId'' s = (True, sm_deviceId m)"
    and "GetValue_string node ''schema'' s = (True, sm_schema m)"
    and "GetValue_string node ''storeId'' s = (True, sm_storeId m)"
    and "GetValue_string node ''user'' s = (True, sm_user m)"
    and "GetValue_string node ''account'' s = (True, sm_account m)"
    and "GetValue_i32 node ''dataType'' w = (True, sm_dataType m)"
    and "GetValue_bool node ''enableCloud'' b = (True, sm_enableCloud m)"
    and "GetValue_bool node ''customSwitch'' b = (True, sm_customSwitch m)"
    and "GetValue_bool node ''cloudAutoSync'' b = (True, sm_cloudAutoSync m)"
    and "GetValue_bool node ''asyncDownloadAsset'' b = (True, sm_asyncDownloadAsset m)"
    and "GetValue_bool node ''isNeedUpdateDeviceId'' b = (True, sm_isNeedUpdateDeviceId m)"
    and "GetValue_i32 node ''assetConflictPolicy'' w = (True, sm_assetConflictPolicy m)"
    and "GetValue_string node ''assetTempPath'' s = (True, sm_assetTempPath m)"
    and "GetValue_bool node ''assetDownloadOnDemand'' b = (True, sm_assetDownloadOnDemand m)"
    and "GetValue_u32 node ''filterMode'' w = (True, sm_filterMode m)"
    and "GetValue_i32 node ''kvStoreType'' w = (True, sm_storeType m)"
    and "GetValue_string node ''deviceAccountID'' s = (True, sm_user m)"
    and "GetValue_string node ''userId'' s = (True, sm_account m)"
    and "GetValue_i32 node ''UID'' w = (True, sm_uid m)"
    and "GetValue_string node ''customDir'' s = (True, sm_customDir m)"
    and "GetValue_i32 node ''authType'' w = (True, sm_authType m)"
    and "GetValue_i32 node ''haMode'' w = (True, sm_haMode m)"
  by ((rule reads, rule assms, simp, simp add: StoreMetaData_members_def)+)

lemma Unmarshal_holds:
  assumes "holds_members node (StoreMetaData_members m)"
  shows "StoreMetaData_Unmarshal node old = (True, m)"
proof -
  let ?cur = "m\<lparr>sm_customDir := sm_customDir old, sm_authType := sm_authType old, sm_haMode := sm_haMode old\<rparr>"
  have cur: "read_current node old = ?cur"
    unfolding read_current_def by (simp add: store_reads [OF assms])
  have legacy: "read_legacy node ?cur = ?cur"
    unfolding read_legacy_def by (simp add: store_reads [OF assms])
  have last: "read_last node ?cur = m"
    unfolding read_last_def by (simp add: store_reads [OF assms])
  show ?thesis
    unfolding StoreMetaData_Unmarshal_def cur Let_def legacy if_cancel last ..
qed

interpretation store_meta: json_object StoreMetaData_Marshal StoreMetaData_Unmarshal
  by (rule json_object_by_members [OF StoreMetaData_Marshal_def Unmarshal_holds]) simp_all


text \<open>
  A document of an older version takes the store type, the uid, the user and the account from the
  members those versions used, even when it also has the current ones.
\<close>
theorem StoreMetaData_legacy:
  assumes "GetValue_u32 node ''version'' v0 = (True, v)" and "v < FIELD_CHANGED_TAG"
    and "GetValue_i32 node ''kvStoreType'' t0 = (True, t)" and "GetValue_i32 node ''UID'' u0 = (True, u)"
    and "GetValue_string node ''deviceAccountID'' d0 = (True, d)" and "GetValue_string node ''userId'' a0 = (True, a)"
  shows "\<exists>m. StoreMetaData_Unmarshal node old = (True, m) \<and>
     sm_storeType m = t \<and> sm_uid m = u \<and> sm_user m = d \<and> sm_account m = a"
proof -
  have any: "snd (GetValue_u32 node n x) = v'" if "GetValue_u32 node n y = (True, v')" for n x y v'
    using that by (auto simp: GetValue_simps split: json.splits)
  have anyi: "snd (GetValue_i32 node n x) = v'" if "GetValue_i32 node n y = (True, v')" for n x y v'
    using that by (auto simp: GetValue_simps split: json.splits)
  have anys: "snd (GetValue_string node n x) = v'" if "GetValue_string node n y = (True, v')" for n x y v'
    using that by (auto simp: GetValue_simps split: json.splits)
  show ?thesis
    using assms(2) by (simp add: StoreMetaData_Unmarshal_def Let_def read_current_def read_legacy_def read_last_def
      any [OF assms(1)] anyi [OF assms(3)] anyi [OF assms(4)] anys [OF assms(5)] anys [OF assms(6)])
qed

theorem StoreMetaData_legacy_witness:
  "\<exists>m. StoreMetaData_Unmarshal (JObj [(''version'', JUInt 1), (''kvStoreType'', JInt 1), (''UID'', JUInt 7),
       (''deviceAccountID'', JStr ''100''), (''userId'', JStr ''acc''), (''uid'', JUInt 9)]) StoreMetaData_new = (True, m) \<and>
     sm_storeType m = 1 \<and> sm_uid m = 7 \<and> sm_user m = ''100'' \<and> sm_account m = ''acc''"
  by (rule StoreMetaData_legacy [where v = 1 and ?v0.0 = 0 and ?t0.0 = 0 and ?u0.0 = 0 and ?d0.0 = "[]" and ?a0.0 = "[]"])
    (simp_all add: GetValue_simps GetSubNode_def FIELD_CHANGED_TAG_def)

lemma Mapping_holds:
  assumes "node = StoreMetaMapping_Marshal mm JNull \<or> node = json_norm (StoreMetaMapping_Marshal mm JNull)"
  shows "holds_members node (StoreMetaData_members (smm_meta mm) @
    [(''cloudPath'', SetValue_string (smm_cloudPath mm)), (''devicePath'', SetValue_string (smm_devicePath mm)),
     (''searchPath'', SetValue_string (smm_searchPath mm))])"
proof -
  have puts: "json_puts kvs (json_puts kvs' node) = json_puts (kvs' @ kvs) node" for kvs kvs' node
    by (induction kvs' arbitrary: node) auto
  let ?kvs = "StoreMetaData_members (smm_meta mm) @
    [(''cloudPath'', SetValue_string (smm_cloudPath mm)), (''devicePath'', SetValue_string (smm_devicePath mm)),
     (''searchPath'', SetValue_string (smm_searchPath mm))]"
  have d: "distinct (map fst ?kvs)" by (simp add: StoreMetaData_members_def)
  show ?thesis
    using assms holds_puts [OF d]
    unfolding StoreMetaMapping_Marshal_def StoreMetaData_Marshal_def puts by auto
qed

lemma holds_members_append: "holds_members node (kvs @ kvs') \<Longrightarrow> holds_members node kvs"
  by (auto simp: holds_members_def map_add_def)

lemma Mapping_reads:
  assumes "node = StoreMetaMapping_Marshal mm JNull \<or> node = json_norm (StoreMetaMapping_Marshal mm JNull)"
  shows "StoreMetaMapping_Unmarshal node old = (True, mm)"
proof -
  note h = Mapping_holds [OF assms]
  have "StoreMetaData_Unmarshal node (smm_meta old) = (True, smm_meta mm)"
    by (rule Unmarshal_holds [OF holds_members_append [OF h]])
  moreover have "GetValue_string node ''cloudPath'' x = (True, smm_cloudPath mm)"
    "GetValue_string node ''devicePath'' x = (True, smm_devicePath mm)"
    "GetValue_string node ''searchPath'' x = (True, smm_searchPath mm)" for x
    by (rule reads, rule h, simp, simp add: StoreMetaData_members_def)+
  ultimately show ?thesis by (simp add: StoreMetaMapping_Unmarshal_def)
qed

lemma StoreMetaMapping_obj: "is_obj (StoreMetaMapping_Marshal v JNull)"
  by (simp add: StoreMetaMapping_Marshal_def StoreMetaData_Marshal_def)

interpretation store_mapping: json_object StoreMetaMapping_Marshal StoreMetaMapping_Unmarshal
  by unfold_locales (rule StoreMetaMapping_obj, (rule Mapping_reads, simp)+)

subsection \<open>What the comparison sees\<close>

definition compared :: "StoreMetaData \<Rightarrow> StoreMetaData" where
  "compared m = m\<lparr>sm_autoSyncSwitch := False, sm_hapName := [], sm_customDir := [], sm_schema := [],
     sm_asyncDownloadAsset := False, sm_assetConflictPolicy := 0, sm_assetTempPath := [],
     sm_assetDownloadOnDemand := False, sm_filterMode := (if sm_filterMode m = 0 then 0 else 1)\<rparr>"

lemma NotEqual_iff [simp]: "NotEqual a b \<longleftrightarrow> a \<noteq> b"
  by (auto simp: NotEqual_def)

text \<open>
  Two metadata records compare equal exactly when they agree on all fields but the automatic
  sync switch, the hap name, the custom directory, the schema and the asset settings, and when their
  filter modes are both zero or both not zero. Two different non-zero filter modes compare equal.
\<close>
theorem StoreMetaData_eq_iff:
  "StoreMetaData_eq a b \<longleftrightarrow> compared a = compared b"
  by (cases a; cases b) (simp add: StoreMetaData_eq_def compared_def, blast)

subsection \<open>Keys of different stores\<close>

definition key_part :: "string \<Rightarrow> bool" where
  "key_part x \<longleftrightarrow> CHR ''#'' \<notin> set x"

definition clean_keys :: "StoreMetaData \<Rightarrow> bool" where
  "clean_keys m \<longleftrightarrow> key_part (sm_deviceId m) \<and> key_part (sm_user m) \<and> key_part (sm_bundleName m) \<and>
     key_part (sm_storeId m) \<and> key_part (sm_dataDir m)"

lemma sint_inj: "sint (v :: u32) = sint w \<longleftrightarrow> v = w"
  by (auto dest: arg_cong [where f = "of_int :: int \<Rightarrow> u32"])

lemma GetKey_fields_Join: "GetKey_fields fs = Join ''KvStoreMetaData'' KEY_SEPARATOR fs"
  by (simp add: GetKey_fields_def Join_def)

lemma GetKey_fields_inj:
  "\<forall>x \<in> set xs. key_part x \<Longrightarrow> \<forall>y \<in> set ys. key_part y \<Longrightarrow> GetKey_fields xs = GetKey_fields ys \<longleftrightarrow> xs = ys"
  using Join_inj [OF KEY_SEPARATOR_Cons] unfolding GetKey_fields_Join key_part_def by blast

text \<open>
  C18: Two stores whose names do not contain the key separator's character have the same key exactly
  when device, user, bundle, store, instance and directory agree.
\<close>
theorem GetKey_inj:
  assumes "clean_keys a" and "clean_keys b"
  shows "GetKey a = GetKey b \<longleftrightarrow>
    sm_deviceId a = sm_deviceId b \<and> sm_user a = sm_user b \<and> sm_bundleName a = sm_bundleName b \<and>
    sm_storeId a = sm_storeId b \<and> sm_instanceId a = sm_instanceId b \<and> sm_dataDir a = sm_dataDir b"
proof -
  have parts: "key_part ''default''" "key_part (to_string i)" for i
    by (simp_all add: key_part_def)
  show ?thesis
    using assms by (auto simp: GetKey_def GetKey_fields_inj parts clean_keys_def to_string_inj sint_inj)
qed

theorem GetKey_inj_witness:
  "clean_keys StoreMetaData_new \<and> clean_keys (StoreMetaData_new\<lparr>sm_instanceId := - 1\<rparr>) \<and>
   GetKey StoreMetaData_new \<noteq> GetKey (StoreMetaData_new\<lparr>sm_instanceId := - 1\<rparr>)"
proof -
  have c: "clean_keys StoreMetaData_new" "clean_keys (StoreMetaData_new\<lparr>sm_instanceId := - 1\<rparr>)"
    by (simp_all add: clean_keys_def StoreMetaData_new_def key_part_def)
  show ?thesis using c GetKey_inj [OF c] by (simp add: StoreMetaData_new_def)
qed

lemma takeWhile_upto: "c \<notin> set x \<Longrightarrow> takeWhile (\<lambda>d. d \<noteq> c) (x @ c # r) = x"
  "c \<notin> set x \<Longrightarrow> takeWhile (\<lambda>d. d \<noteq> c) x = x"
  by (induction x) auto

lemma sep_prefix:
  assumes "sep = c # cs" and "\<forall>x \<in> set xs. c \<notin> set x" and "\<forall>y \<in> set ys. c \<notin> set y"
  shows "prefix (concat (map (\<lambda>x. sep @ x) xs) @ sep) (concat (map (\<lambda>x. sep @ x) ys)) \<longleftrightarrow> (\<exists>z zs. ys = xs @ z # zs)"
  using assms(2,3)
proof (induction xs arbitrary: ys)
  case Nil
  show ?case using assms(1) by (cases ys) auto
next
  case (Cons x xs)
  show ?case
  proof (cases ys)
    case Nil
    then show ?thesis using assms(1) by simp
  next
    case (Cons y ys')
    define R where "R = concat (map (\<lambda>x. sep @ x) xs) @ sep"
    define S where "S = concat (map (\<lambda>x. sep @ x) ys')"
    obtain r where R: "R = c # r" using assms(1) unfolding R_def by (cases xs) auto
    have S: "S = [] \<or> (\<exists>s. S = c # s)" using assms(1) unfolding S_def by (cases ys') auto
    have "prefix (x @ R) (y @ S) \<longleftrightarrow> x = y \<and> prefix R S"
    proof
      assume p: "prefix (x @ R) (y @ S)"
      have y: "takeWhile (\<lambda>d. d \<noteq> c) (y @ S) = y"
        using Cons.prems(2) Cons S by (auto simp: takeWhile_upto)
      obtain t where t: "y @ S = x @ R @ t" using p by (auto elim: prefixE)
      have "takeWhile (\<lambda>d. d \<noteq> c) (x @ R @ t) = x"
        using Cons.prems(1) R by (simp add: takeWhile_upto)
      then have "x = y" using y t by simp
      then show "x = y \<and> prefix R S" using p by simp
    qed auto
    moreover have "prefix R S \<longleftrightarrow> (\<exists>z zs. ys' = xs @ z # zs)"
      using Cons.IH [of ys'] Cons.prems Cons unfolding R_def S_def by simp
    ultimately show ?thesis using Cons by (simp add: R_def S_def eq_commute [of y x])
  qed
qed

text \<open>
  The prefix built from a device, a user, a bundle and a store finds exactly the metadata of that
  store: its keys are the ones that start with the prefix.
\<close>
theorem GetPrefix_finds:
  assumes "clean_keys m" and "key_part dev" and "key_part user" and "key_part bundle" and "key_part store"
  shows "prefix (GetPrefix_fields [dev, user, ''default'', bundle, store]) (GetKey m) \<longleftrightarrow>
    sm_deviceId m = dev \<and> sm_user m = user \<and> sm_bundleName m = bundle \<and> sm_storeId m = store"
proof -
  have parts: "CHR ''#'' \<notin> set ''default''" by simp
  have "prefix (GetPrefix_fields xs) (GetKey_fields ys) \<longleftrightarrow> (\<exists>z zs. ys = xs @ z # zs)"
    if "\<forall>x \<in> set xs. CHR ''#'' \<notin> set x" "\<forall>y \<in> set ys. CHR ''#'' \<notin> set y" for xs ys
    using sep_prefix [OF KEY_SEPARATOR_Cons that]
    by (simp add: GetPrefix_fields_def GetKey_fields_Join Join_concat)
  then show ?thesis
    using assms by (auto simp: GetKey_def clean_keys_def key_part_def)
qed

theorem GetPrefix_finds_witness:
  "prefix (GetPrefix_fields [''dev'', ''100'', ''default'', ''app'', ''db''])
     (GetKey (StoreMetaData_new\<lparr>sm_deviceId := ''dev'', sm_user := ''100'', sm_bundleName := ''app'', sm_storeId := ''db''\<rparr>))"
  by (subst GetPrefix_finds) (simp_all add: clean_keys_def key_part_def StoreMetaData_new_def)

text \<open>
  A store description turned into metadata and back keeps the bundle, the store name, the
  instance and the user; the path it was given does not come back.
\<close>
theorem GetStoreInfo_of_info:
  "GetStoreInfo (StoreMetaData_of_info i) =
     i\<lparr>si_tokenId := 0, si_deviceId := [], si_syncId := 0, si_path := []\<rparr>"
  by (cases i) (simp add: GetStoreInfo_def StoreMetaData_of_info_def StoreInfo_new_def StoreMetaData_new_def)

end
