(* ===== verification/Meta_Records.thy ===== *)
theory Meta_Records
  imports Store_Meta
begin

text \<open>
  The smaller metadata classes of framework/metadata: each with its record, the members its \<open>Marshal\<close>
  writes, its \<open>Unmarshal\<close> and its keys, and the round trip of the two as an instance of the contract
  \<open>json_object\<close>. Classes whose \<open>Unmarshal\<close> reports success have the conjunction of the reads as the
  result, the others always report success.
\<close>

subsection \<open>Applications, bundles, users and devices\<close>

record AppIDMetaData =
  aid_appId :: "string"
  aid_bundleName :: "string"

definition AppIDMetaData_new :: AppIDMetaData where
  "AppIDMetaData_new = \<lparr>aid_appId = [], aid_bundleName = []\<rparr>"

definition AppIDMetaData_members :: "AppIDMetaData \<Rightarrow> (string \<times> json) list" where
  "AppIDMetaData_members m = [
     (''appId'', SetValue_string (aid_appId m)),
     (''bundleName'', SetValue_string (aid_bundleName m))]"

definition AppIDMetaData_Marshal :: "AppIDMetaData \<Rightarrow> json \<Rightarrow> json" where
  "AppIDMetaData_Marshal m node = json_puts (AppIDMetaData_members m) node"

definition AppIDMetaData_Unmarshal :: "json \<Rightarrow> AppIDMetaData \<Rightarrow> bool \<times> AppIDMetaData" where
  "AppIDMetaData_Unmarshal node m =
     (True,
      m\<lparr>aid_appId := snd (GetValue_string node ''appId'' (aid_appId m)),
        aid_bundleName := snd (GetValue_string node ''bundleName'' (aid_bundleName m))\<rparr>)"

lemma appid_meta_read:
  assumes "holds_members node (AppIDMetaData_members m)"
  shows "AppIDMetaData_Unmarshal node old = (True, m)"
proof -
  have
    "GetValue_string node ''appId'' (aid_appId old) = (True, aid_appId m)" and
    "GetValue_string node ''bundleName'' (aid_bundleName old) = (True, aid_bundleName m)"
    by (rule reads, rule assms, simp, simp add: AppIDMetaData_members_def)+
  then show ?thesis by (simp add: AppIDMetaData_Unmarshal_def)
qed

interpretation appid_meta: json_object AppIDMetaData_Marshal AppIDMetaData_Unmarshal
  by (rule json_object_by_members [OF AppIDMetaData_Marshal_def appid_meta_read]) (simp_all add: AppIDMetaData_members_def)

definition AppIDMetaData_eq :: "AppIDMetaData \<Rightarrow> AppIDMetaData \<Rightarrow> bool" where
  "AppIDMetaData_eq a b \<longleftrightarrow> aid_appId a = aid_appId b \<and> aid_bundleName a = aid_bundleName b"

definition AppIDMetaData_GetKey :: "AppIDMetaData \<Rightarrow> string" where
  "AppIDMetaData_GetKey m = aid_appId m"

record BundleVersionMetaData =
  bvm_bundleName :: "string"
  bvm_user :: "string"
  bvm_appIndex :: "u32"
  bvm_versionCode :: "u32"

definition BundleVersionMetaData_new :: BundleVersionMetaData where
  "BundleVersionMetaData_new = \<lparr>bvm_bundleName = [], bvm_user = [], bvm_appIndex = 0, bvm_versionCode = 0\<rparr>"

definition BundleVersionMetaData_members :: "BundleVersionMetaData \<Rightarrow> (string \<times> json) list" where
  "BundleVersionMetaData_members m = [
     (''bundleName'', SetValue_string (bvm_bundleName m)),
     (''user'', SetValue_string (bvm_user m)),
     (''appIndex'', SetValue_i32 (bvm_appIndex m)),
     (''versionCode'', SetValue_i32 (bvm_versionCode m))]"

definition BundleVersionMetaData_Marshal :: "BundleVersionMetaData \<Rightarrow> json \<Rightarrow> json" where
  "BundleVersionMetaData_Marshal m node = json_puts (BundleVersionMetaData_members m) node"

definition BundleVersionMetaData_Unmarshal :: "json \<Rightarrow> BundleVersionMetaData \<Rightarrow> bool \<times> BundleVersionMetaData" where
  "BundleVersionMetaData_Unmarshal node m =
     (
      fst (GetValue_string node ''bundleName'' (bvm_bundleName m)) \<and>
      fst (GetValue_string node ''user'' (bvm_user m)) \<and>
      fst (GetValue_i32 node ''appIndex'' (bvm_appIndex m)) \<and>
      fst (GetValue_i32 node ''versionCode'' (bvm_versionCode m)),
      m\<lparr>bvm_bundleName := snd (GetValue_string node ''bundleName'' (bvm_bundleName m)),
        bvm_user := snd (GetValue_string node ''user'' (bvm_user m)),
        bvm_appIndex := snd (GetValue_i32 node ''appIndex'' (bvm_appIndex m)),
        bvm_versionCode := snd (GetValue_i32 node ''versionCode'' (bvm_versionCode m))\<rparr>)"

lemma bundle_version_read:
  assumes "holds_members node (BundleVersionMetaData_members m)"
  shows "BundleVersionMetaData_Unmarshal node old = (True, m)"
proof -
  have
    "GetValue_string node ''bundleName'' (bvm_bundleName old) = (True, bvm_bundleName m)" and
    "GetValue_string node ''user'' (bvm_user old) = (True, bvm_user m)" and
    "GetValue_i32 node ''appIndex'' (bvm_appIndex old) = (True, bvm_appIndex m)" and
    "GetValue_i32 node ''versionCode'' (bvm_versionCode old) = (True, bvm_versionCode m)"
    by (rule reads, rule assms, simp, simp add: BundleVersionMetaData_members_def)+
  then show ?thesis by (simp add: BundleVersionMetaData_Unmarshal_def)
qed

interpretation bundle_version: json_object BundleVersionMetaData_Marshal BundleVersionMetaData_Unmarshal
  by (rule json_object_by_members [OF BundleVersionMetaData_Marshal_def bundle_version_read]) (simp_all add: BundleVersionMetaData_members_def)

definition BundleVersion_GetKey_fields :: "string list \<Rightarrow> string" where
  "BundleVersion_GetKey_fields flds = fold (\<lambda>field pfx. pfx @ KEY_SEPARATOR @ field) flds ''BundleVersionMetaData''"

definition BundleVersion_GetKey :: "BundleVersionMetaData \<Rightarrow> string" where
  "BundleVersion_GetKey m = BundleVersion_GetKey_fields [bvm_user m, bvm_bundleName m, to_string (sint (bvm_appIndex m))]"

definition BundleVersion_GetPrefix :: "string list \<Rightarrow> string" where
  "BundleVersion_GetPrefix flds = BundleVersion_GetKey_fields flds @ KEY_SEPARATOR"

record CorruptedMetaData =
  cor_appId :: "string"
  cor_bundleName :: "string"
  cor_storeId :: "string"
  cor_isCorrupted :: "bool"

definition CorruptedMetaData_new :: CorruptedMetaData where
  "CorruptedMetaData_new = \<lparr>cor_appId = [], cor_bundleName = [], cor_storeId = [], cor_isCorrupted = False\<rparr>"

definition CorruptedMetaData_members :: "CorruptedMetaData \<Rightarrow> (string \<times> json) list" where
  "CorruptedMetaData_members m = [
     (''appId'', SetValue_string (cor_appId m)),
     (''bundleName'', SetValue_string (cor_bundleName m)),
     (''storeId'', SetValue_string (cor_storeId m)),
     (''isCorrupted'', SetValue_bool (cor_isCorrupted m))]"

definition CorruptedMetaData_Marshal :: "CorruptedMetaData \<Rightarrow> json \<Rightarrow> json" where
  "CorruptedMetaData_Marshal m node = json_puts (CorruptedMetaData_members m) node"

definition CorruptedMetaData_Unmarshal :: "json \<Rightarrow> CorruptedMetaData \<Rightarrow> bool \<times> CorruptedMetaData" where
  "CorruptedMetaData_Unmarshal node m =
     (True,
      m\<lparr>cor_appId := snd (GetValue_string node ''appId'' (cor_appId m)),
        cor_bundleName := snd (GetValue_string node ''bundleName'' (cor_bundleName m)),
        cor_storeId := snd (GetValue_string node ''storeId'' (cor_storeId m)),
        cor_isCorrupted := snd (GetValue_bool node ''isCorrupted'' (cor_isCorrupted m))\<rparr>)"

lemma corrupted_meta_read:
  assumes "holds_members node (CorruptedMetaData_members m)"
  shows "CorruptedMetaData_Unmarshal node old = (True, m)"
proof -
  have
    "GetValue_string node ''appId'' (cor_appId old) = (True, cor_appId m)" and
    "GetValue_string node ''bundleName'' (cor_bundleName old) = (True, cor_bundleName m)" and
    "GetValue_string node ''storeId'' (cor_storeId old) = (True, cor_storeId m)" and
    "GetValue_bool node ''isCorrupted'' (cor_isCorrupted old) = (True, cor_isCorrupted m)"
    by (rule reads, rule assms, simp, simp add: CorruptedMetaData_members_def)+
  then show ?thesis by (simp add: CorruptedMetaData_Unmarshal_def)
qed

interpretation corrupted_meta: json_object CorruptedMetaData_Marshal CorruptedMetaData_Unmarshal
  by (rule json_object_by_members [OF CorruptedMetaData_Marshal_def corrupted_meta_read]) (simp_all add: CorruptedMetaData_members_def)

definition CorruptedMetaData_GetKey :: "CorruptedMetaData \<Rightarrow> string" where
  "CorruptedMetaData_GetKey m = Join ''CorruptedMetaData'' KEY_SEPARATOR [cor_appId m, cor_bundleName m, cor_storeId m]"

record DeviceMetaData =
  dev_newUuid :: "string"

definition DeviceMetaData_new :: DeviceMetaData where
  "DeviceMetaData_new = \<lparr>dev_newUuid = []\<rparr>"

definition DeviceMetaData_members :: "DeviceMetaData \<Rightarrow> (string \<times> json) list" where
  "DeviceMetaData_members m = [
     (''newUuid'', SetValue_string (dev_newUuid m))]"

definition DeviceMetaData_Marshal :: "DeviceMetaData \<Rightarrow> json \<Rightarrow> json" where
  "DeviceMetaData_Marshal m node = json_puts (DeviceMetaData_members m) node"

definition DeviceMetaData_Unmarshal :: "json \<Rightarrow> DeviceMetaData \<Rightarrow> bool \<times> DeviceMetaData" where
  "DeviceMetaData_Unmarshal node m =
     (True,
      m\<lparr>dev_newUuid := snd (GetValue_string node ''newUuid'' (dev_newUuid m))\<rparr>)"

lemma device_meta_read:
  assumes "holds_members node (DeviceMetaData_members m)"
  shows "DeviceMetaData_Unmarshal node old = (True, m)"
proof -
  have
    "GetValue_string node ''newUuid'' (dev_newUuid old) = (True, dev_newUuid m)"
    by (rule reads, rule assms, simp, simp add: DeviceMetaData_members_def)+
  then show ?thesis by (simp add: DeviceMetaData_Unmarshal_def)
qed

interpretation device_meta: json_object DeviceMetaData_Marshal DeviceMetaData_Unmarshal
  by (rule json_object_by_members [OF DeviceMetaData_Marshal_def device_meta_read]) (simp_all add: DeviceMetaData_members_def)

record ObjectUserMetaData =
  oum_userId :: "string"

definition ObjectUserMetaData_new :: ObjectUserMetaData where
  "ObjectUserMetaData_new = \<lparr>oum_userId = []\<rparr>"

definition ObjectUserMetaData_members :: "ObjectUserMetaData \<Rightarrow> (string \<times> json) list" where
  "ObjectUserMetaData_members m = [
     (''userId'', SetValue_string (oum_userId m))]"

definition ObjectUserMetaData_Marshal :: "ObjectUserMetaData \<Rightarrow> json \<Rightarrow> json" where
  "ObjectUserMetaData_Marshal m node = json_puts (ObjectUserMetaData_members m) node"

definition ObjectUserMetaData_Unmarshal :: "json \<Rightarrow> ObjectUserMetaData \<Rightarrow> bool \<times> ObjectUserMetaData" where
  "ObjectUserMetaData_Unmarshal node m =
     (
      fst (GetValue_string node ''userId'' (oum_userId m)),
      m\<lparr>oum_userId := snd (GetValue_string node ''userId'' (oum_userId m))\<rparr>)"

lemma object_user_meta_read:
  assumes "holds_members node (ObjectUserMetaData_members m)"
  shows "ObjectUserMetaData_Unmarshal node old = (True, m)"
proof -
  have
    "GetValue_string node ''userId'' (oum_userId old) = (True, oum_userId m)"
    by (rule reads, rule assms, simp, simp add: ObjectUserMetaData_members_def)+
  then show ?thesis by (simp add: ObjectUserMetaData_Unmarshal_def)
qed

interpretation object_user_meta: json_object ObjectUserMetaData_Marshal ObjectUserMetaData_Unmarshal
  by (rule json_object_by_members [OF ObjectUserMetaData_Marshal_def object_user_meta_read]) (simp_all add: ObjectUserMetaData_members_def)

record SpecialChannelData =
  scd_devices :: "string list"

definition SpecialChannelData_new :: SpecialChannelData where
  "SpecialChannelData_new = \<lparr>scd_devices = []\<rparr>"

definition SpecialChannelData_members :: "SpecialChannelData \<Rightarrow> (string \<times> json) list" where
  "SpecialChannelData_members m = [
     (''devices'', SetValue_vector SetValue_string (scd_devices m))]"

definition SpecialChannelData_Marshal :: "SpecialChannelData \<Rightarrow> json \<Rightarrow> json" where
  "SpecialChannelData_Marshal m node = json_puts (SpecialChannelData_members m) node"

definition SpecialChannelData_Unmarshal :: "json \<Rightarrow> SpecialChannelData \<Rightarrow> bool \<times> SpecialChannelData" where
  "SpecialChannelData_Unmarshal node m =
     (True,
      m\<lparr>scd_devices := snd (GetValue_vector GetValue_string [] node ''devices'' (scd_devices m))\<rparr>)"

lemma special_channel_read:
  assumes "holds_members node (SpecialChannelData_members m)"
  shows "SpecialChannelData_Unmarshal node old = (True, m)"
proof -
  have
    "GetValue_vector GetValue_string [] node ''devices'' (scd_devices old) = (True, scd_devices m)"
    by (rule reads, rule assms, simp, simp add: SpecialChannelData_members_def)+
  then show ?thesis by (simp add: SpecialChannelData_Unmarshal_def)
qed

interpretation special_channel: json_object SpecialChannelData_Marshal SpecialChannelData_Unmarshal
  by (rule json_object_by_members [OF SpecialChannelData_Marshal_def special_channel_read]) (simp_all add: SpecialChannelData_members_def)

definition SpecialChannel_GetKey :: string where
  "SpecialChannel_GetKey = ''SpecialChannel'' @ KEY_SEPARATOR"

record UserStatus =
  ust_id :: "u32"
  ust_isActive :: "bool"

definition UserStatus_new :: UserStatus where
  "UserStatus_new = \<lparr>ust_id = 0, ust_isActive = False\<rparr>"

definition UserStatus_members :: "UserStatus \<Rightarrow> (string \<times> json) list" where
  "UserStatus_members m = [
     (''id'', SetValue_i32 (ust_id m)),
     (''isActive'', SetValue_bool (ust_isActive m))]"

definition UserStatus_Marshal :: "UserStatus \<Rightarrow> json \<Rightarrow> json" where
  "UserStatus_Marshal m node = json_puts (UserStatus_members m) node"

definition UserStatus_Unmarshal :: "json \<Rightarrow> UserStatus \<Rightarrow> bool \<times> UserStatus" where
  "UserStatus_Unmarshal node m =
     (
      fst (GetValue_i32 node ''id'' (ust_id m)) \<and>
      fst (GetValue_bool node ''isActive'' (ust_isActive m)),
      m\<lparr>ust_id := snd (GetValue_i32 node ''id'' (ust_id m)),
        ust_isActive := snd (GetValue_bool node ''isActive'' (ust_isActive m))\<rparr>)"

lemma user_status_read:
  assumes "holds_members node (UserStatus_members m)"
  shows "UserStatus_Unmarshal node old = (True, m)"
proof -
  have
    "GetValue_i32 node ''id'' (ust_id old) = (True, ust_id m)" and
    "GetValue_bool node ''isActive'' (ust_isActive old) = (True, ust_isActive m)"
    by (rule reads, rule assms, simp, simp add: UserStatus_members_def)+
  then show ?thesis by (simp add: UserStatus_Unmarshal_def)
qed

interpretation user_status: json_object UserStatus_Marshal UserStatus_Unmarshal
  by (rule json_object_by_members [OF UserStatus_Marshal_def user_status_read]) (simp_all add: UserStatus_members_def)

interpretation users_field: json_field "SetValue_vector (\<lambda>v. UserStatus_Marshal v JNull)"
    "GetValue_vector (GetValue_object UserStatus_Unmarshal) UserStatus_new"
  by (rule user_status.as_field.vector_field)

record UserMetaData =
  umd_deviceId :: "string"
  umd_users :: "UserStatus list"

definition UserMetaData_new :: UserMetaData where
  "UserMetaData_new = \<lparr>umd_deviceId = [], umd_users = []\<rparr>"

definition UserMetaData_members :: "UserMetaData \<Rightarrow> (string \<times> json) list" where
  "UserMetaData_members m = [
     (''deviceId'', SetValue_string (umd_deviceId m)),
     (''users'', SetValue_vector (\<lambda>v. UserStatus_Marshal v JNull) (umd_users m))]"

definition UserMetaData_Marshal :: "UserMetaData \<Rightarrow> json \<Rightarrow> json" where
  "UserMetaData_Marshal m node = json_puts (UserMetaData_members m) node"

definition UserMetaData_Unmarshal :: "json \<Rightarrow> UserMetaData \<Rightarrow> bool \<times> UserMetaData" where
  "UserMetaData_Unmarshal node m =
     (
      fst (GetValue_string node ''deviceId'' (umd_deviceId m)) \<and>
      fst (GetValue_vector (GetValue_object UserStatus_Unmarshal) UserStatus_new node ''users'' (umd_users m)),
      m\<lparr>umd_deviceId := snd (GetValue_string node ''deviceId'' (umd_deviceId m)),
        umd_users := snd (GetValue_vector (GetValue_object UserStatus_Unmarshal) UserStatus_new node ''users'' (umd_users m))\<rparr>)"

lemma user_meta_read:
  assumes "holds_members node (UserMetaData_members m)"
  shows "UserMetaData_Unmarshal node old = (True, m)"
proof -
  have
    "GetValue_string node ''deviceId'' (umd_deviceId old) = (True, umd_deviceId m)" and
    "GetValue_vector (GetValue_object UserStatus_Unmarshal) UserStatus_new node ''users'' (umd_users old) = (True, umd_users m)"
    by (rule reads field_of_members [OF users_field.json_field_axioms], rule assms, simp, simp add: UserMetaData_members_def)+
  then show ?thesis by (simp add: UserMetaData_Unmarshal_def)
qed

interpretation user_meta: json_object UserMetaData_Marshal UserMetaData_Unmarshal
  by (rule json_object_by_members [OF UserMetaData_Marshal_def user_meta_read]) (simp_all add: UserMetaData_members_def)

definition UserMetaRow_GetKeyFor :: "string \<Rightarrow> string" where
  "UserMetaRow_GetKeyFor key = Concatenate [''UserMeta'', KEY_SEPARATOR, key]"

record VersionMetaData =
  ver_version :: "u32"

definition VersionMetaData_new :: VersionMetaData where
  "VersionMetaData_new = \<lparr>ver_version = - 1\<rparr>"

definition VersionMetaData_members :: "VersionMetaData \<Rightarrow> (string \<times> json) list" where
  "VersionMetaData_members m = [
     (''version'', SetValue_i32 (ver_version m))]"

definition VersionMetaData_Marshal :: "VersionMetaData \<Rightarrow> json \<Rightarrow> json" where
  "VersionMetaData_Marshal m node = json_puts (VersionMetaData_members m) node"

definition VersionMetaData_Unmarshal :: "json \<Rightarrow> VersionMetaData \<Rightarrow> bool \<times> VersionMetaData" where
  "VersionMetaData_Unmarshal node m =
     (
      fst (GetValue_i32 node ''version'' (ver_version m)),
      m\<lparr>ver_version := snd (GetValue_i32 node ''version'' (ver_version m))\<rparr>)"

lemma version_meta_read:
  assumes "holds_members node (VersionMetaData_members m)"
  shows "VersionMetaData_Unmarshal node old = (True, m)"
proof -
  have
    "GetValue_i32 node ''version'' (ver_version old) = (True, ver_version m)"
    by (rule reads, rule assms, simp, simp add: VersionMetaData_members_def)+
  then show ?thesis by (simp add: VersionMetaData_Unmarshal_def)
qed

interpretation version_meta: json_object VersionMetaData_Marshal VersionMetaData_Unmarshal
  by (rule json_object_by_members [OF VersionMetaData_Marshal_def version_meta_read]) (simp_all add: VersionMetaData_members_def)

record CapMetaData =
  cap_version :: "u32"
  cap_deviceId :: "string"

definition CapMetaData_new :: CapMetaData where
  "CapMetaData_new = \<lparr>cap_version = - 1, cap_deviceId = []\<rparr>"

definition CapMetaData_members :: "CapMetaData \<Rightarrow> (string \<times> json) list" where
  "CapMetaData_members m = [
     (''version'', SetValue_i32 (cap_version m)),
     (''deviceId'', SetValue_string (cap_deviceId m))]"

definition CapMetaData_Marshal :: "CapMetaData \<Rightarrow> json \<Rightarrow> json" where
  "CapMetaData_Marshal m node = json_puts (CapMetaData_members m) node"

definition CapMetaData_Unmarshal :: "json \<Rightarrow> CapMetaData \<Rightarrow> bool \<times> CapMetaData" where
  "CapMetaData_Unmarshal node m =
     (
      fst (GetValue_i32 node ''version'' (cap_version m)) \<and>
      fst (GetValue_string node ''deviceId'' (cap_deviceId m)),
      m\<lparr>cap_version := snd (GetValue_i32 node ''version'' (cap_version m)),
        cap_deviceId := snd (GetValue_string node ''deviceId'' (cap_deviceId m))\<rparr>)"

lemma capability_meta_read:
  assumes "holds_members node (CapMetaData_members m)"
  shows "CapMetaData_Unmarshal node old = (True, m)"
proof -
  have
    "GetValue_i32 node ''version'' (cap_version old) = (True, cap_version m)" and
    "GetValue_string node ''deviceId'' (cap_deviceId old) = (True, cap_deviceId m)"
    by (rule reads, rule assms, simp, simp add: CapMetaData_members_def)+
  then show ?thesis by (simp add: CapMetaData_Unmarshal_def)
qed

interpretation capability_meta: json_object CapMetaData_Marshal CapMetaData_Unmarshal
  by (rule json_object_by_members [OF CapMetaData_Marshal_def capability_meta_read]) (simp_all add: CapMetaData_members_def)

definition CapMetaRow_GetKeyFor :: "string \<Rightarrow> string" where
  "CapMetaRow_GetKeyFor key = Concatenate [''CapabilityMeta'', KEY_SEPARATOR, key]"

definition CapMetaRow_GetDeviceId :: "string \<Rightarrow> string option" where
  "CapMetaRow_GetDeviceId key =
     (case Split key KEY_SEPARATOR of
        None \<Rightarrow> None
      | Some items \<Rightarrow> Some (if length items < 2 \<or> items ! 0 \<noteq> ''CapabilityMeta'' then [] else items ! 1))"

subsection \<open>Strategies and local metadata\<close>

record CapabilityRange =
  cr_localLabel :: "string list"
  cr_remoteLabel :: "string list"

definition CapabilityRange_new :: CapabilityRange where
  "CapabilityRange_new = \<lparr>cr_localLabel = [], cr_remoteLabel = []\<rparr>"

definition CapabilityRange_members :: "CapabilityRange \<Rightarrow> (string \<times> json) list" where
  "CapabilityRange_members m = [
     (''localLabel'', SetValue_vector SetValue_string (cr_localLabel m)),
     (''remoteLabel'', SetValue_vector SetValue_string (cr_remoteLabel m))]"

definition CapabilityRange_Marshal :: "CapabilityRange \<Rightarrow> json \<Rightarrow> json" where
  "CapabilityRange_Marshal m node = json_puts (CapabilityRange_members m) node"

definition CapabilityRange_Unmarshal :: "json \<Rightarrow> CapabilityRange \<Rightarrow> bool \<times> CapabilityRange" where
  "CapabilityRange_Unmarshal node m =
     (
      fst (GetValue_vector GetValue_string [] node ''localLabel'' (cr_localLabel m)) \<and>
      fst (GetValue_vector GetValue_string [] node ''remoteLabel'' (cr_remoteLabel m)),
      m\<lparr>cr_localLabel := snd (GetValue_vector GetValue_string [] node ''localLabel'' (cr_localLabel m)),
        cr_remoteLabel := snd (GetValue_vector GetValue_string [] node ''remoteLabel'' (cr_remoteLabel m))\<rparr>)"

lemma capability_range_read:
  assumes "holds_members node (CapabilityRange_members m)"
  shows "CapabilityRange_Unmarshal node old = (True, m)"
proof -
  have
    "GetValue_vector GetValue_string [] node ''localLabel'' (cr_localLabel old) = (True, cr_localLabel m)" and
    "GetValue_vector GetValue_string [] node ''remoteLabel'' (cr_remoteLabel old) = (True, cr_remoteLabel m)"
    by (rule reads, rule assms, simp, simp add: CapabilityRange_members_def)+
  then show ?thesis by (simp add: CapabilityRange_Unmarshal_def)
qed

interpretation capability_range: json_object CapabilityRange_Marshal CapabilityRange_Unmarshal
  by (rule json_object_by_members [OF CapabilityRange_Marshal_def capability_range_read]) (simp_all add: CapabilityRange_members_def)

record StrategyMeta =
  str_devId :: "string"
  str_userId :: "string"
  str_bundleName :: "string"
  str_instanceId :: "u32"
  str_storeId :: "string"
  str_capabilityEnabled :: "bool"
  str_capabilityRange :: "CapabilityRange"

definition StrategyMeta_new :: StrategyMeta where
  "StrategyMeta_new = \<lparr>str_devId = [], str_userId = [], str_bundleName = [], str_instanceId = 0, str_storeId = [], str_capabilityEnabled = False, str_capabilityRange = CapabilityRange_new\<rparr>"

definition StrategyMeta_members :: "StrategyMeta \<Rightarrow> (string \<times> json) list" where
  "StrategyMeta_members m = [
     (''devId'', SetValue_string (str_devId m)),
     (''userId'', SetValue_string (str_userId m)),
     (''bundleName'', SetValue_string (str_bundleName m)),
     (''instanceId'', SetValue_i32 (str_instanceId m)),
     (''storeId'', SetValue_string (str_storeId m)),
     (''capabilityEnabled'', SetValue_bool (str_capabilityEnabled m)),
     (''capabilityRange'', (\<lambda>v. CapabilityRange_Marshal v JNull) (str_capabilityRange m))]"

definition StrategyMeta_Marshal :: "StrategyMeta \<Rightarrow> json \<Rightarrow> json" where
  "StrategyMeta_Marshal m node = json_puts (StrategyMeta_members m) node"

definition StrategyMeta_Unmarshal :: "json \<Rightarrow> StrategyMeta \<Rightarrow> bool \<times> StrategyMeta" where
  "StrategyMeta_Unmarshal node m =
     (
      fst (GetValue_string node ''devId'' (str_devId m)) \<and>
      fst (GetValue_string node ''userId'' (str_userId m)) \<and>
      fst (GetValue_string node ''bundleName'' (str_bundleName m)) \<and>
      fst (GetValue_i32 node ''instanceId'' (str_instanceId m)) \<and>
      fst (GetValue_string node ''storeId'' (str_storeId m)) \<and>
      fst (GetValue_bool node ''capabilityEnabled'' (str_capabilityEnabled m)) \<and>
      fst (GetValue_object CapabilityRange_Unmarshal node ''capabilityRange'' (str_capabilityRange m)),
      m\<lparr>str_devId := snd (GetValue_string node ''devId'' (str_devId m)),
        str_userId := snd (GetValue_string node ''userId'' (str_userId m)),
        str_bundleName := snd (GetValue_string node ''bundleName'' (str_bundleName m)),
        str_instanceId := snd (GetValue_i32 node ''instanceId'' (str_instanceId m)),
        str_storeId := snd (GetValue_string node ''storeId'' (str_storeId m)),
        str_capabilityEnabled := snd (GetValue_bool node ''capabilityEnabled'' (str_capabilityEnabled m)),
        str_capabilityRange := snd (GetValue_object CapabilityRange_Unmarshal node ''capabilityRange'' (str_capabilityRange m))\<rparr>)"

lemma strategy_meta_read:
  assumes "holds_members node (StrategyMeta_members m)"
  shows "StrategyMeta_Unmarshal node old = (True, m)"
proof -
  have
    "GetValue_string node ''devId'' (str_devId old) = (True, str_devId m)" and
    "GetValue_string node ''userId'' (str_userId old) = (True, str_userId m)" and
    "GetValue_string node ''bundleName'' (str_bundleName old) = (True, str_bundleName m)" and
    "GetValue_i32 node ''instanceId'' (str_instanceId old) = (True, str_instanceId m)" and
    "GetValue_string node ''storeId'' (str_storeId old) = (True, str_storeId m)" and
    "GetValue_bool node ''capabilityEnabled'' (str_capabilityEnabled old) = (True, str_capabilityEnabled m)" and
    "GetValue_object CapabilityRange_Unmarshal node ''capabilityRange'' (str_capabilityRange old) = (True, str_capabilityRange m)"
    by (rule reads field_of_members [OF capability_range.as_field.json_field_axioms], rule assms, simp, simp add: StrategyMeta_members_def)+
  then show ?thesis by (simp add: StrategyMeta_Unmarshal_def)
qed

interpretation strategy_meta: json_object StrategyMeta_Marshal StrategyMeta_Unmarshal
  by (rule json_object_by_members [OF StrategyMeta_Marshal_def strategy_meta_read]) (simp_all add: StrategyMeta_members_def)

definition StrategyMeta_IsEffect :: "StrategyMeta \<Rightarrow> bool" where
  "StrategyMeta_IsEffect m \<longleftrightarrow> cr_localLabel (str_capabilityRange m) \<noteq> [] \<and> cr_remoteLabel (str_capabilityRange m) \<noteq> []"

definition StrategyMeta_GetKey :: "StrategyMeta \<Rightarrow> string" where
  "StrategyMeta_GetKey m =
     (if str_instanceId m = 0
      then Join ''StrategyMetaData'' KEY_SEPARATOR
             [str_devId m, str_userId m, ''default'', str_bundleName m, str_storeId m]
      else Join ''StrategyMetaData'' KEY_SEPARATOR
             [str_devId m, str_userId m, ''default'', str_bundleName m, str_storeId m, to_string (sint (str_instanceId m))])"

record PolicyValue =
  pol_type :: "u32"
  pol_index :: "u32"
  pol_valueUint :: "u32"

definition PolicyValue_new :: PolicyValue where
  "PolicyValue_new = \<lparr>pol_type = - 1, pol_index = 0, pol_valueUint = 0\<rparr>"

definition PolicyValue_members :: "PolicyValue \<Rightarrow> (string \<times> json) list" where
  "PolicyValue_members m = [
     (''type'', SetValue_u32 (pol_type m)),
     (''valueUint'', SetValue_u32 (pol_valueUint m)),
     (''index'', SetValue_u32 (pol_index m))]"

definition PolicyValue_Marshal :: "PolicyValue \<Rightarrow> json \<Rightarrow> json" where
  "PolicyValue_Marshal m node = json_puts (PolicyValue_members m) node"

definition PolicyValue_Unmarshal :: "json \<Rightarrow> PolicyValue \<Rightarrow> bool \<times> PolicyValue" where
  "PolicyValue_Unmarshal node m =
     (True,
      m\<lparr>pol_type := snd (GetValue_u32 node ''type'' (pol_type m)),
        pol_valueUint := snd (GetValue_u32 node ''valueUint'' (pol_valueUint m)),
        pol_index := snd (GetValue_u32 node ''index'' (pol_index m))\<rparr>)"

lemma policy_value_read:
  assumes "holds_members node (PolicyValue_members m)"
  shows "PolicyValue_Unmarshal node old = (True, m)"
proof -
  have
    "GetValue_u32 node ''type'' (pol_type old) = (True, pol_type m)" and
    "GetValue_u32 node ''valueUint'' (pol_valueUint old) = (True, pol_valueUint m)" and
    "GetValue_u32 node ''index'' (pol_index old) = (True, pol_index m)"
    by (rule reads, rule assms, simp, simp add: PolicyValue_members_def)+
  then show ?thesis by (simp add: PolicyValue_Unmarshal_def)
qed

interpretation policy_value: json_object PolicyValue_Marshal PolicyValue_Unmarshal
  by (rule json_object_by_members [OF PolicyValue_Marshal_def policy_value_read]) (simp_all add: PolicyValue_members_def)

definition IsValueEffect :: "PolicyValue \<Rightarrow> bool" where
  "IsValueEffect p \<longleftrightarrow> 0 < pol_index p"

definition PolicyValue_eq :: "PolicyValue \<Rightarrow> PolicyValue \<Rightarrow> bool" where
  "PolicyValue_eq a b \<longleftrightarrow> pol_type a = pol_type b \<and> pol_index a = pol_index b \<and> pol_valueUint a = pol_valueUint b"

interpretation policies_field: json_field "SetValue_vector (\<lambda>v. PolicyValue_Marshal v JNull)"
    "GetValue_vector (GetValue_object PolicyValue_Unmarshal) PolicyValue_new"
  by (rule policy_value.as_field.vector_field)

record PromiseInfo =
  prom_tokenIds :: "u32 list"
  prom_uids :: "u32 list"
  prom_permissionNames :: "string list"

definition PromiseInfo_new :: PromiseInfo where
  "PromiseInfo_new = \<lparr>prom_tokenIds = [], prom_uids = [], prom_permissionNames = []\<rparr>"

definition PromiseInfo_members :: "PromiseInfo \<Rightarrow> (string \<times> json) list" where
  "PromiseInfo_members m = [
     (''tokenIds'', SetValue_vector SetValue_u32 (prom_tokenIds m)),
     (''uids'', SetValue_vector SetValue_i32 (prom_uids m)),
     (''permissionNames'', SetValue_vector SetValue_string (prom_permissionNames m))]"

definition PromiseInfo_Marshal :: "PromiseInfo \<Rightarrow> json \<Rightarrow> json" where
  "PromiseInfo_Marshal m node = json_puts (PromiseInfo_members m) node"

definition PromiseInfo_Unmarshal :: "json \<Rightarrow> PromiseInfo \<Rightarrow> bool \<times> PromiseInfo" where
  "PromiseInfo_Unmarshal node m =
     (True,
      m\<lparr>prom_tokenIds := snd (GetValue_vector GetValue_u32 0 node ''tokenIds'' (prom_tokenIds m)),
        prom_uids := snd (GetValue_vector GetValue_i32 0 node ''uids'' (prom_uids m)),
        prom_permissionNames := snd (GetValue_vector GetValue_string [] node ''permissionNames'' (prom_permissionNames m))\<rparr>)"

lemma promise_info_read:
  assumes "holds_members node (PromiseInfo_members m)"
  shows "PromiseInfo_Unmarshal node old = (True, m)"
proof -
  have
    "GetValue_vector GetValue_u32 0 node ''tokenIds'' (prom_tokenIds old) = (True, prom_tokenIds m)" and
    "GetValue_vector GetValue_i32 0 node ''uids'' (prom_uids old) = (True, prom_uids m)" and
    "GetValue_vector GetValue_string [] node ''permissionNames'' (prom_permissionNames old) = (True, prom_permissionNames m)"
    by (rule reads, rule assms, simp, simp add: PromiseInfo_members_def)+
  then show ?thesis by (simp add: PromiseInfo_Unmarshal_def)
qed

interpretation promise_info: json_object PromiseInfo_Marshal PromiseInfo_Unmarshal
  by (rule json_object_by_members [OF PromiseInfo_Marshal_def promise_info_read]) (simp_all add: PromiseInfo_members_def)

text \<open>\<open>autoSyncSwitch\<close> is not among the members written.\<close>

record StoreMetaDataLocal =
  sml_isAutoSync :: "bool"
  sml_autoSyncSwitch :: "bool"
  sml_isBackup :: "bool"
  sml_isDirty :: "bool"
  sml_isEncrypt :: "bool"
  sml_isPublic :: "bool"
  sml_dataDir :: "string"
  sml_schema :: "string"
  sml_policies :: "PolicyValue list"
  sml_promiseInfo :: "PromiseInfo"

definition StoreMetaDataLocal_new :: StoreMetaDataLocal where
  "StoreMetaDataLocal_new = \<lparr>sml_isAutoSync = False, sml_autoSyncSwitch = False, sml_isBackup = False, sml_isDirty = False, sml_isEncrypt = False, sml_isPublic = False, sml_dataDir = [], sml_schema = [], sml_policies = [], sml_promiseInfo = PromiseInfo_new\<rparr>"

definition StoreMetaDataLocal_members :: "StoreMetaDataLocal \<Rightarrow> (string \<times> json) list" where
  "StoreMetaDataLocal_members m = [
     (''isAutoSync'', SetValue_bool (sml_isAutoSync m)),
     (''isBackup'', SetValue_bool (sml_isBackup m)),
     (''isDirty'', SetValue_bool (sml_isDirty m)),
     (''isEncrypt'', SetValue_bool (sml_isEncrypt m)),
     (''dataDir'', SetValue_string (sml_dataDir m)),
     (''schema'', SetValue_string (sml_schema m)),
     (''policies'', SetValue_vector (\<lambda>v. PolicyValue_Marshal v JNull) (sml_policies m)),
     (''isPublic'', SetValue_bool (sml_isPublic m)),
     (''promiseInfo'', (\<lambda>v. PromiseInfo_Marshal v JNull) (sml_promiseInfo m))]"

definition StoreMetaDataLocal_Marshal :: "StoreMetaDataLocal \<Rightarrow> json \<Rightarrow> json" where
  "StoreMetaDataLocal_Marshal m node = json_puts (StoreMetaDataLocal_members m) node"

definition StoreMetaDataLocal_Unmarshal :: "json \<Rightarrow> StoreMetaDataLocal \<Rightarrow> bool \<times> StoreMetaDataLocal" where
  "StoreMetaDataLocal_Unmarshal node m =
     (True,
      m\<lparr>sml_isAutoSync := snd (GetValue_bool node ''isAutoSync'' (sml_isAutoSync m)),
        sml_isBackup := snd (GetValue_bool node ''isBackup'' (sml_isBackup m)),
        sml_isDirty := snd (GetValue_bool node ''isDirty'' (sml_isDirty m)),
        sml_isEncrypt := snd (GetValue_bool node ''isEncrypt'' (sml_isEncrypt m)),
        sml_dataDir := snd (GetValue_string node ''dataDir'' (sml_dataDir m)),
        sml_schema := snd (GetValue_string node ''schema'' (sml_schema m)),
        sml_policies := snd (GetValue_vector (GetValue_object PolicyValue_Unmarshal) PolicyValue_new node ''policies'' (sml_policies m)),
        sml_isPublic := snd (GetValue_bool node ''isPublic'' (sml_isPublic m)),
        sml_promiseInfo := snd (GetValue_object PromiseInfo_Unmarshal node ''promiseInfo'' (sml_promiseInfo m))\<rparr>)"

lemma store_local_read:
  assumes "holds_members node (StoreMetaDataLocal_members m)"
  shows "StoreMetaDataLocal_Unmarshal node old = (True, m\<lparr>sml_autoSyncSwitch := sml_autoSyncSwitch old\<rparr>)"
proof -
  have
    "GetValue_bool node ''isAutoSync'' (sml_isAutoSync old) = (True, sml_isAutoSync m)" and
    "GetValue_bool node ''isBackup'' (sml_isBackup old) = (True, sml_isBackup m)" and
    "GetValue_bool node ''isDirty'' (sml_isDirty old) = (True, sml_isDirty m)" and
    "GetValue_bool node ''isEncrypt'' (sml_isEncrypt old) = (True, sml_isEncrypt m)" and
    "GetValue_string node ''dataDir'' (sml_dataDir old) = (True, sml_dataDir m)" and
    "GetValue_string node ''schema'' (sml_schema old) = (True, sml_schema m)" and
    "GetValue_vector (GetValue_object PolicyValue_Unmarshal) PolicyValue_new node ''policies'' (sml_policies old) = (True, sml_policies m)" and
    "GetValue_bool node ''isPublic'' (sml_isPublic old) = (True, sml_isPublic m)" and
    "GetValue_object PromiseInfo_Unmarshal node ''promiseInfo'' (sml_promiseInfo old) = (True, sml_promiseInfo m)"
    by (rule reads field_of_members [OF policies_field.json_field_axioms] field_of_members [OF promise_info.as_field.json_field_axioms], rule assms, simp, simp add: StoreMetaDataLocal_members_def)+
  then show ?thesis by (simp add: StoreMetaDataLocal_Unmarshal_def)
qed

fun HasPolicy_in :: "PolicyValue list \<Rightarrow> u32 \<Rightarrow> bool" where
  "HasPolicy_in [] type = False"
| "HasPolicy_in (p # ps) type = (if pol_type p = type then True else HasPolicy_in ps type)"

definition HasPolicy :: "StoreMetaDataLocal \<Rightarrow> u32 \<Rightarrow> bool" where
  "HasPolicy m type = HasPolicy_in (sml_policies m) type"

fun GetPolicy_in :: "PolicyValue list \<Rightarrow> u32 \<Rightarrow> PolicyValue" where
  "GetPolicy_in [] type = PolicyValue_new"
| "GetPolicy_in (p # ps) type = (if pol_type p = type then p else GetPolicy_in ps type)"

definition GetPolicy :: "StoreMetaDataLocal \<Rightarrow> u32 \<Rightarrow> PolicyValue" where
  "GetPolicy m type = GetPolicy_in (sml_policies m) type"

definition StoreMetaDataLocal_eq :: "StoreMetaDataLocal \<Rightarrow> StoreMetaDataLocal \<Rightarrow> bool" where
  "StoreMetaDataLocal_eq a b =
     (if NotEqual (sml_isAutoSync a) (sml_isAutoSync b) \<or> NotEqual (sml_isBackup a) (sml_isBackup b) \<or>
         NotEqual (sml_isDirty a) (sml_isDirty b) \<or> NotEqual (sml_isEncrypt a) (sml_isEncrypt b) \<or>
         NotEqual (sml_isPublic a) (sml_isPublic b)
      then False else sml_dataDir a = sml_dataDir b)"

record StoreDfxInfo =
  dfx_lastOpenTime :: "string"

definition StoreDfxInfo_new :: StoreDfxInfo where
  "StoreDfxInfo_new = \<lparr>dfx_lastOpenTime = []\<rparr>"

definition StoreDfxInfo_members :: "StoreDfxInfo \<Rightarrow> (string \<times> json) list" where
  "StoreDfxInfo_members m = [
     (''lastOpenTime'', SetValue_string (dfx_lastOpenTime m))]"

definition StoreDfxInfo_Marshal :: "StoreDfxInfo \<Rightarrow> json \<Rightarrow> json" where
  "StoreDfxInfo_Marshal m node = json_puts (StoreDfxInfo_members m) node"

definition StoreDfxInfo_Unmarshal :: "json \<Rightarrow> StoreDfxInfo \<Rightarrow> bool \<times> StoreDfxInfo" where
  "StoreDfxInfo_Unmarshal node m =
     (True,
      m\<lparr>dfx_lastOpenTime := snd (GetValue_string node ''lastOpenTime'' (dfx_lastOpenTime m))\<rparr>)"

lemma store_dfx_read:
  assumes "holds_members node (StoreDfxInfo_members m)"
  shows "StoreDfxInfo_Unmarshal node old = (True, m)"
proof -
  have
    "GetValue_string node ''lastOpenTime'' (dfx_lastOpenTime old) = (True, dfx_lastOpenTime m)"
    by (rule reads, rule assms, simp, simp add: StoreDfxInfo_members_def)+
  then show ?thesis by (simp add: StoreDfxInfo_Unmarshal_def)
qed

interpretation store_dfx: json_object StoreDfxInfo_Marshal StoreDfxInfo_Unmarshal
  by (rule json_object_by_members [OF StoreDfxInfo_Marshal_def store_dfx_read]) (simp_all add: StoreDfxInfo_members_def)

record FileInfo =
  fin_inode :: "u64"
  fin_size :: "u64"
  fin_dev :: "u32"
  fin_mode :: "u32"
  fin_uid :: "u32"
  fin_gid :: "u32"

definition FileInfo_new :: FileInfo where
  "FileInfo_new = \<lparr>fin_inode = 0, fin_size = 0, fin_dev = 0, fin_mode = 0, fin_uid = 0, fin_gid = 0\<rparr>"

definition FileInfo_members :: "FileInfo \<Rightarrow> (string \<times> json) list" where
  "FileInfo_members m = [
     (''inode'', SetValue_u64 (fin_inode m)),
     (''size'', SetValue_i64 (fin_size m)),
     (''dev'', SetValue_u32 (fin_dev m)),
     (''mode'', SetValue_u32 (fin_mode m)),
     (''uid'', SetValue_u32 (fin_uid m)),
     (''gid'', SetValue_u32 (fin_gid m))]"

definition FileInfo_Marshal :: "FileInfo \<Rightarrow> json \<Rightarrow> json" where
  "FileInfo_Marshal m node = json_puts (FileInfo_members m) node"

definition FileInfo_Unmarshal :: "json \<Rightarrow> FileInfo \<Rightarrow> bool \<times> FileInfo" where
  "FileInfo_Unmarshal node m =
     (True,
      m\<lparr>fin_inode := snd (GetValue_u64 node ''inode'' (fin_inode m)),
        fin_size := snd (GetValue_i64 node ''size'' (fin_size m)),
        fin_dev := snd (GetValue_u32 node ''dev'' (fin_dev m)),
        fin_mode := snd (GetValue_u32 node ''mode'' (fin_mode m)),
        fin_uid := snd (GetValue_u32 node ''uid'' (fin_uid m)),
        fin_gid := snd (GetValue_u32 node ''gid'' (fin_gid m))\<rparr>)"

lemma file_info_read:
  assumes "holds_members node (FileInfo_members m)"
  shows "FileInfo_Unmarshal node old = (True, m)"
proof -
  have
    "GetValue_u64 node ''inode'' (fin_inode old) = (True, fin_inode m)" and
    "GetValue_i64 node ''size'' (fin_size old) = (True, fin_size m)" and
    "GetValue_u32 node ''dev'' (fin_dev old) = (True, fin_dev m)" and
    "GetValue_u32 node ''mode'' (fin_mode old) = (True, fin_mode m)" and
    "GetValue_u32 node ''uid'' (fin_uid old) = (True, fin_uid m)" and
    "GetValue_u32 node ''gid'' (fin_gid old) = (True, fin_gid m)"
    by (rule reads, rule assms, simp, simp add: FileInfo_members_def)+
  then show ?thesis by (simp add: FileInfo_Unmarshal_def)
qed

interpretation file_info: json_object FileInfo_Marshal FileInfo_Unmarshal
  by (rule json_object_by_members [OF FileInfo_Marshal_def file_info_read]) (simp_all add: FileInfo_members_def)

subsection \<open>Matrix and switches\<close>

record MatrixMetaData =
  mm_version :: "u32"
  mm_dynamic :: "u16"
  mm_statics :: "u16"
  mm_origin :: "u32"
  mm_deviceId :: "string"
  mm_dynamicInfo :: "string list"
  mm_staticsInfo :: "string list"

definition MatrixMetaData_new :: MatrixMetaData where
  "MatrixMetaData_new = \<lparr>mm_version = 0, mm_dynamic = 0, mm_statics = 0, mm_origin = 0, mm_deviceId = [], mm_dynamicInfo = [], mm_staticsInfo = []\<rparr>"

definition MatrixMetaData_members :: "MatrixMetaData \<Rightarrow> (string \<times> json) list" where
  "MatrixMetaData_members m = [
     (''version'', SetValue_u32 (mm_version m)),
     (''dynamic'', SetValue_u16 (mm_dynamic m)),
     (''statics'', SetValue_u16 (mm_statics m)),
     (''deviceId'', SetValue_string (mm_deviceId m)),
     (''dynamicInfo'', SetValue_vector SetValue_string (mm_dynamicInfo m)),
     (''staticsInfo'', SetValue_vector SetValue_string (mm_staticsInfo m)),
     (''origin'', SetValue_i32 (mm_origin m))]"

definition MatrixMetaData_Marshal :: "MatrixMetaData \<Rightarrow> json \<Rightarrow> json" where
  "MatrixMetaData_Marshal m node = json_puts (MatrixMetaData_members m) node"

definition MatrixMetaData_Unmarshal :: "json \<Rightarrow> MatrixMetaData \<Rightarrow> bool \<times> MatrixMetaData" where
  "MatrixMetaData_Unmarshal node m =
     (True,
      m\<lparr>mm_version := snd (GetValue_u32 node ''version'' (mm_version m)),
        mm_dynamic := snd (GetValue_u16 node ''dynamic'' (mm_dynamic m)),
        mm_statics := snd (GetValue_u16 node ''statics'' (mm_statics m)),
        mm_deviceId := snd (GetValue_string node ''deviceId'' (mm_deviceId m)),
        mm_dynamicInfo := snd (GetValue_vector GetValue_string [] node ''dynamicInfo'' (mm_dynamicInfo m)),
        mm_staticsInfo := snd (GetValue_vector GetValue_string [] node ''staticsInfo'' (mm_staticsInfo m)),
        mm_origin := snd (GetValue_i32 node ''origin'' (mm_origin m))\<rparr>)"

lemma matrix_meta_read:
  assumes "holds_members node (MatrixMetaData_members m)"
  shows "MatrixMetaData_Unmarshal node old = (True, m)"
proof -
  have
    "GetValue_u32 node ''version'' (mm_version old) = (True, mm_version m)" and
    "GetValue_u16 node ''dynamic'' (mm_dynamic old) = (True, mm_dynamic m)" and
    "GetValue_u16 node ''statics'' (mm_statics old) = (True, mm_statics m)" and
    "GetValue_string node ''deviceId'' (mm_deviceId old) = (True, mm_deviceId m)" and
    "GetValue_vector GetValue_string [] node ''dynamicInfo'' (mm_dynamicInfo old) = (True, mm_dynamicInfo m)" and
    "GetValue_vector GetValue_string [] node ''staticsInfo'' (mm_staticsInfo old) = (True, mm_staticsInfo m)" and
    "GetValue_i32 node ''origin'' (mm_origin old) = (True, mm_origin m)"
    by (rule reads, rule assms, simp, simp add: MatrixMetaData_members_def)+
  then show ?thesis by (simp add: MatrixMetaData_Unmarshal_def)
qed

interpretation matrix_meta: json_object MatrixMetaData_Marshal MatrixMetaData_Unmarshal
  by (rule json_object_by_members [OF MatrixMetaData_Marshal_def matrix_meta_read]) (simp_all add: MatrixMetaData_members_def)

definition Matrix_GetKey :: "MatrixMetaData \<Rightarrow> string" where
  "Matrix_GetKey m = Join ''MatrixMeta'' KEY_SEPARATOR [mm_deviceId m]"

definition Matrix_GetConsistentKey :: "MatrixMetaData \<Rightarrow> string" where
  "Matrix_GetConsistentKey m = Join ''MatrixMeta'' KEY_SEPARATOR [mm_deviceId m, ''Consistent'']"

definition Matrix_GetPrefix :: "string list \<Rightarrow> string" where
  "Matrix_GetPrefix flds = Join ''MatrixMeta'' KEY_SEPARATOR flds"

definition Matrix_eq :: "MatrixMetaData \<Rightarrow> MatrixMetaData \<Rightarrow> bool" where
  "Matrix_eq a b \<longleftrightarrow> mm_dynamic a = mm_dynamic b \<and> mm_statics a = mm_statics b \<and>
     mm_deviceId a = mm_deviceId b \<and> mm_origin a = mm_origin b"

record SwitchesMetaData =
  sw_version :: "u32"
  sw_value :: "u32"
  sw_length :: "u16"
  sw_deviceId :: "string"
  sw_networkId :: "string"

definition SwitchesMetaData_new :: SwitchesMetaData where
  "SwitchesMetaData_new = \<lparr>sw_version = 1, sw_value = 0xFFFFFFFF, sw_length = 0, sw_deviceId = [], sw_networkId = []\<rparr>"

definition SwitchesMetaData_members :: "SwitchesMetaData \<Rightarrow> (string \<times> json) list" where
  "SwitchesMetaData_members m = [
     (''version'', SetValue_u32 (sw_version m)),
     (''value'', SetValue_u32 (sw_value m)),
     (''length'', SetValue_u16 (sw_length m)),
     (''deviceId'', SetValue_string (sw_deviceId m)),
     (''networkId'', SetValue_string (sw_networkId m))]"

definition SwitchesMetaData_Marshal :: "SwitchesMetaData \<Rightarrow> json \<Rightarrow> json" where
  "SwitchesMetaData_Marshal m node = json_puts (SwitchesMetaData_members m) node"

definition SwitchesMetaData_Unmarshal :: "json \<Rightarrow> SwitchesMetaData \<Rightarrow> bool \<times> SwitchesMetaData" where
  "SwitchesMetaData_Unmarshal node m =
     (True,
      m\<lparr>sw_version := snd (GetValue_u32 node ''version'' (sw_version m)),
        sw_value := snd (GetValue_u32 node ''value'' (sw_value m)),
        sw_length := snd (GetValue_u16 node ''length'' (sw_length m)),
        sw_deviceId := snd (GetValue_string node ''deviceId'' (sw_deviceId m)),
        sw_networkId := snd (GetValue_string node ''networkId'' (sw_networkId m))\<rparr>)"

lemma switches_meta_read:
  assumes "holds_members node (SwitchesMetaData_members m)"
  shows "SwitchesMetaData_Unmarshal node old = (True, m)"
proof -
  have
    "GetValue_u32 node ''version'' (sw_version old) = (True, sw_version m)" and
    "GetValue_u32 node ''value'' (sw_value old) = (True, sw_value m)" and
    "GetValue_u16 node ''length'' (sw_length old) = (True, sw_length m)" and
    "GetValue_string node ''deviceId'' (sw_deviceId old) = (True, sw_deviceId m)" and
    "GetValue_string node ''networkId'' (sw_networkId old) = (True, sw_networkId m)"
    by (rule reads, rule assms, simp, simp add: SwitchesMetaData_members_def)+
  then show ?thesis by (simp add: SwitchesMetaData_Unmarshal_def)
qed

interpretation switches_meta: json_object SwitchesMetaData_Marshal SwitchesMetaData_Unmarshal
  by (rule json_object_by_members [OF SwitchesMetaData_Marshal_def switches_meta_read]) (simp_all add: SwitchesMetaData_members_def)

definition Switches_GetKey :: "SwitchesMetaData \<Rightarrow> string" where
  "Switches_GetKey m = Join ''SwitchesMeta'' KEY_SEPARATOR [sw_deviceId m]"

definition Switches_GetPrefix :: "string list \<Rightarrow> string" where
  "Switches_GetPrefix flds = Join ''SwitchesMeta'' KEY_SEPARATOR flds"

definition Switches_eq :: "SwitchesMetaData \<Rightarrow> SwitchesMetaData \<Rightarrow> bool" where
  "Switches_eq a b \<longleftrightarrow> sw_length a = sw_length b \<and> sw_value a = sw_value b"

subsection \<open>Results\<close>

text \<open>
  The metadata of users, strategies, bundle versions, capabilities, the device matrix and the
  switches survives being written and read, directly or through text; the result reports success.
\<close>
theorem meta_records_roundtrip:
  "UserMetaData_Unmarshal (json_norm (UserMetaData_Marshal u JNull)) u0 = (True, u) \<and>
   StrategyMeta_Unmarshal (json_norm (StrategyMeta_Marshal s JNull)) s0 = (True, s) \<and>
   BundleVersionMetaData_Unmarshal (json_norm (BundleVersionMetaData_Marshal b JNull)) b0 = (True, b) \<and>
   CapMetaData_Unmarshal (json_norm (CapMetaData_Marshal c JNull)) c0 = (True, c) \<and>
   MatrixMetaData_Unmarshal (json_norm (MatrixMetaData_Marshal m JNull)) m0 = (True, m) \<and>
   SwitchesMetaData_Unmarshal (json_norm (SwitchesMetaData_Marshal w JNull)) w0 = (True, w)"
  by (intro conjI user_meta.unmarshal_norm strategy_meta.unmarshal_norm bundle_version.unmarshal_norm
      capability_meta.unmarshal_norm matrix_meta.unmarshal_norm switches_meta.unmarshal_norm)

text \<open>
  The local metadata of a store comes back as it was written except for \<open>autoSyncSwitch\<close>, which
  keeps the value the target record had: it is never stored.
\<close>
theorem StoreMetaDataLocal_roundtrip:
  "StoreMetaDataLocal_Unmarshal (StoreMetaDataLocal_Marshal m JNull) old =
     (True, m\<lparr>sml_autoSyncSwitch := sml_autoSyncSwitch old\<rparr>)"
  unfolding StoreMetaDataLocal_Marshal_def
  by (intro store_local_read holds_puts) (simp_all add: StoreMetaDataLocal_members_def)

lemma GetPolicy_in_cases:
  "if HasPolicy_in ps t then GetPolicy_in ps t \<in> set ps \<and> pol_type (GetPolicy_in ps t) = t
   else GetPolicy_in ps t = PolicyValue_new"
  by (induction ps) auto

text \<open>
  A policy found is one of the store's and has the type asked for; for a type without a policy the
  default comes back, and the default is never in effect.
\<close>
theorem GetPolicy_correct:
  "if HasPolicy m t then GetPolicy m t \<in> set (sml_policies m) \<and> pol_type (GetPolicy m t) = t
   else \<not> IsValueEffect (GetPolicy m t) \<and> (\<forall>p. p \<in> set (sml_policies m) \<longrightarrow> pol_type p \<noteq> t)"
proof -
  have "HasPolicy_in ps t \<longleftrightarrow> (\<exists>p \<in> set ps. pol_type p = t)" for ps
    by (induction ps) auto
  then show ?thesis
    using GetPolicy_in_cases [of "sml_policies m" t]
    by (auto simp: HasPolicy_def GetPolicy_def IsValueEffect_def PolicyValue_new_def)
qed

theorem GetPolicy_correct_witness:
  "\<not> IsValueEffect (GetPolicy StoreMetaDataLocal_new 3)"
  using GetPolicy_correct [of StoreMetaDataLocal_new 3] by (simp add: HasPolicy_def StoreMetaDataLocal_new_def)

lemma occurs_at_sep:
  assumes "CHR ''#'' \<notin> set p" "CHR ''#'' \<notin> set d"
  shows "occurs_at KEY_SEPARATOR (p @ KEY_SEPARATOR @ d) i \<longleftrightarrow> i = length p"
proof
  let ?s = "p @ KEY_SEPARATOR @ d"
  assume o: "occurs_at KEY_SEPARATOR ?s i"
  have pos: "length p \<le> j \<and> j < length p + 3" if "j < length ?s" "?s ! j = CHR ''#''" for j
  proof -
    have "\<not> j < length p" using that assms(1) by (metis nth_append nth_mem)
    moreover have "j < length p + 3"
    proof (rule ccontr)
      assume "\<not> j < length p + 3"
      then have "?s ! j = d ! (j - length p - 3)" "j - length p - 3 < length d"
        using that(1) by (auto simp: nth_append KEY_SEPARATOR_def numeral_3_eq_3 nth_Cons')
      then show False using that(2) assms(2) by (metis nth_mem)
    qed
    ultimately show ?thesis by simp
  qed
  obtain zs where zs: "drop i ?s = KEY_SEPARATOR @ zs"
    using o unfolding occurs_at_def prefix_def by blast
  have l: "i + 2 < length ?s" using arg_cong [OF zs, of length] by (simp add: KEY_SEPARATOR_def)
  have "?s ! i = drop i ?s ! 0" "?s ! (i + 2) = drop i ?s ! 2" using l by (simp_all del: drop_append)
  then have "?s ! i = CHR ''#''" "?s ! (i + 2) = CHR ''#''" unfolding zs by (simp_all add: KEY_SEPARATOR_def)
  then show "i = length p" using pos [of i] pos [of "i + 2"] l by simp
next
  show "i = length p \<Longrightarrow> occurs_at KEY_SEPARATOR (p @ KEY_SEPARATOR @ d) i"
    by (simp add: occurs_at_def)
qed

lemma Split_sep:
  assumes "p \<noteq> []" "CHR ''#'' \<notin> set p" "CHR ''#'' \<notin> set d"
  shows "Split (p @ KEY_SEPARATOR @ d) KEY_SEPARATOR = Some (if d = [] then [p] else [p, d])"
proof -
  let ?s = "p @ KEY_SEPARATOR @ d"
  have f1: "str_find ?s KEY_SEPARATOR 0 = Some (length p)"
    unfolding str_find_Some occurs_at_sep [OF assms(2,3)] by simp
  have f2: "str_find ?s KEY_SEPARATOR (length p + 3) = None"
    unfolding str_find_None occurs_at_sep [OF assms(2,3)] by simp
  have "Split_loop ?s KEY_SEPARATOR (length p + 3) [p] = Some (if d = [] then [p] else [p, d])"
    using f2 by (subst Split_loop.simps) (simp add: substr_def KEY_SEPARATOR_def)
  moreover have "Split_loop ?s KEY_SEPARATOR 0 [] = Split_loop ?s KEY_SEPARATOR (length p + 3) [p]"
    using assms(1) by (subst Split_loop.simps, unfold f1) (simp add: substr_def KEY_SEPARATOR_def eval_nat_numeral)
  ultimately show ?thesis using assms(1) by (simp add: Split_def)
qed

text \<open>
  The device identifier is recovered from the key of its capability metadata.
\<close>
theorem CapMetaRow_GetDeviceId_key:
  assumes "key_part d"
  shows "CapMetaRow_GetDeviceId (CapMetaRow_GetKeyFor d) = Some d"
proof -
  have "Split (''CapabilityMeta'' @ KEY_SEPARATOR @ d) KEY_SEPARATOR =
      Some (if d = [] then [''CapabilityMeta''] else [''CapabilityMeta'', d])"
    using assms by (intro Split_sep) (simp_all add: key_part_def)
  then show ?thesis
    by (simp add: CapMetaRow_GetDeviceId_def CapMetaRow_GetKeyFor_def Concatenate_def)
qed

theorem CapMetaRow_GetDeviceId_key_witness:
  "CapMetaRow_GetDeviceId (CapMetaRow_GetKeyFor ''device-1'') = Some ''device-1''"
  by (rule CapMetaRow_GetDeviceId_key) (simp add: key_part_def)

end
