(* ===== verification/DDS_External.thy ===== *)
theory DDS_External
  imports DDS_Prelude
begin

text \<open>
  Interfaces of the code the service links against but does not contain: the LRU bucket and the
  concurrent map of the key-value utilities, the key-value delegate of the distributed database, and
  the text form of serializable objects. Each is a record of the operations the sources call, passed
  as an argument to the definitions that use it, with a predicate stating the documented behaviour
  the sources rely on and a plain instance that satisfies it.
\<close>

subsection \<open>LRUBucket\<close>

record ('k, 'v, 'c) lru_ops =
  lru_Get :: "'c \<Rightarrow> 'k \<Rightarrow> 'v option \<times> 'c"
  lru_Set :: "'c \<Rightarrow> 'k \<Rightarrow> 'v \<Rightarrow> 'c"
  lru_Delete :: "'c \<Rightarrow> 'k \<Rightarrow> 'c"
  lru_ResetCapacity :: "'c \<Rightarrow> nat \<Rightarrow> 'c"

text \<open>
  The contents of a bucket are a finite map. Reading returns what the map holds and keeps it;
  writing may evict other keys, and never invents a binding; shrinking to zero empties the bucket.
\<close>

definition lru_ok :: "('k, 'v, 'c) lru_ops \<Rightarrow> ('c \<Rightarrow> ('k \<rightharpoonup> 'v)) \<Rightarrow> bool" where
  "lru_ok L view \<longleftrightarrow>
     (\<forall>c k. fst (lru_Get L c k) = view c k \<and> view (snd (lru_Get L c k)) = view c) \<and>
     (\<forall>c k v. view (lru_Set L c k v) \<subseteq>\<^sub>m (view c)(k \<mapsto> v)) \<and>
     (\<forall>c k. view (lru_Delete L c k) = (view c)(k := None)) \<and>
     (\<forall>c. view (lru_ResetCapacity L c 0) = Map.empty) \<and>
     (\<forall>c n. view (lru_ResetCapacity L c n) \<subseteq>\<^sub>m view c)"

lemma lru_ok_Get: "lru_ok L view \<Longrightarrow> lru_Get L c k = (view c k, c') \<Longrightarrow> view c' = view c"
  unfolding lru_ok_def by (metis snd_conv)

lemma lru_ok_Get_fst: "lru_ok L view \<Longrightarrow> lru_Get L c k = (r, c') \<Longrightarrow> r = view c k \<and> view c' = view c"
  unfolding lru_ok_def by (metis fst_conv snd_conv)

lemma lru_ok_Set: "lru_ok L view \<Longrightarrow> view (lru_Set L c k v) \<subseteq>\<^sub>m (view c)(k \<mapsto> v)"
  unfolding lru_ok_def by blast

lemma lru_ok_Delete: "lru_ok L view \<Longrightarrow> view (lru_Delete L c k) = (view c)(k := None)"
  unfolding lru_ok_def by blast

lemma lru_ok_Reset0: "lru_ok L view \<Longrightarrow> view (lru_ResetCapacity L c 0) = Map.empty"
  unfolding lru_ok_def by blast

lemma lru_ok_Reset: "lru_ok L view \<Longrightarrow> view (lru_ResetCapacity L c n) \<subseteq>\<^sub>m view c"
  unfolding lru_ok_def by blast

definition map_lru :: "('k, 'v, 'k \<rightharpoonup> 'v) lru_ops" where
  "map_lru = \<lparr>lru_Get = (\<lambda>m k. (m k, m)), lru_Set = (\<lambda>m k v. m(k \<mapsto> v)),
     lru_Delete = (\<lambda>m k. m(k := None)),
     lru_ResetCapacity = (\<lambda>m n. if n = 0 then Map.empty else m)\<rparr>"

lemma map_lru_ok: "lru_ok map_lru (\<lambda>m. m)"
  by (auto simp: lru_ok_def map_lru_def map_le_def)

subsection \<open>ConcurrentMap\<close>

record ('k, 'v, 'c) cmap_ops =
  cm_ComputeIfAbsent :: "'c \<Rightarrow> 'k \<Rightarrow> 'v \<Rightarrow> bool \<times> 'c"
  cm_Find :: "'c \<Rightarrow> 'k \<Rightarrow> 'v option"
  cm_Erase :: "'c \<Rightarrow> 'k \<Rightarrow> 'c"

definition cmap_ok :: "('k, 'v, 'c, 'z) cmap_ops_scheme \<Rightarrow> ('c \<Rightarrow> ('k \<rightharpoonup> 'v)) \<Rightarrow> bool" where
  "cmap_ok M view \<longleftrightarrow>
     (\<forall>c k v. view c k = None \<longrightarrow>
        fst (cm_ComputeIfAbsent M c k v) \<and> view (snd (cm_ComputeIfAbsent M c k v)) = (view c)(k \<mapsto> v)) \<and>
     (\<forall>c k v. view c k \<noteq> None \<longrightarrow>
        \<not> fst (cm_ComputeIfAbsent M c k v) \<and> view (snd (cm_ComputeIfAbsent M c k v)) = view c) \<and>
     (\<forall>c k. cm_Find M c k = view c k) \<and>
     (\<forall>c k. view (cm_Erase M c k) = (view c)(k := None))"

definition map_cmap :: "('k, 'v, 'k \<rightharpoonup> 'v) cmap_ops" where
  "map_cmap = \<lparr>cm_ComputeIfAbsent = (\<lambda>m k v. if m k = None then (True, m(k \<mapsto> v)) else (False, m)),
     cm_Find = (\<lambda>m k. m k), cm_Erase = (\<lambda>m k. m(k := None))\<rparr>"

lemma map_cmap_ok: "cmap_ok map_cmap (\<lambda>m. m)"
  by (auto simp: cmap_ok_def map_cmap_def)

subsection \<open>KvStoreNbDelegate\<close>

datatype db_status = DB_OK | DB_NOT_FOUND | DB_CORRUPTED | DB_OTHER nat

text \<open>
  The delegate keeps two key spaces, the synchronised one (\<open>Put\<close>, \<open>Get\<close>, \<open>Delete\<close>) and the
  device-local one (\<open>PutLocal\<close>, \<open>GetLocal\<close>, \<open>DeleteLocal\<close>). The first argument of each field says
  which one is meant: \<open>True\<close> stands for the operation with \<open>Local\<close> in its name.
\<close>

record 's db_ops =
  db_Put :: "bool \<Rightarrow> 's \<Rightarrow> string \<Rightarrow> string \<Rightarrow> db_status \<times> 's"
  db_PutBatch :: "bool \<Rightarrow> 's \<Rightarrow> (string \<times> string) list \<Rightarrow> db_status \<times> 's"
  db_Get :: "bool \<Rightarrow> 's \<Rightarrow> string \<Rightarrow> db_status \<times> string"
  db_GetEntries :: "bool \<Rightarrow> 's \<Rightarrow> string \<Rightarrow> db_status \<times> (string \<times> string) list"
  db_Delete :: "bool \<Rightarrow> 's \<Rightarrow> string \<Rightarrow> db_status \<times> 's"
  db_DeleteBatch :: "bool \<Rightarrow> 's \<Rightarrow> string list \<Rightarrow> db_status \<times> 's"

text \<open>
  A write that reports success is visible, one that reports anything else changed nothing, and the
  two key spaces do not interfere. A read that reports success returns what is stored.
\<close>

definition db_ok :: "'s db_ops \<Rightarrow> (bool \<Rightarrow> 's \<Rightarrow> (string \<rightharpoonup> string)) \<Rightarrow> bool" where
  "db_ok D view \<longleftrightarrow>
     (\<forall>l s k v. case db_Put D l s k v of (st, s') \<Rightarrow>
        view l s' = (if st = DB_OK then (view l s)(k \<mapsto> v) else view l s) \<and> view (\<not> l) s' = view (\<not> l) s) \<and>
     (\<forall>l s es. case db_PutBatch D l s es of (st, s') \<Rightarrow>
        view l s' = (if st = DB_OK then view l s ++ map_of (rev es) else view l s) \<and>
        view (\<not> l) s' = view (\<not> l) s) \<and>
     (\<forall>l s k. case db_Get D l s k of (st, v) \<Rightarrow> st = DB_OK \<longrightarrow> view l s k = Some v) \<and>
     (\<forall>l s k. case db_Delete D l s k of (st, s') \<Rightarrow>
        view l s' = (if st = DB_OK then (view l s)(k := None) else view l s) \<and>
        view (\<not> l) s' = view (\<not> l) s) \<and>
     (\<forall>l s ks. case db_DeleteBatch D l s ks of (st, s') \<Rightarrow>
        view l s' = (if st = DB_OK then forget_all ks (view l s) else view l s) \<and>
        view (\<not> l) s' = view (\<not> l) s)"

text \<open>A database in working order also finds what is stored and reports what is not.\<close>

definition db_healthy :: "'s db_ops \<Rightarrow> (bool \<Rightarrow> 's \<Rightarrow> (string \<rightharpoonup> string)) \<Rightarrow> bool" where
  "db_healthy D view \<longleftrightarrow>
     (\<forall>l s k. case view l s k of
        Some v \<Rightarrow> db_Get D l s k = (DB_OK, v)
      | None \<Rightarrow> fst (db_Get D l s k) = DB_NOT_FOUND) \<and>
     (\<forall>l s k. fst (db_Delete D l s k) = DB_NOT_FOUND \<longrightarrow> view l s k = None)"

lemma db_ok_Put:
  assumes "db_ok D view" and "db_Put D l s k v = (st, s')"
  shows "view l s' = (if st = DB_OK then (view l s)(k \<mapsto> v) else view l s)"
    and "view (\<not> l) s' = view (\<not> l) s"
  using assms(1) [unfolded db_ok_def, THEN conjunct1, rule_format, of l s k v] assms(2) by simp_all

lemma db_ok_PutBatch:
  assumes "db_ok D view" and "db_PutBatch D l s es = (st, s')"
  shows "view l s' = (if st = DB_OK then view l s ++ map_of (rev es) else view l s)"
    and "view (\<not> l) s' = view (\<not> l) s"
  using assms(1) [unfolded db_ok_def, THEN conjunct2, THEN conjunct1, rule_format, of l s es] assms(2)
  by simp_all

lemma db_ok_Get:
  assumes "db_ok D view" and "db_Get D l s k = (DB_OK, v)"
  shows "view l s k = Some v"
  using assms(1) [unfolded db_ok_def, THEN conjunct2, THEN conjunct2, THEN conjunct1, rule_format, of l s k]
    assms(2) by simp

lemma db_ok_Delete:
  assumes "db_ok D view" and "db_Delete D l s k = (st, s')"
  shows "view l s' = (if st = DB_OK then (view l s)(k := None) else view l s)"
    and "view (\<not> l) s' = view (\<not> l) s"
  using assms(1) [unfolded db_ok_def, THEN conjunct2, THEN conjunct2, THEN conjunct2, THEN conjunct1,
      rule_format, of l s k] assms(2) by simp_all

lemma db_ok_DeleteBatch:
  assumes "db_ok D view" and "db_DeleteBatch D l s ks = (st, s')"
  shows "view l s' = (if st = DB_OK then forget_all ks (view l s) else view l s)"
    and "view (\<not> l) s' = view (\<not> l) s"
  using assms(1) [unfolded db_ok_def, THEN conjunct2, THEN conjunct2, THEN conjunct2, THEN conjunct2,
      rule_format, of l ks s] assms(2) by simp_all

lemma db_healthy_Some: "db_healthy D view \<Longrightarrow> view l s k = Some v \<Longrightarrow> db_Get D l s k = (DB_OK, v)"
  using db_healthy_def [of D view] by (force split: option.splits)

lemma db_healthy_None: "db_healthy D view \<Longrightarrow> view l s k = None \<Longrightarrow> fst (db_Get D l s k) = DB_NOT_FOUND"
  using db_healthy_def [of D view] by (force split: option.splits)

lemma db_healthy_Delete:
  "db_healthy D view \<Longrightarrow> fst (db_Delete D l s k) = DB_NOT_FOUND \<Longrightarrow> view l s k = None"
  by (simp add: db_healthy_def)

text \<open>The instance: two maps, one per key space.\<close>

definition map_db :: "(bool \<Rightarrow> (string \<rightharpoonup> string)) db_ops" where
  "map_db = \<lparr>
     db_Put = (\<lambda>l s k v. (DB_OK, s(l := (s l)(k \<mapsto> v)))),
     db_PutBatch = (\<lambda>l s es. (DB_OK, s(l := s l ++ map_of (rev es)))),
     db_Get = (\<lambda>l s k. case s l k of Some v \<Rightarrow> (DB_OK, v) | None \<Rightarrow> (DB_NOT_FOUND, [])),
     db_GetEntries = (\<lambda>l s p. (DB_NOT_FOUND, [])),
     db_Delete = (\<lambda>l s k. (case s l k of None \<Rightarrow> DB_NOT_FOUND | Some _ \<Rightarrow> DB_OK, s(l := (s l)(k := None)))),
     db_DeleteBatch = (\<lambda>l s ks. (DB_OK, s(l := forget_all ks (s l))))\<rparr>"

lemma map_db_ok: "db_ok map_db (\<lambda>l s. s l)"
  by (auto simp: db_ok_def map_db_def fun_upd_idem split: option.splits)

lemma map_db_healthy: "db_healthy map_db (\<lambda>l s. s l)"
  by (auto simp: db_healthy_def map_db_def split: option.splits)

subsection \<open>Text form of serializable objects\<close>

text \<open>
  \<open>Marshall\<close> writes an object as text, \<open>Unmarshall\<close> reads text into an existing object, whose fields
  keep their values where the text does not mention them.
\<close>

record 'v codec =
  Marshall :: "'v \<Rightarrow> string"
  Unmarshall :: "string \<Rightarrow> 'v \<Rightarrow> 'v"

text \<open>A value that comes back as it was written, whatever the target object held.\<close>

definition codec_rt :: "'v codec \<Rightarrow> 'v \<Rightarrow> bool" where
  "codec_rt C v \<longleftrightarrow> (\<forall>old. Unmarshall C (Marshall C v) old = v)"

lemma codec_rtD: "codec_rt C v \<Longrightarrow> Unmarshall C (Marshall C v) old = v"
  by (simp add: codec_rt_def)

definition text_codec :: "string codec" where
  "text_codec = \<lparr>Marshall = (\<lambda>v. v), Unmarshall = (\<lambda>t old. t)\<rparr>"

lemma text_codec_rt: "codec_rt text_codec v"
  by (simp add: codec_rt_def text_codec_def)

end
