(* ===== verification/Meta_Data_Manager.thy ===== *)
theory Meta_Data_Manager
  imports DDS_External "HOL-Library.Sublist"
begin

text \<open>
  The metadata manager (framework/metadata/meta_data_manager.cpp and its header). Every other service
  keeps its persistent records here: a key-value store with a synchronised and a device-local key
  space, an LRU cache in front of the local one, and observers that are told about changed keys.
  The state of the class is the record \<open>mdm\<close>; each method is one definition on it. Callbacks
  installed by clients (backup, cloud syncer) and the corruption marker are recorded in \<open>md_calls\<close>;
  \<open>md_killed\<close> records that the process was stopped.
\<close>

subsection \<open>State\<close>

datatype mdm_call = CallBackup | CallCloudSyncer | CallCreateCorruptedFlag string

datatype observer_mode = OBSERVER_CHANGES_LOCAL_ONLY | OBSERVER_CHANGES_NATIVE_FOREIGN | OBSERVER_CHANGES_CLOUD

record 'b meta_observer =
  mo_observer :: 'b
  mo_filter :: "string option"

record ('s, 'c, 'o) mdm =
  md_inited :: bool
  md_metaStore :: "'s option"
  md_metaObservers :: 'o
  md_backup :: bool
  md_syncer :: bool
  md_cloudSyncer :: bool
  md_storeId :: string
  md_localdata :: 'c
  md_killed :: bool
  md_calls :: "mdm_call list"

definition add_call :: "mdm_call \<Rightarrow> ('s, 'c, 'o) mdm \<Rightarrow> ('s, 'c, 'o) mdm" where
  "add_call c m = m\<lparr>md_calls := md_calls m @ [c]\<rparr>"

definition StopSA :: "('s, 'c, 'o) mdm \<Rightarrow> ('s, 'c, 'o) mdm" where
  "StopSA m = m\<lparr>md_killed := True\<rparr>"

definition Initialize_mdm ::
    "('s, 'c, 'o) mdm \<Rightarrow> 's option \<Rightarrow> bool \<Rightarrow> string \<Rightarrow> ('s, 'c, 'o) mdm" where
  "Initialize_mdm m metaStore backup storeId =
     (case metaStore of None \<Rightarrow> m
      | Some s \<Rightarrow> if md_inited m then m
          else m\<lparr>md_metaStore := Some s, md_backup := backup, md_storeId := storeId, md_inited := True\<rparr>)"

definition SetSyncer :: "('s, 'c, 'o) mdm \<Rightarrow> bool \<Rightarrow> ('s, 'c, 'o) mdm" where
  "SetSyncer m syncer = (if md_metaStore m = None then m else m\<lparr>md_syncer := syncer\<rparr>)"

definition SetCloudSyncer :: "('s, 'c, 'o) mdm \<Rightarrow> bool \<Rightarrow> ('s, 'c, 'o) mdm" where
  "SetCloudSyncer m cloudSyncer = (if md_metaStore m = None then m else m\<lparr>md_cloudSyncer := cloudSyncer\<rparr>)"

subsection \<open>The cache in front of the local key space\<close>

definition DelCacheMeta ::
    "(string, string, 'c) lru_ops \<Rightarrow> ('s, 'c, 'o) mdm \<Rightarrow> string \<Rightarrow> bool \<Rightarrow> ('s, 'c, 'o) mdm" where
  "DelCacheMeta L m key isLocal =
     (if \<not> isLocal then m else m\<lparr>md_localdata := lru_Delete L (md_localdata m) key\<rparr>)"

definition LoadCacheMeta ::
    "(string, string, 'c) lru_ops \<Rightarrow> 'v codec \<Rightarrow> ('s, 'c, 'o) mdm \<Rightarrow> string \<Rightarrow> 'v \<Rightarrow> bool \<Rightarrow>
     bool \<times> 'v \<times> ('s, 'c, 'o) mdm" where
  "LoadCacheMeta L C m key value isLocal =
     (if \<not> isLocal then (False, value, m)
      else case lru_Get L (md_localdata m) key of
        (None, c') \<Rightarrow> (False, value, m\<lparr>md_localdata := c'\<rparr>)
      | (Some data, c') \<Rightarrow> (True, Unmarshall C data value, m\<lparr>md_localdata := c'\<rparr>))"

definition SaveCacheMeta ::
    "(string, string, 'c) lru_ops \<Rightarrow> ('s, 'c, 'o) mdm \<Rightarrow> string \<Rightarrow> string \<Rightarrow> bool \<Rightarrow> ('s, 'c, 'o) mdm" where
  "SaveCacheMeta L m key data isLocal =
     (if \<not> isLocal then m else m\<lparr>md_localdata := lru_Set L (md_localdata m) key data\<rparr>)"

subsection \<open>Writing\<close>

text \<open>The common tail of every successful or failed write: backup callback, cloud callback.\<close>

definition after_write :: "db_status \<Rightarrow> bool \<Rightarrow> ('s, 'c, 'o) mdm \<Rightarrow> ('s, 'c, 'o) mdm" where
  "after_write status isLocal m =
     (let m1 = (if status = DB_OK \<and> md_backup m then add_call CallBackup m else m)
      in if \<not> isLocal \<and> md_cloudSyncer m1 then add_call CallCloudSyncer m1 else m1)"

definition on_corrupted :: "('s, 'c, 'o) mdm \<Rightarrow> ('s, 'c, 'o) mdm" where
  "on_corrupted m = StopSA (add_call (CallCreateCorruptedFlag (md_storeId m)) m)"

definition SaveMeta ::
    "'s db_ops \<Rightarrow> (string, string, 'c) lru_ops \<Rightarrow> 'v codec \<Rightarrow> ('s, 'c, 'o) mdm \<Rightarrow> string \<Rightarrow> 'v \<Rightarrow> bool \<Rightarrow>
     bool \<times> ('s, 'c, 'o) mdm" where
  "SaveMeta D L C m key value isLocal =
     (if \<not> md_inited m then (False, m)
      else case md_metaStore m of None \<Rightarrow> (False, StopSA m)
      | Some s \<Rightarrow>
        (case db_Put D isLocal s key (Marshall C value) of (status, s') \<Rightarrow>
          (let m1 = m\<lparr>md_metaStore := Some s'\<rparr>
           in if status = DB_CORRUPTED then (False, on_corrupted m1)
              else (status = DB_OK, DelCacheMeta L (after_write status isLocal m1) key isLocal))))"

definition SaveMeta_batch ::
    "'s db_ops \<Rightarrow> (string, string, 'c) lru_ops \<Rightarrow> ('s, 'c, 'o) mdm \<Rightarrow> (string \<times> string) list \<Rightarrow> bool \<Rightarrow>
     bool \<times> ('s, 'c, 'o) mdm" where
  "SaveMeta_batch D L m values isLocal =
     (if \<not> md_inited m then (False, m)
      else if values = [] then (True, m)
      else (let m1 = fold (\<lambda>(key, value) m. DelCacheMeta L m key isLocal) values m
        in case md_metaStore m1 of None \<Rightarrow> (False, StopSA m1)
        | Some s \<Rightarrow>
          (case db_PutBatch D isLocal s values of (status, s') \<Rightarrow>
            (let m2 = m1\<lparr>md_metaStore := Some s'\<rparr>
             in if status = DB_CORRUPTED then (False, on_corrupted m2)
                else (status = DB_OK, after_write status isLocal m2)))))"

text \<open>
  Deleting clears the cache entry first and then removes the record. The second half is a definition
  of its own, so that the order of the two halves can be talked about.
\<close>

definition DelMeta_commit ::
    "'s db_ops \<Rightarrow> ('s, 'c, 'o) mdm \<Rightarrow> string \<Rightarrow> bool \<Rightarrow> bool \<times> ('s, 'c, 'o) mdm" where
  "DelMeta_commit D m key isLocal =
     (case md_metaStore m of None \<Rightarrow> (False, StopSA m)
      | Some s \<Rightarrow>
        (case db_Delete D isLocal s key of (status, s') \<Rightarrow>
          (let m1 = m\<lparr>md_metaStore := Some s'\<rparr>
           in if status = DB_CORRUPTED then (False, on_corrupted m1)
              else (status = DB_OK \<or> status = DB_NOT_FOUND, after_write status isLocal m1))))"

definition DelMeta ::
    "'s db_ops \<Rightarrow> (string, string, 'c) lru_ops \<Rightarrow> ('s, 'c, 'o) mdm \<Rightarrow> string \<Rightarrow> bool \<Rightarrow>
     bool \<times> ('s, 'c, 'o) mdm" where
  "DelMeta D L m key isLocal =
     (if \<not> md_inited m then (False, m)
      else DelMeta_commit D (DelCacheMeta L m key isLocal) key isLocal)"

definition DelMeta_batch ::
    "'s db_ops \<Rightarrow> (string, string, 'c) lru_ops \<Rightarrow> ('s, 'c, 'o) mdm \<Rightarrow> string list \<Rightarrow> bool \<Rightarrow>
     bool \<times> ('s, 'c, 'o) mdm" where
  "DelMeta_batch D L m keys isLocal =
     (if \<not> md_inited m then (False, m)
      else if keys = [] then (True, m)
      else (let m1 = fold (\<lambda>key m. DelCacheMeta L m key isLocal) keys m
        in case md_metaStore m1 of None \<Rightarrow> (False, StopSA m1)
        | Some s \<Rightarrow>
          (case db_DeleteBatch D isLocal s keys of (status, s') \<Rightarrow>
            (let m2 = m1\<lparr>md_metaStore := Some s'\<rparr>
             in if status = DB_CORRUPTED then (False, on_corrupted m2)
                else (status = DB_OK \<or> status = DB_NOT_FOUND, after_write status isLocal m2)))))"

subsection \<open>Reading\<close>

text \<open>
  A read that misses the cache asks the store and then fills the cache. The fill is the second
  half of the method.
\<close>

definition LoadMeta_fill ::
    "(string, string, 'c) lru_ops \<Rightarrow> 'v codec \<Rightarrow> ('s, 'c, 'o) mdm \<Rightarrow> string \<Rightarrow> 'v \<Rightarrow> bool \<Rightarrow>
     db_status \<times> string \<Rightarrow> bool \<times> 'v \<times> ('s, 'c, 'o) mdm" where
  "LoadMeta_fill L C m key value isLocal fetched =
     (case fetched of (status, data) \<Rightarrow>
        if status = DB_CORRUPTED then (False, value, on_corrupted m)
        else if status \<noteq> DB_OK then (False, value, m)
        else (True, Unmarshall C data value, SaveCacheMeta L m key data isLocal))"

definition LoadMeta ::
    "'s db_ops \<Rightarrow> (string, string, 'c) lru_ops \<Rightarrow> 'v codec \<Rightarrow> ('s, 'c, 'o) mdm \<Rightarrow> string \<Rightarrow> 'v \<Rightarrow> bool \<Rightarrow>
     bool \<times> 'v \<times> ('s, 'c, 'o) mdm" where
  "LoadMeta D L C m key value isLocal =
     (if \<not> md_inited m then (False, value, m)
      else case LoadCacheMeta L C m key value isLocal of (hit, value1, m1) \<Rightarrow>
        if hit then (True, value1, m1)
        else case md_metaStore m1 of None \<Rightarrow> (False, value1, StopSA m1)
        | Some s \<Rightarrow> LoadMeta_fill L C m1 key value1 isLocal (db_Get D isLocal s key))"

definition GetEntries ::
    "'s db_ops \<Rightarrow> ('s, 'c, 'o) mdm \<Rightarrow> string \<Rightarrow> string list \<Rightarrow> bool \<Rightarrow>
     bool \<times> string list \<times> ('s, 'c, 'o) mdm" where
  "GetEntries D m pfx entries isLocal =
     (case md_metaStore m of None \<Rightarrow> (False, entries, StopSA m)
      | Some s \<Rightarrow>
        (case db_GetEntries D isLocal s pfx of (status, dbEntries) \<Rightarrow>
           if status = DB_CORRUPTED then (False, entries, on_corrupted m)
           else if status \<noteq> DB_OK \<and> status \<noteq> DB_NOT_FOUND then (False, entries, m)
           else (True, map snd dbEntries, m)))"

text \<open>
  The prefix form of \<open>LoadMeta\<close> resizes the caller's vector to the number of entries; elements that
  were already there are reused, new ones are default objects.
\<close>

fun Unmarshall_all :: "'v codec \<Rightarrow> 'v \<Rightarrow> string list \<Rightarrow> 'v list \<Rightarrow> 'v list" where
  "Unmarshall_all C fresh [] vs = []"
| "Unmarshall_all C fresh (d # ds) [] = Unmarshall C d fresh # Unmarshall_all C fresh ds []"
| "Unmarshall_all C fresh (d # ds) (v # vs) = Unmarshall C d v # Unmarshall_all C fresh ds vs"

definition LoadMeta_prefix ::
    "'s db_ops \<Rightarrow> 'v codec \<Rightarrow> 'v \<Rightarrow> ('s, 'c, 'o) mdm \<Rightarrow> string \<Rightarrow> 'v list \<Rightarrow> bool \<Rightarrow>
     bool \<times> 'v list \<times> ('s, 'c, 'o) mdm" where
  "LoadMeta_prefix D C fresh m pfx values isLocal =
     (if \<not> md_inited m then (False, values, m)
      else case GetEntries D m pfx [] isLocal of (ok, entries, m1) \<Rightarrow>
        if \<not> ok then (False, values, m1)
        else (True, Unmarshall_all C fresh entries values, m1))"

subsection \<open>Observers\<close>

record ('s, 'b) observer_ops =
  ob_RegisterObserver :: "'s \<Rightarrow> observer_mode \<Rightarrow> 'b meta_observer \<Rightarrow> db_status \<times> 's"
  ob_UnRegisterObserver :: "'s \<Rightarrow> 'b meta_observer \<Rightarrow> db_status \<times> 's"

definition register_all ::
    "('s, 'b) observer_ops \<Rightarrow> 's \<Rightarrow> bool \<Rightarrow> 'b meta_observer \<Rightarrow> db_status \<times> 's" where
  "register_all R s isLocal mo =
     (let mode = (if isLocal then OBSERVER_CHANGES_LOCAL_ONLY else OBSERVER_CHANGES_NATIVE_FOREIGN)
      in case ob_RegisterObserver R s mode mo of (status, s1) \<Rightarrow>
        if \<not> isLocal \<and> status = DB_OK then ob_RegisterObserver R s1 OBSERVER_CHANGES_CLOUD mo
        else (status, s1))"

definition Subscribe ::
    "('s, 'b) observer_ops \<Rightarrow> (string, 'b meta_observer, 'o) cmap_ops \<Rightarrow> ('s, 'c, 'o) mdm \<Rightarrow>
     string \<Rightarrow> 'b \<Rightarrow> bool \<Rightarrow> bool \<times> ('s, 'c, 'o) mdm" where
  "Subscribe R M m pfx observer isLocal =
     (if \<not> md_inited m then (False, m)
      else (let mo = \<lparr>mo_observer = observer, mo_filter = Some pfx\<rparr>
        in case cm_ComputeIfAbsent M (md_metaObservers m) pfx mo of (inserted, o1) \<Rightarrow>
          (let m1 = m\<lparr>md_metaObservers := o1\<rparr>
           in if \<not> inserted then (True, m1)
              else case md_metaStore m1 of None \<Rightarrow> (True, m1)
              | Some s \<Rightarrow>
                (case register_all R s isLocal mo of (status, s1) \<Rightarrow>
                   if status \<noteq> DB_OK
                   then (False, m1\<lparr>md_metaStore := Some (snd (ob_UnRegisterObserver R s1 mo)),
                                   md_metaObservers := cm_Erase M o1 pfx\<rparr>)
                   else (True, m1\<lparr>md_metaStore := Some s1\<rparr>)))))"

text \<open>
  \<open>Unsubscribe\<close> returns the database status converted to a Boolean: the status OK is the number 0,
  so a successful removal yields false.
\<close>

definition Unsubscribe ::
    "('s, 'b) observer_ops \<Rightarrow> (string, 'b meta_observer, 'o) cmap_ops \<Rightarrow> ('s, 'c, 'o) mdm \<Rightarrow>
     string \<Rightarrow> bool \<times> ('s, 'c, 'o) mdm" where
  "Unsubscribe R M m flt =
     (if \<not> md_inited m then (False, m)
      else case cm_Find M (md_metaObservers m) flt of None \<Rightarrow> (True, m)
      | Some mo \<Rightarrow>
        (let m1 = m\<lparr>md_metaObservers := cm_Erase M (md_metaObservers m) flt\<rparr>
         in case md_metaStore m1 of None \<Rightarrow> (True, m1)
         | Some s \<Rightarrow>
           (case ob_UnRegisterObserver R s mo of (status, s1) \<Rightarrow>
              (status \<noteq> DB_OK, m1\<lparr>md_metaStore := Some s1\<rparr>))))"

datatype meta_action = ACT_INSERT | ACT_UPDATE | ACT_DELETE

definition Filter_matches :: "string \<Rightarrow> string \<Rightarrow> bool" where
  "Filter_matches pattern key = prefix pattern key"

definition OnChange_entries ::
    "'b meta_observer \<Rightarrow> (string \<times> string) list \<Rightarrow> (string \<times> string) list \<Rightarrow> (string \<times> string) list \<Rightarrow>
     (string \<times> string \<times> meta_action) list" where
  "OnChange_entries mo inserted updated deleted =
     (case mo_filter mo of None \<Rightarrow> []
      | Some pattern \<Rightarrow>
        concat (map (\<lambda>(entries, action).
            map (\<lambda>(key, value). (key, value, action)) (filter (\<lambda>(key, _). Filter_matches pattern key) entries))
          [(inserted, ACT_INSERT), (updated, ACT_UPDATE), (deleted, ACT_DELETE)]))"

text \<open>Primary keys arrive as database values; only a non-empty row that starts with a string is reported.\<close>

datatype db_value = DV_string string | DV_other

fun HandleChanges ::
    "'b meta_observer \<Rightarrow> meta_action \<Rightarrow> db_value list list \<Rightarrow> (string \<times> string \<times> meta_action) list" where
  "HandleChanges mo flag priData =
     (case mo_filter mo of None \<Rightarrow> []
      | Some pattern \<Rightarrow>
        concat (map (\<lambda>priKey. case priKey of
            [] \<Rightarrow> []
          | DV_string key # _ \<Rightarrow> if Filter_matches pattern key then [(key, '''', flag)] else []
          | DV_other # _ \<Rightarrow> []) priData))"

definition OnChange_primary ::
    "'b meta_observer \<Rightarrow> db_value list list \<Rightarrow> db_value list list \<Rightarrow> db_value list list \<Rightarrow>
     (string \<times> string \<times> meta_action) list" where
  "OnChange_primary mo inserted updated deleted =
     HandleChanges mo ACT_INSERT inserted @ HandleChanges mo ACT_UPDATE updated @
     HandleChanges mo ACT_DELETE deleted"

subsection \<open>What the operations leave alone\<close>

lemma helpers_frame [simp, dds_meta]:
  "md_metaStore (add_call c m) = md_metaStore m" "md_localdata (add_call c m) = md_localdata m"
  "md_inited (add_call c m) = md_inited m" "md_cloudSyncer (add_call c m) = md_cloudSyncer m"
  "md_metaStore (StopSA m) = md_metaStore m" "md_localdata (StopSA m) = md_localdata m"
  "md_inited (StopSA m) = md_inited m"
  "md_metaStore (on_corrupted m) = md_metaStore m" "md_localdata (on_corrupted m) = md_localdata m"
  "md_inited (on_corrupted m) = md_inited m"
  "md_metaStore (after_write st l m) = md_metaStore m" "md_localdata (after_write st l m) = md_localdata m"
  "md_inited (after_write st l m) = md_inited m"
  by (simp_all add: add_call_def StopSA_def on_corrupted_def after_write_def Let_def)

lemma DelCacheMeta_frame [simp, dds_meta]:
  "md_metaStore (DelCacheMeta L m k l) = md_metaStore m" "md_inited (DelCacheMeta L m k l) = md_inited m"
  "md_localdata (DelCacheMeta L m k l) = (if l then lru_Delete L (md_localdata m) k else md_localdata m)"
  by (simp_all add: DelCacheMeta_def)

lemma SaveCacheMeta_frame [simp, dds_meta]:
  "md_metaStore (SaveCacheMeta L m k d l) = md_metaStore m" "md_inited (SaveCacheMeta L m k d l) = md_inited m"
  "md_localdata (SaveCacheMeta L m k d l) = (if l then lru_Set L (md_localdata m) k d else md_localdata m)"
  by (simp_all add: SaveCacheMeta_def)

lemma fold_DelCacheMeta_frame [simp]:
  "md_metaStore (fold (\<lambda>key m. DelCacheMeta L m key l) ks m) = md_metaStore m"
  "md_inited (fold (\<lambda>key m. DelCacheMeta L m key l) ks m) = md_inited m"
  "\<not> l \<Longrightarrow> md_localdata (fold (\<lambda>key m. DelCacheMeta L m key l) ks m) = md_localdata m"
  by (induction ks arbitrary: m) simp_all

lemma fold_DelCacheMeta_view:
  "lru_ok L lv \<Longrightarrow> lv (md_localdata (fold (\<lambda>key m. DelCacheMeta L m key True) ks m)) =
     forget_all ks (lv (md_localdata m))"
  by (induction ks arbitrary: m) (simp_all add: lru_ok_Delete forget_all_Cons fun_upd_def)

lemma fold_pairs: "fold (\<lambda>(k, v) m. DelCacheMeta L m k l) es m = fold (\<lambda>k m. DelCacheMeta L m k l) (map fst es) m"
  by (induction es arbitrary: m) auto

subsection \<open>Coherence of the cache\<close>

text \<open>
  The invariant of the class: whatever the cache holds for a key is what the local key space holds.
  It is stated over the views of the database (\<open>dv\<close>) and of the LRU bucket (\<open>lv\<close>).
\<close>

definition mdm_coherent ::
    "(bool \<Rightarrow> 's \<Rightarrow> (string \<rightharpoonup> string)) \<Rightarrow> ('c \<Rightarrow> (string \<rightharpoonup> string)) \<Rightarrow> ('s, 'c, 'o) mdm \<Rightarrow> bool" where
  "mdm_coherent dv lv m \<longleftrightarrow>
     (case md_metaStore m of None \<Rightarrow> lv (md_localdata m) = Map.empty
      | Some s \<Rightarrow> lv (md_localdata m) \<subseteq>\<^sub>m dv True s)"

lemma coherent_cong:
  "md_metaStore m' = md_metaStore m \<Longrightarrow> lv (md_localdata m') = lv (md_localdata m) \<Longrightarrow>
   mdm_coherent dv lv m' = mdm_coherent dv lv m"
  by (metis mdm_coherent_def)

lemma SaveMeta_coherent [dds_inv]:
  assumes "db_ok D dv" "lru_ok L lv" "mdm_coherent dv lv m"
  shows "mdm_coherent dv lv (snd (SaveMeta D L C m k v l))"
proof (cases "md_inited m \<and> md_metaStore m \<noteq> None")
  case True
  then obtain s where s: "md_metaStore m = Some s" by auto
  obtain st s' where p: "db_Put D l s k (Marshall C v) = (st, s')" by fastforce
  note P = db_ok_Put [OF assms(1) p]
  show ?thesis
    using True s p P assms(3)
    by (cases l) (auto simp: SaveMeta_def mdm_coherent_def Let_def lru_ok_Delete [OF assms(2)]
        dest: map_le_forget)
next
  case False
  with assms(3) show ?thesis by (auto simp: SaveMeta_def mdm_coherent_def split: option.splits)
qed

lemma SaveMeta_batch_coherent [dds_inv]:
  assumes "db_ok D dv" "lru_ok L lv" "mdm_coherent dv lv m"
  shows "mdm_coherent dv lv (snd (SaveMeta_batch D L m es l))"
proof (cases "md_inited m \<and> es \<noteq> [] \<and> md_metaStore m \<noteq> None")
  case True
  then obtain s where s: "md_metaStore m = Some s" by auto
  obtain st s' where p: "db_PutBatch D l s es = (st, s')" by fastforce
  note P = db_ok_PutBatch [OF assms(1) p]
  have le: "forget_all (map fst es) x \<subseteq>\<^sub>m y ++ map_of (rev es)" if "x \<subseteq>\<^sub>m y" for x y :: "string \<rightharpoonup> string"
    using forget_all_le_map_upds [OF that, of "rev es"] by (simp add: forget_all_def)
  show ?thesis
    using True s p P assms(3)
    by (cases l) (auto simp: SaveMeta_batch_def mdm_coherent_def Let_def fold_pairs
        fold_DelCacheMeta_view [OF assms(2)] intro: le forget_all_le)
next
  case False
  with assms(3) show ?thesis
    by (auto simp: SaveMeta_batch_def mdm_coherent_def fold_pairs fold_DelCacheMeta_view [OF assms(2)]
        forget_all_def restrict_map_def Let_def split: option.splits) (cases l; simp add:
        fold_DelCacheMeta_view [OF assms(2)] forget_all_def restrict_map_def)+
qed

lemma DelMeta_coherent [dds_inv]:
  assumes "db_ok D dv" "lru_ok L lv" "mdm_coherent dv lv m"
  shows "mdm_coherent dv lv (snd (DelMeta D L m k l))"
proof (cases "md_inited m \<and> md_metaStore m \<noteq> None")
  case True
  then obtain s where s: "md_metaStore m = Some s" by auto
  obtain st s' where p: "db_Delete D l s k = (st, s')" by fastforce
  note P = db_ok_Delete [OF assms(1) p]
  show ?thesis
    using True s p P assms(3)
    by (cases l) (auto simp: DelMeta_def DelMeta_commit_def mdm_coherent_def Let_def
        lru_ok_Delete [OF assms(2)] dest: map_le_forget)
next
  case False
  with assms(3) show ?thesis
    by (auto simp: DelMeta_def DelMeta_commit_def mdm_coherent_def lru_ok_Delete [OF assms(2)]
        split: option.splits)
qed

lemma DelMeta_batch_coherent [dds_inv]:
  assumes "db_ok D dv" "lru_ok L lv" "mdm_coherent dv lv m"
  shows "mdm_coherent dv lv (snd (DelMeta_batch D L m ks l))"
proof (cases "md_inited m \<and> ks \<noteq> [] \<and> md_metaStore m \<noteq> None")
  case True
  then obtain s where s: "md_metaStore m = Some s" by auto
  obtain st s' where p: "db_DeleteBatch D l s ks = (st, s')" by fastforce
  note P = db_ok_DeleteBatch [OF assms(1) p]
  show ?thesis
    using True s p P assms(3)
    by (cases l) (auto simp: DelMeta_batch_def mdm_coherent_def Let_def
        fold_DelCacheMeta_view [OF assms(2)] intro: forget_all_le forget_all_le_forget)
next
  case False
  with assms(3) show ?thesis
    by (cases l) (auto simp: DelMeta_batch_def mdm_coherent_def fold_DelCacheMeta_view [OF assms(2)]
        forget_all_def restrict_map_def Let_def split: option.splits)
qed

lemma LoadCacheMeta_spec:
  assumes "lru_ok L lv" "LoadCacheMeta L C m k v l = (hit, v', m')"
  shows "md_metaStore m' = md_metaStore m" "md_inited m' = md_inited m"
    "lv (md_localdata m') = lv (md_localdata m)"
    "hit \<longleftrightarrow> l \<and> lv (md_localdata m) k \<noteq> None"
    "v' = (case if l then lv (md_localdata m) k else None of None \<Rightarrow> v | Some d \<Rightarrow> Unmarshall C d v)"
  using assms(2) lru_ok_Get_fst [OF assms(1)]
  by (auto simp: LoadCacheMeta_def split: if_splits prod.splits option.splits)

lemma LoadMeta_coherent [dds_inv]:
  assumes "db_ok D dv" "lru_ok L lv" "mdm_coherent dv lv m"
  shows "mdm_coherent dv lv (snd (snd (LoadMeta D L C m k v l)))"
proof -
  obtain hit v1 m1 where c: "LoadCacheMeta L C m k v l = (hit, v1, m1)" by (metis prod_cases3)
  note S = LoadCacheMeta_spec [OF assms(2) c]
  have coh: "mdm_coherent dv lv m1" using assms(3) S(1,3) by (metis coherent_cong)
  have fill: "mdm_coherent dv lv (snd (snd (LoadMeta_fill L C m1 k v1 l (db_Get D l s k))))"
    if s: "md_metaStore m1 = Some s" for s
  proof (cases "db_Get D l s k")
    case (Pair st d)
    have "lv (lru_Set L (md_localdata m1) k d) \<subseteq>\<^sub>m dv True s" if "l" "st = DB_OK"
      using map_le_trans [OF lru_ok_Set [OF assms(2)] map_le_insert] coh s
        db_ok_Get [OF assms(1)] Pair that by (fastforce simp: mdm_coherent_def)
    with coh s Pair show ?thesis
      by (cases l) (auto simp: LoadMeta_fill_def mdm_coherent_def)
  qed
  show ?thesis
    using assms(3) coh c fill
    by (auto simp: LoadMeta_def mdm_coherent_def split: option.splits)
qed

subsection \<open>Sequences of requests\<close>

datatype ('s, 'v) mdm_req =
    ReqInitialize "'s option" bool string
  | ReqSave string 'v bool
  | ReqSaveBatch "(string \<times> string) list" bool
  | ReqLoad string 'v bool
  | ReqDel string bool
  | ReqDelBatch "string list" bool

fun mdm_step ::
    "'s db_ops \<Rightarrow> (string, string, 'c) lru_ops \<Rightarrow> 'v codec \<Rightarrow> ('s, 'c, 'o) mdm \<Rightarrow> ('s, 'v) mdm_req \<Rightarrow>
     ('s, 'c, 'o) mdm" where
  "mdm_step D L C m (ReqInitialize s b i) = Initialize_mdm m s b i"
| "mdm_step D L C m (ReqSave k v l) = snd (SaveMeta D L C m k v l)"
| "mdm_step D L C m (ReqSaveBatch es l) = snd (SaveMeta_batch D L m es l)"
| "mdm_step D L C m (ReqLoad k v l) = snd (snd (LoadMeta D L C m k v l))"
| "mdm_step D L C m (ReqDel k l) = snd (DelMeta D L m k l)"
| "mdm_step D L C m (ReqDelBatch ks l) = snd (DelMeta_batch D L m ks l)"

definition mdm_inv ::
    "(bool \<Rightarrow> 's \<Rightarrow> (string \<rightharpoonup> string)) \<Rightarrow> ('c \<Rightarrow> (string \<rightharpoonup> string)) \<Rightarrow> ('s, 'c, 'o) mdm \<Rightarrow> bool" where
  "mdm_inv dv lv m \<longleftrightarrow> (\<not> md_inited m \<longrightarrow> md_metaStore m = None) \<and> mdm_coherent dv lv m"

lemma Initialize_mdm_inv [dds_inv]: "mdm_inv dv lv m \<Longrightarrow> mdm_inv dv lv (Initialize_mdm m s b i)"
  by (auto simp: mdm_inv_def mdm_coherent_def Initialize_mdm_def split: option.splits)

lemma LoadMeta_store_frame:
  assumes "lru_ok L lv"
  shows "md_metaStore (snd (snd (LoadMeta D L C m k v l))) = md_metaStore m"
    and "md_inited (snd (snd (LoadMeta D L C m k v l))) = md_inited m"
proof -
  obtain hit v1 m1 where c: "LoadCacheMeta L C m k v l = (hit, v1, m1)" by (metis prod_cases3)
  note S = LoadCacheMeta_spec [OF assms c]
  show "md_metaStore (snd (snd (LoadMeta D L C m k v l))) = md_metaStore m"
    and "md_inited (snd (snd (LoadMeta D L C m k v l))) = md_inited m"
    using c S(1,2) by (auto simp: LoadMeta_def LoadMeta_fill_def split: option.splits prod.splits)
qed

lemma writes_uninited:
  "\<not> md_inited m \<Longrightarrow> SaveMeta D L C m k v l = (False, m)"
  "\<not> md_inited m \<Longrightarrow> SaveMeta_batch D L m es l = (False, m)"
  "\<not> md_inited m \<Longrightarrow> DelMeta D L m k l = (False, m)"
  "\<not> md_inited m \<Longrightarrow> DelMeta_batch D L m ks l = (False, m)"
  by (simp_all add: SaveMeta_def SaveMeta_batch_def DelMeta_def DelMeta_batch_def)

lemma writes_inited:
  "md_inited (snd (SaveMeta D L C m k v l)) = md_inited m"
  "md_inited (snd (SaveMeta_batch D L m es l)) = md_inited m"
  "md_inited (snd (DelMeta D L m k l)) = md_inited m"
  "md_inited (snd (DelMeta_batch D L m ks l)) = md_inited m"
  by (auto simp: SaveMeta_def SaveMeta_batch_def DelMeta_def DelMeta_batch_def DelMeta_commit_def
      fold_pairs Let_def split: option.splits prod.splits)

lemma mdm_step_inv:
  assumes "db_ok D dv" "lru_ok L lv" "mdm_inv dv lv m"
  shows "mdm_inv dv lv (mdm_step D L C m r)"
proof (cases r)
  case (ReqInitialize s b i)
  with assms show ?thesis by (simp add: Initialize_mdm_inv)
next
  case (ReqLoad k v l)
  with assms show ?thesis
    by (simp add: mdm_inv_def LoadMeta_coherent [OF assms(1,2)] LoadMeta_store_frame [OF assms(2)])
qed (use assms in \<open>auto simp: mdm_inv_def writes_uninited writes_inited intro: dds_inv\<close>)

interpretation mdm_runs: transition_system "mdm_step D L C"
    "\<lambda>m. db_ok D dv \<and> lru_ok L lv \<longrightarrow> mdm_inv dv lv m" for D L C dv lv
  by unfold_locales (auto intro: mdm_step_inv)

subsection \<open>What a read returns\<close>

lemma LoadMeta_reads:
  assumes db: "db_ok D dv" "db_healthy D dv" and lru: "lru_ok L lv"
    and m: "md_inited m" "md_metaStore m = Some s" "mdm_coherent dv lv m"
  shows "fst (LoadMeta D L C m k v l) = (dv l s k \<noteq> None)"
    and "fst (snd (LoadMeta D L C m k v l)) = (case dv l s k of None \<Rightarrow> v | Some d \<Rightarrow> Unmarshall C d v)"
proof -
  obtain hit v1 m1 where c: "LoadCacheMeta L C m k v l = (hit, v1, m1)" by (metis prod_cases3)
  note S = LoadCacheMeta_spec [OF lru c]
  have cached: "dv True s k = Some d" if "lv (md_localdata m) k = Some d" for d
    using m that by (auto simp: mdm_coherent_def dest: map_le_SomeD)
  have "fst (LoadMeta D L C m k v l) = (dv l s k \<noteq> None) \<and>
    fst (snd (LoadMeta D L C m k v l)) = (case dv l s k of None \<Rightarrow> v | Some d \<Rightarrow> Unmarshall C d v)"
  proof (cases hit)
    case True
    with S(4) obtain d where "l" "lv (md_localdata m) k = Some d" by auto
    with True c S(5) m cached [of d] show ?thesis by (simp add: LoadMeta_def)
  next
    case False
    with S(4,5) have v1: "v1 = v" by (auto split: option.splits)
    show ?thesis
    proof (cases "dv l s k")
      case None
      with db_healthy_None [OF db(2) None] show ?thesis
        using False c m S(1) v1 by (cases "db_Get D l s k") (simp add: LoadMeta_def LoadMeta_fill_def)
    next
      case (Some d)
      with db_healthy_Some [OF db(2) Some] show ?thesis
        using False c m S(1) v1 by (simp add: LoadMeta_def LoadMeta_fill_def)
    qed
  qed
  then show "fst (LoadMeta D L C m k v l) = (dv l s k \<noteq> None)"
    and "fst (snd (LoadMeta D L C m k v l)) = (case dv l s k of None \<Rightarrow> v | Some d \<Rightarrow> Unmarshall C d v)"
    by simp_all
qed

lemma SaveMeta_store:
  assumes "db_ok D dv" "md_inited m" "md_metaStore m = Some s" "fst (SaveMeta D L C m k v l)"
  obtains s' where "md_metaStore (snd (SaveMeta D L C m k v l)) = Some s'"
    "dv l s' = (dv l s)(k \<mapsto> Marshall C v)" "dv (\<not> l) s' = dv (\<not> l) s"
proof (cases "db_Put D l s k (Marshall C v)")
  case (Pair st s')
  note P = db_ok_Put [OF assms(1) Pair]
  show ?thesis
    using assms(2,3,4) Pair P by (intro that [of s']) (auto simp: SaveMeta_def Let_def split: if_splits)
qed

lemma DelMeta_store:
  assumes "db_ok D dv" "db_healthy D dv" "md_inited m" "md_metaStore m = Some s" "fst (DelMeta D L m k l)"
  obtains s' where "md_metaStore (snd (DelMeta D L m k l)) = Some s'"
    "dv l s' k = None" "\<And>k'. k' \<noteq> k \<Longrightarrow> dv l s' k' = dv l s k'"
proof (cases "db_Delete D l s k")
  case (Pair st s')
  note P = db_ok_Delete [OF assms(1) Pair]
  have "dv l s k = None" if "st = DB_NOT_FOUND"
    using db_healthy_Delete [OF assms(2), of l s k] Pair that by simp
  with assms(3,4,5) Pair P show ?thesis
    by (intro that [of s']) (auto simp: DelMeta_def DelMeta_commit_def Let_def split: if_splits)
qed

lemma save_then_load:
  assumes "db_ok D dv" and "db_healthy D dv" and "lru_ok L lv" and "codec_rt C v"
    and "md_inited m" and "md_metaStore m = Some s" and "mdm_coherent dv lv m"
    and "fst (SaveMeta D L C m key v l)"
  shows "fst (LoadMeta D L C (snd (SaveMeta D L C m key v l)) key old l)
    \<and> fst (snd (LoadMeta D L C (snd (SaveMeta D L C m key v l)) key old l)) = v
    \<and> (key' \<noteq> key \<longrightarrow> fst (LoadMeta D L C (snd (SaveMeta D L C m key v l)) key' old l) = (dv l s key' \<noteq> None))"
proof -
  let ?m = "snd (SaveMeta D L C m key v l)"
  obtain s' where s': "md_metaStore ?m = Some s'" "dv l s' = (dv l s)(key \<mapsto> Marshall C v)"
    using SaveMeta_store [OF assms(1,5,6,8)] by metis
  note R = LoadMeta_reads [OF assms(1,2,3) _ s'(1) SaveMeta_coherent [OF assms(1,3,7)], of C _ old l]
  show ?thesis
    using R assms(5) s'(2) codec_rtD [OF assms(4)] by (simp add: writes_inited)
qed

subsection \<open>Properties\<close>

text \<open>C1: no sequence of saves, batch saves, loads, deletes and (re)initialisations of the metadata
  manager ever leaves a stale entry in its cache: whatever the cache holds for a key is what the local
  key space of the database holds, on the documented behaviour of the database and the LRU bucket.\<close>

theorem mdm_cache_coherent:
  assumes "db_ok D dv" and "lru_ok L lv" and "mdm_inv dv lv m"
  shows "mdm_inv dv lv (run_steps (mdm_step D L C) m rs)"
  using mdm_runs.inv_run [of D dv L lv m C rs] assms by blast

definition mdm_fresh :: "(bool \<Rightarrow> string \<rightharpoonup> string, string \<rightharpoonup> string, unit) mdm" where
  "mdm_fresh = \<lparr>md_inited = False, md_metaStore = None, md_metaObservers = (), md_backup = False,
     md_syncer = False, md_cloudSyncer = False, md_storeId = [], md_localdata = Map.empty,
     md_killed = False, md_calls = []\<rparr>"

lemma mdm_fresh_inv: "mdm_inv (\<lambda>l s. s l) (\<lambda>c. c) mdm_fresh"
  by (simp add: mdm_inv_def mdm_coherent_def mdm_fresh_def)

theorem mdm_cache_coherent_witness:
  "mdm_inv (\<lambda>l s. s l) (\<lambda>c. c) (run_steps (mdm_step map_db map_lru text_codec) mdm_fresh
     [ReqInitialize (Some (\<lambda>_. Map.empty)) True ''meta'', ReqSave ''k'' ''a'' True, ReqLoad ''k'' [] True,
      ReqSave ''k'' ''b'' True, ReqDel ''k'' True])"
  by (rule mdm_cache_coherent [OF map_db_ok map_lru_ok mdm_fresh_inv])

text \<open>a record saved under a key is what a later load of that key returns, in the local and in the
  synchronised key space alike and whatever the object the caller loads into held before; a load
  of another key still returns what the store holds for that key.\<close>

theorem SaveMeta_LoadMeta:
  assumes "db_ok D dv" and "db_healthy D dv" and "lru_ok L lv" and "codec_rt C v"
    and "md_inited m" and "md_metaStore m = Some s" and "mdm_coherent dv lv m"
    and "fst (SaveMeta D L C m key v l)"
  shows "fst (LoadMeta D L C (snd (SaveMeta D L C m key v l)) key old l)
    \<and> fst (snd (LoadMeta D L C (snd (SaveMeta D L C m key v l)) key old l)) = v
    \<and> (key' \<noteq> key \<longrightarrow> fst (LoadMeta D L C (snd (SaveMeta D L C m key v l)) key' old l) = (dv l s key' \<noteq> None))"
  by (rule save_then_load [OF assms])

definition mdm_ready :: "(bool \<Rightarrow> string \<rightharpoonup> string, string \<rightharpoonup> string, unit) mdm" where
  "mdm_ready = Initialize_mdm mdm_fresh (Some (\<lambda>_. Map.empty)) True ''meta''"

lemma mdm_ready_simps:
  "md_inited mdm_ready" "md_metaStore mdm_ready = Some (\<lambda>_. Map.empty)"
  "mdm_coherent (\<lambda>l s. s l) (\<lambda>c. c) mdm_ready"
  by (simp_all add: mdm_ready_def Initialize_mdm_def mdm_fresh_def mdm_coherent_def)

theorem SaveMeta_LoadMeta_witness:
  "fst (snd (LoadMeta map_db map_lru text_codec (snd (SaveMeta map_db map_lru text_codec mdm_ready ''k'' ''v'' True))
     ''k'' ''old'' True)) = ''v''"
proof -
  have "fst (SaveMeta map_db map_lru text_codec mdm_ready ''k'' ''v'' True)"
    by (simp add: SaveMeta_def mdm_ready_simps map_db_def Let_def)
  from SaveMeta_LoadMeta [OF map_db_ok map_db_healthy map_lru_ok text_codec_rt mdm_ready_simps this, of "''old''" "''x''"]
  show ?thesis by (elim conjE)
qed

text \<open>a record deleted successfully is gone: a later load of its key reports failure and leaves the
  caller's object as it was, even when the record had been cached before.\<close>

theorem DelMeta_LoadMeta:
  assumes "db_ok D dv" and "db_healthy D dv" and "lru_ok L lv"
    and "md_inited m" and "md_metaStore m = Some s" and "mdm_coherent dv lv m"
    and "fst (DelMeta D L m key l)"
  shows "fst (LoadMeta D L C (snd (DelMeta D L m key l)) key old l) = False
    \<and> fst (snd (LoadMeta D L C (snd (DelMeta D L m key l)) key old l)) = old"
proof -
  let ?m = "snd (DelMeta D L m key l)"
  obtain s' where s': "md_metaStore ?m = Some s'" "dv l s' key = None"
    using DelMeta_store [OF assms(1,2,4,5,7)] by metis
  note R = LoadMeta_reads [OF assms(1,2,3) _ s'(1) DelMeta_coherent [OF assms(1,3,6)], of C key old l]
  show ?thesis using R assms(4) s'(2) by (simp add: writes_inited)
qed

theorem DelMeta_LoadMeta_witness:
  "fst (LoadMeta map_db map_lru text_codec (snd (DelMeta map_db map_lru mdm_ready ''k'' True)) ''k'' ''old'' True) = False"
proof -
  have "fst (DelMeta map_db map_lru mdm_ready ''k'' True)"
    by (simp add: DelMeta_def DelMeta_commit_def mdm_ready_simps map_db_def Let_def)
  from DelMeta_LoadMeta [OF map_db_ok map_db_healthy map_lru_ok mdm_ready_simps this, of text_codec "''old''"]
  show ?thesis by (elim conjE)
qed

text \<open>the manager takes no lock around its cache, and \<open>DelMeta\<close> clears the cache entry before it removes
  the record. When another thread's \<open>LoadMeta\<close> of the same local key runs between the two halves,
  its cache fill survives the removal: the key is gone from the database, \<open>DelMeta\<close> reports success,
  and yet every later load still returns the deleted record.\<close>

theorem DelMeta_LoadMeta_race:
  assumes "md_inited m" and "md_metaStore m = Some s" and "s True k = Some v"
  shows "case DelMeta_commit map_db (snd (snd (LoadMeta map_db map_lru text_codec (DelCacheMeta map_lru m k True) k [] True))) k True of
     (deleted, m') \<Rightarrow>
       deleted \<and> the (md_metaStore m') True k = None
       \<and> fst (LoadMeta map_db map_lru text_codec m' k [] True)
       \<and> fst (snd (LoadMeta map_db map_lru text_codec m' k [] True)) = v
       \<and> \<not> mdm_coherent (\<lambda>l s. s l) (\<lambda>c. c) m'"
proof -
  let ?m1 = "DelCacheMeta map_lru m k True"
  let ?m2 = "SaveCacheMeta map_lru ?m1 k v True"
  have cache: "lru_Get map_lru c k = (c k, c)" for c :: "string \<rightharpoonup> string"
    by (simp add: map_lru_def)
  have load: "snd (snd (LoadMeta map_db map_lru text_codec ?m1 k [] True)) = ?m2"
    using assms by (simp add: LoadMeta_def LoadCacheMeta_def LoadMeta_fill_def cache)
      (simp add: map_lru_def map_db_def LoadMeta_fill_def DelCacheMeta_def SaveCacheMeta_def)
  obtain m' where m': "DelMeta_commit map_db ?m2 k True = (True, m')" "md_inited m'"
      "md_metaStore m' = Some (s(True := (s True)(k := None)))" "md_localdata m' k = Some v"
    using assms by (simp add: DelMeta_commit_def map_db_def Let_def) (simp add: map_lru_def)
  have "LoadMeta map_db map_lru text_codec m' k [] True = (True, v, m')"
    using m' by (simp add: LoadMeta_def LoadCacheMeta_def cache text_codec_def)
  moreover have "\<not> mdm_coherent (\<lambda>l s. s l) (\<lambda>c. c) m'"
    using m' by (auto simp: mdm_coherent_def map_le_def)
  ultimately show ?thesis using load m' by simp
qed

theorem DelMeta_LoadMeta_race_witness:
  "\<exists>m'. DelMeta_commit map_db (snd (snd (LoadMeta map_db map_lru text_codec
       (DelCacheMeta map_lru (mdm_ready\<lparr>md_metaStore := Some (\<lambda>_. [''k'' \<mapsto> ''v''])\<rparr>) ''k'' True) ''k'' [] True))) ''k'' True = (True, m')
     \<and> fst (snd (LoadMeta map_db map_lru text_codec m' ''k'' [] True)) = ''v''"
  using DelMeta_LoadMeta_race [of "mdm_ready\<lparr>md_metaStore := Some (\<lambda>_. [''k'' \<mapsto> ''v''])\<rparr>" "\<lambda>_. [''k'' \<mapsto> ''v'']" "''k''" "''v''"]
    mdm_ready_simps(1) by (auto split: prod.splits)

text \<open>observers are keyed by their prefix alone. Once an observer is registered for a prefix, a further
  \<open>Subscribe\<close> with the same prefix reports success without registering anything, also when it asks
  for the other key space: the first observer stays, the database is not told about the second.\<close>

theorem Subscribe_same_prefix_ignored:
  assumes "cmap_ok M mv" and "md_inited m" and "mv (md_metaObservers m) pfx = Some mo"
  shows "fst (Subscribe R M m pfx observer isLocal)
    \<and> md_metaStore (snd (Subscribe R M m pfx observer isLocal)) = md_metaStore m
    \<and> mv (md_metaObservers (snd (Subscribe R M m pfx observer isLocal))) = mv (md_metaObservers m)"
proof -
  obtain ins o1 where c: "cm_ComputeIfAbsent M (md_metaObservers m) pfx
      \<lparr>mo_observer = observer, mo_filter = Some pfx\<rparr> = (ins, o1)" by fastforce
  then have "\<not> ins \<and> mv o1 = mv (md_metaObservers m)"
    using assms(1,3) unfolding cmap_ok_def by (metis fst_conv option.discI snd_conv)
  with c assms(2) show ?thesis by (simp add: Subscribe_def Let_def)
qed

definition accept_all :: "(unit, nat) observer_ops" where
  "accept_all = \<lparr>ob_RegisterObserver = (\<lambda>s mode mo. (DB_OK, s)), ob_UnRegisterObserver = (\<lambda>s mo. (DB_OK, s))\<rparr>"

definition mdm_observed :: "(unit, unit, string \<rightharpoonup> nat meta_observer) mdm" where
  "mdm_observed = \<lparr>md_inited = True, md_metaStore = Some (), md_metaObservers = Map.empty, md_backup = False,
     md_syncer = False, md_cloudSyncer = False, md_storeId = [], md_localdata = (), md_killed = False, md_calls = []\<rparr>"

theorem Subscribe_same_prefix_ignored_witness:
  "let m = snd (Subscribe accept_all map_cmap mdm_observed ''MatrixMeta'' 1 True)
   in fst (Subscribe accept_all map_cmap m ''MatrixMeta'' 2 False)
      \<and> md_metaObservers (snd (Subscribe accept_all map_cmap m ''MatrixMeta'' 2 False)) ''MatrixMeta''
          = Some \<lparr>mo_observer = 1, mo_filter = Some ''MatrixMeta''\<rparr>"
proof -
  let ?m = "snd (Subscribe accept_all map_cmap mdm_observed ''MatrixMeta'' 1 True)"
  have "md_inited ?m" and o: "md_metaObservers ?m ''MatrixMeta'' = Some \<lparr>mo_observer = 1, mo_filter = Some ''MatrixMeta''\<rparr>"
    by (simp_all add: Subscribe_def mdm_observed_def map_cmap_def register_all_def accept_all_def Let_def)
  with Subscribe_same_prefix_ignored [OF map_cmap_ok, of ?m "''MatrixMeta''" _ accept_all 2 False]
  show ?thesis by (simp add: Let_def)
qed

lemma OnChange_entries_iff:
  assumes "mo_filter mo = Some pattern"
  shows "(key, value, action) \<in> set (OnChange_entries mo ins upd del) \<longleftrightarrow> prefix pattern key \<and>
    (key, value) \<in> set (case action of ACT_INSERT \<Rightarrow> ins | ACT_UPDATE \<Rightarrow> upd | ACT_DELETE \<Rightarrow> del)"
  using assms by (cases action) (auto simp: OnChange_entries_def Filter_matches_def)

end
