(* ===== verification/Meta_Codec.thy ===== *)
theory Meta_Codec
  imports Meta_Records Meta_Data_Manager
begin

text \<open>
  The text form of metadata: the static \<open>Marshall\<close> and \<open>Unmarshall\<close> of framework/include/serializable/
  serializable.h, which write an object as the text of its document and read an object from text. The
  JSON library's \<open>dump\<close> and \<open>parse\<close> are the operations of the record \<open>json_text\<close>; what is used of them
  is that a document read back from its text is the same up to \<open>json_norm\<close>.
\<close>

record json_text =
  js_dump :: "json \<Rightarrow> string"
  js_parse :: "string \<Rightarrow> json"

definition json_text_rt :: "json_text \<Rightarrow> json \<Rightarrow> bool" where
  "json_text_rt T j \<longleftrightarrow> js_parse T (js_dump T j) = json_norm j"

definition Marshall_static :: "json_text \<Rightarrow> ('v \<Rightarrow> json \<Rightarrow> json) \<Rightarrow> 'v \<Rightarrow> string" where
  "Marshall_static T Marshal v = js_dump T (Marshal v JNull)"

definition Unmarshall_static ::
    "json_text \<Rightarrow> (json \<Rightarrow> 'v \<Rightarrow> bool \<times> 'v) \<Rightarrow> string \<Rightarrow> 'v \<Rightarrow> bool \<times> 'v" where
  "Unmarshall_static T Unmarshal body v = GetValue_object Unmarshal (ToJson (js_parse T) body) [] v"

definition json_codec ::
    "json_text \<Rightarrow> ('v \<Rightarrow> json \<Rightarrow> json) \<Rightarrow> (json \<Rightarrow> 'v \<Rightarrow> bool \<times> 'v) \<Rightarrow> 'v codec" where
  "json_codec T Marshal Unmarshal =
     \<lparr>Marshall = Marshall_static T Marshal, Unmarshall = (\<lambda>body v. snd (Unmarshall_static T Unmarshal body v))\<rparr>"

lemma Unmarshall_Marshall_static:
  assumes "json_object Marshal Unmarshal" and "json_text_rt T (Marshal v JNull)"
  shows "Unmarshall_static T Unmarshal (Marshall_static T Marshal v) old = (True, v)"
proof -
  have obj: "is_obj (json_norm (Marshal v JNull))"
    using json_object.marshal_obj [OF assms(1)] by simp
  then have "json_norm (Marshal v JNull) \<noteq> JDiscarded" using is_obj_value by blast
  then have "ToJson (js_parse T) (js_dump T (Marshal v JNull)) = json_norm (Marshal v JNull)"
    using assms(2) by (simp add: ToJson_def json_text_rt_def Let_def)
  moreover have sub: "GetSubNode (json_norm (Marshal v JNull)) [] = json_norm (Marshal v JNull)"
    using is_obj_value [OF obj] by (simp add: GetSubNode_def)
  ultimately show ?thesis
    by (simp add: Unmarshall_static_def Marshall_static_def GetValue_object_obj [OF sub obj]
        json_object.unmarshal_norm [OF assms(1)])
qed

lemma json_codec_rt:
  assumes "json_object Marshal Unmarshal" and "json_text_rt T (Marshal v JNull)"
  shows "codec_rt (json_codec T Marshal Unmarshal) v"
  using Unmarshall_Marshall_static [OF assms] by (simp add: codec_rt_def json_codec_def)

abbreviation store_codec :: "json_text \<Rightarrow> StoreMetaData codec" where
  "store_codec T \<equiv> json_codec T StoreMetaData_Marshal StoreMetaData_Unmarshal"

abbreviation matrix_codec :: "json_text \<Rightarrow> MatrixMetaData codec" where
  "matrix_codec T \<equiv> json_codec T MatrixMetaData_Marshal MatrixMetaData_Unmarshal"

abbreviation switches_codec :: "json_text \<Rightarrow> SwitchesMetaData codec" where
  "switches_codec T \<equiv> json_codec T SwitchesMetaData_Marshal SwitchesMetaData_Unmarshal"

lemmas store_codec_rt = json_codec_rt [OF store_meta.json_object_axioms]
lemmas matrix_codec_rt = json_codec_rt [OF matrix_meta.json_object_axioms]
lemmas switches_codec_rt = json_codec_rt [OF switches_meta.json_object_axioms]

text \<open>
  C17: A store's metadata saved with \<open>SaveMeta\<close> under its key is what \<open>LoadMeta\<close> of that key returns
  afterwards, field by field, whatever the record loaded into held: the database, the cache, the
  serializer and the record's own reader and writer together.
\<close>
theorem StoreMetaData_saved_loaded:
  assumes "db_ok D dv" and "db_healthy D dv" and "lru_ok L lv"
    and "json_text_rt T (StoreMetaData_Marshal m JNull)"
    and "md_inited s" and "md_metaStore s = Some db" and "mdm_coherent dv lv s"
    and "fst (SaveMeta D L (store_codec T) s (GetKey m) m isLocal)"
  shows "\<exists>s'. LoadMeta D L (store_codec T) (snd (SaveMeta D L (store_codec T) s (GetKey m) m isLocal)) (GetKey m) old isLocal
    = (True, m, s')"
  using save_then_load [OF assms(1-3) store_codec_rt [OF assms(4)] assms(5-8), of old]
  by (metis prod.collapse)

definition text_of_new :: json_text where
  "text_of_new = \<lparr>js_dump = (\<lambda>_. ''new''), js_parse = (\<lambda>_. json_norm (StoreMetaData_Marshal StoreMetaData_new JNull))\<rparr>"

theorem StoreMetaData_saved_loaded_witness:
  "\<exists>s'. LoadMeta map_db map_lru (store_codec text_of_new)
     (snd (SaveMeta map_db map_lru (store_codec text_of_new) mdm_ready (GetKey StoreMetaData_new) StoreMetaData_new True))
     (GetKey StoreMetaData_new) (StoreMetaData_new\<lparr>sm_user := ''7''\<rparr>) True = (True, StoreMetaData_new, s')"
proof -
  have "fst (SaveMeta map_db map_lru (store_codec text_of_new) mdm_ready (GetKey StoreMetaData_new) StoreMetaData_new True)"
    by (simp add: SaveMeta_def mdm_ready_simps map_db_def Let_def)
  moreover have "json_text_rt text_of_new (StoreMetaData_Marshal StoreMetaData_new JNull)"
    by (simp add: json_text_rt_def text_of_new_def)
  ultimately show ?thesis
    using StoreMetaData_saved_loaded [OF map_db_ok map_db_healthy map_lru_ok _ mdm_ready_simps] by blast
qed

end
