(* ===== verification/Matrix_Levels.thy ===== *)
theory Matrix_Levels
  imports Meta_Codec
begin

text \<open>
  Levels and masks of the device matrix (service/matrix/include/device_matrix.h): a 16-bit word whose
  low four bits are a set of changed applications and whose high twelve bits are a level. The inline
  helpers, the index computation \<open>ConvertIndex\<close> and the translation of a peer's mask to this device's
  applications, with the algebra the other proofs use.
\<close>

subsection \<open>Constants and helpers\<close>

definition META_STORE_MASK :: u16 where "META_STORE_MASK = 0x0001"
definition INVALID_HIGH :: u16 where "INVALID_HIGH = 0xFFF0"
definition INVALID_LEVEL :: u16 where "INVALID_LEVEL = 0xFFFF"
definition INVALID_LENGTH :: u16 where "INVALID_LENGTH = 0"
definition INVALID_VALUE :: u32 where "INVALID_VALUE = 0xFFFFFFFF"
definition INVALID_MASK :: u16 where "INVALID_MASK = 0"
definition DM_CURRENT_VERSION :: u32 where "DM_CURRENT_VERSION = 3"
definition CURRENT_DYNAMIC_MASK :: u16 where "CURRENT_DYNAMIC_MASK = 0x0006"
definition CURRENT_STATICS_MASK :: u16 where "CURRENT_STATICS_MASK = 0x0003"
definition MAX_DEVICES :: nat where "MAX_DEVICES = 64"
definition RESET_MASK_DELAY :: nat where "RESET_MASK_DELAY = 10"

definition SetMask :: "nat \<Rightarrow> u16" where "SetMask index = push_bit index 1"
definition Low :: "u16 \<Rightarrow> u16" where "Low data = data AND 0x000F"
definition High :: "u16 \<Rightarrow> u16" where "High data = data AND 0xFFF0"
definition Merge :: "u16 \<Rightarrow> u16 \<Rightarrow> u16" where "Merge high low = High high OR Low low"
definition ResetMask :: "u16 \<Rightarrow> u16" where "ResetMask data = data AND 0xFFF0"

text \<open>The kinds of level and of change; the sources pass them as integers and check the range.\<close>

abbreviation STATICS :: int where "STATICS \<equiv> 0"
abbreviation DYNAMIC :: int where "DYNAMIC \<equiv> 1"
abbreviation CHANGE_LOCAL :: u32 where "CHANGE_LOCAL \<equiv> 0x1"
abbreviation CHANGE_REMOTE :: u32 where "CHANGE_REMOTE \<equiv> 0x2"
abbreviation CHANGE_ALL :: u32 where "CHANGE_ALL \<equiv> 0x3"

record Mask =
  mk_dynamic :: u16
  mk_statics :: u16

definition Mask_new :: Mask where
  "Mask_new = \<lparr>mk_dynamic = META_STORE_MASK OR CURRENT_DYNAMIC_MASK, mk_statics = CURRENT_STATICS_MASK\<rparr>"

definition SetDynamicMask :: "u16 \<Rightarrow> Mask \<Rightarrow> Mask" where
  "SetDynamicMask msk m = m\<lparr>mk_dynamic := ResetMask (mk_dynamic m) OR Low msk\<rparr>"

definition SetStaticsMask :: "u16 \<Rightarrow> Mask \<Rightarrow> Mask" where
  "SetStaticsMask msk m = m\<lparr>mk_statics := ResetMask (mk_statics m) OR Low msk\<rparr>"

record DataLevel =
  dl_dynamic :: u16
  dl_statics :: u16
  dl_switches :: u32
  dl_switchesLen :: u16

definition DataLevel_new :: DataLevel where
  "DataLevel_new = \<lparr>dl_dynamic = INVALID_LEVEL, dl_statics = INVALID_LEVEL, dl_switches = INVALID_VALUE,
     dl_switchesLen = INVALID_LENGTH\<rparr>"

definition DataLevel_IsValid :: "DataLevel \<Rightarrow> bool" where
  "DataLevel_IsValid d \<longleftrightarrow> \<not> (dl_dynamic d = INVALID_LEVEL \<and> dl_statics d = INVALID_LEVEL \<and>
     dl_switches d = INVALID_VALUE \<and> dl_switchesLen d = INVALID_LENGTH)"

subsection \<open>Converting a peer's mask\<close>

text \<open>
  \<open>ConvertIndex\<close> counts the zeros below the lowest set bit with the usual folding of bit counts, and
  then subtracts one.
\<close>

definition ConvertIndex :: "u16 \<Rightarrow> u16" where
  "ConvertIndex code =
     (let index = NOT code AND (code - 1);
          index = drop_bit 1 (index AND 0xAAAA) + (index AND 0x5555);
          index = drop_bit 2 (index AND 0xCCCC) + (index AND 0x3333);
          index = drop_bit 4 (index AND 0xF0F0) + (index AND 0x0F0F);
          index = drop_bit 8 (index AND 0xFF00) + (index AND 0x00FF)
      in index - 1)"

fun find_app :: "string list \<Rightarrow> string \<Rightarrow> nat \<Rightarrow> nat option" where
  "find_app [] app i = None"
| "find_app (a # apps) app i = (if a = app then Some i else find_app apps app (Suc i))"

lemma clear_lowest_less: "code \<noteq> 0 \<Longrightarrow> unat (code AND (code - 1)) < unat (code :: u16)"
proof -
  assume "code \<noteq> 0"
  then have "0 < unat code" by (simp add: unat_gt_0)
  then have "unat (code - 1) < unat code" using \<open>code \<noteq> 0\<close> by (simp add: unat_minus_one)
  moreover have "unat (code AND (code - 1)) \<le> unat (code - 1)"
    using word_and_le2 [of "code - 1" code] word_and_le1 [of "code - 1" code] by (simp add: word_le_nat_alt and.commute)
  ultimately show ?thesis by simp
qed

function convert_codes :: "string list \<Rightarrow> string list \<Rightarrow> u16 \<Rightarrow> u16 \<Rightarrow> u16" where
  "convert_codes info apps code result =
     (if code = 0 then result
      else let index = unat (ConvertIndex code)
           in if length info \<le> index then result
              else convert_codes info apps (code AND (code - 1))
                     (case find_app apps (info ! index) 0 of None \<Rightarrow> result | Some i \<Rightarrow> result OR SetMask i))"
  by pat_completeness auto
termination
  by (relation "measure (\<lambda>(info, apps, code, result). unat code)") (auto intro: clear_lowest_less)

declare convert_codes.simps [simp del]

definition ConvertDynamic :: "string list \<Rightarrow> MatrixMetaData \<Rightarrow> u16 \<Rightarrow> u16" where
  "ConvertDynamic dynamicApps meta msk =
     convert_codes (mm_dynamicInfo meta) dynamicApps (Low msk AND NOT META_STORE_MASK) (Low msk AND META_STORE_MASK)"

definition ConvertStatics :: "string list \<Rightarrow> MatrixMetaData \<Rightarrow> u16 \<Rightarrow> u16" where
  "ConvertStatics staticsApps meta msk = convert_codes (mm_staticsInfo meta) staticsApps (Low msk) 0"

subsection \<open>Algebra\<close>

lemma mask_4: "(0x000F :: u16) = mask 4" "(0xFFF0 :: u16) = NOT (mask 4)"
  by (simp_all add: mask_eq_exp_minus_1)

lemma bit_Low [dds_mask]: "bit (Low x) n \<longleftrightarrow> n < 4 \<and> bit x n"
  unfolding Low_def mask_4 by (auto simp: bit_and_iff bit_mask_iff dest: bit_imp_le_length)

lemma bit_High [dds_mask]: "bit (High x) n \<longleftrightarrow> 4 \<le> n \<and> bit x n"
  unfolding High_def mask_4 by (auto simp: bit_and_iff bit_not_iff_eq bit_mask_iff dest: bit_imp_le_length)

lemma bit_u16_less: "bit (x :: u16) n \<Longrightarrow> n < 16"
  using bit_imp_le_length [of x n] by simp

lemma bit_Merge [dds_mask]: "bit (Merge h l) n \<longleftrightarrow> (if n < 4 then bit l n else bit h n)"
  by (auto simp: Merge_def bit_or_iff bit_Low bit_High)

lemma ResetMask_High: "ResetMask x = High x"
  by (simp add: ResetMask_def High_def)

lemma and_15 [dds_mask]: "x AND 0x000F = Low x" "x AND 0xFFF0 = High x"
  by (simp_all add: Low_def High_def)

lemma Low_High_simps [simp]:
  "Low (Low x) = Low x" "High (High x) = High x" "Low (High x) = 0" "High (Low x) = 0"
  "Low (Merge h l) = Low l" "High (Merge h l) = High h" "Low (x OR y) = Low x OR Low y"
  "High (x OR y) = High x OR High y"
  "Low 0 = 0" "High 0 = 0"
  by (auto simp: bit_eq_iff bit_or_iff bit_and_iff dds_mask)

lemma Low_OR_High: "Low x OR High x = x"
  by (auto simp: bit_eq_iff bit_or_iff dds_mask)

lemma High_0x000F [simp]: "High 0x000F = 0" "Low 0x000F = 0x000F"
  by (simp_all add: High_def Low_def)

text \<open>Levels are multiples of sixteen: two different ones are at least sixteen apart.\<close>

lemma High_multiple: "unat (High x) mod 16 = 0"
proof -
  have "take_bit 4 (High x) = 0" by (auto simp: bit_eq_iff bit_take_bit_iff dds_mask)
  then have "take_bit 4 (unat (High x)) = 0" by (metis unsigned_take_bit_eq unsigned_0)
  then show ?thesis by (simp add: take_bit_eq_mod)
qed

lemma High_gap: "High a > High b \<longleftrightarrow> 1 < int (unat (High a)) - int (unat (High b))"
  using High_multiple [of a] High_multiple [of b] unfolding word_less_nat_alt by presburger

subsection \<open>What the conversion computes\<close>

lemma unat_Low: "unat (Low x) < 16"
proof -
  have "Low x = take_bit 4 x" by (auto simp: bit_eq_iff bit_take_bit_iff dds_mask)
  then have "unat (Low x) = take_bit 4 (unat x)" by (simp add: unsigned_take_bit_eq)
  then show ?thesis by (simp add: take_bit_eq_mod)
qed

definition lowest :: "u16 \<Rightarrow> nat" where
  "lowest code = (if bit code 0 then 0 else if bit code 1 then 1 else if bit code 2 then 2 else 3)"

text \<open>Checked on the sixteen codes.\<close>

definition lowest_ok :: "u16 \<Rightarrow> bool" where
  "lowest_ok code \<longleftrightarrow> code = 0 \<or> (bit code (lowest code) \<and> ConvertIndex code = of_nat (lowest code) - 1 \<and>
     code AND (code - 1) = code AND NOT (SetMask (lowest code)) \<and> lowest code < 4)"

lemma lowest_ok_all: "list_all (\<lambda>n. lowest_ok (of_nat n)) [0..<16]"
  by code_simp

lemma lowest_facts:
  assumes "Low code = code" and "code \<noteq> 0"
  shows "bit code (lowest code)" and "ConvertIndex code = of_nat (lowest code) - 1"
    and "code AND (code - 1) = code AND NOT (SetMask (lowest code))" and "lowest code < 4"
proof -
  have "unat code < 16" using unat_Low [of code] assms(1) by simp
  then have "unat code \<in> set [0..<16]" by simp
  then have "lowest_ok (of_nat (unat code))" using lowest_ok_all unfolding list_all_iff by (rule bspec [rotated])
  then have "lowest_ok code" by simp
  then show "bit code (lowest code)" "ConvertIndex code = of_nat (lowest code) - 1"
    "code AND (code - 1) = code AND NOT (SetMask (lowest code))" "lowest code < 4"
    using assms(2) by (simp_all only: lowest_ok_def simp_thms)
qed

lemma bit_SetMask: "bit (SetMask k) n \<longleftrightarrow> n = k \<and> n < 16"
  by (auto simp: SetMask_def bit_exp_iff)

lemma next_code:
  assumes "Low code = code" and "code \<noteq> 0"
  shows "bit (code AND (code - 1)) n \<longleftrightarrow> bit code n \<and> n \<noteq> lowest code"
    and "Low (code AND (code - 1)) = code AND (code - 1)"
proof -
  show b: "bit (code AND (code - 1)) n \<longleftrightarrow> bit code n \<and> n \<noteq> lowest code" for n
    unfolding lowest_facts(3) [OF assms]
    by (auto simp: bit_and_iff bit_not_iff_eq bit_SetMask dest: bit_imp_le_length)
  have "n < 4" if "bit code n" for n using that assms(1) bit_Low [of code n] by simp
  then show "Low (code AND (code - 1)) = code AND (code - 1)"
    by (intro bit_eqI) (auto simp: bit_Low b)
qed

lemma index_of_lowest:
  assumes "Low code = code" and "code \<noteq> 0"
  shows "unat (ConvertIndex code) = (if lowest code = 0 then 0xFFFF else lowest code - 1)"
proof -
  consider "lowest code = 0" | "lowest code = 1" | "lowest code = 2" | "lowest code = 3"
    using lowest_facts(4) [OF assms] by linarith
  then show ?thesis by cases (simp_all add: lowest_facts(2) [OF assms] unsigned_minus_1_eq_mask mask_eq_exp_minus_1)
qed

text \<open>
  Bit \<open>k\<close> of the peer's code stands for entry \<open>k - 1\<close> of the peer's list; it becomes the bit of the
  position this device has for that application.
\<close>

lemma convert_codes_bits:
  assumes "Low code = code" and "\<And>k. bit code k \<Longrightarrow> 1 \<le> k \<and> k - 1 < length info"
  shows "bit (convert_codes info apps code result) i \<longleftrightarrow>
    bit result i \<or> (i < 16 \<and> (\<exists>k. bit code k \<and> find_app apps (info ! (k - 1)) 0 = Some i))"
  using assms
proof (induction info apps code result rule: convert_codes.induct)
  case (1 info apps code result)
  show ?case
  proof (cases "code = 0")
    case True
    then show ?thesis by (subst convert_codes.simps) simp
  next
    case False
    note L = lowest_facts [OF "1.prems"(1) False] and N = next_code [OF "1.prems"(1) False]
    let ?k = "lowest code"
    let ?r = "case find_app apps (info ! (?k - 1)) 0 of None \<Rightarrow> result | Some i \<Rightarrow> result OR SetMask i"
    have k: "1 \<le> ?k" "?k - 1 < length info" using "1.prems"(2) [OF L(1)] by auto
    then have idx: "unat (ConvertIndex code) = ?k - 1"
      using index_of_lowest [OF "1.prems"(1) False] by simp
    have IH: "bit (convert_codes info apps (code AND (code - 1)) ?r) i \<longleftrightarrow>
      bit ?r i \<or> (i < 16 \<and> (\<exists>k. bit (code AND (code - 1)) k \<and> find_app apps (info ! (k - 1)) 0 = Some i))"
      using "1.IH" [OF False refl] idx k N "1.prems"(2) by simp
    have "convert_codes info apps code result = convert_codes info apps (code AND (code - 1)) ?r"
      using False idx k by (subst convert_codes.simps) (simp add: Let_def)
    moreover have "bit ?r i \<longleftrightarrow> bit result i \<or> (i < 16 \<and> find_app apps (info ! (?k - 1)) 0 = Some i)"
      by (auto simp: bit_or_iff bit_SetMask split: option.splits)
    ultimately show ?thesis using IH N(1) L(1) by auto
  qed
qed

text \<open>
  A mask received from a device with another matrix version is translated application by
  application: bit \<open>k\<close> of the peer stands for entry \<open>k - 1\<close> of the peer's list of dynamic
  applications and becomes the position this device has for that application; applications this
  device does not have are dropped; the bit of the metadata store is kept.
\<close>
theorem ConvertDynamic_correct:
  assumes "\<And>k. k < 4 \<Longrightarrow> bit msk k \<Longrightarrow> k - 1 < length (mm_dynamicInfo meta)"
  shows "bit (ConvertDynamic apps meta msk) i \<longleftrightarrow>
    (i = 0 \<and> bit msk 0) \<or>
    (i < 16 \<and> (\<exists>k. 1 \<le> k \<and> k < 4 \<and> bit msk k \<and> find_app apps (mm_dynamicInfo meta ! (k - 1)) 0 = Some i))"
proof -
  let ?code = "Low msk AND NOT META_STORE_MASK"
  have code: "bit ?code k \<longleftrightarrow> 1 \<le> k \<and> k < 4 \<and> bit msk k" for k
    by (auto simp: META_STORE_MASK_def bit_and_iff bit_not_iff_eq bit_Low bit_1_iff dest: bit_imp_le_length)
  have low: "Low ?code = ?code" by (rule bit_eqI) (auto simp: bit_Low code)
  have "bit (Low msk AND META_STORE_MASK) i \<longleftrightarrow> i = 0 \<and> bit msk 0"
    by (auto simp: META_STORE_MASK_def bit_and_iff bit_Low bit_1_iff)
  moreover have "bit (ConvertDynamic apps meta msk) i \<longleftrightarrow> bit (Low msk AND META_STORE_MASK) i \<or>
      (i < 16 \<and> (\<exists>k. bit ?code k \<and> find_app apps (mm_dynamicInfo meta ! (k - 1)) 0 = Some i))"
    unfolding ConvertDynamic_def by (rule convert_codes_bits [OF low]) (use assms code in auto)
  ultimately show ?thesis unfolding code by auto
qed

theorem ConvertDynamic_correct_witness:
  "bit (ConvertDynamic [''meta'', ''app''] (MatrixMetaData_new\<lparr>mm_dynamicInfo := [''app'']\<rparr>) 0x2) 1"
  by (subst ConvertDynamic_correct) (auto simp: less_Suc_eq numeral_eq_Suc bit_1_iff)

text \<open>
  The same translation of the static applications gives nothing as soon as the lowest bit is set,
  the bit this device itself uses for its first static application: the index of that bit wraps
  around to 65535, which ends the loop before any bit is translated.
\<close>
theorem ConvertStatics_first_bit:
  assumes "bit msk 0" and "length (mm_staticsInfo meta) \<le> 65535"
  shows "ConvertStatics apps meta msk = 0"
proof -
  have l: "Low (Low msk) = Low msk" "Low msk \<noteq> 0" "lowest (Low msk) = 0"
    using assms(1) bit_Low [of msk 0] by (auto simp: lowest_def)
  have "unat (ConvertIndex (Low msk)) = 0xFFFF" using index_of_lowest [OF l(1,2)] l(3) by simp
  then show ?thesis
    using l(2) assms(2) unfolding ConvertStatics_def by (subst convert_codes.simps) (simp add: Let_def)
qed

theorem ConvertStatics_first_bit_witness:
  "ConvertStatics [''app'', ''other''] (MatrixMetaData_new\<lparr>mm_staticsInfo := [''app'', ''other'']\<rparr>) 0x3 = 0"
  by (rule ConvertStatics_first_bit) simp_all

end
