(* ===== verification/Device_Matrix.thy ===== *)
theory Device_Matrix
  imports Matrix_Levels
begin

text \<open>
  The device matrix (service/matrix/src/device_matrix.cpp): which applications changed on this device
  and have to be synchronised to each peer (\<open>onLines_\<close>, \<open>offLines_\<close>), which changes of the peers are
  still to be fetched (\<open>remotes_\<close>), and the levels received from and agreed with each peer, kept as
  metadata and cached in \<open>matrices_\<close> and \<open>versions_\<close>.

  The state of the class is the record \<open>dm\<close>, which contains the metadata manager it uses. Every method
  is one definition on it; \<open>dm_env\<close> holds what other components answer. Events posted to the event
  centre are appended to \<open>dm_events\<close>.
\<close>

subsection \<open>State\<close>

record MatrixData =
  mx_dynamic :: u16
  mx_statics :: u16
  mx_switches :: u32
  mx_switchesLen :: u16

definition MatrixData_new :: MatrixData where
  "MatrixData_new = \<lparr>mx_dynamic = INVALID_LEVEL, mx_statics = INVALID_LEVEL, mx_switches = INVALID_VALUE,
     mx_switchesLen = INVALID_LENGTH\<rparr>"

definition MatrixData_IsValid :: "MatrixData \<Rightarrow> bool" where
  "MatrixData_IsValid d \<longleftrightarrow> \<not> (mx_dynamic d = INVALID_LEVEL \<and> mx_statics d = INVALID_LEVEL \<and>
     mx_switches d = INVALID_VALUE \<and> mx_switchesLen d = INVALID_LENGTH)"

record ('s, 'c, 'l) dm_env =
  de_db :: "'s db_ops"
  de_lru :: "(string, string, 'c) lru_ops"
  de_text :: json_text
  de_bucket :: "(string, MatrixMetaData, 'l) lru_ops"
  de_localUuid :: string
  de_dynamicStores :: "string list"
  de_staticStores :: "string list"
  de_processLabel :: string
  de_supportsBroadcast :: bool
  de_invalidTask :: nat
  de_Reset :: "nat \<Rightarrow> nat \<Rightarrow> nat"
  de_Schedule :: "nat \<Rightarrow> nat"

record ('s, 'c, 'o, 'l) dm =
  dm_mdm :: "('s, 'c, 'o) mdm"
  dm_lasts :: MatrixData
  dm_executors :: bool
  dm_task :: nat
  dm_isSupportBroadcast :: bool
  dm_tokenId :: u32
  dm_storeId :: string
  dm_onLines :: "string \<rightharpoonup> Mask"
  dm_offLines :: "string \<rightharpoonup> Mask"
  dm_remotes :: "string \<rightharpoonup> Mask"
  dm_dynamicApps :: "string list"
  dm_staticsApps :: "string list"
  dm_matrices :: 'l
  dm_versions :: 'l
  dm_events :: "MatrixData list"

abbreviation LOCAL :: u32 where "LOCAL \<equiv> 0"
abbreviation REMOTE_RECEIVED :: u32 where "REMOTE_RECEIVED \<equiv> 1"
abbreviation REMOTE_CONSISTENT :: u32 where "REMOTE_CONSISTENT \<equiv> 2"

subsection \<open>Calls to the metadata manager\<close>

definition dm_LoadMatrix ::
    "('s, 'c, 'l) dm_env \<Rightarrow> ('s, 'c, 'o, 'l) dm \<Rightarrow> string \<Rightarrow> MatrixMetaData \<Rightarrow> bool \<Rightarrow>
     bool \<times> MatrixMetaData \<times> ('s, 'c, 'o, 'l) dm" where
  "dm_LoadMatrix E s key meta isLocal =
     (case LoadMeta (de_db E) (de_lru E) (matrix_codec (de_text E)) (dm_mdm s) key meta isLocal of
        (ok, meta', m') \<Rightarrow> (ok, meta', s\<lparr>dm_mdm := m'\<rparr>))"

definition dm_SaveMatrix ::
    "('s, 'c, 'l) dm_env \<Rightarrow> ('s, 'c, 'o, 'l) dm \<Rightarrow> string \<Rightarrow> MatrixMetaData \<Rightarrow> bool \<Rightarrow>
     bool \<times> ('s, 'c, 'o, 'l) dm" where
  "dm_SaveMatrix E s key meta isLocal =
     (case SaveMeta (de_db E) (de_lru E) (matrix_codec (de_text E)) (dm_mdm s) key meta isLocal of
        (ok, m') \<Rightarrow> (ok, s\<lparr>dm_mdm := m'\<rparr>))"

definition PostEvent :: "MatrixData \<Rightarrow> ('s, 'c, 'o, 'l) dm \<Rightarrow> ('s, 'c, 'o, 'l) dm" where
  "PostEvent d s = s\<lparr>dm_events := dm_events s @ [d]\<rparr>"

subsection \<open>Reading matrix metadata\<close>

definition GetMatrixMeta ::
    "('s, 'c, 'l) dm_env \<Rightarrow> ('s, 'c, 'o, 'l) dm \<Rightarrow> string \<Rightarrow> bool \<Rightarrow>
     bool \<times> MatrixMetaData \<times> ('s, 'c, 'o, 'l) dm" where
  "GetMatrixMeta E s device isConsistent =
     (let (cached, l') = (if isConsistent then (None, dm_matrices s) else lru_Get (de_bucket E) (dm_matrices s) device);
          s = s\<lparr>dm_matrices := l'\<rparr>
      in case cached of Some meta \<Rightarrow> (True, meta, s)
      | None \<Rightarrow>
        (let meta = MatrixMetaData_new\<lparr>mm_deviceId := device\<rparr>;
             key = (if isConsistent then Matrix_GetConsistentKey meta else Matrix_GetKey meta);
             (success, meta, s) = dm_LoadMatrix E s key meta True
         in if success \<and> \<not> isConsistent
            then (let meta = meta\<lparr>mm_deviceId := []\<rparr>
                  in (success, meta, s\<lparr>dm_matrices := lru_Set (de_bucket E) (dm_matrices s) device meta\<rparr>))
            else (success, meta, s)))"

definition GetMatrixInfo ::
    "('s, 'c, 'l) dm_env \<Rightarrow> ('s, 'c, 'o, 'l) dm \<Rightarrow> string \<Rightarrow> MatrixMetaData \<times> ('s, 'c, 'o, 'l) dm" where
  "GetMatrixInfo E s device =
     (let (cached, l') = lru_Get (de_bucket E) (dm_versions s) device;
          s = s\<lparr>dm_versions := l'\<rparr>
      in case cached of Some meta \<Rightarrow> (meta, s)
      | None \<Rightarrow>
        (let meta = MatrixMetaData_new\<lparr>mm_deviceId := device\<rparr>;
             (success, meta, s) = dm_LoadMatrix E s (Matrix_GetKey meta) meta False
         in if success
            then (let meta = meta\<lparr>mm_deviceId := []\<rparr>
                  in (meta, s\<lparr>dm_versions := lru_Set (de_bucket E) (dm_versions s) device meta\<rparr>))
            else (meta, s)))"

definition level_of :: "MatrixMetaData \<Rightarrow> int \<Rightarrow> bool \<times> u16" where
  "level_of meta type =
     (if type = STATICS then (True, High (mm_statics meta))
      else if type = DYNAMIC then (True, High (mm_dynamic meta))
      else (False, High INVALID_LEVEL))"

definition GetRecvLevel ::
    "('s, 'c, 'l) dm_env \<Rightarrow> ('s, 'c, 'o, 'l) dm \<Rightarrow> string \<Rightarrow> int \<Rightarrow> (bool \<times> u16) \<times> ('s, 'c, 'o, 'l) dm" where
  "GetRecvLevel E s device type =
     (case GetMatrixMeta E s device False of (exist, meta, s') \<Rightarrow>
        if \<not> exist then ((False, High INVALID_LEVEL), s') else (level_of meta type, s'))"

definition GetConsLevel ::
    "('s, 'c, 'l) dm_env \<Rightarrow> ('s, 'c, 'o, 'l) dm \<Rightarrow> string \<Rightarrow> int \<Rightarrow> (bool \<times> u16) \<times> ('s, 'c, 'o, 'l) dm" where
  "GetConsLevel E s device type =
     (case GetMatrixMeta E s device True of (exist, meta, s') \<Rightarrow>
        if \<not> exist then ((False, High INVALID_LEVEL), s') else (level_of meta type, s'))"

definition IsConsistent ::
    "('s, 'c, 'l) dm_env \<Rightarrow> ('s, 'c, 'o, 'l) dm \<Rightarrow> string \<Rightarrow> (bool \<times> bool) \<times> ('s, 'c, 'o, 'l) dm" where
  "IsConsistent E s device =
     (let ((dynamicSaved, dynamicRecvLevel), s) = GetRecvLevel E s device DYNAMIC;
          ((dynamicExist, dynamicConsLevel), s) = GetConsLevel E s device DYNAMIC;
          first = (dynamicSaved \<and> dynamicExist \<and> dynamicRecvLevel \<le> dynamicConsLevel \<and> dynamicRecvLevel \<noteq> INVALID_MASK);
          ((staticsSaved, staticsRecvLevel), s) = GetRecvLevel E s device STATICS;
          ((staticsExist, staticsConsLevel), s) = GetConsLevel E s device STATICS;
          second = (staticsSaved \<and> staticsExist \<and> staticsRecvLevel \<le> staticsConsLevel \<and> staticsRecvLevel \<noteq> INVALID_MASK)
      in ((first, second), s))"

definition UpdateMask ::
    "('s, 'c, 'l) dm_env \<Rightarrow> ('s, 'c, 'o, 'l) dm \<Rightarrow> Mask \<Rightarrow> Mask \<times> ('s, 'c, 'o, 'l) dm" where
  "UpdateMask E s msk =
     (case GetMatrixMeta E s (de_localUuid E) False of (exist, meta, s') \<Rightarrow>
        (msk\<lparr>mk_dynamic := Merge (mm_dynamic meta) (mk_dynamic msk),
              mk_statics := Merge (mm_statics meta) (mk_statics msk)\<rparr>, s'))"

subsection \<open>Start and membership\<close>

definition Initialize :: "('s, 'c, 'l) dm_env \<Rightarrow> ('s, 'c, 'o, 'l) dm \<Rightarrow> u32 \<Rightarrow> string \<Rightarrow> bool \<times> ('s, 'c, 'o, 'l) dm" where
  "Initialize E s token storeId =
     (let s = s\<lparr>dm_dynamicApps := de_processLabel E # de_dynamicStores E,
                dm_staticsApps := de_staticStores E,
                dm_isSupportBroadcast := de_supportsBroadcast E,
                dm_tokenId := token, dm_storeId := storeId\<rparr>;
          newMeta = MatrixMetaData_new\<lparr>mm_version := DM_CURRENT_VERSION,
             mm_dynamic := CURRENT_DYNAMIC_MASK OR META_STORE_MASK, mm_statics := CURRENT_STATICS_MASK,
             mm_dynamicInfo := dm_dynamicApps s, mm_staticsInfo := dm_staticsApps s,
             mm_deviceId := de_localUuid E\<rparr>;
          key = Matrix_GetKey newMeta;
          (loaded, oldMeta, s) = dm_LoadMatrix E s key MatrixMetaData_new False
      in if loaded \<and> mm_version newMeta = mm_version oldMeta then (True, s)
         else
           (let newMeta = (if loaded \<and> mm_version newMeta \<noteq> mm_version oldMeta
                           then newMeta\<lparr>mm_dynamic := Merge (mm_dynamic oldMeta) (mm_dynamic newMeta),
                                        mm_statics := Merge (mm_statics oldMeta) (mm_statics newMeta)\<rparr>
                           else newMeta);
                (_, s) = dm_SaveMatrix E s (Matrix_GetKey newMeta) newMeta True
            in dm_SaveMatrix E s (Matrix_GetKey newMeta) newMeta False))"

definition Online :: "('s, 'c, 'l) dm_env \<Rightarrow> ('s, 'c, 'o, 'l) dm \<Rightarrow> string \<Rightarrow> ('s, 'c, 'o, 'l) dm" where
  "Online E s device =
     (let (msk, s) = (case dm_offLines s device of
            Some m \<Rightarrow> (m, s\<lparr>dm_offLines := (dm_offLines s)(device := None)\<rparr>)
          | None \<Rightarrow> UpdateMask E s Mask_new)
      in s\<lparr>dm_onLines := (dm_onLines s)(device \<mapsto> msk)\<rparr>)"

definition Offline :: "('s, 'c, 'l) dm_env \<Rightarrow> ('s, 'c, 'o, 'l) dm \<Rightarrow> string \<Rightarrow> ('s, 'c, 'o, 'l) dm" where
  "Offline E s device =
     (let (msk, s) = (case dm_onLines s device of
            Some m \<Rightarrow> (m, s\<lparr>dm_onLines := (dm_onLines s)(device := None)\<rparr>)
          | None \<Rightarrow> UpdateMask E s Mask_new)
      in s\<lparr>dm_offLines := (dm_offLines s)(device \<mapsto> msk)\<rparr>)"

subsection \<open>A broadcast from a peer\<close>

definition ConvertMask :: "('s, 'c, 'l) dm_env \<Rightarrow> ('s, 'c, 'o, 'l) dm \<Rightarrow> string \<Rightarrow> DataLevel \<Rightarrow> (u16 \<times> u16) \<times> ('s, 'c, 'o, 'l) dm" where
  "ConvertMask E s device dataLevel =
     (case GetMatrixInfo E s device of (meta, s') \<Rightarrow>
        if mm_version meta = DM_CURRENT_VERSION
        then ((mk_dynamic Mask_new AND dl_dynamic dataLevel, mk_statics Mask_new AND dl_statics dataLevel), s')
        else ((ConvertDynamic (dm_dynamicApps s') meta (dl_dynamic dataLevel),
               ConvertStatics (dm_staticsApps s') meta (dl_statics dataLevel)), s'))"

definition GetMatrixMetaData :: "('s, 'c, 'o, 'l) dm \<Rightarrow> string \<Rightarrow> Mask \<Rightarrow> MatrixMetaData" where
  "GetMatrixMetaData s device msk =
     MatrixMetaData_new\<lparr>mm_dynamic := mk_dynamic msk, mm_statics := mk_statics msk, mm_deviceId := device,
       mm_origin := REMOTE_RECEIVED, mm_dynamicInfo := dm_dynamicApps s, mm_staticsInfo := dm_staticsApps s\<rparr>"

text \<open>
  One level of a known peer: a lower level is raised to the old one, a level with a gap asks for
  everything. The pair is the level in the metadata and the level in the mask.
\<close>

definition known_level :: "u16 \<Rightarrow> u16 \<Rightarrow> u16 \<Rightarrow> u16 \<times> u16" where
  "known_level old new msk =
     (if High new < High old then ((new AND 0x000F) OR High old, msk)
      else if 1 < int (unat (High new)) - int (unat (High old)) then (new OR 0x000F, msk OR 0x000F)
      else (new, msk))"

definition fresh_level :: "u16 \<Rightarrow> u16 \<Rightarrow> u16 \<times> u16" where
  "fresh_level new msk = (if High new \<noteq> 0x0010 then (new OR 0x000F, msk OR 0x000F) else (new, msk))"

definition UpdateRemoteMeta ::
    "('s, 'c, 'l) dm_env \<Rightarrow> ('s, 'c, 'o, 'l) dm \<Rightarrow> string \<Rightarrow> Mask \<Rightarrow> MatrixMetaData \<Rightarrow> Mask \<times> MatrixMetaData \<times> ('s, 'c, 'o, 'l) dm" where
  "UpdateRemoteMeta E s device msk newMeta =
     (case GetMatrixMeta E s device False of (exist, oldMeta, s) \<Rightarrow>
        if exist \<and> Matrix_eq oldMeta newMeta then (msk, newMeta, s)
        else
          (let (nd, md) = (if exist then known_level (mm_dynamic oldMeta) (mm_dynamic newMeta) (mk_dynamic msk)
                           else fresh_level (mm_dynamic newMeta) (mk_dynamic msk));
               (ns, ms) = (if exist then known_level (mm_statics oldMeta) (mm_statics newMeta) (mk_statics msk)
                           else fresh_level (mm_statics newMeta) (mk_statics msk));
               newMeta = newMeta\<lparr>mm_dynamic := nd, mm_statics := ns\<rparr>;
               msk = msk\<lparr>mk_dynamic := md, mk_statics := ms\<rparr>
           in (msk, newMeta, snd (dm_SaveMatrix E s (Matrix_GetKey newMeta) newMeta True))))"

definition SaveSwitches :: "('s, 'c, 'l) dm_env \<Rightarrow> ('s, 'c, 'o, 'l) dm \<Rightarrow> string \<Rightarrow> string \<Rightarrow> DataLevel \<Rightarrow> ('s, 'c, 'o, 'l) dm" where
  "SaveSwitches E s device networkId dataLevel =
     (if device = [] \<or> networkId = [] \<or> dl_switches dataLevel = INVALID_VALUE \<or> dl_switchesLen dataLevel = INVALID_LENGTH
      then s
      else
        (let newMeta = SwitchesMetaData_new\<lparr>sw_deviceId := device, sw_networkId := networkId,
               sw_value := dl_switches dataLevel, sw_length := dl_switchesLen dataLevel\<rparr>;
             C = switches_codec (de_text E)
         in case LoadMeta (de_db E) (de_lru E) C (dm_mdm s) (Switches_GetKey newMeta) SwitchesMetaData_new True of
              (saved, oldMeta, m) \<Rightarrow>
                if \<not> saved \<or> \<not> Switches_eq newMeta oldMeta
                then s\<lparr>dm_mdm := snd (SaveMeta (de_db E) (de_lru E) C m (Switches_GetKey newMeta) newMeta True)\<rparr>
                else s\<lparr>dm_mdm := m\<rparr>))"

definition received_level :: "u16 \<Rightarrow> u16 \<Rightarrow> u16 \<Rightarrow> u16" where
  "received_level own level converted =
     (if level \<noteq> INVALID_LEVEL
      then (if High level \<noteq> INVALID_HIGH then (own AND Low converted) OR High level else own AND Low converted)
      else own AND NOT level)"

definition OnBroadcast :: "('s, 'c, 'l) dm_env \<Rightarrow> ('s, 'c, 'o, 'l) dm \<Rightarrow> string \<Rightarrow> string \<Rightarrow> DataLevel \<Rightarrow> (u16 \<times> u16) \<times> ('s, 'c, 'o, 'l) dm" where
  "OnBroadcast E s device networkId dataLevel =
     (if device = [] \<or> networkId = [] \<or> \<not> DataLevel_IsValid dataLevel then ((INVALID_LEVEL, INVALID_LEVEL), s)
      else
        (let s = SaveSwitches E s device networkId dataLevel;
             (result, s) = ConvertMask E s device dataLevel;
             msk = \<lparr>mk_dynamic = received_level (mk_dynamic Mask_new) (dl_dynamic dataLevel) (fst result),
                    mk_statics = received_level (mk_statics Mask_new) (dl_statics dataLevel) (snd result)\<rparr>;
             meta = GetMatrixMetaData s device msk;
             (msk, meta, s) = UpdateRemoteMeta E s device msk meta;
             msk = (case dm_remotes s device of None \<Rightarrow> msk
                    | Some old \<Rightarrow> msk\<lparr>mk_dynamic := mk_dynamic msk OR Low (mk_dynamic old),
                                      mk_statics := mk_statics msk OR Low (mk_statics old)\<rparr>);
             s = s\<lparr>dm_remotes := (dm_remotes s)(device \<mapsto> msk)\<rparr>
         in ((mk_dynamic msk, mk_statics msk), s)))"

subsection \<open>Broadcasting\<close>

text \<open>
  The correction of a level below the last one broadcast: the low bits are kept and the high part is
  taken from the value that has just lost it.
\<close>

definition keep_level :: "u16 \<Rightarrow> u16 \<Rightarrow> u16" where
  "keep_level level prev =
     (if High level \<noteq> INVALID_HIGH \<and> High prev \<noteq> INVALID_HIGH \<and> High level < High prev
      then (let level = level AND 0x000F in level OR High level)
      else level)"

definition Broadcast :: "('s, 'c, 'l) dm_env \<Rightarrow> ('s, 'c, 'o, 'l) dm \<Rightarrow> DataLevel \<Rightarrow> ('s, 'c, 'o, 'l) dm" where
  "Broadcast E s dataLevel =
     (let matrix = \<lparr>mx_dynamic = ResetMask (dl_dynamic dataLevel), mx_statics = ResetMask (dl_statics dataLevel),
            mx_switches = dl_switches dataLevel, mx_switchesLen = dl_switchesLen dataLevel\<rparr>
      in if \<not> MatrixData_IsValid (dm_lasts s) then PostEvent matrix s
         else
           (let matrix = matrix\<lparr>mx_dynamic := mx_dynamic matrix OR Low (mx_dynamic (dm_lasts s)),
                                mx_statics := mx_statics matrix OR Low (mx_statics (dm_lasts s))\<rparr>;
                matrix = matrix\<lparr>mx_dynamic := keep_level (mx_dynamic matrix) (mx_dynamic (dm_lasts s)),
                                mx_statics := keep_level (mx_statics matrix) (mx_statics (dm_lasts s))\<rparr>;
                s = (PostEvent matrix s)\<lparr>dm_lasts := matrix\<rparr>
            in if dm_executors s \<and> dm_task s \<noteq> de_invalidTask E
               then s\<lparr>dm_task := de_Reset E (dm_task s) RESET_MASK_DELAY\<rparr> else s))"

definition GenResetTask :: "('s, 'c, 'l) dm_env \<Rightarrow> ('s, 'c, 'o, 'l) dm \<Rightarrow> ('s, 'c, 'o, 'l) dm" where
  "GenResetTask E s =
     (let matrixData = dm_lasts s;
          s = s\<lparr>dm_task := de_invalidTask E\<rparr>
      in PostEvent (matrixData\<lparr>mx_dynamic := ResetMask (mx_dynamic matrixData),
                               mx_statics := ResetMask (mx_statics matrixData)\<rparr>) s)"

subsection \<open>Local changes\<close>

text \<open>The two codes of a change: only the one of its kind is not zero.\<close>

definition code_for :: "int \<Rightarrow> int \<Rightarrow> u16 \<Rightarrow> u16" where
  "code_for kind type low = (if type = kind then low else 0)"

definition add_codes :: "u16 \<Rightarrow> u16 \<Rightarrow> Mask \<Rightarrow> Mask" where
  "add_codes statics dynamic m = m\<lparr>mk_statics := mk_statics m OR statics, mk_dynamic := mk_dynamic m OR dynamic\<rparr>"

text \<open>
  \<open>OnChanged\<close> in two halves: the masks first, then, for a code that is not empty, the broadcast, which
  touches no mask.
\<close>

definition add_pending :: "u16 \<Rightarrow> int \<Rightarrow> ('s, 'c, 'o, 'l) dm \<Rightarrow> ('s, 'c, 'o, 'l) dm" where
  "add_pending code type s =
     (let f = add_codes (code_for STATICS type (Low code)) (code_for DYNAMIC type (Low code))
      in s\<lparr>dm_onLines := (\<lambda>d. map_option f (dm_onLines s d)), dm_offLines := (\<lambda>d. map_option f (dm_offLines s d))\<rparr>)"

definition broadcast_change :: "('s, 'c, 'l) dm_env \<Rightarrow> ('s, 'c, 'o, 'l) dm \<Rightarrow> u16 \<Rightarrow> int \<Rightarrow> ('s, 'c, 'o, 'l) dm" where
  "broadcast_change E s code type =
     (let (msk, s) = UpdateMask E s Mask_new;
          msk = SetDynamicMask (code_for DYNAMIC type (Low code)) (SetStaticsMask (code_for STATICS type (Low code)) msk);
          matrixData = MatrixData_new\<lparr>mx_dynamic := mk_dynamic msk, mx_statics := mk_statics msk\<rparr>;
          switchesData = SwitchesMetaData_new\<lparr>sw_deviceId := de_localUuid E\<rparr>;
          (loaded, switchesData, m) = LoadMeta (de_db E) (de_lru E) (switches_codec (de_text E)) (dm_mdm s)
             (Switches_GetKey switchesData) switchesData True;
          matrixData = (if loaded then matrixData\<lparr>mx_switches := sw_value switchesData,
                          mx_switchesLen := sw_length switchesData\<rparr> else matrixData);
          s = (PostEvent matrixData (s\<lparr>dm_mdm := m\<rparr>))\<lparr>dm_lasts := matrixData\<rparr>
      in if \<not> dm_executors s then s
         else if dm_task s \<noteq> de_invalidTask E
         then s\<lparr>dm_task := de_Reset E (dm_task s) RESET_MASK_DELAY\<rparr>
         else s\<lparr>dm_task := de_Schedule E RESET_MASK_DELAY\<rparr>)"

definition OnChanged_code :: "('s, 'c, 'l) dm_env \<Rightarrow> ('s, 'c, 'o, 'l) dm \<Rightarrow> u16 \<Rightarrow> int \<Rightarrow> ('s, 'c, 'o, 'l) dm" where
  "OnChanged_code E s code type =
     (if type < STATICS \<or> DYNAMIC < type then s
      else (let s = add_pending code type s
            in if Low code = 0 then s else broadcast_change E s code type))"

definition GetCode :: "('s, 'c, 'o, 'l) dm \<Rightarrow> StoreMetaData \<Rightarrow> u16" where
  "GetCode s metaData =
     (if sm_tokenId metaData = dm_tokenId s \<and> sm_storeId metaData = dm_storeId s then META_STORE_MASK
      else if sint (sm_dataType metaData) = STATICS
      then (case find_app (dm_staticsApps s) (sm_appId metaData) 0 of Some i \<Rightarrow> SetMask i | None \<Rightarrow> 0)
      else if sint (sm_dataType metaData) = DYNAMIC
      then (case find_app (dm_dynamicApps s) (sm_appId metaData) 0 of Some i \<Rightarrow> SetMask i | None \<Rightarrow> 0)
      else 0)"

definition OnChanged :: "('s, 'c, 'l) dm_env \<Rightarrow> ('s, 'c, 'o, 'l) dm \<Rightarrow> StoreMetaData \<Rightarrow> ('s, 'c, 'o, 'l) dm" where
  "OnChanged E s metaData =
     (if sint (sm_dataType metaData) < STATICS \<or> DYNAMIC < sint (sm_dataType metaData) then s
      else let code = GetCode s metaData
           in if code \<noteq> 0 then OnChanged_code E s code (sint (sm_dataType metaData)) else s)"

subsection \<open>Exchanged changes\<close>

definition drop_codes :: "u16 \<Rightarrow> u16 \<Rightarrow> Mask \<Rightarrow> Mask" where
  "drop_codes statics dynamic m =
     m\<lparr>mk_statics := mk_statics m AND NOT statics, mk_dynamic := mk_dynamic m AND NOT dynamic\<rparr>"

definition update_at :: "string \<Rightarrow> (Mask \<Rightarrow> Mask) \<Rightarrow> (string \<rightharpoonup> Mask) \<Rightarrow> (string \<rightharpoonup> Mask)" where
  "update_at d f m = (case m d of None \<Rightarrow> m | Some x \<Rightarrow> m(d \<mapsto> f x))"

definition UpdateConsistentMeta :: "('s, 'c, 'l) dm_env \<Rightarrow> ('s, 'c, 'o, 'l) dm \<Rightarrow> string \<Rightarrow> Mask \<Rightarrow> ('s, 'c, 'o, 'l) dm" where
  "UpdateConsistentMeta E s device remote =
     (let statics = Low (mk_statics remote);
          dynamic = Low (mk_dynamic remote)
      in if statics \<noteq> 0 \<and> dynamic \<noteq> 0 then s
         else
           (let (exist, meta, s) = GetMatrixMeta E s device False;
                (meta, s) = (if exist then (meta, s)
                   else (let meta = meta\<lparr>mm_dynamic := mk_dynamic remote, mm_statics := mk_statics remote,
                               mm_origin := REMOTE_RECEIVED, mm_dynamicInfo := dm_dynamicApps s,
                               mm_staticsInfo := dm_staticsApps s, mm_deviceId := device\<rparr>
                         in (meta, snd (dm_SaveMatrix E s (Matrix_GetKey meta) meta True))));
                (saved, metaData, s) = GetMatrixMeta E s device True
            in if \<not> saved
               then (let meta = meta\<lparr>mm_origin := REMOTE_CONSISTENT, mm_deviceId := device\<rparr>
                     in snd (dm_SaveMatrix E s (Matrix_GetConsistentKey meta) meta True))
               else
                 (let metaData = (if statics = 0 \<and> High (mm_statics meta) > High (mm_statics metaData)
                                  then metaData\<lparr>mm_statics := mm_statics meta\<rparr> else metaData);
                      metaData = (if dynamic = 0 \<and> High (mm_dynamic meta) > High (mm_dynamic metaData)
                                  then metaData\<lparr>mm_dynamic := mm_dynamic meta\<rparr> else metaData)
                  in snd (dm_SaveMatrix E s (Matrix_GetConsistentKey metaData) metaData True))))"

definition OnExchanged_code :: "('s, 'c, 'l) dm_env \<Rightarrow> ('s, 'c, 'o, 'l) dm \<Rightarrow> string \<Rightarrow> u16 \<Rightarrow> int \<Rightarrow> u32 \<Rightarrow> ('s, 'c, 'o, 'l) dm" where
  "OnExchanged_code E s device code type changeType =
     (if device = [] \<or> type < STATICS \<or> DYNAMIC < type then s
      else
        (let low = Low code;
             f = drop_codes (code_for STATICS type low) (code_for DYNAMIC type low);
             s = (if changeType AND CHANGE_LOCAL = CHANGE_LOCAL
                  then s\<lparr>dm_onLines := update_at device f (dm_onLines s), dm_offLines := update_at device f (dm_offLines s)\<rparr>
                  else s)
         in if changeType AND CHANGE_REMOTE = CHANGE_REMOTE
            then (case dm_remotes s device of None \<Rightarrow> s
                  | Some remote \<Rightarrow>
                      UpdateConsistentMeta E (s\<lparr>dm_remotes := (dm_remotes s)(device \<mapsto> f remote)\<rparr>) device (f remote))
            else s))"

definition OnExchanged :: "('s, 'c, 'l) dm_env \<Rightarrow> ('s, 'c, 'o, 'l) dm \<Rightarrow> string \<Rightarrow> StoreMetaData \<Rightarrow> u32 \<Rightarrow> ('s, 'c, 'o, 'l) dm" where
  "OnExchanged E s device metaData type =
     (if sint (sm_dataType metaData) < STATICS \<or> DYNAMIC < sint (sm_dataType metaData) then s
      else let code = GetCode s metaData
           in if code \<noteq> 0 then OnExchanged_code E s device code (sint (sm_dataType metaData)) type else s)"

definition UpdateLevel :: "('s, 'c, 'l) dm_env \<Rightarrow> ('s, 'c, 'o, 'l) dm \<Rightarrow> string \<Rightarrow> u16 \<Rightarrow> int \<Rightarrow> bool \<Rightarrow> ('s, 'c, 'o, 'l) dm" where
  "UpdateLevel E s device level type isConsistent =
     (if device = [] \<or> type < 0 \<or> 2 \<le> type then s
      else
        (let (exist, meta, s) = GetMatrixMeta E s device isConsistent;
             meta = (if exist then meta
               else meta\<lparr>mm_origin := (if device = de_localUuid E then LOCAL
                              else if isConsistent then REMOTE_CONSISTENT else REMOTE_RECEIVED),
                         mm_dynamicInfo := dm_dynamicApps s, mm_staticsInfo := dm_staticsApps s\<rparr>);
             meta = meta\<lparr>mm_deviceId := device\<rparr>;
             meta = meta\<lparr>mm_dynamic := (if type = DYNAMIC then Merge level (mm_dynamic meta) else mm_dynamic meta)\<rparr>;
             meta = meta\<lparr>mm_statics := (if type = STATICS then Merge level (mm_statics meta) else mm_statics meta)\<rparr>;
             (_, s) = dm_SaveMatrix E s (if isConsistent then Matrix_GetConsistentKey meta else Matrix_GetKey meta) meta True
         in if isConsistent then s
            else s\<lparr>dm_matrices := lru_Set (de_bucket E) (dm_matrices s) device (meta\<lparr>mm_deviceId := []\<rparr>)\<rparr>))"

subsection \<open>Queries\<close>

definition mask_of :: "Mask option \<Rightarrow> int \<Rightarrow> bool \<times> u16" where
  "mask_of found type =
     (case found of None \<Rightarrow> (False, 0)
      | Some m \<Rightarrow> if type = STATICS then (True, Low (mk_statics m))
                  else if type = DYNAMIC then (True, Low (mk_dynamic m)) else (False, 0))"

definition GetMask :: "('s, 'c, 'o, 'l) dm \<Rightarrow> string \<Rightarrow> int \<Rightarrow> bool \<times> u16" where
  "GetMask s device type = mask_of (dm_onLines s device) type"

definition GetRemoteMask :: "('s, 'c, 'o, 'l) dm \<Rightarrow> string \<Rightarrow> int \<Rightarrow> bool \<times> u16" where
  "GetRemoteMask s device type = mask_of (dm_remotes s device) type"

definition GetRemoteDynamicMask :: "('s, 'c, 'o, 'l) dm \<Rightarrow> (string \<rightharpoonup> u16)" where
  "GetRemoteDynamicMask s = (\<lambda>d. map_option (\<lambda>m. Low (mk_dynamic m)) (dm_remotes s d))"

definition IsDynamic :: "('s, 'c, 'o, 'l) dm \<Rightarrow> StoreMetaData \<Rightarrow> bool" where
  "IsDynamic s metaData =
     (if sint (sm_dataType metaData) \<noteq> DYNAMIC then False
      else if sm_tokenId metaData = dm_tokenId s \<and> sm_storeId metaData = dm_storeId s then True
      else sm_appId metaData \<in> set (dm_dynamicApps s))"

definition IsStatics :: "('s, 'c, 'o, 'l) dm \<Rightarrow> StoreMetaData \<Rightarrow> bool" where
  "IsStatics s metaData =
     (if sint (sm_dataType metaData) \<noteq> STATICS then False else sm_appId metaData \<in> set (dm_staticsApps s))"

definition IsSupportMatrix :: "('s, 'c, 'o, 'l) dm \<Rightarrow> bool" where
  "IsSupportMatrix s = dm_isSupportBroadcast s"

definition SetExecutor :: "('s, 'c, 'o, 'l) dm \<Rightarrow> bool \<Rightarrow> ('s, 'c, 'o, 'l) dm" where
  "SetExecutor s executors = s\<lparr>dm_executors := executors\<rparr>"

definition Clear :: "('s, 'c, 'l) dm_env \<Rightarrow> ('s, 'c, 'o, 'l) dm \<Rightarrow> ('s, 'c, 'o, 'l) dm" where
  "Clear E s =
     (let B = de_bucket E
      in s\<lparr>dm_matrices := lru_ResetCapacity B (lru_ResetCapacity B (dm_matrices s) 0) MAX_DEVICES,
           dm_versions := lru_ResetCapacity B (lru_ResetCapacity B (dm_versions s) 0) MAX_DEVICES,
           dm_onLines := Map.empty, dm_offLines := Map.empty, dm_remotes := Map.empty\<rparr>)"

subsection \<open>Changed metadata\<close>

text \<open>
  The two observers the constructor installs: one for the local key space, one for the synchronised
  one. The device identifier is moved out of the record before the record is cached.
\<close>

definition OnMatrixMeta :: "('s, 'c, 'l) dm_env \<Rightarrow> ('s, 'c, 'o, 'l) dm \<Rightarrow> string \<Rightarrow> meta_action \<Rightarrow> ('s, 'c, 'o, 'l) dm" where
  "OnMatrixMeta E s meta action =
     (if action \<noteq> ACT_INSERT \<and> action \<noteq> ACT_UPDATE then s
      else case Unmarshall_static (de_text E) MatrixMetaData_Unmarshal meta MatrixMetaData_new of (ok, metaData) \<Rightarrow>
        if \<not> ok \<or> mm_origin metaData = REMOTE_CONSISTENT then s
        else s\<lparr>dm_matrices := lru_Set (de_bucket E) (dm_matrices s) (mm_deviceId metaData) (metaData\<lparr>mm_deviceId := []\<rparr>)\<rparr>)"

definition OnMatrixVersion :: "('s, 'c, 'l) dm_env \<Rightarrow> ('s, 'c, 'o, 'l) dm \<Rightarrow> string \<Rightarrow> string \<Rightarrow> meta_action \<Rightarrow> ('s, 'c, 'o, 'l) dm" where
  "OnMatrixVersion E s key meta action =
     (if action \<noteq> ACT_INSERT \<and> action \<noteq> ACT_UPDATE then s
      else
        (let (metaData, s) = (if meta = []
               then (case dm_LoadMatrix E s key MatrixMetaData_new False of (_, metaData, s) \<Rightarrow> (metaData, s))
               else (snd (Unmarshall_static (de_text E) MatrixMetaData_Unmarshal meta MatrixMetaData_new), s))
         in s\<lparr>dm_versions := lru_Set (de_bucket E) (dm_versions s) (mm_deviceId metaData) (metaData\<lparr>mm_deviceId := []\<rparr>)\<rparr>))"

subsection \<open>What the reads leave alone\<close>

text \<open>Everything but the metadata manager and the two caches.\<close>

definition same_masks :: "('s, 'c, 'o, 'l) dm \<Rightarrow> ('s, 'c, 'o, 'l) dm \<Rightarrow> bool" where
  "same_masks s s' \<longleftrightarrow> dm_onLines s' = dm_onLines s \<and> dm_offLines s' = dm_offLines s \<and> dm_remotes s' = dm_remotes s \<and>
     dm_dynamicApps s' = dm_dynamicApps s \<and> dm_staticsApps s' = dm_staticsApps s \<and> dm_lasts s' = dm_lasts s \<and>
     dm_executors s' = dm_executors s \<and> dm_task s' = dm_task s \<and> dm_events s' = dm_events s \<and>
     dm_tokenId s' = dm_tokenId s \<and> dm_storeId s' = dm_storeId s"

definition stripped :: "('l \<Rightarrow> (string \<rightharpoonup> MatrixMetaData)) \<Rightarrow> 'l \<Rightarrow> bool" where
  "stripped lv l \<longleftrightarrow> (\<forall>d m. lv l d = Some m \<longrightarrow> mm_deviceId m = [])"

lemma stripped_Set:
  assumes "lru_ok B lv" "stripped lv l" "mm_deviceId m = []"
  shows "stripped lv (lru_Set B l d m)"
  unfolding stripped_def
proof (intro allI impI)
  fix e n
  assume "lv (lru_Set B l d m) e = Some n"
  then have "((lv l)(d \<mapsto> m)) e = Some n" by (rule map_le_SomeD [OF lru_ok_Set [OF assms(1)]])
  then show "mm_deviceId n = []" using assms(2,3) by (auto simp: stripped_def split: if_splits)
qed

lemma stripped_Get:
  assumes "lru_ok B lv" "stripped lv l" "lru_Get B l d = (r, l')"
  shows "stripped lv l'" and "r = Some m \<Longrightarrow> mm_deviceId m = []"
  using lru_ok_Get_fst [OF assms(1,3)] assms(2) by (auto simp: stripped_def)

lemma stripped_Reset:
  assumes "lru_ok B lv"
  shows "stripped lv (lru_ResetCapacity B (lru_ResetCapacity B l 0) n)"
proof -
  have "lv (lru_ResetCapacity B (lru_ResetCapacity B l 0) n) \<subseteq>\<^sub>m Map.empty"
    using lru_ok_Reset [OF assms, of "lru_ResetCapacity B l 0" n] by (simp add: lru_ok_Reset0 [OF assms])
  then show ?thesis by (auto simp: stripped_def dest: map_le_SomeD)
qed

lemma dm_LoadMatrix_frame:
  assumes "dm_LoadMatrix E s k v l = (ok, v', s')"
  shows "same_masks s s'" "dm_matrices s' = dm_matrices s" "dm_versions s' = dm_versions s"
  using assms by (auto simp: dm_LoadMatrix_def same_masks_def split: prod.splits)

lemma dm_SaveMatrix_frame:
  assumes "dm_SaveMatrix E s k v l = (ok, s')"
  shows "same_masks s s'" "dm_matrices s' = dm_matrices s" "dm_versions s' = dm_versions s"
  using assms by (auto simp: dm_SaveMatrix_def same_masks_def split: prod.splits)

lemma dm_SaveMatrix_snd [simp]:
  "same_masks s (snd (dm_SaveMatrix E s k v l))" "dm_matrices (snd (dm_SaveMatrix E s k v l)) = dm_matrices s"
  "dm_versions (snd (dm_SaveMatrix E s k v l)) = dm_versions s"
  using dm_SaveMatrix_frame [of E s k v l] by (metis prod.collapse)+

lemma same_masks_refl [simp]: "same_masks s s"
  by (simp add: same_masks_def)

lemma same_masks_trans: "same_masks s s' \<Longrightarrow> same_masks s' s'' \<Longrightarrow> same_masks s s''"
  by (simp add: same_masks_def)

lemma same_masks_upd [simp]:
  "same_masks s (s'\<lparr>dm_matrices := l\<rparr>) = same_masks s s'" "same_masks s (s'\<lparr>dm_versions := l\<rparr>) = same_masks s s'"
  "same_masks s (s'\<lparr>dm_mdm := m\<rparr>) = same_masks s s'" "same_masks (s\<lparr>dm_matrices := l\<rparr>) s' = same_masks s s'"
  "same_masks (s\<lparr>dm_versions := l\<rparr>) s' = same_masks s s'"
  by (simp_all add: same_masks_def)

text \<open>The two ways \<open>GetMatrixMeta\<close> goes: answered from the cache, or loaded.\<close>

lemma GetMatrixMeta_cases:
  obtains (cached) meta l' where "lru_Get (de_bucket E) (dm_matrices s) d = (Some meta, l')" "\<not> c"
      "GetMatrixMeta E s d c = (True, meta, s\<lparr>dm_matrices := l'\<rparr>)"
  | (loaded) l' key ok meta s1 where
      "if c then l' = dm_matrices s else lru_Get (de_bucket E) (dm_matrices s) d = (None, l')"
      "dm_LoadMatrix E (s\<lparr>dm_matrices := l'\<rparr>) key (MatrixMetaData_new\<lparr>mm_deviceId := d\<rparr>) True = (ok, meta, s1)"
      "GetMatrixMeta E s d c = (if ok \<and> \<not> c
         then (ok, meta\<lparr>mm_deviceId := []\<rparr>,
               s1\<lparr>dm_matrices := lru_Set (de_bucket E) (dm_matrices s1) d (meta\<lparr>mm_deviceId := []\<rparr>)\<rparr>)
         else (ok, meta, s1))"
proof -
  obtain r l' where rl: "(if c then (None, dm_matrices s) else lru_Get (de_bucket E) (dm_matrices s) d) = (r, l')"
    by fastforce
  define key where "key = (if c then Matrix_GetConsistentKey (MatrixMetaData_new\<lparr>mm_deviceId := d\<rparr>)
       else Matrix_GetKey (MatrixMetaData_new\<lparr>mm_deviceId := d\<rparr>))"
  obtain ok meta s1 where ld: "dm_LoadMatrix E (s\<lparr>dm_matrices := l'\<rparr>) key (MatrixMetaData_new\<lparr>mm_deviceId := d\<rparr>) True = (ok, meta, s1)"
    by (metis prod_cases3)
  show thesis
  proof (cases r)
    case (Some m)
    then show ?thesis using rl by (intro cached [of m l']) (auto simp: GetMatrixMeta_def split: if_splits)
  next
    case None
    have "GetMatrixMeta E s d c = (if ok \<and> \<not> c
         then (ok, meta\<lparr>mm_deviceId := []\<rparr>,
               s1\<lparr>dm_matrices := lru_Set (de_bucket E) (dm_matrices s1) d (meta\<lparr>mm_deviceId := []\<rparr>)\<rparr>)
         else (ok, meta, s1))"
      unfolding GetMatrixMeta_def rl by (simp add: None Let_def ld flip: key_def)
    then show ?thesis using rl None by (intro loaded [OF _ ld]) (auto split: if_splits)
  qed
qed

lemma GetMatrixMeta_frame:
  "same_masks s (snd (snd (GetMatrixMeta E s d c)))" "dm_versions (snd (snd (GetMatrixMeta E s d c))) = dm_versions s"
  by (rule GetMatrixMeta_cases [of E s d c]; auto dest: dm_LoadMatrix_frame)+

lemma GetMatrixMeta_stripped:
  assumes B: "lru_ok (de_bucket E) lv" "stripped lv (dm_matrices s)"
  shows "stripped lv (dm_matrices (snd (snd (GetMatrixMeta E s d c))))"
    and "fst (GetMatrixMeta E s d c) \<Longrightarrow> \<not> c \<Longrightarrow> mm_deviceId (fst (snd (GetMatrixMeta E s d c))) = []"
proof -
  have "stripped lv (dm_matrices (snd (snd (GetMatrixMeta E s d c)))) \<and>
    (fst (GetMatrixMeta E s d c) \<longrightarrow> \<not> c \<longrightarrow> mm_deviceId (fst (snd (GetMatrixMeta E s d c))) = [])"
  proof (rule GetMatrixMeta_cases [of E s d c])
    fix meta l'
    assume "lru_Get (de_bucket E) (dm_matrices s) d = (Some meta, l')"
      "GetMatrixMeta E s d c = (True, meta, s\<lparr>dm_matrices := l'\<rparr>)"
    then show ?thesis using stripped_Get [OF B] by auto
  next
    fix l' key ok meta s1
    assume l': "if c then l' = dm_matrices s else lru_Get (de_bucket E) (dm_matrices s) d = (None, l')"
      and ld: "dm_LoadMatrix E (s\<lparr>dm_matrices := l'\<rparr>) key (MatrixMetaData_new\<lparr>mm_deviceId := d\<rparr>) True = (ok, meta, s1)"
      and g: "GetMatrixMeta E s d c = (if ok \<and> \<not> c
         then (ok, meta\<lparr>mm_deviceId := []\<rparr>,
               s1\<lparr>dm_matrices := lru_Set (de_bucket E) (dm_matrices s1) d (meta\<lparr>mm_deviceId := []\<rparr>)\<rparr>)
         else (ok, meta, s1))"
    have "stripped lv l'" using l' B stripped_Get [OF B] by (auto split: if_splits)
    then show ?thesis using g dm_LoadMatrix_frame(2) [OF ld] by (cases c) (simp_all add: stripped_Set [OF B(1)])
  qed
  then show "stripped lv (dm_matrices (snd (snd (GetMatrixMeta E s d c))))"
    and "fst (GetMatrixMeta E s d c) \<Longrightarrow> \<not> c \<Longrightarrow> mm_deviceId (fst (snd (GetMatrixMeta E s d c))) = []" by blast+
qed

lemma GetMatrixInfo_frame:
  "same_masks s (snd (GetMatrixInfo E s d))" "dm_matrices (snd (GetMatrixInfo E s d)) = dm_matrices s"
  and GetMatrixInfo_stripped: "lru_ok (de_bucket E) lv \<Longrightarrow> stripped lv (dm_versions s) \<Longrightarrow>
    stripped lv (dm_versions (snd (GetMatrixInfo E s d)))"
proof -
  obtain r l' where rl: "lru_Get (de_bucket E) (dm_versions s) d = (r, l')" by fastforce
  let ?m = "MatrixMetaData_new\<lparr>mm_deviceId := d\<rparr>"
  obtain ok meta s1 where ld: "dm_LoadMatrix E (s\<lparr>dm_versions := l'\<rparr>) (Matrix_GetKey ?m) ?m False = (ok, meta, s1)"
    by (metis prod_cases3)
  note F = dm_LoadMatrix_frame [OF ld]
  have eq: "GetMatrixInfo E s d = (case r of Some meta \<Rightarrow> (meta, s\<lparr>dm_versions := l'\<rparr>)
     | None \<Rightarrow> if ok then (meta\<lparr>mm_deviceId := []\<rparr>,
          s1\<lparr>dm_versions := lru_Set (de_bucket E) (dm_versions s1) d (meta\<lparr>mm_deviceId := []\<rparr>)\<rparr>)
        else (meta, s1))"
    unfolding GetMatrixInfo_def rl by (cases r) (simp_all add: Let_def ld)
  show "same_masks s (snd (GetMatrixInfo E s d))" "dm_matrices (snd (GetMatrixInfo E s d)) = dm_matrices s"
    using eq F by (cases r; cases ok; simp)+
  show "stripped lv (dm_versions (snd (GetMatrixInfo E s d)))"
    if "lru_ok (de_bucket E) lv" "stripped lv (dm_versions s)"
    using eq F stripped_Get [OF that rl] by (cases r; cases ok) (simp_all add: stripped_Set [OF that(1)])
qed

text \<open>
  The invariant: no device is both online and offline, and the cached metadata carries no device
  identifier.
\<close>

definition dm_inv :: "('l \<Rightarrow> (string \<rightharpoonup> MatrixMetaData)) \<Rightarrow> ('s, 'c, 'o, 'l) dm \<Rightarrow> bool" where
  "dm_inv lv s \<longleftrightarrow> dom (dm_onLines s) \<inter> dom (dm_offLines s) = {} \<and>
     stripped lv (dm_matrices s) \<and> stripped lv (dm_versions s)"

lemma dm_inv_same:
  "dm_inv lv s \<Longrightarrow> same_masks s s' \<Longrightarrow> stripped lv (dm_matrices s') \<Longrightarrow> stripped lv (dm_versions s') \<Longrightarrow> dm_inv lv s'"
  by (simp add: dm_inv_def same_masks_def)

lemma dm_inv_stripped:
  "dm_inv lv s \<Longrightarrow> stripped lv (dm_matrices s)" "dm_inv lv s \<Longrightarrow> stripped lv (dm_versions s)"
  by (simp_all add: dm_inv_def)

lemma dm_inv_save [dds_inv]: "dm_inv lv s \<Longrightarrow> dm_inv lv (snd (dm_SaveMatrix E s k v l))"
  by (rule dm_inv_same [where s = s]) (simp_all add: dm_inv_stripped)

lemma dm_inv_GetMatrixMeta [dds_inv]:
  "lru_ok (de_bucket E) lv \<Longrightarrow> dm_inv lv s \<Longrightarrow> dm_inv lv (snd (snd (GetMatrixMeta E s d c)))"
  by (rule dm_inv_same [where s = s]) (simp_all add: GetMatrixMeta_frame GetMatrixMeta_stripped dm_inv_stripped)

lemma dm_inv_GetMatrixInfo [dds_inv]:
  "lru_ok (de_bucket E) lv \<Longrightarrow> dm_inv lv s \<Longrightarrow> dm_inv lv (snd (GetMatrixInfo E s d))"
  by (rule dm_inv_same [where s = s]) (simp_all add: GetMatrixInfo_frame GetMatrixInfo_stripped dm_inv_stripped)

lemma UpdateMask_state: "snd (UpdateMask E s m) = snd (snd (GetMatrixMeta E s (de_localUuid E) False))"
  by (simp add: UpdateMask_def split: prod.splits)

lemma dm_inv_fields [simp]:
  "dm_inv lv (s\<lparr>dm_mdm := m\<rparr>) = dm_inv lv s" "dm_inv lv (s\<lparr>dm_lasts := d\<rparr>) = dm_inv lv s"
  "dm_inv lv (s\<lparr>dm_task := t\<rparr>) = dm_inv lv s" "dm_inv lv (PostEvent e s) = dm_inv lv s"
  "dm_inv lv (s\<lparr>dm_remotes := r\<rparr>) = dm_inv lv s" "dm_inv lv (s\<lparr>dm_executors := b\<rparr>) = dm_inv lv s"
  "dm_inv lv (s\<lparr>dm_dynamicApps := da\<rparr>) = dm_inv lv s" "dm_inv lv (s\<lparr>dm_staticsApps := sa\<rparr>) = dm_inv lv s"
  "dm_inv lv (s\<lparr>dm_isSupportBroadcast := b\<rparr>) = dm_inv lv s" "dm_inv lv (s\<lparr>dm_tokenId := tok\<rparr>) = dm_inv lv s"
  "dm_inv lv (s\<lparr>dm_storeId := i\<rparr>) = dm_inv lv s"
  by (simp_all add: dm_inv_def PostEvent_def)

lemma dm_inv_LoadMatrix [dds_inv]: "dm_inv lv s \<Longrightarrow> dm_inv lv (snd (snd (dm_LoadMatrix E s k v l)))"
  by (simp add: dm_LoadMatrix_def split: prod.splits)

lemma dm_inv_Online [dds_inv]:
  assumes "lru_ok (de_bucket E) lv" "dm_inv lv s"
  shows "dm_inv lv (Online E s d)"
proof (cases "dm_offLines s d")
  case None
  obtain m s1 where u: "UpdateMask E s Mask_new = (m, s1)" by fastforce
  have "s1 = snd (snd (GetMatrixMeta E s (de_localUuid E) False))" using UpdateMask_state [of E s Mask_new] u by simp
  then have "dm_inv lv s1" "dm_offLines s1 = dm_offLines s"
    using dm_inv_GetMatrixMeta [OF assms] GetMatrixMeta_frame(1) [of s E "de_localUuid E" False] by (auto simp: same_masks_def)
  then show ?thesis using None u by (auto simp: Online_def dm_inv_def)
next
  case (Some m)
  then show ?thesis using assms(2) by (auto simp: Online_def dm_inv_def)
qed

lemma dm_inv_Offline [dds_inv]:
  assumes "lru_ok (de_bucket E) lv" "dm_inv lv s"
  shows "dm_inv lv (Offline E s d)"
proof (cases "dm_onLines s d")
  case None
  obtain m s1 where u: "UpdateMask E s Mask_new = (m, s1)" by fastforce
  have "s1 = snd (snd (GetMatrixMeta E s (de_localUuid E) False))" using UpdateMask_state [of E s Mask_new] u by simp
  then have "dm_inv lv s1" "dm_onLines s1 = dm_onLines s"
    using dm_inv_GetMatrixMeta [OF assms] GetMatrixMeta_frame(1) [of s E "de_localUuid E" False] by (auto simp: same_masks_def)
  then show ?thesis using None u by (auto simp: Offline_def dm_inv_def)
next
  case (Some m)
  then show ?thesis using assms(2) by (auto simp: Offline_def dm_inv_def)
qed

lemma ConvertMask_state: "snd (ConvertMask E s d dl) = snd (GetMatrixInfo E s d)"
  by (simp add: ConvertMask_def split: prod.splits)

lemma SaveSwitches_frame: "same_masks s (SaveSwitches E s d n dl)"
  "dm_matrices (SaveSwitches E s d n dl) = dm_matrices s" "dm_versions (SaveSwitches E s d n dl) = dm_versions s"
  by (auto simp: SaveSwitches_def Let_def same_masks_def split: prod.splits)

lemma dm_inv_SaveSwitches [dds_inv]: "dm_inv lv s \<Longrightarrow> dm_inv lv (SaveSwitches E s d n dl)"
  by (rule dm_inv_same [where s = s]) (simp_all add: SaveSwitches_frame dm_inv_stripped)

text \<open>What \<open>UpdateRemoteMeta\<close> does, with the metadata it found.\<close>

lemma UpdateRemoteMeta_cases:
  assumes "GetMatrixMeta E s d False = (exist, old, s1)"
  shows "UpdateRemoteMeta E s d msk new =
    (if exist \<and> Matrix_eq old new then (msk, new, s1)
     else (let D = (if exist then known_level (mm_dynamic old) (mm_dynamic new) (mk_dynamic msk)
                    else fresh_level (mm_dynamic new) (mk_dynamic msk));
               S = (if exist then known_level (mm_statics old) (mm_statics new) (mk_statics msk)
                    else fresh_level (mm_statics new) (mk_statics msk));
               new' = new\<lparr>mm_dynamic := fst D, mm_statics := fst S\<rparr>
           in (\<lparr>mk_dynamic = snd D, mk_statics = snd S\<rparr>, new', snd (dm_SaveMatrix E s1 (Matrix_GetKey new') new' True))))"
  using assms by (cases msk) (simp add: UpdateRemoteMeta_def Let_def split: prod.splits)

lemma UpdateRemoteMeta_state:
  "\<exists>key meta. snd (snd (UpdateRemoteMeta E s d msk new)) \<in>
     {snd (snd (GetMatrixMeta E s d False)), snd (dm_SaveMatrix E (snd (snd (GetMatrixMeta E s d False))) key meta True)}"
  by (cases "GetMatrixMeta E s d False") (auto simp: UpdateRemoteMeta_cases Let_def)

lemma dm_inv_UpdateRemoteMeta [dds_inv]:
  assumes "lru_ok (de_bucket E) lv" "dm_inv lv s"
  shows "dm_inv lv (snd (snd (UpdateRemoteMeta E s d msk new)))"
  using UpdateRemoteMeta_state [of E s d msk new] dm_inv_GetMatrixMeta [OF assms] dm_inv_save by fastforce

lemma dm_inv_OnBroadcast [dds_inv]:
  assumes "lru_ok (de_bucket E) lv" "dm_inv lv s"
  shows "dm_inv lv (snd (OnBroadcast E s d n dl))"
proof -
  let ?s1 = "SaveSwitches E s d n dl"
  obtain r s2 where c: "ConvertMask E ?s1 d dl = (r, s2)" by fastforce
  have i2: "dm_inv lv s2"
    using dm_inv_GetMatrixInfo [OF assms(1) dm_inv_SaveSwitches [OF assms(2)]] ConvertMask_state [of E ?s1 d dl] c by (metis snd_conv)
  have i3: "dm_inv lv s3" if "UpdateRemoteMeta E s2 d x y = (x', y', s3)" for x y x' y' s3
    using dm_inv_UpdateRemoteMeta [OF assms(1) i2, of d x y] that by simp
  show ?thesis
    using assms(2) c i3 by (auto simp: OnBroadcast_def Let_def split: prod.splits)
qed

lemma dm_inv_Broadcast [dds_inv]: "dm_inv lv s \<Longrightarrow> dm_inv lv (Broadcast E s dl)"
  by (simp add: Broadcast_def Let_def)

lemma dom_map_option_comp [simp]: "dom (\<lambda>d. map_option f (m d)) = dom m"
  by (auto simp: dom_def)

lemma dom_update_at [simp]: "dom (update_at d f m) = dom m"
  by (auto simp: update_at_def dom_def split: option.splits)

lemma OnChanged_code_eq:
  "type = STATICS \<or> type = DYNAMIC \<Longrightarrow> OnChanged_code E s code type =
     (if Low code = 0 then add_pending code type s else broadcast_change E (add_pending code type s) code type)"
  by (auto simp: OnChanged_code_def Let_def)

lemma OnChanged_code_halves:
  assumes "type = STATICS \<or> type = DYNAMIC"
  shows "dm_onLines (OnChanged_code E s code type) = dm_onLines (add_pending code type s)"
    "dm_offLines (OnChanged_code E s code type) = dm_offLines (add_pending code type s)"
    "dm_remotes (OnChanged_code E s code type) = dm_remotes s"
    "dm_versions (OnChanged_code E s code type) = dm_versions s"
    "dm_matrices (OnChanged_code E s code type) =
       (if Low code = 0 then dm_matrices s
        else dm_matrices (snd (snd (GetMatrixMeta E (add_pending code type s) (de_localUuid E) False))))"
proof -
  let ?s1 = "add_pending code type s"
  obtain msk s2 where u: "UpdateMask E ?s1 Mask_new = (msk, s2)" by fastforce
  have s2: "s2 = snd (snd (GetMatrixMeta E ?s1 (de_localUuid E) False))"
    using UpdateMask_state [of E ?s1 Mask_new] u by simp
  have F: "dm_onLines s2 = dm_onLines ?s1" "dm_offLines s2 = dm_offLines ?s1" "dm_remotes s2 = dm_remotes ?s1"
    "dm_versions s2 = dm_versions ?s1"
    using GetMatrixMeta_frame(1) [of ?s1 E "de_localUuid E" False] GetMatrixMeta_frame(2) [of E ?s1 "de_localUuid E" False]
    by (simp_all add: s2 same_masks_def)
  obtain ld sw m where l: "LoadMeta (de_db E) (de_lru E) (switches_codec (de_text E)) (dm_mdm s2)
      (Switches_GetKey (SwitchesMetaData_new\<lparr>sw_deviceId := de_localUuid E\<rparr>))
      (SwitchesMetaData_new\<lparr>sw_deviceId := de_localUuid E\<rparr>) True = (ld, sw, m)"
    by (metis prod_cases3)
  have r: "dm_remotes ?s1 = dm_remotes s" "dm_versions ?s1 = dm_versions s" "dm_matrices ?s1 = dm_matrices s"
    by (simp_all add: add_pending_def Let_def)
  have eq: "dm_onLines (OnChanged_code E s code type) = dm_onLines ?s1 \<and>
    dm_offLines (OnChanged_code E s code type) = dm_offLines ?s1 \<and> dm_remotes (OnChanged_code E s code type) = dm_remotes ?s1 \<and>
    dm_versions (OnChanged_code E s code type) = dm_versions ?s1 \<and>
    dm_matrices (OnChanged_code E s code type) = (if Low code = 0 then dm_matrices ?s1 else dm_matrices s2)"
    using F u l by (simp add: OnChanged_code_eq [OF assms] broadcast_change_def Let_def PostEvent_def)
  then show "dm_onLines (OnChanged_code E s code type) = dm_onLines (add_pending code type s)"
    "dm_offLines (OnChanged_code E s code type) = dm_offLines (add_pending code type s)"
    "dm_remotes (OnChanged_code E s code type) = dm_remotes s"
    "dm_versions (OnChanged_code E s code type) = dm_versions s"
    "dm_matrices (OnChanged_code E s code type) =
       (if Low code = 0 then dm_matrices s
        else dm_matrices (snd (snd (GetMatrixMeta E (add_pending code type s) (de_localUuid E) False))))"
    by (simp_all add: r s2)
qed

lemma dm_inv_OnChanged_code [dds_inv]:
  assumes "lru_ok (de_bucket E) lv" "dm_inv lv s"
  shows "dm_inv lv (OnChanged_code E s code type)"
proof (cases "type = STATICS \<or> type = DYNAMIC")
  case True
  have "dm_inv lv (add_pending code type s)" using assms(2) by (simp add: dm_inv_def add_pending_def Let_def)
  then have "stripped lv (dm_matrices (snd (snd (GetMatrixMeta E (add_pending code type s) (de_localUuid E) False))))"
    using dm_inv_GetMatrixMeta [OF assms(1)] by (metis dm_inv_stripped(1))
  then show ?thesis
    using assms(2) by (simp add: dm_inv_def OnChanged_code_halves [OF True]) (simp add: add_pending_def Let_def)
next
  case False
  then show ?thesis using assms(2) by (auto simp: OnChanged_code_def)
qed

lemma dm_inv_OnChanged [dds_inv]:
  "lru_ok (de_bucket E) lv \<Longrightarrow> dm_inv lv s \<Longrightarrow> dm_inv lv (OnChanged E s m)"
  by (simp add: OnChanged_def Let_def dm_inv_OnChanged_code)

text \<open>The states \<open>UpdateConsistentMeta\<close> goes through are reads and saves of metadata.\<close>

inductive meta_moves :: "('s, 'c, 'l) dm_env \<Rightarrow> ('s, 'c, 'o, 'l) dm \<Rightarrow> ('s, 'c, 'o, 'l) dm \<Rightarrow> bool" for E where
  here: "meta_moves E s s"
| read: "meta_moves E s s' \<Longrightarrow> meta_moves E s (snd (snd (GetMatrixMeta E s' d c)))"
| save: "meta_moves E s s' \<Longrightarrow> meta_moves E s (snd (dm_SaveMatrix E s' k v l))"

lemma meta_moves_same: "meta_moves E s s' \<Longrightarrow> same_masks s s' \<and> dm_versions s' = dm_versions s"
proof (induction rule: meta_moves.induct)
  case (read s s' d c)
  then show ?case using GetMatrixMeta_frame(1) [of s' E d c] GetMatrixMeta_frame(2) [of E s' d c] same_masks_trans by metis
next
  case (save s s' k v l)
  then show ?case by (auto intro: same_masks_trans [OF _ dm_SaveMatrix_snd(1)])
qed simp

lemma meta_moves_inv: "meta_moves E s s' \<Longrightarrow> lru_ok (de_bucket E) lv \<Longrightarrow> dm_inv lv s \<Longrightarrow> dm_inv lv s'"
  by (induction rule: meta_moves.induct) (auto intro: dm_inv_GetMatrixMeta dm_inv_save)

lemma UpdateConsistentMeta_moves: "meta_moves E s (UpdateConsistentMeta E s d remote)"
proof -
  obtain ex meta s1 where g1: "GetMatrixMeta E s d False = (ex, meta, s1)" by (metis prod_cases3)
  have m1: "meta_moves E s s1" using meta_moves.read [OF meta_moves.here, of E s d False] g1 by simp
  define p where "p = (if ex then (meta, s1)
     else (let meta = meta\<lparr>mm_dynamic := mk_dynamic remote, mm_statics := mk_statics remote,
             mm_origin := REMOTE_RECEIVED, mm_dynamicInfo := dm_dynamicApps s1,
             mm_staticsInfo := dm_staticsApps s1, mm_deviceId := d\<rparr>
           in (meta, snd (dm_SaveMatrix E s1 (Matrix_GetKey meta) meta True))))"
  obtain meta2 s2 where p2: "p = (meta2, s2)" by fastforce
  have m2: "meta_moves E s s2" using m1 p2 by (auto simp: p_def Let_def intro: meta_moves.save split: if_splits)
  obtain sv metaData s3 where g3: "GetMatrixMeta E s2 d True = (sv, metaData, s3)" by (metis prod_cases3)
  have m3: "meta_moves E s s3" using meta_moves.read [OF m2, of d True] g3 by simp
  have "UpdateConsistentMeta E s d remote = s \<or> (\<exists>k v. UpdateConsistentMeta E s d remote = snd (dm_SaveMatrix E s3 k v True))"
    unfolding UpdateConsistentMeta_def using g1 g3 p2 p_def by (simp add: Let_def) blast
  then show ?thesis using m3 by (auto intro: meta_moves.here meta_moves.save)
qed

lemma dm_inv_OnExchanged_code [dds_inv]:
  assumes "lru_ok (de_bucket E) lv" "dm_inv lv s"
  shows "dm_inv lv (OnExchanged_code E s d code type ct)"
proof -
  have "dm_inv lv (s\<lparr>dm_onLines := update_at d f (dm_onLines s), dm_offLines := update_at d f (dm_offLines s)\<rparr>)" for f
    using assms(2) by (simp add: dm_inv_def)
  then show ?thesis
    using assms(2)
    by (auto simp: OnExchanged_code_def Let_def intro!: meta_moves_inv [OF UpdateConsistentMeta_moves assms(1)] split: option.splits)
qed

lemma dm_inv_OnExchanged [dds_inv]:
  "lru_ok (de_bucket E) lv \<Longrightarrow> dm_inv lv s \<Longrightarrow> dm_inv lv (OnExchanged E s d m ct)"
  by (simp add: OnExchanged_def Let_def dm_inv_OnExchanged_code)

lemma dm_inv_matrices_Set: "lru_ok (de_bucket E) lv \<Longrightarrow> dm_inv lv s \<Longrightarrow>
  dm_inv lv (s\<lparr>dm_matrices := lru_Set (de_bucket E) (dm_matrices s) d (m\<lparr>mm_deviceId := []\<rparr>)\<rparr>)"
  "lru_ok (de_bucket E) lv \<Longrightarrow> dm_inv lv s \<Longrightarrow>
  dm_inv lv (s\<lparr>dm_versions := lru_Set (de_bucket E) (dm_versions s) d (m\<lparr>mm_deviceId := []\<rparr>)\<rparr>)"
  by (simp_all add: dm_inv_def stripped_Set)

lemma dm_inv_UpdateLevel [dds_inv]:
  assumes "lru_ok (de_bucket E) lv" "dm_inv lv s"
  shows "dm_inv lv (UpdateLevel E s d level type c)"
proof -
  obtain ex meta s1 where g: "GetMatrixMeta E s d c = (ex, meta, s1)" by (metis prod_cases3)
  have "dm_inv lv s1" using dm_inv_GetMatrixMeta [OF assms, of d c] g by simp
  then have i: "dm_inv lv s2" if "dm_SaveMatrix E s1 k v True = (b, s2)" for k v b s2
    using dm_inv_save [of lv s1 E k v True] that by simp
  show ?thesis
    using assms(2) g by (auto simp: UpdateLevel_def Let_def intro!: dm_inv_matrices_Set [OF assms(1)] dest: i split: prod.splits)
qed

lemma dm_inv_Clear [dds_inv]: "lru_ok (de_bucket E) lv \<Longrightarrow> dm_inv lv (Clear E s)"
  by (simp add: Clear_def dm_inv_def stripped_Reset Let_def)

lemma dm_inv_Initialize [dds_inv]:
  assumes "dm_inv lv s"
  shows "dm_inv lv (snd (Initialize E s tok st))"
proof -
  have ld: "dm_inv lv s2" if "dm_LoadMatrix E s1 k v l = (ok, v', s2)" "dm_inv lv s1" for s1 k v l ok v' s2
    using dm_inv_LoadMatrix [OF that(2), of E k v l] that(1) by simp
  have sv: "dm_inv lv s2" if "dm_SaveMatrix E s1 k v l = (ok, s2)" "dm_inv lv s1" for s1 k v l ok s2
    using dm_inv_save [OF that(2), of E k v l] that(1) by simp
  show ?thesis
    using assms unfolding Initialize_def Let_def
    by (auto split: prod.splits intro!: dm_inv_save dest!: ld sv)
qed

lemma dm_inv_OnMatrixMeta [dds_inv]: "lru_ok (de_bucket E) lv \<Longrightarrow> dm_inv lv s \<Longrightarrow> dm_inv lv (OnMatrixMeta E s m a)"
  by (auto simp: OnMatrixMeta_def dm_inv_matrices_Set split: prod.splits)

lemma dm_inv_OnMatrixVersion [dds_inv]:
  assumes "lru_ok (de_bucket E) lv" "dm_inv lv s"
  shows "dm_inv lv (OnMatrixVersion E s k m a)"
proof -
  have ld: "dm_inv lv s2" if "dm_LoadMatrix E s k v l = (ok, v', s2)" for v l ok v' s2
    using dm_inv_LoadMatrix [OF assms(2), of E k v l] that by simp
  show ?thesis
    using assms by (auto simp: OnMatrixVersion_def Let_def intro!: dm_inv_matrices_Set dest: ld split: prod.splits)
qed

lemma IsConsistent_moves: "meta_moves E s (snd (IsConsistent E s d))"
proof -
  have r: "meta_moves E s s2" if "GetRecvLevel E s1 d t = (x, s2)" "meta_moves E s s1" for s1 s2 t x
    using meta_moves.read [OF that(2), of d False] that(1) by (auto simp: GetRecvLevel_def split: prod.splits if_splits)
  have c: "meta_moves E s s2" if "GetConsLevel E s1 d t = (x, s2)" "meta_moves E s s1" for s1 s2 t x
    using meta_moves.read [OF that(2), of d True] that(1) by (auto simp: GetConsLevel_def split: prod.splits if_splits)
  obtain d1 l1 s1 where 1: "GetRecvLevel E s d DYNAMIC = ((d1, l1), s1)" by (metis prod.collapse)
  obtain d2 l2 s2 where 2: "GetConsLevel E s1 d DYNAMIC = ((d2, l2), s2)" by (metis prod.collapse)
  obtain d3 l3 s3 where 3: "GetRecvLevel E s2 d STATICS = ((d3, l3), s3)" by (metis prod.collapse)
  obtain d4 l4 s4 where 4: "GetConsLevel E s3 d STATICS = ((d4, l4), s4)" by (metis prod.collapse)
  have "meta_moves E s s4" by (rule c [OF 4 r [OF 3 c [OF 2 r [OF 1 meta_moves.here]]]])
  then show ?thesis unfolding IsConsistent_def Let_def by (simp add: 1 2 3 4)
qed

subsection \<open>Requests\<close>

datatype dm_req =
    ReqInitialize_dm u32 string
  | ReqOnline string
  | ReqOffline string
  | ReqOnBroadcast string string DataLevel
  | ReqBroadcast DataLevel
  | ReqChangedCode u16 int
  | ReqChanged StoreMetaData
  | ReqExchangedCode string u16 int u32
  | ReqExchanged string StoreMetaData u32
  | ReqUpdateLevel string u16 int bool
  | ReqIsConsistent string
  | ReqClear
  | ReqSetExecutor bool
  | ReqResetTask
  | ReqMatrixMeta string meta_action
  | ReqMatrixVersion string string meta_action

fun dm_step :: "('s, 'c, 'l) dm_env \<Rightarrow> ('s, 'c, 'o, 'l) dm \<Rightarrow> dm_req \<Rightarrow> ('s, 'c, 'o, 'l) dm" where
  "dm_step E s (ReqInitialize_dm tok st) = snd (Initialize E s tok st)"
| "dm_step E s (ReqOnline d) = Online E s d"
| "dm_step E s (ReqOffline d) = Offline E s d"
| "dm_step E s (ReqOnBroadcast d n dl) = snd (OnBroadcast E s d n dl)"
| "dm_step E s (ReqBroadcast dl) = Broadcast E s dl"
| "dm_step E s (ReqChangedCode code type) = OnChanged_code E s code type"
| "dm_step E s (ReqChanged m) = OnChanged E s m"
| "dm_step E s (ReqExchangedCode d code type ct) = OnExchanged_code E s d code type ct"
| "dm_step E s (ReqExchanged d m ct) = OnExchanged E s d m ct"
| "dm_step E s (ReqUpdateLevel d level type c) = UpdateLevel E s d level type c"
| "dm_step E s (ReqIsConsistent d) = snd (IsConsistent E s d)"
| "dm_step E s ReqClear = Clear E s"
| "dm_step E s (ReqSetExecutor b) = SetExecutor s b"
| "dm_step E s ReqResetTask = GenResetTask E s"
| "dm_step E s (ReqMatrixMeta m a) = OnMatrixMeta E s m a"
| "dm_step E s (ReqMatrixVersion k m a) = OnMatrixVersion E s k m a"

lemma dm_step_inv:
  assumes "lru_ok (de_bucket E) lv" "dm_inv lv s"
  shows "dm_inv lv (dm_step E s r)"
  using assms by (cases r) (auto simp: SetExecutor_def GenResetTask_def Let_def intro: dds_inv
      meta_moves_inv [OF IsConsistent_moves])

interpretation dm_runs: transition_system "dm_step E" "\<lambda>s. lru_ok (de_bucket E) lv \<longrightarrow> dm_inv lv s" for E lv
  by unfold_locales (auto intro: dm_step_inv)

end
