(* ===== verification/Device_Matrix_Results.thy ===== *)
theory Device_Matrix_Results
  imports Device_Matrix
begin

text \<open>
  What the device matrix guarantees: its invariant over all runs, that a change stays pending for a
  peer until it is exchanged with that peer, how the levels received from peers move, and what is
  saved as agreed.
\<close>

subsection \<open>A concrete instance\<close>

definition env0 :: "(bool \<Rightarrow> string \<rightharpoonup> string, string \<rightharpoonup> string, string \<rightharpoonup> MatrixMetaData) dm_env" where
  "env0 = \<lparr>de_db = map_db, de_lru = map_lru, de_text = \<lparr>js_dump = (\<lambda>_. ''{}''), js_parse = (\<lambda>_. JObj [])\<rparr>,
     de_bucket = map_lru, de_localUuid = ''local'', de_dynamicStores = [''app''], de_staticStores = [''sapp''],
     de_processLabel = ''meta'', de_supportsBroadcast = True, de_invalidTask = 0, de_Reset = (\<lambda>t d. t),
     de_Schedule = (\<lambda>d. 1)\<rparr>"

definition dm0 :: "(bool \<Rightarrow> string \<rightharpoonup> string, string \<rightharpoonup> string, unit, string \<rightharpoonup> MatrixMetaData) dm" where
  "dm0 = \<lparr>dm_mdm = mdm_ready, dm_lasts = MatrixData_new, dm_executors = False, dm_task = 0, dm_isSupportBroadcast = True,
     dm_tokenId = 0, dm_storeId = [], dm_onLines = Map.empty, dm_offLines = Map.empty, dm_remotes = Map.empty,
     dm_dynamicApps = [], dm_staticsApps = [], dm_matrices = Map.empty, dm_versions = Map.empty, dm_events = []\<rparr>"

lemma env0_bucket: "lru_ok (de_bucket env0) (\<lambda>m. m)"
  by (simp add: env0_def map_lru_ok)

lemma dm0_inv: "dm_inv (\<lambda>m. m) dm0"
  by (simp add: dm_inv_def dm0_def stripped_def)

subsection \<open>Invariant\<close>

text \<open>
  C19: Whatever sequence of requests the device matrix gets, no device is ever both online and offline,
  and the metadata in its two caches carries no device identifier.
\<close>
theorem dm_inv_always:
  assumes "lru_ok (de_bucket E) lv" and "dm_inv lv s"
  shows "dm_inv lv (run_steps (dm_step E) s rs)"
  using dm_runs.inv_run [of E lv s rs] assms by blast

theorem dm_inv_always_witness:
  "dm_inv (\<lambda>m. m) (run_steps (dm_step env0) dm0
     [ReqInitialize_dm 7 ''db'', ReqOnline ''A'', ReqChangedCode 0x2 1, ReqOffline ''A'', ReqOnline ''A''])"
  by (rule dm_inv_always [OF env0_bucket dm0_inv])

subsection \<open>Pending changes\<close>

text \<open>Bit \<open>n\<close> of a kind of change is set in whatever mask the device has for \<open>d\<close>.\<close>

definition kind_mask :: "int \<Rightarrow> Mask \<Rightarrow> u16" where
  "kind_mask type m = (if type = STATICS then mk_statics m else mk_dynamic m)"

definition pending_bit :: "int \<Rightarrow> nat \<Rightarrow> string \<Rightarrow> ('s, 'c, 'o, 'l) dm \<Rightarrow> bool" where
  "pending_bit type n d s \<longleftrightarrow>
     (\<forall>m. dm_onLines s d = Some m \<or> dm_offLines s d = Some m \<longrightarrow> bit (kind_mask type m) n)"

definition exchanges_with :: "string \<Rightarrow> dm_req \<Rightarrow> bool" where
  "exchanges_with d r \<longleftrightarrow>
     (case r of ReqExchangedCode d' _ _ _ \<Rightarrow> d' = d | ReqExchanged d' _ _ \<Rightarrow> d' = d | _ \<Rightarrow> False)"

lemma pending_same: "same_masks s s' \<Longrightarrow> pending_bit type n d s \<Longrightarrow> pending_bit type n d s'"
  by (simp add: pending_bit_def same_masks_def)

lemma fresh_mask_bit:
  assumes "bit (kind_mask type Mask_new) n"
  shows "bit (kind_mask type (fst (UpdateMask E s Mask_new))) n"
proof -
  have "Low (kind_mask type Mask_new) = kind_mask type Mask_new"
    by (simp add: kind_mask_def Mask_new_def META_STORE_MASK_def CURRENT_DYNAMIC_MASK_def CURRENT_STATICS_MASK_def Low_def)
  then have "n < 4" using assms bit_Low by metis
  then show ?thesis using assms by (auto simp: UpdateMask_def kind_mask_def bit_Merge split: prod.splits)
qed

text \<open>The requests that touch neither map.\<close>

lemma lines_frame:
  "dm_onLines (snd (dm_SaveMatrix E s k v l)) = dm_onLines s" "dm_offLines (snd (dm_SaveMatrix E s k v l)) = dm_offLines s"
  "dm_onLines (snd (snd (dm_LoadMatrix E s k v l))) = dm_onLines s" "dm_offLines (snd (snd (dm_LoadMatrix E s k v l))) = dm_offLines s"
  "dm_onLines (snd (snd (GetMatrixMeta E s d c))) = dm_onLines s" "dm_offLines (snd (snd (GetMatrixMeta E s d c))) = dm_offLines s"
  "dm_onLines (snd (UpdateMask E s m)) = dm_onLines s" "dm_offLines (snd (UpdateMask E s m)) = dm_offLines s"
  "dm_onLines (snd (ConvertMask E s d dl)) = dm_onLines s" "dm_offLines (snd (ConvertMask E s d dl)) = dm_offLines s"
  "dm_onLines (SaveSwitches E s d nw dl) = dm_onLines s" "dm_offLines (SaveSwitches E s d nw dl) = dm_offLines s"
  "dm_onLines (PostEvent e s) = dm_onLines s" "dm_offLines (PostEvent e s) = dm_offLines s"
  using dm_SaveMatrix_snd(1) [of s E k v l] GetMatrixMeta_frame(1) [of s E d c] GetMatrixInfo_frame(1) [of s E d]
    SaveSwitches_frame(1) [of s E d nw dl] GetMatrixMeta_frame(1) [of s E "de_localUuid E" False]
  by (auto simp: same_masks_def dm_LoadMatrix_def UpdateMask_state ConvertMask_state PostEvent_def split: prod.splits)

lemma lines_UpdateRemoteMeta:
  "dm_onLines (snd (snd (UpdateRemoteMeta E s d msk new))) = dm_onLines s"
  "dm_offLines (snd (snd (UpdateRemoteMeta E s d msk new))) = dm_offLines s"
  using UpdateRemoteMeta_state [of E s d msk new] by (auto simp: lines_frame)

lemma lines_OnBroadcast:
  "dm_onLines (snd (OnBroadcast E s d nw dl)) = dm_onLines s" "dm_offLines (snd (OnBroadcast E s d nw dl)) = dm_offLines s"
proof -
  let ?s1 = "SaveSwitches E s d nw dl"
  obtain r s2 where c: "ConvertMask E ?s1 d dl = (r, s2)" by fastforce
  have s2: "dm_onLines s2 = dm_onLines s" "dm_offLines s2 = dm_offLines s"
    using lines_frame(9,10) [of E ?s1 d dl] c by (simp_all add: lines_frame)
  have s3: "dm_onLines s3 = dm_onLines s" "dm_offLines s3 = dm_offLines s"
    if "UpdateRemoteMeta E s2 d x y = (x', y', s3)" for x y x' y' s3
    using lines_UpdateRemoteMeta [of E s2 d x y] that s2 by simp_all
  show "dm_onLines (snd (OnBroadcast E s d nw dl)) = dm_onLines s" "dm_offLines (snd (OnBroadcast E s d nw dl)) = dm_offLines s"
    using c s3 by (auto simp: OnBroadcast_def Let_def split: prod.splits)
qed

lemma lines_Initialize:
  "dm_onLines (snd (Initialize E s tok st)) = dm_onLines s" "dm_offLines (snd (Initialize E s tok st)) = dm_offLines s"
proof -
  have ld: "dm_onLines s2 = dm_onLines s1 \<and> dm_offLines s2 = dm_offLines s1"
    if "dm_LoadMatrix E s1 k v l = (ok, v', s2)" for s1 k v l ok v' s2
    using lines_frame(3,4) [of E s1 k v l] that by simp
  have sv: "dm_onLines s2 = dm_onLines s1 \<and> dm_offLines s2 = dm_offLines s1"
    if "dm_SaveMatrix E s1 k v l = (ok, s2)" for s1 k v l ok s2
    using lines_frame(1,2) [of E s1 k v l] that by simp
  show "dm_onLines (snd (Initialize E s tok st)) = dm_onLines s" "dm_offLines (snd (Initialize E s tok st)) = dm_offLines s"
    unfolding Initialize_def Let_def by (auto split: prod.splits simp: lines_frame dest!: ld sv)
qed

lemma lines_UpdateLevel:
  "dm_onLines (UpdateLevel E s d level type c) = dm_onLines s" "dm_offLines (UpdateLevel E s d level type c) = dm_offLines s"
proof -
  obtain ex meta s1 where g: "GetMatrixMeta E s d c = (ex, meta, s1)" by (metis prod_cases3)
  have s1: "dm_onLines s1 = dm_onLines s" "dm_offLines s1 = dm_offLines s"
    using lines_frame(5,6) [of E s d c] g by simp_all
  have sv: "dm_onLines s2 = dm_onLines s \<and> dm_offLines s2 = dm_offLines s"
    if "dm_SaveMatrix E s1 k v l = (ok, s2)" for k v l ok s2
    using lines_frame(1,2) [of E s1 k v l] that s1 by simp
  show "dm_onLines (UpdateLevel E s d level type c) = dm_onLines s" "dm_offLines (UpdateLevel E s d level type c) = dm_offLines s"
    using g by (auto simp: UpdateLevel_def Let_def split: prod.splits dest!: sv)
qed

lemma lines_meta_events:
  "dm_onLines (OnMatrixMeta E s m a) = dm_onLines s" "dm_offLines (OnMatrixMeta E s m a) = dm_offLines s"
  "dm_onLines (OnMatrixVersion E s k m a) = dm_onLines s" "dm_offLines (OnMatrixVersion E s k m a) = dm_offLines s"
  "dm_onLines (Broadcast E s dl) = dm_onLines s" "dm_offLines (Broadcast E s dl) = dm_offLines s"
  "dm_onLines (snd (IsConsistent E s d)) = dm_onLines s" "dm_offLines (snd (IsConsistent E s d)) = dm_offLines s"
  using meta_moves_same [OF IsConsistent_moves [of E s d]]
  by (auto simp: OnMatrixMeta_def OnMatrixVersion_def dm_LoadMatrix_def Broadcast_def PostEvent_def same_masks_def Let_def split: prod.splits)

lemma pending_lines: "pending_bit type n d s \<Longrightarrow> dm_onLines s' = dm_onLines s \<Longrightarrow> dm_offLines s' = dm_offLines s \<Longrightarrow>
    pending_bit type n d s'"
  by (simp add: pending_bit_def)

lemma pending_Online:
  assumes "bit (kind_mask type Mask_new) n" "pending_bit type n d s"
  shows "pending_bit type n d (Online E s e)" and "pending_bit type n d (Offline E s e)"
  using assms fresh_mask_bit [OF assms(1), of E s] lines_frame(7,8) [of E s Mask_new]
  by (auto simp: Online_def Offline_def pending_bit_def split: option.splits prod.splits)

lemma pending_OnChanged_code:
  assumes "pending_bit type n d s"
  shows "pending_bit type n d (OnChanged_code E s code t)"
proof (cases "t = STATICS \<or> t = DYNAMIC")
  case True
  show ?thesis
    using assms unfolding pending_bit_def OnChanged_code_halves [OF True]
    by (auto simp: add_pending_def add_codes_def kind_mask_def bit_or_iff Let_def)
next
  case False
  then show ?thesis using assms by (auto simp: OnChanged_code_def)
qed

lemma lines_UpdateConsistentMeta:
  "dm_onLines (UpdateConsistentMeta E s d m) = dm_onLines s" "dm_offLines (UpdateConsistentMeta E s d m) = dm_offLines s"
  using meta_moves_same [OF UpdateConsistentMeta_moves [of E s d m]] by (simp_all add: same_masks_def)

definition exchanged :: "u16 \<Rightarrow> int \<Rightarrow> Mask \<Rightarrow> Mask" where
  "exchanged code type = drop_codes (code_for STATICS type (Low code)) (code_for DYNAMIC type (Low code))"

lemma OnExchanged_code_lines:
  assumes "e \<noteq> []" "type = STATICS \<or> type = DYNAMIC"
  shows "dm_onLines (OnExchanged_code E s e code type ct) =
      (if ct AND CHANGE_LOCAL = CHANGE_LOCAL then update_at e (exchanged code type) (dm_onLines s) else dm_onLines s)"
    and "dm_offLines (OnExchanged_code E s e code type ct) =
      (if ct AND CHANGE_LOCAL = CHANGE_LOCAL then update_at e (exchanged code type) (dm_offLines s) else dm_offLines s)"
  using assms unfolding exchanged_def OnExchanged_code_def Let_def
  by (auto simp: lines_UpdateConsistentMeta split: option.splits)

lemma pending_OnExchanged_code:
  assumes "pending_bit type n d s" "e \<noteq> d"
  shows "pending_bit type n d (OnExchanged_code E s e code t ct)"
proof (cases "e \<noteq> [] \<and> (t = STATICS \<or> t = DYNAMIC)")
  case True
  then show ?thesis
    using assms OnExchanged_code_lines [of e t E s code ct]
    by (auto simp: pending_bit_def update_at_def split: option.splits)
next
  case False
  then show ?thesis using assms by (auto simp: OnExchanged_code_def)
qed

lemma lines_other:
  "dm_onLines (SetExecutor s b) = dm_onLines s" "dm_offLines (SetExecutor s b) = dm_offLines s"
  "dm_onLines (GenResetTask E s) = dm_onLines s" "dm_offLines (GenResetTask E s) = dm_offLines s"
  by (simp_all add: SetExecutor_def GenResetTask_def PostEvent_def Let_def)

lemmas lines_untouched = lines_OnBroadcast lines_Initialize lines_UpdateLevel lines_meta_events lines_other

lemma pending_step:
  assumes "bit (kind_mask type Mask_new) n" "\<not> exchanges_with d r" "pending_bit type n d s"
  shows "pending_bit type n d (dm_step E s r)"
proof (cases r)
  case (ReqOnline e)
  then show ?thesis using pending_Online [OF assms(1,3)] by simp
next
  case (ReqOffline e)
  then show ?thesis using pending_Online [OF assms(1,3)] by simp
next
  case (ReqChangedCode code t)
  then show ?thesis using pending_OnChanged_code [OF assms(3)] by simp
next
  case (ReqChanged m)
  then show ?thesis using pending_OnChanged_code [OF assms(3)] assms(3) by (simp add: OnChanged_def Let_def)
next
  case (ReqExchangedCode e code t ct)
  then show ?thesis using pending_OnExchanged_code [OF assms(3)] assms(2) by (simp add: exchanges_with_def)
next
  case (ReqExchanged e m ct)
  then show ?thesis using pending_OnExchanged_code [OF assms(3)] assms(2,3) by (simp add: OnExchanged_def Let_def exchanges_with_def)
next
  case ReqClear
  then show ?thesis by (simp add: Clear_def Let_def pending_bit_def)
qed (auto intro!: pending_lines [OF assms(3)] simp: lines_untouched)

lemma Mask_new_low: "bit (kind_mask type Mask_new) n \<Longrightarrow> n < 4"
  using bit_Low [of "kind_mask type Mask_new" n]
  by (simp add: kind_mask_def Mask_new_def META_STORE_MASK_def CURRENT_DYNAMIC_MASK_def CURRENT_STATICS_MASK_def Low_def
      split: if_splits)

lemma pending_after_change:
  assumes "type = STATICS \<or> type = DYNAMIC" "n < 4" "bit code n"
  shows "pending_bit type n d (OnChanged_code E s code type)"
  using assms unfolding pending_bit_def OnChanged_code_halves [OF assms(1)]
  by (auto simp: add_pending_def add_codes_def code_for_def kind_mask_def bit_or_iff bit_Low Let_def)

lemma pending_run:
  assumes "bit (kind_mask type Mask_new) n" "list_all (\<lambda>r. \<not> exchanges_with d r) rs" "pending_bit type n d s"
  shows "pending_bit type n d (run_steps (dm_step E) s rs)"
  using assms(2,3) by (induction rs arbitrary: s) (auto intro: pending_step [OF assms(1)])



text \<open>
  An exchange in the local direction removes exactly the exchanged bits of that kind from the mask
  of that device; its other bits, its level, and all masks of other devices stay.
\<close>
theorem OnExchanged_clears:
  assumes "d \<noteq> []" and "type = STATICS \<or> type = DYNAMIC" and "ct AND CHANGE_LOCAL = CHANGE_LOCAL"
  shows "GetMask (OnExchanged_code E s d code type ct) d type =
      (fst (GetMask s d type), snd (GetMask s d type) AND NOT code) \<and>
    (e \<noteq> d \<or> t \<noteq> type \<longrightarrow> GetMask (OnExchanged_code E s d code type ct) e t = GetMask s e t)"
proof -
  have low: "Low (x AND NOT (Low code)) = Low x AND NOT code" for x
    by (rule bit_eqI) (auto simp: bit_Low bit_and_iff bit_not_iff_eq)
  have "GetMask (OnExchanged_code E s d code type ct) d type = (fst (GetMask s d type), snd (GetMask s d type) AND NOT code)"
    using assms(2) unfolding GetMask_def OnExchanged_code_lines [OF assms(1,2)]
    by (auto simp: assms(3) update_at_def exchanged_def drop_codes_def code_for_def mask_of_def low split: option.splits)
  moreover have "GetMask (OnExchanged_code E s d code type ct) e t = GetMask s e t" if "e \<noteq> d \<or> t \<noteq> type"
    using that assms(2) unfolding GetMask_def OnExchanged_code_lines [OF assms(1,2)]
    by (auto simp: assms(3) update_at_def exchanged_def drop_codes_def code_for_def mask_of_def split: option.splits)
  ultimately show ?thesis by blast
qed

theorem OnExchanged_clears_witness:
  "GetMask (OnExchanged_code env0 (Online env0 dm0 ''A'') ''A'' 0x2 1 0x3) ''A'' 1 =
    (fst (GetMask (Online env0 dm0 ''A'') ''A'' 1), snd (GetMask (Online env0 dm0 ''A'') ''A'' 1) AND NOT 0x2)"
  using OnExchanged_clears [of "''A''" 1 "0x3" env0 "Online env0 dm0 ''A''" "0x2"] by simp

subsection \<open>Levels received from peers\<close>

lemma known_level_facts:
  "High old \<le> High (fst (known_level old new msk))"
  "High old < High new \<Longrightarrow> Low (snd (known_level old new msk)) = 0x000F"
  "High (fst (known_level old new msk)) = (if High new < High old then High old else High new)"
proof -
  have F: "Low (0x000F :: u16) = 0x000F" "High (0x000F :: u16) = 0" by simp_all
  have or: "Low x OR 0x000F = 0x000F" for x
    unfolding and_15(1) [symmetric] by (rule bit_eqI) (simp only: bit_or_iff bit_and_iff, blast)
  show h: "High (fst (known_level old new msk)) = (if High new < High old then High old else High new)"
    by (simp add: known_level_def and_15)
  then show "High old \<le> High (fst (known_level old new msk))" by auto
  show "High old < High new \<Longrightarrow> Low (snd (known_level old new msk)) = 0x000F"
    using High_gap [of old new] by (auto simp: known_level_def or)
qed

text \<open>
  The level kept for a known peer never goes down, and every step up, also to the very next level,
  is taken for a gap and asks for all four applications again: levels are multiples of sixteen, and
  the gap test compares their difference with one.
\<close>
theorem UpdateRemoteMeta_levels:
  assumes "GetMatrixMeta E s d False = (True, old, s1)" and "\<not> Matrix_eq old new"
    and "UpdateRemoteMeta E s d msk new = (msk', new', s')"
  shows "High (mm_dynamic old) \<le> High (mm_dynamic new') \<and> High (mm_statics old) \<le> High (mm_statics new') \<and>
    (High (mm_dynamic old) < High (mm_dynamic new) \<longrightarrow> Low (mk_dynamic msk') = 0x000F) \<and>
    (High (mm_statics old) < High (mm_statics new) \<longrightarrow> Low (mk_statics msk') = 0x000F)"
proof -
  have "msk' = \<lparr>mk_dynamic = snd (known_level (mm_dynamic old) (mm_dynamic new) (mk_dynamic msk)),
        mk_statics = snd (known_level (mm_statics old) (mm_statics new) (mk_statics msk))\<rparr>"
    "mm_dynamic new' = fst (known_level (mm_dynamic old) (mm_dynamic new) (mk_dynamic msk))"
    "mm_statics new' = fst (known_level (mm_statics old) (mm_statics new) (mk_statics msk))"
    using assms(2,3) unfolding UpdateRemoteMeta_cases [OF assms(1)] by (auto simp: Let_def)
  then show ?thesis using known_level_facts(1,2) by simp
qed

definition dm1 :: "(bool \<Rightarrow> string \<rightharpoonup> string, string \<rightharpoonup> string, unit, string \<rightharpoonup> MatrixMetaData) dm" where
  "dm1 = dm0\<lparr>dm_matrices := [''A'' \<mapsto> MatrixMetaData_new\<lparr>mm_dynamic := 0x0010, mm_statics := 0x0010\<rparr>]\<rparr>"

lemma dm1_meta: "GetMatrixMeta env0 dm1 ''A'' False =
    (True, MatrixMetaData_new\<lparr>mm_dynamic := 0x0010, mm_statics := 0x0010\<rparr>, dm1)"
  by (simp add: GetMatrixMeta_def dm1_def env0_def map_lru_def)

theorem UpdateRemoteMeta_levels_witness:
  "Low (mk_dynamic (fst (UpdateRemoteMeta env0 dm1 ''A'' \<lparr>mk_dynamic = 0x0022, mk_statics = 0x0010\<rparr>
     (MatrixMetaData_new\<lparr>mm_dynamic := 0x0022, mm_statics := 0x0010, mm_deviceId := ''A''\<rparr>)))) = 0x000F"
proof -
  let ?msk = "\<lparr>mk_dynamic = 0x0022, mk_statics = 0x0010\<rparr>"
  let ?new = "MatrixMetaData_new\<lparr>mm_dynamic := 0x0022, mm_statics := 0x0010, mm_deviceId := ''A''\<rparr>"
  obtain msk' new' s' where u: "UpdateRemoteMeta env0 dm1 ''A'' ?msk ?new = (msk', new', s')" by (metis prod_cases3)
  have ne: "\<not> Matrix_eq (MatrixMetaData_new\<lparr>mm_dynamic := 0x0010, mm_statics := 0x0010\<rparr>) ?new"
    by (simp add: Matrix_eq_def)
  have "High 0x0010 < High (0x0022 :: u16)" by (simp add: High_def)
  then show ?thesis using UpdateRemoteMeta_levels [OF dm1_meta ne u] u by simp
qed

text \<open>
  The shortcut for unchanged metadata of a known peer is never taken: the cached record has lost
  its device identifier, so it differs from the new one, and every broadcast of a peer writes the
  metadata again.
\<close>
theorem UpdateRemoteMeta_always_saves:
  assumes "lru_ok (de_bucket E) lv" and "dm_inv lv s" and "mm_deviceId new \<noteq> []"
  shows "\<exists>saved. mm_deviceId saved = mm_deviceId new \<and>
    snd (snd (UpdateRemoteMeta E s d msk new)) =
      snd (dm_SaveMatrix E (snd (snd (GetMatrixMeta E s d False))) (Matrix_GetKey saved) saved True)"
proof -
  obtain ex old s1 where g: "GetMatrixMeta E s d False = (ex, old, s1)" by (metis prod_cases3)
  have "ex \<Longrightarrow> mm_deviceId old = []"
    using GetMatrixMeta_stripped(2) [OF assms(1) dm_inv_stripped(1) [OF assms(2)], of d False] g by simp
  then have ne: "\<not> (ex \<and> Matrix_eq old new)" using assms(3) by (auto simp: Matrix_eq_def)
  let ?D = "if ex then known_level (mm_dynamic old) (mm_dynamic new) (mk_dynamic msk) else fresh_level (mm_dynamic new) (mk_dynamic msk)"
  let ?S = "if ex then known_level (mm_statics old) (mm_statics new) (mk_statics msk) else fresh_level (mm_statics new) (mk_statics msk)"
  have "snd (snd (UpdateRemoteMeta E s d msk new)) =
      snd (dm_SaveMatrix E s1 (Matrix_GetKey (new\<lparr>mm_dynamic := fst ?D, mm_statics := fst ?S\<rparr>))
        (new\<lparr>mm_dynamic := fst ?D, mm_statics := fst ?S\<rparr>) True)"
    unfolding UpdateRemoteMeta_cases [OF g] Let_def if_not_P [OF ne] by simp
  then show ?thesis using g by (intro exI [of _ "new\<lparr>mm_dynamic := fst ?D, mm_statics := fst ?S\<rparr>"]) simp
qed

theorem UpdateRemoteMeta_always_saves_witness:
  "\<exists>saved. mm_deviceId saved = ''A'' \<and>
    snd (snd (UpdateRemoteMeta env0 dm0 ''A'' Mask_new (MatrixMetaData_new\<lparr>mm_deviceId := ''A''\<rparr>))) =
      snd (dm_SaveMatrix env0 (snd (snd (GetMatrixMeta env0 dm0 ''A'' False))) (Matrix_GetKey saved) saved True)"
  using UpdateRemoteMeta_always_saves [OF env0_bucket dm0_inv, of "MatrixMetaData_new\<lparr>mm_deviceId := ''A''\<rparr>"] by simp

subsection \<open>Levels broadcast\<close>

text \<open>
  When this device is about to broadcast a level below the last one it broadcast, the correction
  meant to keep the last level resets the level to zero instead: the event posted and the level
  remembered both have a zero high part, with the pending bits kept.
\<close>
theorem Broadcast_lower_level_resets:
  assumes "MatrixData_IsValid (dm_lasts s)"
    and "High (dl_dynamic dl) < High (mx_dynamic (dm_lasts s))" and "High (mx_dynamic (dm_lasts s)) \<noteq> INVALID_HIGH"
    and "High (dl_dynamic dl) \<noteq> INVALID_HIGH"
  shows "High (mx_dynamic (dm_lasts (Broadcast E s dl))) = 0 \<and>
    Low (mx_dynamic (dm_lasts (Broadcast E s dl))) = Low (mx_dynamic (dm_lasts s)) \<and>
    High (mx_dynamic (last (dm_events (Broadcast E s dl)))) = 0"
proof -
  have h: "High (ResetMask (dl_dynamic dl) OR Low (mx_dynamic (dm_lasts s))) = High (dl_dynamic dl)"
    by (simp add: ResetMask_High)
  have "keep_level (ResetMask (dl_dynamic dl) OR Low (mx_dynamic (dm_lasts s))) (mx_dynamic (dm_lasts s)) = Low (mx_dynamic (dm_lasts s))"
    using assms(2-4) unfolding keep_level_def h by (simp add: and_15 ResetMask_High Let_def)
  then show ?thesis
    using assms(1) by (auto simp: Broadcast_def Let_def PostEvent_def)
qed

theorem Broadcast_lower_level_resets_witness:
  "High (mx_dynamic (dm_lasts (Broadcast env0 (dm0\<lparr>dm_lasts := MatrixData_new\<lparr>mx_dynamic := 0x0051\<rparr>\<rparr>)
     (DataLevel_new\<lparr>dl_dynamic := 0x0030\<rparr>)))) = 0"
  using Broadcast_lower_level_resets [of "dm0\<lparr>dm_lasts := MatrixData_new\<lparr>mx_dynamic := 0x0051\<rparr>\<rparr>"
      "DataLevel_new\<lparr>dl_dynamic := 0x0030\<rparr>" env0]
  by (simp add: MatrixData_IsValid_def INVALID_LEVEL_def INVALID_HIGH_def High_def)

subsection \<open>Agreed levels\<close>

text \<open>
  The first time the changes of one kind have all been fetched from a peer, the whole received
  metadata is saved as agreed, including the level of the other kind, even when changes of that kind
  are still to be fetched.
\<close>
theorem UpdateConsistentMeta_first:
  assumes "Low (mk_dynamic remote) = 0 \<or> Low (mk_statics remote) = 0"
    and "GetMatrixMeta E s d False = (True, meta, s1)" and "GetMatrixMeta E s1 d True = (False, any, s2)"
  shows "\<exists>saved. UpdateConsistentMeta E s d remote = snd (dm_SaveMatrix E s2 (Matrix_GetConsistentKey saved) saved True) \<and>
    mm_dynamic saved = mm_dynamic meta \<and> mm_statics saved = mm_statics meta \<and> mm_deviceId saved = d \<and>
    mm_origin saved = REMOTE_CONSISTENT"
  using assms by (intro exI [of _ "meta\<lparr>mm_origin := REMOTE_CONSISTENT, mm_deviceId := d\<rparr>"])
    (auto simp: UpdateConsistentMeta_def Let_def)

theorem UpdateConsistentMeta_first_witness:
  "\<exists>saved s2. UpdateConsistentMeta env0 dm1 ''A'' \<lparr>mk_dynamic = 0x0010, mk_statics = 0x0013\<rparr> =
     snd (dm_SaveMatrix env0 s2 (Matrix_GetConsistentKey saved) saved True) \<and> mm_statics saved = 0x0010"
proof -
  obtain any s2 where g: "GetMatrixMeta env0 dm1 ''A'' True = (False, any, s2)"
    by (simp add: GetMatrixMeta_def dm_LoadMatrix_def LoadMeta_def LoadCacheMeta_def LoadMeta_fill_def dm1_def dm0_def
        mdm_ready_simps env0_def map_lru_def map_db_def mdm_ready_def Initialize_mdm_def mdm_fresh_def)
  have "\<exists>saved. UpdateConsistentMeta env0 dm1 ''A'' \<lparr>mk_dynamic = 0x0010, mk_statics = 0x0013\<rparr> =
      snd (dm_SaveMatrix env0 s2 (Matrix_GetConsistentKey saved) saved True) \<and>
      mm_dynamic saved = mm_dynamic (MatrixMetaData_new\<lparr>mm_dynamic := 0x0010, mm_statics := 0x0010\<rparr>) \<and>
      mm_statics saved = mm_statics (MatrixMetaData_new\<lparr>mm_dynamic := 0x0010, mm_statics := 0x0010\<rparr>) \<and>
      mm_deviceId saved = ''A'' \<and> mm_origin saved = REMOTE_CONSISTENT"
    by (rule UpdateConsistentMeta_first [OF _ dm1_meta g]) (simp add: Low_def)
  then show ?thesis by auto
qed

end
