(* ===== verification/General_Value.thy ===== *)
theory General_Value
  imports Store_Meta
begin

text \<open>
  Values of the general store (framework/include/store/general_value.h): assets, the variant \<open>Value\<close>
  and rows. A row is a map from column names; it is a list of pairs in the order of the map.
\<close>

record Asset =
  as_version :: u32
  as_status :: u32
  as_expiresTime :: u64
  as_id :: string
  as_name :: string
  as_uri :: string
  as_createTime :: string
  as_modifyTime :: string
  as_size :: string
  as_hash :: string
  as_path :: string
  as_extension :: string

abbreviation (input) ASSET_UNKNOWN :: u32 where "ASSET_UNKNOWN \<equiv> 0"
abbreviation (input) ASSET_NORMAL :: u32 where "ASSET_NORMAL \<equiv> 1"

definition Asset_new :: Asset where
  "Asset_new = \<lparr>as_version = 0, as_status = ASSET_UNKNOWN, as_expiresTime = 0, as_id = [], as_name = [], as_uri = [],
     as_createTime = [], as_modifyTime = [], as_size = [], as_hash = [], as_path = [], as_extension = []\<rparr>"

datatype Value =
    VNull
  | VInt u64
  | VDouble u64
  | VString string
  | VBool bool
  | VBytes "u8 list"
  | VAsset Asset
  | VAssets "Asset list"
  | VRelations "(string \<times> string) list"

type_synonym VBucket = "(string \<times> Value) list"

end
