(* ===== verification/Object_Assets.thy ===== *)
theory Object_Assets
  imports General_Value
begin

text \<open>
  Assets bound to distributed objects (service/object/src/object_asset_machine.cpp and
  object_snapshot.cpp): a state machine per bound asset that serialises transfers from other devices
  with uploads to and downloads from the cloud, and the snapshot that holds one machine per asset.

  The table of the machine is \<open>AssetDFA\<close>, its actions are the values of \<open>dfa_action\<close>. What the actions do
  outside is recorded as a list of effects. A transfer may call back before it returns (no thread
  pool, or the asset is already there); the environment says so with \<open>ae_transfer\<close>.
\<close>

subsection \<open>Data\<close>

datatype TransferStatus =
    STATUS_STABLE | STATUS_TRANSFERRING | STATUS_DOWNLOADING | STATUS_UPLOADING
  | STATUS_WAIT_TRANSFER | STATUS_WAIT_UPLOAD | STATUS_WAIT_DOWNLOAD | STATUS_BUTT

datatype AssetEvent =
    REMOTE_CHANGED | TRANSFER_FINISHED | UPLOAD | UPLOAD_FINISHED | DOWNLOAD | DOWNLOAD_FINISHED | EVENT_BUTT

record AssetBindInfo =
  ab_storeName :: string
  ab_tableName :: string
  ab_primaryKey :: VBucket
  ab_field :: string
  ab_assetName :: string

record ChangedAssetInfo =
  ca_deviceId :: string
  ca_asset :: Asset
  ca_status :: TransferStatus
  ca_bindInfo :: AssetBindInfo
  ca_storeInfo :: StoreInfo

definition ChangedAssetInfo_of :: "Asset \<Rightarrow> AssetBindInfo \<Rightarrow> StoreInfo \<Rightarrow> ChangedAssetInfo" where
  "ChangedAssetInfo_of bindAsset assetBindInfo store =
     \<lparr>ca_deviceId = [], ca_asset = bindAsset, ca_status = STATUS_STABLE, ca_bindInfo = assetBindInfo, ca_storeInfo = store\<rparr>"

record BindEventInfo =
  be_tokenId :: u32
  be_instanceId :: u32
  be_user :: u32
  be_bundleName :: string
  be_storeName :: string
  be_tableName :: string
  be_primaryKey :: VBucket
  be_filed :: string
  be_assetName :: string

datatype bind_event = COMPENSATE_SYNC | RECOVER_SYNC

text \<open>What leaves the machine: a transfer asked for, rows merged into a store, an event posted.\<close>

datatype asset_effect =
    TransferAssetsAsync u32 string string "Asset list"
  | MergeMigratedData string "VBucket list"
  | PostBindEvent bind_event BindEventInfo

datatype GeneralError = E_OK | E_ERROR

text \<open>
  The store behind an asset: a query answers with an error or with a cursor, of which the number of
  rows, the move to the first row and that row are used.
\<close>

record cursor =
  cu_count :: int
  cu_first :: bool
  cu_row :: "VBucket option"

record asset_env =
  ae_localUuid :: string
  ae_LoadMeta :: "string \<Rightarrow> StoreMetaData \<Rightarrow> StoreMetaData option"
  ae_GetStore :: "StoreMetaData \<Rightarrow> (string \<Rightarrow> string \<Rightarrow> Value list \<Rightarrow> cursor option) option"
  ae_transfer :: "ChangedAssetInfo \<Rightarrow> bool option"

subsection \<open>Merging into the store\<close>

definition SQL_AND :: string where "SQL_AND = '' = ? and ''"

definition BuildSql :: "AssetBindInfo \<Rightarrow> string \<times> Value list" where
  "BuildSql bindInfo =
     (let sql = ''SELECT '' @ ab_field bindInfo @ '' FROM '' @ ab_tableName bindInfo @ '' WHERE '';
          (sql, args) = fold (\<lambda>(key, v) (sql, args). (sql @ key @ SQL_AND, args @ [v])) (ab_primaryKey bindInfo) (sql, [])
      in (take (length sql - 5) sql, args))"

definition MergeAsset :: "Asset \<Rightarrow> Asset \<Rightarrow> Asset" where
  "MergeAsset oldAsset newAsset =
     oldAsset\<lparr>as_name := as_name newAsset, as_uri := as_uri newAsset, as_modifyTime := as_modifyTime newAsset,
       as_createTime := as_createTime newAsset, as_size := as_size newAsset, as_hash := as_hash newAsset,
       as_path := as_path newAsset\<rparr>"

fun merge_into :: "Asset list \<Rightarrow> Asset \<Rightarrow> Asset list" where
  "merge_into [] newAsset = [newAsset]"
| "merge_into (a # as) newAsset =
     (if as_name a = as_name newAsset then MergeAsset a newAsset # as else a # merge_into as newAsset)"

definition MergeAssetData :: "VBucket \<Rightarrow> Asset \<Rightarrow> AssetBindInfo \<Rightarrow> VBucket" where
  "MergeAssetData rec newAsset bindInfo =
     (let rec = fold (\<lambda>(key, primary) rec. AList.update key primary rec) (ab_primaryKey bindInfo) rec
      in case map_of rec (ab_field bindInfo) of
           None \<Rightarrow> rec
         | Some VNull \<Rightarrow> AList.update (ab_field bindInfo) (VAssets [newAsset]) rec
         | Some (VAsset a) \<Rightarrow> rec
         | Some (VAssets as) \<Rightarrow> AList.update (ab_field bindInfo) (VAssets (merge_into as newAsset)) rec
         | Some _ \<Rightarrow> rec)"

definition GetMigratedData ::
    "(string \<Rightarrow> string \<Rightarrow> Value list \<Rightarrow> cursor option) \<Rightarrow> AssetBindInfo \<Rightarrow> Asset \<Rightarrow> VBucket list" where
  "GetMigratedData query bindInfo newAsset =
     (let (sql, args) = BuildSql bindInfo
      in case query (ab_tableName bindInfo) sql args of
           None \<Rightarrow> []
         | Some cursor \<Rightarrow>
             if cu_count cursor \<noteq> 1 \<or> \<not> cu_first cursor then []
             else case cu_row cursor of None \<Rightarrow> [] | Some entry \<Rightarrow> [MergeAssetData entry newAsset bindInfo])"

definition GetStore :: "asset_env \<Rightarrow> ChangedAssetInfo \<Rightarrow> (string \<Rightarrow> string \<Rightarrow> Value list \<Rightarrow> cursor option) option" where
  "GetStore E c =
     (let meta = StoreMetaData_new\<lparr>sm_storeId := ab_storeName (ca_bindInfo c), sm_bundleName := si_bundleName (ca_storeInfo c),
            sm_user := to_string (sint (si_user (ca_storeInfo c))), sm_instanceId := si_instanceId (ca_storeInfo c),
            sm_deviceId := ae_localUuid E\<rparr>
      in case ae_LoadMeta E (GetKeyWithoutPath meta) meta of None \<Rightarrow> None | Some meta \<Rightarrow> ae_GetStore E meta)"

definition UpdateStore :: "asset_env \<Rightarrow> ChangedAssetInfo \<Rightarrow> asset_effect list" where
  "UpdateStore E c =
     (case GetStore E c of None \<Rightarrow> []
      | Some query \<Rightarrow>
          (let vBuckets = GetMigratedData query (ca_bindInfo c) (ca_asset c)
           in if vBuckets = [] then [] else [MergeMigratedData (ab_tableName (ca_bindInfo c)) vBuckets]))"

definition MakeBindInfo :: "ChangedAssetInfo \<Rightarrow> BindEventInfo" where
  "MakeBindInfo c =
     \<lparr>be_tokenId = si_tokenId (ca_storeInfo c), be_instanceId = si_instanceId (ca_storeInfo c),
      be_user = si_user (ca_storeInfo c), be_bundleName = si_bundleName (ca_storeInfo c),
      be_storeName = ab_storeName (ca_bindInfo c), be_tableName = ab_tableName (ca_bindInfo c),
      be_primaryKey = ab_primaryKey (ca_bindInfo c), be_filed = ab_field (ca_bindInfo c),
      be_assetName = ab_assetName (ca_bindInfo c)\<rparr>"

subsection \<open>The machine\<close>

datatype dfa_action = A_None | A_DoTransfer | A_ChangeAssetToNormal | A_CompensateSync | A_CompensateTransferring | A_SaveNewAsset | A_Recover

text \<open>A row of the table: the next status (none for no change) and the action after it.\<close>

fun AssetDFA :: "TransferStatus \<Rightarrow> AssetEvent \<Rightarrow> TransferStatus option \<times> dfa_action" where
  "AssetDFA STATUS_STABLE REMOTE_CHANGED = (Some STATUS_TRANSFERRING, A_DoTransfer)"
| "AssetDFA STATUS_STABLE UPLOAD = (Some STATUS_UPLOADING, A_None)"
| "AssetDFA STATUS_STABLE DOWNLOAD = (Some STATUS_DOWNLOADING, A_None)"
| "AssetDFA STATUS_STABLE _ = (None, A_Recover)"
| "AssetDFA STATUS_TRANSFERRING REMOTE_CHANGED = (Some STATUS_WAIT_TRANSFER, A_SaveNewAsset)"
| "AssetDFA STATUS_TRANSFERRING TRANSFER_FINISHED = (Some STATUS_STABLE, A_None)"
| "AssetDFA STATUS_TRANSFERRING UPLOAD = (Some STATUS_WAIT_UPLOAD, A_ChangeAssetToNormal)"
| "AssetDFA STATUS_TRANSFERRING DOWNLOAD = (Some STATUS_WAIT_DOWNLOAD, A_ChangeAssetToNormal)"
| "AssetDFA STATUS_TRANSFERRING _ = (None, A_Recover)"
| "AssetDFA STATUS_DOWNLOADING REMOTE_CHANGED = (Some STATUS_WAIT_TRANSFER, A_SaveNewAsset)"
| "AssetDFA STATUS_DOWNLOADING DOWNLOAD_FINISHED = (Some STATUS_STABLE, A_None)"
| "AssetDFA STATUS_DOWNLOADING _ = (None, A_Recover)"
| "AssetDFA STATUS_UPLOADING REMOTE_CHANGED = (Some STATUS_WAIT_TRANSFER, A_SaveNewAsset)"
| "AssetDFA STATUS_UPLOADING UPLOAD_FINISHED = (Some STATUS_STABLE, A_None)"
| "AssetDFA STATUS_UPLOADING _ = (None, A_Recover)"
| "AssetDFA STATUS_WAIT_TRANSFER REMOTE_CHANGED = (Some STATUS_WAIT_TRANSFER, A_SaveNewAsset)"
| "AssetDFA STATUS_WAIT_TRANSFER UPLOAD = (Some STATUS_WAIT_UPLOAD, A_ChangeAssetToNormal)"
| "AssetDFA STATUS_WAIT_TRANSFER DOWNLOAD = (Some STATUS_WAIT_DOWNLOAD, A_ChangeAssetToNormal)"
| "AssetDFA STATUS_WAIT_TRANSFER _ = (Some STATUS_STABLE, A_CompensateTransferring)"
| "AssetDFA STATUS_WAIT_UPLOAD REMOTE_CHANGED = (Some STATUS_WAIT_TRANSFER, A_SaveNewAsset)"
| "AssetDFA STATUS_WAIT_UPLOAD TRANSFER_FINISHED = (Some STATUS_STABLE, A_CompensateSync)"
| "AssetDFA STATUS_WAIT_UPLOAD UPLOAD = (Some STATUS_WAIT_UPLOAD, A_ChangeAssetToNormal)"
| "AssetDFA STATUS_WAIT_UPLOAD DOWNLOAD = (Some STATUS_WAIT_DOWNLOAD, A_ChangeAssetToNormal)"
| "AssetDFA STATUS_WAIT_UPLOAD _ = (None, A_Recover)"
| "AssetDFA STATUS_WAIT_DOWNLOAD REMOTE_CHANGED = (Some STATUS_WAIT_TRANSFER, A_SaveNewAsset)"
| "AssetDFA STATUS_WAIT_DOWNLOAD TRANSFER_FINISHED = (Some STATUS_STABLE, A_CompensateSync)"
| "AssetDFA STATUS_WAIT_DOWNLOAD UPLOAD = (Some STATUS_WAIT_UPLOAD, A_ChangeAssetToNormal)"
| "AssetDFA STATUS_WAIT_DOWNLOAD DOWNLOAD = (Some STATUS_WAIT_DOWNLOAD, A_ChangeAssetToNormal)"
| "AssetDFA STATUS_WAIT_DOWNLOAD _ = (None, A_Recover)"
| "AssetDFA STATUS_BUTT _ = (None, A_None)"

text \<open>
  \<open>DFAPostEvent\<close> and the actions call each other: a finished transfer may start the one that waited,
  and a transfer that calls back at once posts its end. The rank of a status and an event goes down
  along these calls.
\<close>

fun dfa_rank :: "TransferStatus \<Rightarrow> AssetEvent \<Rightarrow> nat" where
  "dfa_rank STATUS_WAIT_TRANSFER e = 2"
| "dfa_rank STATUS_STABLE REMOTE_CHANGED = 1"
| "dfa_rank s e = 0"

lemma AssetDFA_compensate:
  "AssetDFA s e = (nxt, A_CompensateTransferring) \<Longrightarrow> s = STATUS_WAIT_TRANSFER \<and> nxt = Some STATUS_STABLE"
  by (cases s; cases e) auto

lemma AssetDFA_transfer:
  "AssetDFA s e = (nxt, A_DoTransfer) \<Longrightarrow> s = STATUS_STABLE \<and> e = REMOTE_CHANGED \<and> nxt = Some STATUS_TRANSFERRING"
  by (cases s; cases e) auto

text \<open>The actions that do not post events themselves.\<close>

definition SaveNewAsset :: "ChangedAssetInfo \<Rightarrow> string \<times> Asset \<Rightarrow> ChangedAssetInfo" where
  [simp]: "SaveNewAsset changedAsset newAsset = changedAsset\<lparr>ca_deviceId := fst newAsset, ca_asset := snd newAsset\<rparr>"

definition ChangeAssetToNormal :: "Asset \<Rightarrow> Asset" where
  [simp]: "ChangeAssetToNormal asset = asset\<lparr>as_status := ASSET_NORMAL\<rparr>"

definition CompensateSync :: "ChangedAssetInfo \<Rightarrow> asset_effect list" where
  [simp]: "CompensateSync changedAsset = [PostBindEvent COMPENSATE_SYNC (MakeBindInfo changedAsset)]"

definition Recover :: "ChangedAssetInfo \<Rightarrow> ChangedAssetInfo \<times> asset_effect list" where
  [simp]: "Recover changedAsset =
     (changedAsset\<lparr>ca_status := STATUS_STABLE\<rparr>, [PostBindEvent RECOVER_SYNC (MakeBindInfo changedAsset)])"

function (sequential) DFAPostEvent ::
    "asset_env \<Rightarrow> AssetEvent \<Rightarrow> ChangedAssetInfo \<Rightarrow> Asset \<Rightarrow> string \<times> Asset \<Rightarrow>
     GeneralError \<times> ChangedAssetInfo \<times> Asset \<times> asset_effect list" where
  "DFAPostEvent E eventId c asset newAsset =
     (if eventId = EVENT_BUTT \<or> ca_status c = STATUS_BUTT then (E_ERROR, c, asset, [])
      else case AssetDFA (ca_status c) eventId of (nxt, after) \<Rightarrow>
        (let c1 = (case nxt of None \<Rightarrow> c | Some s \<Rightarrow> c\<lparr>ca_status := s\<rparr>)
         in case after of
              A_None \<Rightarrow> (E_OK, c1, asset, [])
            | A_SaveNewAsset \<Rightarrow> (E_OK, SaveNewAsset c1 newAsset, asset, [])
            | A_ChangeAssetToNormal \<Rightarrow> (E_OK, c1, ChangeAssetToNormal asset, [])
            | A_CompensateSync \<Rightarrow> (E_OK, c1, asset, CompensateSync c1)
            | A_Recover \<Rightarrow> (case Recover c1 of (c2, effs) \<Rightarrow> (E_OK, c2, asset, effs))
            | A_CompensateTransferring \<Rightarrow>
                (case DFAPostEvent E REMOTE_CHANGED c1 (ca_asset c1) (ca_deviceId c1, ca_asset c1) of
                   (r, c2, _, effs) \<Rightarrow> (if r = E_OK then E_OK else E_ERROR, c2, asset, effs))
            | A_DoTransfer \<Rightarrow>
                (let c2 = c1\<lparr>ca_deviceId := fst newAsset, ca_asset := snd newAsset\<rparr>;
                     req = TransferAssetsAsync (si_user (ca_storeInfo c2)) (si_bundleName (ca_storeInfo c2)) (ca_deviceId c2) [ca_asset c2]
                 in case ae_transfer E c2 of
                      None \<Rightarrow> (E_OK, c2, asset, [req])
                    | Some success \<Rightarrow>
                        (let upd = (if success then UpdateStore E c2 else [])
                         in case DFAPostEvent E TRANSFER_FINISHED c2 (ca_asset c2) ([], Asset_new) of
                              (_, c3, _, effs) \<Rightarrow> (E_OK, c3, asset, req # upd @ effs)))))"
  by pat_completeness auto
termination
  by (relation "measure (\<lambda>(E, e, c, a, n). dfa_rank (ca_status c) e)")
    (auto dest!: AssetDFA_compensate [OF sym] AssetDFA_transfer [OF sym])

declare DFAPostEvent.simps [simp del]

text \<open>The callback of a transfer that ends later.\<close>

definition transfer_callback ::
    "asset_env \<Rightarrow> ChangedAssetInfo \<Rightarrow> bool \<Rightarrow> GeneralError \<times> ChangedAssetInfo \<times> Asset \<times> asset_effect list" where
  "transfer_callback E c success =
     (let upd = (if success then UpdateStore E c else [])
      in case DFAPostEvent E TRANSFER_FINISHED c (ca_asset c) ([], Asset_new) of
           (r, c, a, effs) \<Rightarrow> (r, c, a, upd @ effs))"

subsection \<open>The snapshot\<close>

type_synonym snapshot = "string \<rightharpoonup> ChangedAssetInfo"

definition IsBoundAsset :: "snapshot \<Rightarrow> Asset \<Rightarrow> bool" where
  "IsBoundAsset S asset \<longleftrightarrow> S (as_uri asset) \<noteq> None"

definition post_event ::
    "asset_env \<Rightarrow> AssetEvent \<Rightarrow> snapshot \<Rightarrow> Asset \<Rightarrow> string \<times> Asset \<Rightarrow>
     GeneralError \<times> snapshot \<times> Asset \<times> asset_effect list" where
  "post_event E eventId S asset newAsset =
     (case S (as_uri asset) of
        None \<Rightarrow> (E_OK, S, asset, [])
      | Some c \<Rightarrow> (case DFAPostEvent E eventId c asset newAsset of
          (r, c', asset', effs) \<Rightarrow> (r, S(as_uri asset \<mapsto> c'), asset', effs)))"

definition Upload :: "asset_env \<Rightarrow> snapshot \<Rightarrow> Asset \<Rightarrow> GeneralError \<times> snapshot \<times> Asset \<times> asset_effect list" where
  "Upload E S asset = post_event E UPLOAD S asset ([], Asset_new)"

definition Download :: "asset_env \<Rightarrow> snapshot \<Rightarrow> Asset \<Rightarrow> GeneralError \<times> snapshot \<times> Asset \<times> asset_effect list" where
  "Download E S asset = post_event E DOWNLOAD S asset ([], Asset_new)"

definition Uploaded :: "asset_env \<Rightarrow> snapshot \<Rightarrow> Asset \<Rightarrow> GeneralError \<times> snapshot \<times> Asset \<times> asset_effect list" where
  "Uploaded E S asset = post_event E UPLOAD_FINISHED S asset ([], Asset_new)"

definition Downloaded :: "asset_env \<Rightarrow> snapshot \<Rightarrow> Asset \<Rightarrow> GeneralError \<times> snapshot \<times> Asset \<times> asset_effect list" where
  "Downloaded E S asset = post_event E DOWNLOAD_FINISHED S asset ([], Asset_new)"

definition Transferred :: "asset_env \<Rightarrow> snapshot \<Rightarrow> Asset \<Rightarrow> GeneralError \<times> snapshot \<times> Asset \<times> asset_effect list" where
  "Transferred E S asset = post_event E TRANSFER_FINISHED S asset ([], Asset_new)"

definition OnDataChanged ::
    "asset_env \<Rightarrow> snapshot \<Rightarrow> Asset \<Rightarrow> string \<Rightarrow> GeneralError \<times> snapshot \<times> Asset \<times> asset_effect list" where
  "OnDataChanged E S asset deviceId = post_event E REMOTE_CHANGED S asset (deviceId, asset)"

definition GetAssetStatus :: "snapshot \<Rightarrow> Asset \<Rightarrow> TransferStatus" where
  "GetAssetStatus S asset = (case S (as_uri asset) of None \<Rightarrow> STATUS_BUTT | Some c \<Rightarrow> ca_status c)"

definition BindAsset :: "snapshot \<Rightarrow> Asset \<Rightarrow> AssetBindInfo \<Rightarrow> StoreInfo \<Rightarrow> GeneralError \<times> snapshot" where
  "BindAsset S asset bindInfo storeInfo =
     (if IsBoundAsset S asset then (E_OK, S)
      else (E_OK, S(as_uri asset \<mapsto> ChangedAssetInfo_of asset bindInfo storeInfo)))"

end
