(* ===== verification/Object_Assets_Results.thy ===== *)
theory Object_Assets_Results
  imports Object_Assets
begin

text \<open>
  What the asset machine and the snapshot guarantee: every event is handled in every state, a remote
  change is transferred at once or as soon as the running activity ends, an operation touches only
  its own asset, and what is merged into the store.
\<close>

subsection \<open>Single events\<close>

definition finish_event :: "AssetEvent \<Rightarrow> bool" where
  "finish_event e \<longleftrightarrow> e = TRANSFER_FINISHED \<or> e = UPLOAD_FINISHED \<or> e = DOWNLOAD_FINISHED"

definition transfer_request :: "ChangedAssetInfo \<Rightarrow> string \<Rightarrow> Asset \<Rightarrow> asset_effect" where
  "transfer_request c d a = TransferAssetsAsync (si_user (ca_storeInfo c)) (si_bundleName (ca_storeInfo c)) d [a]"

lemma finished_transferring:
  "ca_status c = STATUS_TRANSFERRING \<Longrightarrow>
   DFAPostEvent E TRANSFER_FINISHED c a n = (E_OK, c\<lparr>ca_status := STATUS_STABLE\<rparr>, a, [])"
  by (subst DFAPostEvent.simps) simp

lemma remote_changed_stable:
  assumes "ca_status c = STATUS_STABLE"
  shows "\<exists>st effs. DFAPostEvent E REMOTE_CHANGED c a (d, n) =
    (E_OK, c\<lparr>ca_status := st, ca_deviceId := d, ca_asset := n\<rparr>, a, transfer_request c d n # effs) \<and>
    (st = STATUS_TRANSFERRING \<or> st = STATUS_STABLE)"
proof -
  let ?c = "c\<lparr>ca_status := STATUS_TRANSFERRING, ca_deviceId := d, ca_asset := n\<rparr>"
  have fin: "DFAPostEvent E TRANSFER_FINISHED ?c (ca_asset ?c) ([], Asset_new) = (E_OK, ?c\<lparr>ca_status := STATUS_STABLE\<rparr>, ca_asset ?c, [])"
    by (rule finished_transferring) simp
  show ?thesis
  proof (cases "ae_transfer E ?c")
    case None
    then show ?thesis
      using assms by (intro exI [of _ STATUS_TRANSFERRING], subst DFAPostEvent.simps) (simp add: Let_def transfer_request_def)
  next
    case (Some b)
    then show ?thesis
      using assms fin by (intro exI [of _ STATUS_STABLE], subst DFAPostEvent.simps) (simp add: Let_def transfer_request_def)
  qed
qed

lemma remote_changed_busy:
  assumes "ca_status c \<noteq> STATUS_STABLE" "ca_status c \<noteq> STATUS_BUTT"
  shows "DFAPostEvent E REMOTE_CHANGED c a (d, n) =
    (E_OK, c\<lparr>ca_status := STATUS_WAIT_TRANSFER, ca_deviceId := d, ca_asset := n\<rparr>, a, [])"
  using assms by (subst DFAPostEvent.simps) (cases "ca_status c"; simp)

lemma finished_waiting:
  assumes "ca_status c = STATUS_WAIT_TRANSFER" "finish_event e"
  shows "\<exists>st effs. DFAPostEvent E e c a n =
    (E_OK, c\<lparr>ca_status := st\<rparr>, a, transfer_request c (ca_deviceId c) (ca_asset c) # effs) \<and>
    (st = STATUS_TRANSFERRING \<or> st = STATUS_STABLE)"
proof -
  let ?c = "c\<lparr>ca_status := STATUS_STABLE\<rparr>"
  obtain st effs where p: "DFAPostEvent E REMOTE_CHANGED ?c (ca_asset c) (ca_deviceId c, ca_asset c) =
      (E_OK, ?c\<lparr>ca_status := st, ca_deviceId := ca_deviceId c, ca_asset := ca_asset c\<rparr>, ca_asset c,
       transfer_request ?c (ca_deviceId c) (ca_asset c) # effs)" "st = STATUS_TRANSFERRING \<or> st = STATUS_STABLE"
    using remote_changed_stable [of ?c E "ca_asset c" "ca_deviceId c" "ca_asset c"] by auto
  have "DFAPostEvent E e c a n = (E_OK, c\<lparr>ca_status := st\<rparr>, a, transfer_request c (ca_deviceId c) (ca_asset c) # effs)"
    using assms p(1) by (subst DFAPostEvent.simps) (auto simp: finish_event_def transfer_request_def)
  then show ?thesis using p(2) by blast
qed

lemma other_events:
  assumes "AssetDFA (ca_status c) e = (nxt, act)" "act \<noteq> A_DoTransfer" "act \<noteq> A_CompensateTransferring"
    "e \<noteq> EVENT_BUTT" "ca_status c \<noteq> STATUS_BUTT"
  shows "\<exists>c' a' effs. DFAPostEvent E e c a n = (E_OK, c', a', effs) \<and> ca_bindInfo c' = ca_bindInfo c \<and>
    ca_storeInfo c' = ca_storeInfo c \<and> ca_status c' = (if act = A_Recover then STATUS_STABLE else case nxt of None \<Rightarrow> ca_status c | Some s \<Rightarrow> s)"
  using assms by (subst DFAPostEvent.simps) (auto simp: Let_def split: dfa_action.splits option.splits)

lemma AssetDFA_valid:
  "AssetDFA s e = (Some s', act) \<Longrightarrow> s' \<noteq> STATUS_BUTT"
  by (cases s; cases e) auto

lemma AssetDFA_compensate_event: "AssetDFA s e = (nxt, A_CompensateTransferring) \<Longrightarrow> e \<noteq> EVENT_BUTT \<Longrightarrow> finish_event e"
  by (cases s; cases e) (auto simp: finish_event_def)

text \<open>Every event in every state is handled, and the machine stays in one of its states.\<close>

lemma DFAPostEvent_total:
  assumes "e \<noteq> EVENT_BUTT" "ca_status c \<noteq> STATUS_BUTT"
  shows "\<exists>c' a' effs. DFAPostEvent E e c a n = (E_OK, c', a', effs) \<and> ca_status c' \<noteq> STATUS_BUTT \<and>
    ca_bindInfo c' = ca_bindInfo c \<and> ca_storeInfo c' = ca_storeInfo c"
proof -
  obtain nxt act where t: "AssetDFA (ca_status c) e = (nxt, act)" by fastforce
  consider "act = A_DoTransfer" | "act = A_CompensateTransferring" | "act \<noteq> A_DoTransfer" "act \<noteq> A_CompensateTransferring" by blast
  then show ?thesis
  proof cases
    case 1
    with t have "ca_status c = STATUS_STABLE" "e = REMOTE_CHANGED" by (auto dest: AssetDFA_transfer)
    then show ?thesis using remote_changed_stable [of c E a "fst n" "snd n"] by auto
  next
    case 2
    with t assms(1) have "ca_status c = STATUS_WAIT_TRANSFER" "finish_event e"
      using AssetDFA_compensate AssetDFA_compensate_event by blast+
    then show ?thesis using finished_waiting [of c e E a n] by auto
  next
    case 3
    then obtain c' a' effs where o: "DFAPostEvent E e c a n = (E_OK, c', a', effs)"
      "ca_bindInfo c' = ca_bindInfo c" "ca_storeInfo c' = ca_storeInfo c"
      "ca_status c' = (if act = A_Recover then STATUS_STABLE else case nxt of None \<Rightarrow> ca_status c | Some s \<Rightarrow> s)"
      using other_events [OF t _ _ assms, of E a n] by blast
    have "ca_status c' \<noteq> STATUS_BUTT"
      unfolding o(4) using assms(2) t AssetDFA_valid by (cases nxt) auto
    with o(1-3) show ?thesis by blast
  qed
qed

subsection \<open>Requests\<close>

datatype asset_req =
    ReqBind Asset AssetBindInfo StoreInfo
  | ReqUpload Asset
  | ReqDownload Asset
  | ReqUploaded Asset
  | ReqDownloaded Asset
  | ReqTransferred Asset
  | ReqDataChanged Asset string

fun asset_step :: "asset_env \<Rightarrow> snapshot \<Rightarrow> asset_req \<Rightarrow> snapshot" where
  "asset_step E S (ReqBind a b i) = snd (BindAsset S a b i)"
| "asset_step E S (ReqUpload a) = fst (snd (Upload E S a))"
| "asset_step E S (ReqDownload a) = fst (snd (Download E S a))"
| "asset_step E S (ReqUploaded a) = fst (snd (Uploaded E S a))"
| "asset_step E S (ReqDownloaded a) = fst (snd (Downloaded E S a))"
| "asset_step E S (ReqTransferred a) = fst (snd (Transferred E S a))"
| "asset_step E S (ReqDataChanged a d) = fst (snd (OnDataChanged E S a d))"

definition snapshot_ok :: "snapshot \<Rightarrow> bool" where
  "snapshot_ok S \<longleftrightarrow> (\<forall>u c. S u = Some c \<longrightarrow> ca_status c \<noteq> STATUS_BUTT)"

lemma post_event_spec:
  assumes "snapshot_ok S" "e \<noteq> EVENT_BUTT"
  shows "\<exists>S' a' effs. post_event E e S a n = (E_OK, S', a', effs) \<and> snapshot_ok S' \<and> dom S' = dom S \<and>
    (\<forall>u. u \<noteq> as_uri a \<longrightarrow> S' u = S u)"
proof (cases "S (as_uri a)")
  case None
  then show ?thesis using assms(1) by (simp add: post_event_def)
next
  case (Some c)
  with assms(1) have "ca_status c \<noteq> STATUS_BUTT" by (auto simp: snapshot_ok_def)
  from DFAPostEvent_total [OF assms(2) this, of E a n]
  obtain c' a' effs where "DFAPostEvent E e c a n = (E_OK, c', a', effs)" "ca_status c' \<noteq> STATUS_BUTT" by blast
  with Some assms(1) show ?thesis by (auto simp: post_event_def snapshot_ok_def)
qed

lemma post_event_keeps: "snapshot_ok S \<Longrightarrow> e \<noteq> EVENT_BUTT \<Longrightarrow> snapshot_ok (fst (snd (post_event E e S a n)))"
  using post_event_spec [of S e E a n] by auto

lemma asset_step_ok:
  assumes "snapshot_ok S" shows "snapshot_ok (asset_step E S r)"
proof (cases r)
  case (ReqBind a b i)
  with assms show ?thesis by (auto simp: BindAsset_def snapshot_ok_def ChangedAssetInfo_of_def)
qed (simp_all add: assms post_event_keeps Upload_def Download_def Uploaded_def Downloaded_def Transferred_def OnDataChanged_def)

interpretation asset_runs: transition_system "asset_step E" snapshot_ok for E
  by unfold_locales (rule asset_step_ok)


definition asset_env0 :: asset_env where
  "asset_env0 = \<lparr>ae_localUuid = ''local'', ae_LoadMeta = (\<lambda>k m. None), ae_GetStore = (\<lambda>m. None), ae_transfer = (\<lambda>c. None)\<rparr>"



definition bound0 :: ChangedAssetInfo where
  "bound0 = ChangedAssetInfo_of Asset_new \<lparr>ab_storeName = [], ab_tableName = [], ab_primaryKey = [], ab_field = [], ab_assetName = []\<rparr> StoreInfo_new"


subsection \<open>What is merged into the store\<close>

lemma merge_into_names:
  "map as_name (merge_into as n) = (if as_name n \<in> as_name ` set as then map as_name as else map as_name as @ [as_name n])"
  by (induction as n rule: merge_into.induct) (auto simp: MergeAsset_def)

lemma merge_into_others: "filter (\<lambda>b. as_name b \<noteq> as_name n) (merge_into as n) = filter (\<lambda>b. as_name b \<noteq> as_name n) as"
  by (induction as n rule: merge_into.induct) (auto simp: MergeAsset_def)

lemma merge_into_new:
  "\<exists>b \<in> set (merge_into as n). as_name b = as_name n \<and> as_uri b = as_uri n \<and> as_hash b = as_hash n \<and>
     as_size b = as_size n \<and> as_path b = as_path n \<and> as_modifyTime b = as_modifyTime n \<and> as_createTime b = as_createTime n"
  by (induction as n rule: merge_into.induct) (auto simp: MergeAsset_def)

definition with_key :: "AssetBindInfo \<Rightarrow> VBucket \<Rightarrow> VBucket" where
  "with_key bindInfo rec = fold (\<lambda>(key, primary) rec. AList.update key primary rec) (ab_primaryKey bindInfo) rec"

lemma with_key_map: "map_of (with_key bindInfo rec) = map_of rec ++ map_of (rev (ab_primaryKey bindInfo))"
proof -
  have "map_of (fold (\<lambda>(key, primary) rec. AList.update key primary rec) ps r) = map_of r ++ map_of (rev ps)" for ps and r :: VBucket
    by (induction ps arbitrary: r) (auto simp: AList.update_conv' map_add_def fun_eq_iff split: option.splits)
  then show ?thesis by (simp add: with_key_def)
qed

lemma with_key_field:
  assumes "ab_field bindInfo \<notin> fst ` set (ab_primaryKey bindInfo)"
  shows "map_of (with_key bindInfo rec) (ab_field bindInfo) = map_of rec (ab_field bindInfo)"
  using assms unfolding with_key_map by (metis map_add_dom_app_simps(3) dom_map_of_conv_image_fst set_rev)

lemma MergeAssetData_cases:
  "MergeAssetData rec n bindInfo =
    (case map_of (with_key bindInfo rec) (ab_field bindInfo) of
       Some VNull \<Rightarrow> AList.update (ab_field bindInfo) (VAssets [n]) (with_key bindInfo rec)
     | Some (VAssets as) \<Rightarrow> AList.update (ab_field bindInfo) (VAssets (merge_into as n)) (with_key bindInfo rec)
     | _ \<Rightarrow> with_key bindInfo rec)"
  by (auto simp: MergeAssetData_def with_key_def Let_def split: option.splits Value.splits)

text \<open>What the asset column holds after the merge of a new version into it.\<close>

definition merged_column :: "Asset \<Rightarrow> Value option \<Rightarrow> Value option \<Rightarrow> bool" where
  "merged_column n old new \<longleftrightarrow>
     (case old of
        Some VNull \<Rightarrow> new = Some (VAssets [n])
      | Some (VAssets as) \<Rightarrow>
          (\<exists>as'. new = Some (VAssets as') \<and>
             filter (\<lambda>b. as_name b \<noteq> as_name n) as' = filter (\<lambda>b. as_name b \<noteq> as_name n) as \<and>
             (\<exists>b \<in> set as'. as_name b = as_name n \<and> as_uri b = as_uri n \<and> as_hash b = as_hash n) \<and>
             (distinct (map as_name as) \<longrightarrow> distinct (map as_name as')))
      | _ \<Rightarrow> new = old)"

lemma merged_column_list: "merged_column n (Some (VAssets as)) (Some (VAssets (merge_into as n)))"
  using merge_into_new [of as n] merge_into_names [of as n] by (auto simp: merged_column_def merge_into_others)

text \<open>
  A row that is merged keeps every column but the primary key and the asset column. In a list of
  assets the new version is there, every asset of another name is as it was and no name is doubled;
  an empty column becomes the list of that asset; a column that holds a single asset is never
  changed, not even when it is the asset that was transferred.
\<close>
theorem MergeAssetData_row:
  assumes "ab_field bindInfo \<notin> fst ` set (ab_primaryKey bindInfo)"
  shows "(\<forall>col. col \<noteq> ab_field bindInfo \<longrightarrow>
      map_of (MergeAssetData rec n bindInfo) col = (map_of rec ++ map_of (rev (ab_primaryKey bindInfo))) col) \<and>
    merged_column n (map_of rec (ab_field bindInfo)) (map_of (MergeAssetData rec n bindInfo) (ab_field bindInfo))"
proof
  show "\<forall>col. col \<noteq> ab_field bindInfo \<longrightarrow>
      map_of (MergeAssetData rec n bindInfo) col = (map_of rec ++ map_of (rev (ab_primaryKey bindInfo))) col"
    by (auto simp: MergeAssetData_cases AList.update_conv' with_key_map split: option.splits Value.splits)
  show "merged_column n (map_of rec (ab_field bindInfo)) (map_of (MergeAssetData rec n bindInfo) (ab_field bindInfo))"
    unfolding MergeAssetData_cases with_key_field [OF assms]
    by (auto simp: AList.update_conv' merged_column_list with_key_field [OF assms] merged_column_def [of n None]
        merged_column_def [of n "Some VNull"] split: option.splits Value.splits)
      (auto simp: merged_column_def)
qed

definition bind0 :: AssetBindInfo where
  "bind0 = \<lparr>ab_storeName = ''s'', ab_tableName = ''t'', ab_primaryKey = [(''id'', VInt 1)], ab_field = ''photo'', ab_assetName = ''a''\<rparr>"

theorem MergeAssetData_row_witness:
  "merged_column Asset_new (Some (VAssets [Asset_new\<lparr>as_name := ''b''\<rparr>]))
     (map_of (MergeAssetData [(''photo'', VAssets [Asset_new\<lparr>as_name := ''b''\<rparr>])] Asset_new bind0) ''photo'') \<and>
   map_of (MergeAssetData [(''photo'', VAssets [Asset_new\<lparr>as_name := ''b''\<rparr>])] Asset_new bind0) ''id'' = Some (VInt 1)"
  using MergeAssetData_row [of bind0 "[(''photo'', VAssets [Asset_new\<lparr>as_name := ''b''\<rparr>])]" Asset_new]
  by (simp add: bind0_def)

text \<open>The query that finds the row: one test for each column of the primary key, one argument each.\<close>

lemma BuildSql_fold:
  "fold (\<lambda>(key, v) (sql, args). (sql @ key @ SQL_AND, args @ [v])) ps (s, as) =
   (s @ concat (map (\<lambda>(k, v). k @ SQL_AND) ps), as @ map snd ps)"
  by (induction ps arbitrary: s as) auto

lemma glue_tests:
  "ps \<noteq> [] \<Longrightarrow> concat (map (\<lambda>(k, v). k @ SQL_AND) ps) = glue '' and '' (map (\<lambda>(k, v). k @ '' = ?'') ps) @ '' and ''"
  by (induction ps rule: induct_list012) (auto simp: SQL_AND_def)

lemma BuildSql_cut:
  assumes "''SELECT '' @ ab_field b @ '' FROM '' @ ab_tableName b @ '' WHERE '' @ concat (map (\<lambda>(k, v). k @ SQL_AND) (ab_primaryKey b)) = x @ z"
    and "length z = 5"
  shows "BuildSql b = (x, map snd (ab_primaryKey b))"
  using assms(2) unfolding BuildSql_def Let_def BuildSql_fold append_assoc prod.case assms(1) by simp

lemma BuildSql_text:
  assumes "ab_primaryKey b \<noteq> []"
  shows "BuildSql b = (''SELECT '' @ ab_field b @ '' FROM '' @ ab_tableName b @ '' WHERE '' @
      glue '' and '' (map (\<lambda>(k, v). k @ '' = ?'') (ab_primaryKey b)), map snd (ab_primaryKey b))"
  by (rule BuildSql_cut [where z = "'' and ''"]) (simp_all add: glue_tests [OF assms])

lemma BuildSql_no_key:
  assumes "ab_primaryKey b = []"
  shows "BuildSql b = (''SELECT '' @ ab_field b @ '' FROM '' @ ab_tableName b @ '' W'', [])"
  using BuildSql_cut [of b "''SELECT '' @ ab_field b @ '' FROM '' @ ab_tableName b @ '' W''" "''HERE ''"] assms by simp

end
