(* ===== verification/Concurrent_Map.thy ===== *)
theory Concurrent_Map
  imports DDS_External "HOL-Library.AList"
begin

text \<open>
  The rest of the concurrent map's interface: insertion, computing the value of a key, and going
  through all entries. Going through the entries is two operations, the entries in the order they are
  visited and the map after a visitor has changed values in place. The contract \<open>concurrent_map\<close>
  collects the laws; \<open>alist_cmap\<close> is a plain instance.
\<close>

record ('k, 'v, 'c) cmap = "('k, 'v, 'c) cmap_ops" +
  cm_new :: 'c
  cm_Insert :: "'c \<Rightarrow> 'k \<Rightarrow> 'v \<Rightarrow> bool \<times> 'c"
  cm_InsertOrAssign :: "'c \<Rightarrow> 'k \<Rightarrow> 'v \<Rightarrow> 'c"
  cm_Compute :: "'c \<Rightarrow> 'k \<Rightarrow> ('v option \<Rightarrow> 'v option) \<Rightarrow> 'c"
  cm_entries :: "'c \<Rightarrow> ('k \<times> 'v) list"
  cm_replace :: "'c \<Rightarrow> ('k \<Rightarrow> 'v \<Rightarrow> 'v) \<Rightarrow> 'c"

definition cmap_full_ok :: "('k, 'v, 'c) cmap \<Rightarrow> ('c \<Rightarrow> ('k \<rightharpoonup> 'v)) \<Rightarrow> bool" where
  "cmap_full_ok M view \<longleftrightarrow>
     cmap_ok M view \<and>
     view (cm_new M) = Map.empty \<and>
     (\<forall>c k v. view (snd (cm_Insert M c k v)) = (case view c k of None \<Rightarrow> (view c)(k \<mapsto> v) | Some _ \<Rightarrow> view c)) \<and>
     (\<forall>c k v. view (cm_InsertOrAssign M c k v) = (view c)(k \<mapsto> v)) \<and>
     (\<forall>c k f. view (cm_Compute M c k f) = (view c)(k := f (view c k))) \<and>
     (\<forall>c. set (cm_entries M c) = {(k, v). view c k = Some v} \<and> distinct (map fst (cm_entries M c))) \<and>
     (\<forall>c f. view (cm_replace M c f) = (\<lambda>k. map_option (f k) (view c k)))"

locale concurrent_map =
  fixes M :: "('k, 'v, 'c) cmap" and view :: "'c \<Rightarrow> ('k \<rightharpoonup> 'v)"
  assumes full_ok: "cmap_full_ok M view"
begin

lemma Find: "cm_Find M c k = view c k"
  using full_ok by (simp add: cmap_full_ok_def cmap_ok_def)

lemma view_ComputeIfAbsent:
  "view (snd (cm_ComputeIfAbsent M c k v)) = (case view c k of None \<Rightarrow> (view c)(k \<mapsto> v) | Some _ \<Rightarrow> view c)"
  using full_ok by (cases "view c k") (auto simp: cmap_full_ok_def cmap_ok_def)

lemma view_Erase: "view (cm_Erase M c k) = (view c)(k := None)"
  using full_ok by (simp add: cmap_full_ok_def cmap_ok_def)

lemma view_new: "view (cm_new M) = Map.empty"
  using full_ok by (simp add: cmap_full_ok_def)

lemma view_Insert: "view (snd (cm_Insert M c k v)) = (case view c k of None \<Rightarrow> (view c)(k \<mapsto> v) | Some _ \<Rightarrow> view c)"
  using full_ok by (simp add: cmap_full_ok_def)

lemma view_InsertOrAssign: "view (cm_InsertOrAssign M c k v) = (view c)(k \<mapsto> v)"
  using full_ok by (simp add: cmap_full_ok_def)

lemma view_Compute: "view (cm_Compute M c k f) = (view c)(k := f (view c k))"
  using full_ok by (simp add: cmap_full_ok_def)

lemma set_entries: "set (cm_entries M c) = {(k, v). view c k = Some v}"
  using full_ok by (simp add: cmap_full_ok_def)

lemma distinct_entries: "distinct (map fst (cm_entries M c))"
  using full_ok by (simp add: cmap_full_ok_def)

lemma view_replace: "view (cm_replace M c f) = (\<lambda>k. map_option (f k) (view c k))"
  using full_ok by (simp add: cmap_full_ok_def)

text \<open>Erasing a list of keys, one after the other.\<close>

lemma view_Erase_all: "view (fold (\<lambda>k c. cm_Erase M c k) ks c) = forget_all ks (view c)"
  by (induction ks arbitrary: c) (simp_all add: view_Erase forget_all_Cons)

lemmas map_laws = Find view_ComputeIfAbsent view_Erase view_new view_Insert view_InsertOrAssign view_Compute set_entries view_replace view_Erase_all

end

definition alist_cmap :: "('k, 'v, ('k \<times> 'v) list) cmap" where
  "alist_cmap =
     \<lparr>cm_ComputeIfAbsent = (\<lambda>m k v. if map_of m k = None then (True, AList.update k v m) else (False, m)),
      cm_Find = map_of,
      cm_Erase = (\<lambda>m k. AList.delete k m),
      cm_new = [],
      cm_Insert = (\<lambda>m k v. if map_of m k = None then (True, AList.update k v m) else (False, m)),
      cm_InsertOrAssign = (\<lambda>m k v. AList.update k v m),
      cm_Compute = (\<lambda>m k f. case f (map_of m k) of None \<Rightarrow> AList.delete k m | Some v \<Rightarrow> AList.update k v m),
      cm_entries = AList.clearjunk,
      cm_replace = (\<lambda>m f. map (\<lambda>(k, v). (k, f k v)) m)\<rparr>"

lemma set_clearjunk: "set (AList.clearjunk m) = {(k, v). map_of m k = Some v}"
proof -
  have "(k, v) \<in> set (AList.clearjunk m) \<longleftrightarrow> map_of m k = Some v" for k v
    by (metis map_of_clearjunk map_of_eq_Some_iff distinct_clearjunk)
  then show ?thesis by auto
qed

lemma map_of_replace: "map_of (map (\<lambda>(k, v). (k, f k v)) m) = (\<lambda>k. map_option (f k) (map_of m k))"
  by (induction m) auto

lemma alist_cmap_ok: "cmap_full_ok alist_cmap map_of"
  by (auto simp: cmap_full_ok_def cmap_ok_def alist_cmap_def AList.update_conv' AList.delete_conv' set_clearjunk
      distinct_clearjunk map_of_replace split: option.split)

interpretation alist_map: concurrent_map alist_cmap map_of
  by unfold_locales (rule alist_cmap_ok)

end
