(* ===== verification/Asset_Loader.thy ===== *)
theory Asset_Loader
  imports General_Value Concurrent_Map
begin

text \<open>
  The loader of assets (service/object/src/object_asset_loader.cpp): requests to transfer assets from
  another device, answered through a callback once every asset of the request is there or has failed.

  A request becomes a task and a job of the thread pool. A job handles its assets one by one; the
  transfer of one asset takes time, so a job is advanced in two steps, \<open>job_begin\<close> up to the call of
  the transfer and \<open>job_end\<close> from its return. Steps of different jobs interleave freely. A callback is
  a number, and what the loader calls is recorded with the result it passes. The concurrent maps are
  arguments: \<open>T\<close> for the tasks, \<open>H\<close> for the hashes of assets.
\<close>

subsection \<open>State\<close>

record TransferTask =
  tt_downloadAssets :: "string list"
  tt_callback :: "nat option"

record ('t, 'h) loader =
  al_executors :: bool
  al_taskSeq :: u32
  al_assetQueue :: "string list"
  al_tasks :: 't
  al_downloaded :: 'h
  al_downloading :: 'h

type_synonym 't tasks_ops = "(u32, TransferTask, 't) cmap"
type_synonym 'h hashes_ops = "(string, string, 'h) cmap"

definition loader_new :: "'t tasks_ops \<Rightarrow> 'h hashes_ops \<Rightarrow> ('t, 'h) loader" where
  "loader_new T H = \<lparr>al_executors = False, al_taskSeq = 0, al_assetQueue = [], al_tasks = cm_new T,
     al_downloaded = cm_new H, al_downloading = cm_new H\<rparr>"

text \<open>What the closure passed to the thread pool holds while it runs.\<close>

record transfer_job =
  tj_userId :: u32
  tj_bundleName :: string
  tj_deviceId :: string
  tj_assets :: "Asset list"
  tj_result :: bool
  tj_current :: "Asset option"

type_synonym calls = "(nat \<times> bool) list"

abbreviation (input) LAST_DOWNLOAD_ASSET_SIZE :: nat where "LAST_DOWNLOAD_ASSET_SIZE \<equiv> 200"

subsection \<open>Operations\<close>

definition SetThreadPool :: "('t, 'h) loader \<Rightarrow> bool \<Rightarrow> ('t, 'h) loader" where
  "SetThreadPool L executors = L\<lparr>al_executors := executors\<rparr>"

definition IsDownloading :: "'h hashes_ops \<Rightarrow> ('t, 'h) loader \<Rightarrow> Asset \<Rightarrow> bool" where
  "IsDownloading H L asset \<longleftrightarrow>
     (case cm_Find H (al_downloading L) (as_uri asset) of None \<Rightarrow> False | Some hash \<Rightarrow> hash = as_hash asset)"

definition IsDownloaded :: "'h hashes_ops \<Rightarrow> ('t, 'h) loader \<Rightarrow> Asset \<Rightarrow> bool" where
  "IsDownloaded H L asset \<longleftrightarrow>
     (case cm_Find H (al_downloaded L) (as_uri asset) of None \<Rightarrow> False | Some hash \<Rightarrow> hash = as_hash asset)"

text \<open>The asset sync manager is loaded from a library, which may be missing.\<close>

definition Transfer :: "(u32 \<Rightarrow> string \<Rightarrow> string \<Rightarrow> Asset \<Rightarrow> bool) option \<Rightarrow> u32 \<Rightarrow> string \<Rightarrow> string \<Rightarrow> Asset \<Rightarrow> bool" where
  "Transfer syncManager userId bundleName deviceId asset =
     (case syncManager of None \<Rightarrow> False | Some transfer \<Rightarrow> transfer userId bundleName deviceId asset)"

definition UpdateDownloaded :: "'h hashes_ops \<Rightarrow> ('t, 'h) loader \<Rightarrow> Asset \<Rightarrow> ('t, 'h) loader" where
  "UpdateDownloaded H L asset =
     (let L = L\<lparr>al_downloaded := snd (cm_ComputeIfAbsent H (al_downloaded L) (as_uri asset) (as_hash asset)),
                al_assetQueue := al_assetQueue L @ [as_uri asset]\<rparr>
      in if length (al_assetQueue L) > LAST_DOWNLOAD_ASSET_SIZE
         then L\<lparr>al_assetQueue := tl (al_assetQueue L),
                al_downloaded := cm_Erase H (al_downloaded L) (hd (al_assetQueue L))\<rparr>
         else L)"

definition task_done :: "TransferTask \<Rightarrow> bool" where
  "task_done task \<longleftrightarrow> tt_downloadAssets task = [] \<and> tt_callback task \<noteq> None"

definition FinishTask :: "'t tasks_ops \<Rightarrow> ('t, 'h) loader \<Rightarrow> string \<Rightarrow> bool \<Rightarrow> ('t, 'h) loader \<times> calls" where
  "FinishTask T L uri result =
     (let tasks = cm_replace T (al_tasks L) (\<lambda>seq task. task\<lparr>tt_downloadAssets := removeAll uri (tt_downloadAssets task)\<rparr>);
          finished = filter (\<lambda>(seq, task). task_done task) (cm_entries T tasks);
          finishedTasks = map fst finished
      in (L\<lparr>al_tasks := fold (\<lambda>taskId tasks. cm_Erase T tasks taskId) finishedTasks tasks\<rparr>,
          map (\<lambda>(seq, task). (the (tt_callback task), result)) finished))"

definition TransferAssetsAsync ::
    "'t tasks_ops \<Rightarrow> 'h hashes_ops \<Rightarrow> ('t, 'h) loader \<Rightarrow> u32 \<Rightarrow> string \<Rightarrow> string \<Rightarrow> Asset list \<Rightarrow> nat \<Rightarrow>
     ('t, 'h) loader \<times> calls \<times> transfer_job option" where
  "TransferAssetsAsync T H L userId bundleName deviceId assets callback =
     (if \<not> al_executors L then (L, [(callback, False)], None)
      else
        let downloadAssets = filter (\<lambda>asset. \<not> IsDownloaded H L asset) assets;
            task = \<lparr>tt_downloadAssets = remdups (map as_uri downloadAssets), tt_callback = Some callback\<rparr>;
            calls = (if tt_downloadAssets task = [] then [(callback, True)] else []);
            seq = al_taskSeq L + 1;
            tasks = snd (cm_ComputeIfAbsent T (al_tasks L) seq task)
        in (L\<lparr>al_taskSeq := seq, al_tasks := tasks\<rparr>, calls,
            Some \<lparr>tj_userId = userId, tj_bundleName = bundleName, tj_deviceId = deviceId, tj_assets = downloadAssets,
                  tj_result = True, tj_current = None\<rparr>))"

text \<open>The closure, up to the transfer of the next asset and from the end of that transfer.\<close>

definition job_begin :: "'t tasks_ops \<Rightarrow> 'h hashes_ops \<Rightarrow> ('t, 'h) loader \<Rightarrow> transfer_job \<Rightarrow> ('t, 'h) loader \<times> calls \<times> transfer_job" where
  "job_begin T H L j =
     (case (tj_current j, tj_assets j) of
        (None, asset # rest) \<Rightarrow>
          let j = j\<lparr>tj_assets := rest\<rparr>
          in if IsDownloaded H L asset then (let (L, calls) = FinishTask T L (as_uri asset) (tj_result j) in (L, calls, j))
             else if IsDownloading H L asset then (L, [], j)
             else (L\<lparr>al_downloading := snd (cm_ComputeIfAbsent H (al_downloading L) (as_uri asset) (as_hash asset))\<rparr>, [],
                   j\<lparr>tj_current := Some asset\<rparr>)
      | _ \<Rightarrow> (L, [], j))"

definition job_end :: "'t tasks_ops \<Rightarrow> 'h hashes_ops \<Rightarrow> ('t, 'h) loader \<Rightarrow> transfer_job \<Rightarrow> bool \<Rightarrow> ('t, 'h) loader \<times> calls \<times> transfer_job" where
  "job_end T H L j success =
     (case tj_current j of
        None \<Rightarrow> (L, [], j)
      | Some asset \<Rightarrow>
          let L = L\<lparr>al_downloading := cm_Erase H (al_downloading L) (as_uri asset)\<rparr>;
              L = (if success then UpdateDownloaded H L asset else L);
              result = (tj_result j \<and> success);
              (L, calls) = FinishTask T L (as_uri asset) result
          in (L, calls, j\<lparr>tj_result := result, tj_current := None\<rparr>))"

subsection \<open>The loader and its jobs\<close>

record ('t, 'h) loader_sys =
  ls_loader :: "('t, 'h) loader"
  ls_jobs :: "transfer_job list"
  ls_calls :: calls

definition sys_new :: "'t tasks_ops \<Rightarrow> 'h hashes_ops \<Rightarrow> ('t, 'h) loader_sys" where
  "sys_new T H = \<lparr>ls_loader = loader_new T H, ls_jobs = [], ls_calls = []\<rparr>"

datatype loader_req =
    ReqPool bool
  | ReqTransfer u32 string string "Asset list" nat
  | ReqBegin nat
  | ReqEnd nat bool

definition with_job :: "('t, 'h) loader_sys \<Rightarrow> nat \<Rightarrow> ('t, 'h) loader \<times> calls \<times> transfer_job \<Rightarrow> ('t, 'h) loader_sys" where
  "with_job S i r = (case r of (L, calls, j) \<Rightarrow>
     S\<lparr>ls_loader := L, ls_jobs := (ls_jobs S)[i := j], ls_calls := ls_calls S @ calls\<rparr>)"

fun sys_step :: "'t tasks_ops \<Rightarrow> 'h hashes_ops \<Rightarrow> ('t, 'h) loader_sys \<Rightarrow> loader_req \<Rightarrow> ('t, 'h) loader_sys" where
  "sys_step T H S (ReqPool b) = S\<lparr>ls_loader := SetThreadPool (ls_loader S) b\<rparr>"
| "sys_step T H S (ReqTransfer u b d as cb) =
     (case TransferAssetsAsync T H (ls_loader S) u b d as cb of (L, calls, j) \<Rightarrow>
        S\<lparr>ls_loader := L, ls_jobs := ls_jobs S @ (case j of None \<Rightarrow> [] | Some j \<Rightarrow> [j]), ls_calls := ls_calls S @ calls\<rparr>)"
| "sys_step T H S (ReqBegin i) = (if i < length (ls_jobs S) then with_job S i (job_begin T H (ls_loader S) (ls_jobs S ! i)) else S)"
| "sys_step T H S (ReqEnd i b) = (if i < length (ls_jobs S) then with_job S i (job_end T H (ls_loader S) (ls_jobs S ! i) b) else S)"

subsection \<open>Who still works on an asset\<close>

definition job_uris :: "transfer_job \<Rightarrow> string set" where
  "job_uris j = as_uri ` (set (tj_assets j) \<union> set_option (tj_current j))"

definition cur_uri :: "transfer_job \<Rightarrow> string option" where
  "cur_uri j = map_option as_uri (tj_current j)"

text \<open>
  Every asset a task waits for is still to be handled by some job, what counts as being downloaded
  is being transferred by some job, and the memory of downloaded assets is the queue's.
\<close>

definition waits_ok :: "('t \<Rightarrow> u32 \<rightharpoonup> TransferTask) \<Rightarrow> ('t, 'h) loader \<Rightarrow> transfer_job list \<Rightarrow> bool" where
  "waits_ok tv L js \<longleftrightarrow>
     (\<forall>seq t. tv (al_tasks L) seq = Some t \<longrightarrow> set (tt_downloadAssets t) \<subseteq> \<Union> (job_uris ` set js) \<and> tt_callback t \<noteq> None)"

definition downloading_ok :: "('h \<Rightarrow> string \<rightharpoonup> string) \<Rightarrow> ('t, 'h) loader \<Rightarrow> transfer_job list \<Rightarrow> bool" where
  "downloading_ok hv L js \<longleftrightarrow> (\<forall>u \<in> dom (hv (al_downloading L)). Some u \<in> cur_uri ` set js)"

definition memory_ok :: "('h \<Rightarrow> string \<rightharpoonup> string) \<Rightarrow> ('t, 'h) loader \<Rightarrow> bool" where
  "memory_ok hv L \<longleftrightarrow> length (al_assetQueue L) \<le> LAST_DOWNLOAD_ASSET_SIZE \<and> dom (hv (al_downloaded L)) \<subseteq> set (al_assetQueue L)"

definition sys_inv :: "('t \<Rightarrow> u32 \<rightharpoonup> TransferTask) \<Rightarrow> ('h \<Rightarrow> string \<rightharpoonup> string) \<Rightarrow> ('t, 'h) loader_sys \<Rightarrow> bool" where
  "sys_inv tv hv S \<longleftrightarrow> waits_ok tv (ls_loader S) (ls_jobs S) \<and> downloading_ok hv (ls_loader S) (ls_jobs S) \<and> memory_ok hv (ls_loader S)"

lemma other_index: "k < length js \<Longrightarrow> k \<noteq> i \<Longrightarrow> js ! k \<in> set (js[i := j])"
  by (metis length_list_update nth_list_update_neq nth_mem)

lemma other_job:
  assumes "x \<in> set js" "x \<noteq> js ! i" shows "x \<in> set (js[i := j])"
proof -
  from assms(1) obtain k where "k < length js" "js ! k = x" by (auto simp: in_set_conv_nth)
  with assms(2) other_index [of k js i j] show ?thesis by auto
qed

lemma waits_okI:
  "(\<And>seq t. tv (al_tasks L) seq = Some t \<Longrightarrow> set (tt_downloadAssets t) \<subseteq> \<Union> (job_uris ` set js) \<and> tt_callback t \<noteq> None) \<Longrightarrow>
   waits_ok tv L js"
  by (simp add: waits_ok_def)

lemma waits_okD:
  "waits_ok tv L js \<Longrightarrow> tv (al_tasks L) seq = Some t \<Longrightarrow> set (tt_downloadAssets t) \<subseteq> \<Union> (job_uris ` set js) \<and> tt_callback t \<noteq> None"
  by (simp add: waits_ok_def)

lemma waits_ok_mono:
  assumes "waits_ok tv L js" "\<Union> (job_uris ` set js) \<subseteq> \<Union> (job_uris ` set js')" shows "waits_ok tv L js'"
proof (rule waits_okI)
  fix seq t assume "tv (al_tasks L) seq = Some t"
  from waits_okD [OF assms(1) this] assms(2)
  show "set (tt_downloadAssets t) \<subseteq> \<Union> (job_uris ` set js') \<and> tt_callback t \<noteq> None" by (meson subset_trans)
qed

text \<open>A job that finishes an asset may forget it; a job that skips one may, when another job has it.\<close>

lemma jobs_upd_uris:
  assumes "i < length js" "job_uris (js ! i) \<subseteq> insert u (job_uris j)"
  shows "\<Union> (job_uris ` set js) \<subseteq> insert u (\<Union> (job_uris ` set (js[i := j])))"
proof
  fix x assume "x \<in> \<Union> (job_uris ` set js)"
  then obtain k where k: "k < length js" "x \<in> job_uris (js ! k)" by (auto simp: in_set_conv_nth)
  show "x \<in> insert u (\<Union> (job_uris ` set (js[i := j])))"
  proof (cases "k = i")
    case True
    with k assms have "x \<in> insert u (job_uris j)" by auto
    then show ?thesis using assms(1) by (auto dest: set_update_memI [of i js j])
  next
    case False
    with k have "js ! k \<in> set (js[i := j])" by (simp add: other_index)
    with k show ?thesis by blast
  qed
qed

lemma waits_ok_tasks: "al_tasks L' = al_tasks L \<Longrightarrow> waits_ok tv L' js = waits_ok tv L js"
  by (simp add: waits_ok_def)

lemma waits_ok_skip:
  assumes "waits_ok tv L js" "i < length js" "job_uris (js ! i) \<subseteq> insert u (job_uris j)" "u \<in> \<Union> (job_uris ` set (js[i := j]))"
  shows "waits_ok tv L (js[i := j])"
proof (rule waits_ok_mono [OF assms(1)])
  show "\<Union> (job_uris ` set js) \<subseteq> \<Union> (job_uris ` set (js[i := j]))"
    using jobs_upd_uris [OF assms(2,3)] unfolding insert_absorb [OF assms(4)] .
qed

lemma cur_uri_in: "cur_uri j = Some u \<Longrightarrow> u \<in> job_uris j"
  by (auto simp: cur_uri_def job_uris_def)

lemma downloading_ok_upd:
  assumes "downloading_ok hv L js" "i < length js" "dom (hv (al_downloading L')) \<subseteq> us \<union> dom (hv (al_downloading L))"
    "\<forall>u \<in> us. cur_uri j = Some u" "\<forall>u \<in> dom (hv (al_downloading L')). cur_uri (js ! i) = Some u \<longrightarrow> cur_uri j = Some u"
  shows "downloading_ok hv L' (js[i := j])"
  unfolding downloading_ok_def
proof
  fix u assume u: "u \<in> dom (hv (al_downloading L'))"
  have jin: "j \<in> set (js[i := j])" using assms(2) by (rule set_update_memI)
  show "Some u \<in> cur_uri ` set (js[i := j])"
  proof (cases "u \<in> us")
    case True
    with assms(4) jin show ?thesis by force
  next
    case False
    with u assms(3) have "u \<in> dom (hv (al_downloading L))" by blast
    with assms(1) obtain x where x: "x \<in> set js" "cur_uri x = Some u" by (metis downloading_ok_def imageE)
    show ?thesis
    proof (cases "x = js ! i")
      case True
      with x u assms(5) have "cur_uri j = Some u" by simp
      with jin show ?thesis by force
    next
      case False
      from other_job [OF x(1) False] x(2) show ?thesis by force
    qed
  qed
qed

lemma memory_ok_fields:
  "al_assetQueue L' = al_assetQueue L \<Longrightarrow> al_downloaded L' = al_downloaded L \<Longrightarrow> memory_ok hv L' = memory_ok hv L"
  by (simp add: memory_ok_def)

text \<open>The loader a job leaves behind when the transfer of an asset is over.\<close>

definition ended :: "'h hashes_ops \<Rightarrow> ('t, 'h) loader \<Rightarrow> Asset \<Rightarrow> bool \<Rightarrow> ('t, 'h) loader" where
  "ended H L asset success =
     (let L = L\<lparr>al_downloading := cm_Erase H (al_downloading L) (as_uri asset)\<rparr> in if success then UpdateDownloaded H L asset else L)"

lemma UpdateDownloaded_fields [simp]:
  "al_tasks (UpdateDownloaded H L a) = al_tasks L"
  "al_downloading (UpdateDownloaded H L a) = al_downloading L"
  "al_taskSeq (UpdateDownloaded H L a) = al_taskSeq L"
  by (simp_all add: UpdateDownloaded_def Let_def)

lemma ended_fields [simp]:
  "al_tasks (ended H L a b) = al_tasks L"
  "al_downloading (ended H L a b) = cm_Erase H (al_downloading L) (as_uri a)"
  "al_taskSeq (ended H L a b) = al_taskSeq L"
  by (simp_all add: ended_def Let_def)

lemma FinishTask_fields [simp]:
  "al_downloaded (fst (FinishTask T L u r)) = al_downloaded L"
  "al_downloading (fst (FinishTask T L u r)) = al_downloading L"
  "al_assetQueue (fst (FinishTask T L u r)) = al_assetQueue L"
  "al_taskSeq (fst (FinishTask T L u r)) = al_taskSeq L"
  by (simp_all add: FinishTask_def Let_def)

lemma job_end_Some:
  "tj_current j = Some a \<Longrightarrow> job_end T H L j b =
     (fst (FinishTask T (ended H L a b) (as_uri a) (tj_result j \<and> b)), snd (FinishTask T (ended H L a b) (as_uri a) (tj_result j \<and> b)),
      j\<lparr>tj_result := tj_result j \<and> b, tj_current := None\<rparr>)"
  by (simp add: job_end_def ended_def Let_def split_def)

lemma job_begin_idle: "\<not> (tj_current j = None \<and> tj_assets j \<noteq> []) \<Longrightarrow> job_begin T H L j = (L, [], j)"
  by (auto simp: job_begin_def split: option.splits list.splits)

subsection \<open>The loader over two concurrent maps\<close>

locale loader_maps =
  tasks: concurrent_map T tv + hashes: concurrent_map H hv
  for T :: "'t tasks_ops" and tv and H :: "'h hashes_ops" and hv
begin

text \<open>A task is either kept, with that asset removed, or its callback is called.\<close>

lemma FinishTask_tasks:
  assumes "tv (al_tasks (fst (FinishTask T L u r))) seq = Some task"
  shows "\<exists>t. tv (al_tasks L) seq = Some t \<and> task = t\<lparr>tt_downloadAssets := removeAll u (tt_downloadAssets t)\<rparr>"
  using assms by (auto simp: FinishTask_def Let_def tasks.map_laws forget_all_apply split: if_splits)

lemma FinishTask_keys: "dom (tv (al_tasks (fst (FinishTask T L u r)))) \<subseteq> dom (tv (al_tasks L))"
  by (auto dest!: FinishTask_tasks)

lemma FinishTask_answers:
  assumes t: "tv (al_tasks L) seq = Some t" and cb: "tt_callback t = Some cb"
  shows "(cb, r) \<in> set (snd (FinishTask T L u r)) \<or>
    tv (al_tasks (fst (FinishTask T L u r))) seq = Some (t\<lparr>tt_downloadAssets := removeAll u (tt_downloadAssets t)\<rparr>) \<and>
    removeAll u (tt_downloadAssets t) \<noteq> []"
proof (cases "removeAll u (tt_downloadAssets t) = []")
  case True
  with t cb have "(cb, r) \<in> set (snd (FinishTask T L u r))"
    by (force simp: FinishTask_def Let_def task_done_def image_iff tasks.map_laws)
  then show ?thesis ..
next
  case False
  with t show ?thesis
    by (auto simp: FinishTask_def Let_def task_done_def tasks.map_laws forget_all_apply)
qed

lemma waits_ok_FinishTask:
  assumes "waits_ok tv L js" "i < length js" "job_uris (js ! i) \<subseteq> insert u (job_uris j)"
  shows "waits_ok tv (fst (FinishTask T L u r)) (js[i := j])"
proof (rule waits_okI)
  fix seq t assume "tv (al_tasks (fst (FinishTask T L u r))) seq = Some t"
  then obtain t0 where t0: "tv (al_tasks L) seq = Some t0" "t = t0\<lparr>tt_downloadAssets := removeAll u (tt_downloadAssets t0)\<rparr>"
    using FinishTask_tasks by blast
  from waits_okD [OF assms(1) t0(1)] jobs_upd_uris [OF assms(2,3)]
  have "set (tt_downloadAssets t0) \<subseteq> insert u (\<Union> (job_uris ` set (js[i := j])))" "tt_callback t0 \<noteq> None" by blast+
  then show "set (tt_downloadAssets t) \<subseteq> \<Union> (job_uris ` set (js[i := j])) \<and> tt_callback t \<noteq> None"
    using t0(2) by auto
qed

lemma memory_ok_UpdateDownloaded: "memory_ok hv L \<Longrightarrow> memory_ok hv (UpdateDownloaded H L a)"
  by (cases "al_assetQueue L")
    (auto simp: memory_ok_def UpdateDownloaded_def Let_def hashes.map_laws split: option.splits if_splits)

lemma ended_memory: "memory_ok hv L \<Longrightarrow> memory_ok hv (ended H L a b)"
  using memory_ok_fields [of "L\<lparr>al_downloading := cm_Erase H (al_downloading L) (as_uri a)\<rparr>" L hv]
  by (simp add: ended_def Let_def memory_ok_UpdateDownloaded)

lemma downloading_elsewhere:
  assumes "downloading_ok hv L js" "IsDownloading H L a" "cur_uri (js ! i) = None"
  shows "as_uri a \<in> \<Union> (job_uris ` set (js[i := j]))"
proof -
  from assms(2) have "as_uri a \<in> dom (hv (al_downloading L))" by (auto simp: IsDownloading_def hashes.Find split: option.splits)
  with assms(1) obtain x where x: "x \<in> set js" "cur_uri x = Some (as_uri a)" by (metis downloading_ok_def imageE)
  with assms(3) have "x \<noteq> js ! i" by auto
  from other_job [OF x(1) this] cur_uri_in [OF x(2)] show ?thesis by blast
qed

end

subsection \<open>Every step keeps the invariant\<close>

context loader_maps
begin

lemma job_begin_inv:
  assumes inv: "sys_inv tv hv S" and i: "i < length (ls_jobs S)"
  shows "sys_inv tv hv (with_job S i (job_begin T H (ls_loader S) (ls_jobs S ! i)))"
proof (cases "tj_current (ls_jobs S ! i) = None \<and> tj_assets (ls_jobs S ! i) \<noteq> []")
  case False
  then show ?thesis using inv by (simp add: with_job_def sys_inv_def job_begin_idle)
next
  case True
  then obtain a rest where c: "tj_current (ls_jobs S ! i) = None" "tj_assets (ls_jobs S ! i) = a # rest"
    by (auto simp: neq_Nil_conv)
  let ?L = "ls_loader S" and ?js = "ls_jobs S"
  let ?j = "(?js ! i)\<lparr>tj_assets := rest\<rparr>"
  let ?j2 = "?j\<lparr>tj_current := Some a\<rparr>"
  have w: "waits_ok tv ?L ?js" "downloading_ok hv ?L ?js" "memory_ok hv ?L" using inv by (auto simp: sys_inv_def)
  have u: "job_uris (?js ! i) \<subseteq> insert (as_uri a) (job_uris ?j)" "job_uris (?js ! i) \<subseteq> insert (as_uri a) (job_uris ?j2)"
    using c by (auto simp: job_uris_def)
  have n: "cur_uri (?js ! i) = None" using c by (simp add: cur_uri_def)
  consider "IsDownloaded H ?L a" | "\<not> IsDownloaded H ?L a" "IsDownloading H ?L a" | "\<not> IsDownloaded H ?L a" "\<not> IsDownloading H ?L a" by blast
  then show ?thesis
  proof cases
    case 1
    let ?L' = "fst (FinishTask T ?L (as_uri a) (tj_result ?j))"
    have "downloading_ok hv ?L' (?js[i := ?j])" by (rule downloading_ok_upd [OF w(2) i, of _ "{}"]) (auto simp: n)
    moreover have "memory_ok hv ?L'" using w(3) memory_ok_fields [of ?L' ?L] by simp
    ultimately show ?thesis
      using 1 c waits_ok_FinishTask [OF w(1) i u(1), of "tj_result ?j"]
      by (simp add: with_job_def job_begin_def Let_def split_def sys_inv_def)
  next
    case 2
    have "downloading_ok hv ?L (?js[i := ?j])" by (rule downloading_ok_upd [OF w(2) i, of _ "{}"]) (auto simp: n)
    with 2 c w waits_ok_skip [OF w(1) i u(1) downloading_elsewhere [OF w(2) 2(2) n]] show ?thesis
      by (simp add: with_job_def job_begin_def sys_inv_def)
  next
    case 3
    let ?L' = "?L\<lparr>al_downloading := snd (cm_ComputeIfAbsent H (al_downloading ?L) (as_uri a) (as_hash a))\<rparr>"
    have "as_uri a \<in> job_uris ?j2" by (simp add: job_uris_def)
    then have "as_uri a \<in> \<Union> (job_uris ` set (?js[i := ?j2]))" using set_update_memI [OF i, of ?j2] by blast
    then have "waits_ok tv ?L' (?js[i := ?j2])" using waits_ok_skip [OF w(1) i u(2)] waits_ok_tasks [of ?L' ?L] by simp
    moreover have "downloading_ok hv ?L' (?js[i := ?j2])"
      by (rule downloading_ok_upd [OF w(2) i, of _ "{as_uri a}"])
        (auto simp: c hashes.map_laws cur_uri_def split: option.splits if_splits)
    moreover have "memory_ok hv ?L'" using w(3) memory_ok_fields [of ?L' ?L] by simp
    ultimately show ?thesis using 3 c by (simp add: with_job_def job_begin_def sys_inv_def)
  qed
qed

lemma job_end_inv:
  assumes inv: "sys_inv tv hv S" and i: "i < length (ls_jobs S)"
  shows "sys_inv tv hv (with_job S i (job_end T H (ls_loader S) (ls_jobs S ! i) b))"
proof (cases "tj_current (ls_jobs S ! i)")
  case None
  then show ?thesis using inv by (simp add: with_job_def sys_inv_def job_end_def)
next
  case (Some a)
  let ?js = "ls_jobs S" and ?L = "ended H (ls_loader S) a b"
  let ?r = "tj_result (?js ! i) \<and> b"
  let ?j = "(?js ! i)\<lparr>tj_result := ?r, tj_current := None\<rparr>" and ?L' = "fst (FinishTask T ?L (as_uri a) ?r)"
  have w: "waits_ok tv ?L ?js" "downloading_ok hv (ls_loader S) ?js" "memory_ok hv ?L"
    using inv ended_memory by (auto simp: sys_inv_def waits_ok_tasks [of "?L" "ls_loader S"])
  have u: "job_uris (?js ! i) \<subseteq> insert (as_uri a) (job_uris ?j)" using Some by (auto simp: job_uris_def)
  have "downloading_ok hv ?L' (?js[i := ?j])"
    by (rule downloading_ok_upd [OF w(2) i, of _ "{}"]) (auto simp: Some cur_uri_def hashes.map_laws split: if_splits)
  moreover have "memory_ok hv ?L'" using w(3) memory_ok_fields [of ?L' ?L] by simp
  ultimately show ?thesis
    using waits_ok_FinishTask [OF w(1) i u, of ?r] by (simp add: job_end_Some [OF Some] with_job_def sys_inv_def)
qed

text \<open>A new request: its task waits only for assets its own job has.\<close>

lemma transfer_inv:
  assumes "sys_inv tv hv S" shows "sys_inv tv hv (sys_step T H S (ReqTransfer u b d as cb))"
proof (cases "al_executors (ls_loader S)")
  case False
  then show ?thesis using assms by (simp add: TransferAssetsAsync_def sys_inv_def)
next
  case True
  let ?L = "ls_loader S" and ?das = "filter (\<lambda>a. \<not> IsDownloaded H (ls_loader S) a) as"
  let ?seq = "al_taskSeq ?L + 1"
  let ?task = "\<lparr>tt_downloadAssets = remdups (map as_uri ?das), tt_callback = Some cb\<rparr>"
  let ?j = "\<lparr>tj_userId = u, tj_bundleName = b, tj_deviceId = d, tj_assets = ?das, tj_result = True, tj_current = None\<rparr>"
  let ?L' = "?L\<lparr>al_taskSeq := ?seq, al_tasks := snd (cm_ComputeIfAbsent T (al_tasks ?L) ?seq ?task)\<rparr>" and ?js = "ls_jobs S @ [?j]"
  have w: "waits_ok tv ?L (ls_jobs S)" "downloading_ok hv ?L (ls_jobs S)" "memory_ok hv ?L" using assms by (auto simp: sys_inv_def)
  have "waits_ok tv ?L' ?js"
  proof (rule waits_okI)
    fix seq t assume "tv (al_tasks ?L') seq = Some t"
    then consider "tv (al_tasks ?L) seq = Some t" | "t = ?task" by (auto simp: tasks.map_laws split: if_splits option.splits)
    then show "set (tt_downloadAssets t) \<subseteq> \<Union> (job_uris ` set ?js) \<and> tt_callback t \<noteq> None"
      by cases (use waits_okD [OF w(1)] in \<open>auto simp: job_uris_def\<close>)
  qed
  moreover have "downloading_ok hv ?L' ?js" using w(2) by (auto simp: downloading_ok_def)
  moreover have "memory_ok hv ?L'" using w(3) memory_ok_fields [of ?L' ?L] by simp
  ultimately show ?thesis using True by (simp add: TransferAssetsAsync_def Let_def sys_inv_def)
qed

lemma sys_step_inv: "sys_inv tv hv S \<Longrightarrow> sys_inv tv hv (sys_step T H S r)"
  by (cases r) (auto simp del: sys_step.simps(2) simp: transfer_inv job_begin_inv job_end_inv,
      simp add: sys_inv_def SetThreadPool_def waits_ok_def downloading_ok_def memory_ok_def)

lemma sys_new_inv: "sys_inv tv hv (sys_new T H)"
  by (simp add: sys_inv_def sys_new_def loader_new_def waits_ok_def downloading_ok_def memory_ok_def tasks.map_laws hashes.map_laws)

end

sublocale loader_maps \<subseteq> runs: transition_system "sys_step T H" "sys_inv tv hv"
  by unfold_locales (rule sys_step_inv)

context loader_maps
begin

lemma run_inv: "sys_inv tv hv (run_steps (sys_step T H) (sys_new T H) rs)"
  by (rule runs.inv_run [OF sys_new_inv])

end

interpretation plain_loader: loader_maps alist_cmap map_of alist_cmap map_of
  by unfold_locales

text \<open>
  C32: The memory of downloaded assets is bounded: after any sequence of requests and any interleaving
  of the jobs at most two hundred assets count as downloaded, and the queue that decides which to
  forget is no longer than that.
\<close>
theorem downloaded_bounded:
  assumes "cmap_full_ok T tv" and "cmap_full_ok H hv"
  shows "let L = ls_loader (run_steps (sys_step T H) (sys_new T H) rs)
   in length (al_assetQueue L) \<le> 200 \<and> finite (dom (hv (al_downloaded L))) \<and> card (dom (hv (al_downloaded L))) \<le> 200"
proof -
  have l: "loader_maps T tv H hv" using assms by (simp add: loader_maps_def concurrent_map_def)
  let ?L = "ls_loader (run_steps (sys_step T H) (sys_new T H) rs)"
  have "memory_ok hv ?L"
    using loader_maps.run_inv [OF l, of rs] by (simp add: sys_inv_def)
  then have q: "length (al_assetQueue ?L) \<le> 200" "dom (hv (al_downloaded ?L)) \<subseteq> set (al_assetQueue ?L)"
    by (auto simp: memory_ok_def)
  have "card (dom (hv (al_downloaded ?L))) \<le> 200"
    using card_mono [OF _ q(2)] card_length [of "al_assetQueue ?L"] q(1) by simp
  with q show ?thesis by (auto simp: Let_def intro: finite_subset)
qed

theorem downloaded_bounded_witness:
  "card (dom (map_of (al_downloaded (ls_loader (run_steps (sys_step alist_cmap alist_cmap) (sys_new alist_cmap alist_cmap) [ReqPool True]))))) \<le> 200"
  using downloaded_bounded [OF alist_cmap_ok alist_cmap_ok, of "[ReqPool True]"] by (simp add: Let_def)

subsection \<open>Every request is answered\<close>

text \<open>A callback that was passed is called already, or its task still waits for an asset.\<close>

definition answered :: "('t, 'h) loader_sys \<Rightarrow> nat \<Rightarrow> bool" where
  "answered S cb \<longleftrightarrow> (\<exists>r. (cb, r) \<in> set (ls_calls S))"

definition waiting :: "('t \<Rightarrow> u32 \<rightharpoonup> TransferTask) \<Rightarrow> ('t, 'h) loader \<Rightarrow> nat \<Rightarrow> bool" where
  "waiting tv L cb \<longleftrightarrow> (\<exists>seq t. tv (al_tasks L) seq = Some t \<and> tt_callback t = Some cb \<and> tt_downloadAssets t \<noteq> [])"

definition keeps_cb :: "('t \<Rightarrow> u32 \<rightharpoonup> TransferTask) \<Rightarrow> ('t, 'h) loader_sys \<Rightarrow> nat \<Rightarrow> bool" where
  "keeps_cb tv S cb \<longleftrightarrow> answered S cb \<or> waiting tv (ls_loader S) cb"

lemma waiting_tasks: "al_tasks L' = al_tasks L \<Longrightarrow> waiting tv L' cb = waiting tv L cb"
  by (simp add: waiting_def)

lemma keeps_cb_with_job:
  assumes "keeps_cb tv S cb" "waiting tv (ls_loader S) cb \<longrightarrow> (\<exists>r'. (cb, r') \<in> set cs) \<or> waiting tv L cb"
  shows "keeps_cb tv (with_job S i (L, cs, j)) cb"
  using assms by (auto simp: keeps_cb_def answered_def with_job_def)

lemma keeps_cb_mono:
  "keeps_cb tv S c \<Longrightarrow> set (ls_calls S) \<subseteq> set (ls_calls S') \<Longrightarrow> tv (al_tasks (ls_loader S)) \<subseteq>\<^sub>m tv (al_tasks (ls_loader S')) \<Longrightarrow> keeps_cb tv S' c"
  unfolding keeps_cb_def answered_def waiting_def by (blast dest: map_le_SomeD)

lemma job_begin_forms:
  "(\<exists>u. fst (job_begin T H L j) = fst (FinishTask T L u (tj_result j)) \<and> fst (snd (job_begin T H L j)) = snd (FinishTask T L u (tj_result j))) \<or>
   al_tasks (fst (job_begin T H L j)) = al_tasks L \<and> al_taskSeq (fst (job_begin T H L j)) = al_taskSeq L \<and> fst (snd (job_begin T H L j)) = []"
proof (cases "tj_current j = None \<and> tj_assets j \<noteq> []")
  case False
  then show ?thesis by (simp add: job_begin_idle)
next
  case True
  then obtain a rest where "tj_current j = None" "tj_assets j = a # rest" by (auto simp: neq_Nil_conv)
  then show ?thesis by (cases "IsDownloaded H L a") (auto simp: job_begin_def Let_def split_def)
qed

text \<open>Sequence numbers do not repeat before the counter wraps around.\<close>

definition seq_ok :: "('t \<Rightarrow> u32 \<rightharpoonup> TransferTask) \<Rightarrow> nat \<Rightarrow> ('t, 'h) loader \<Rightarrow> bool" where
  "seq_ok tv n L \<longleftrightarrow> unat (al_taskSeq L) \<le> n \<and> (\<forall>k \<in> dom (tv (al_tasks L)). unat k \<le> unat (al_taskSeq L))"

lemma seq_ok_mono: "seq_ok tv n L \<Longrightarrow> al_taskSeq L' = al_taskSeq L \<Longrightarrow> dom (tv (al_tasks L')) \<subseteq> dom (tv (al_tasks L)) \<Longrightarrow> seq_ok tv (Suc n) L'"
  unfolding seq_ok_def by (simp only: subset_iff) (blast intro: le_SucI)

lemma seq_fresh:
  assumes "seq_ok tv n L" "Suc n < 2 ^ 32"
  shows "unat (al_taskSeq L + 1) = Suc (unat (al_taskSeq L))" "tv (al_tasks L) (al_taskSeq L + 1) = None"
proof -
  have "unat (al_taskSeq L) + 1 < 2 ^ LENGTH(32)" using assms by (simp add: seq_ok_def)
  then show s: "unat (al_taskSeq L + 1) = Suc (unat (al_taskSeq L))" by (simp add: unat_word_ariths)
  show "tv (al_tasks L) (al_taskSeq L + 1) = None"
  proof (rule ccontr)
    assume "tv (al_tasks L) (al_taskSeq L + 1) \<noteq> None"
    with assms(1) have "unat (al_taskSeq L + 1) \<le> unat (al_taskSeq L)" by (auto simp: seq_ok_def)
    with s show False by simp
  qed
qed

fun passed :: "loader_req list \<Rightarrow> nat set" where
  "passed [] = {}"
| "passed (ReqTransfer u b d as cb # rs) = insert cb (passed rs)"
| "passed (r # rs) = passed rs"

lemma passed_append [simp]: "passed (rs @ rs') = passed rs \<union> passed rs'"
  by (induction rs rule: passed.induct) auto

context loader_maps
begin

lemma waiting_FinishTask:
  assumes "waiting tv L cb"
  shows "(\<exists>r'. (cb, r') \<in> set (snd (FinishTask T L u r))) \<or> waiting tv (fst (FinishTask T L u r)) cb"
proof -
  from assms obtain seq t where "tv (al_tasks L) seq = Some t" "tt_callback t = Some cb" by (auto simp: waiting_def)
  from FinishTask_answers [OF this, of r u] this(2) show ?thesis unfolding waiting_def by fastforce
qed

lemma job_begin_cb:
  assumes "keeps_cb tv S cb" shows "keeps_cb tv (with_job S i (job_begin T H (ls_loader S) j)) cb"
proof -
  obtain L cs j' where r: "job_begin T H (ls_loader S) j = (L, cs, j')" by (cases "job_begin T H (ls_loader S) j") auto
  have "waiting tv (ls_loader S) cb \<longrightarrow> (\<exists>r'. (cb, r') \<in> set cs) \<or> waiting tv L cb"
    using job_begin_forms [of T H "ls_loader S" j] waiting_FinishTask waiting_tasks [of L "ls_loader S" tv cb]
    unfolding r fst_conv snd_conv by metis
  then show ?thesis unfolding r by (rule keeps_cb_with_job [OF assms])
qed

lemma job_end_cb:
  assumes "keeps_cb tv S cb" shows "keeps_cb tv (with_job S i (job_end T H (ls_loader S) j b)) cb"
proof (cases "tj_current j")
  case None
  with assms show ?thesis by (simp add: job_end_def keeps_cb_with_job)
next
  case (Some a)
  let ?L = "ended H (ls_loader S) a b"
  have "waiting tv ?L cb = waiting tv (ls_loader S) cb" by (rule waiting_tasks) simp
  with waiting_FinishTask [of ?L cb "as_uri a" "tj_result j \<and> b"] assms show ?thesis
    unfolding job_end_Some [OF Some] by (intro keeps_cb_with_job) auto
qed

lemma job_begin_seq: "seq_ok tv n L \<Longrightarrow> seq_ok tv (Suc n) (fst (job_begin T H L j))"
  using job_begin_forms [of T H L j] FinishTask_keys [of L] seq_ok_mono [of tv n L "fst (job_begin T H L j)"] by auto

lemma job_end_seq: "seq_ok tv n L \<Longrightarrow> seq_ok tv (Suc n) (fst (job_end T H L j b))"
proof (cases "tj_current j")
  case None
  then show "seq_ok tv n L \<Longrightarrow> ?thesis" by (simp add: job_end_def seq_ok_def)
next
  case (Some a)
  then show "seq_ok tv n L \<Longrightarrow> ?thesis"
    using FinishTask_keys [of "ended H L a b" "as_uri a" "tj_result j \<and> b"]
    by (intro seq_ok_mono [of tv n L]) (simp_all add: job_end_Some)
qed

lemma transfer_grows:
  "set (ls_calls S) \<subseteq> set (ls_calls (sys_step T H S (ReqTransfer u b d as cb)))"
  "tv (al_tasks (ls_loader S)) \<subseteq>\<^sub>m tv (al_tasks (ls_loader (sys_step T H S (ReqTransfer u b d as cb))))"
  by (auto simp: TransferAssetsAsync_def Let_def tasks.map_laws map_le_def split: option.splits)

lemma transfer_seq_cb:
  assumes "seq_ok tv n (ls_loader S)" "Suc n < 2 ^ 32"
  shows "seq_ok tv (Suc n) (ls_loader (sys_step T H S (ReqTransfer u b d as cb)))"
    and "keeps_cb tv (sys_step T H S (ReqTransfer u b d as cb)) cb"
proof -
  let ?L = "ls_loader S" and ?S = "sys_step T H S (ReqTransfer u b d as cb)"
  let ?t = "\<lparr>tt_downloadAssets = remdups (map as_uri (filter (\<lambda>a. \<not> IsDownloaded H ?L a) as)), tt_callback = Some cb\<rparr>"
  note f = seq_fresh [OF assms]
  have new: "tv (al_tasks (ls_loader ?S)) = (tv (al_tasks ?L))(al_taskSeq ?L + 1 \<mapsto> ?t)" "al_taskSeq (ls_loader ?S) = al_taskSeq ?L + 1"
    if "al_executors ?L"
    using that f(2) by (simp_all add: TransferAssetsAsync_def Let_def tasks.map_laws)
  show "seq_ok tv (Suc n) (ls_loader ?S)"
  proof (cases "al_executors ?L")
    case False
    with assms(1) show ?thesis by (simp add: TransferAssetsAsync_def seq_ok_def)
  next
    case True
    from assms(1) have "\<forall>k \<in> dom (tv (al_tasks ?L)). unat k \<le> Suc (unat (al_taskSeq ?L))" "unat (al_taskSeq ?L) \<le> n"
      by (simp_all add: seq_ok_def le_SucI)
    then show ?thesis unfolding seq_ok_def new [OF True] f(1) by (simp add: f(1) dom_fun_upd)
  qed
  show "keeps_cb tv ?S cb"
  proof (cases "al_executors ?L \<and> filter (\<lambda>a. \<not> IsDownloaded H ?L a) as \<noteq> []")
    case False
    then have "answered ?S cb"
      by (auto simp: TransferAssetsAsync_def Let_def answered_def simp del: filter_empty_conv)
    then show ?thesis by (simp add: keeps_cb_def)
  next
    case True
    then have "tt_downloadAssets ?t \<noteq> []" by simp
    with new True have "waiting tv (ls_loader ?S) cb"
      unfolding waiting_def by (intro exI [of _ "al_taskSeq ?L + 1"] exI [of _ ?t]) simp
    then show ?thesis by (simp add: keeps_cb_def)
  qed
qed

lemma run_answers:
  assumes "length rs < 2 ^ 32"
  shows "seq_ok tv (length rs) (ls_loader (run_steps (sys_step T H) (sys_new T H) rs)) \<and>
    (\<forall>cb \<in> passed rs. keeps_cb tv (run_steps (sys_step T H) (sys_new T H) rs) cb)"
  using assms
proof (induction rs rule: rev_induct)
  case Nil
  show ?case by (simp add: seq_ok_def sys_new_def loader_new_def tasks.map_laws)
next
  case (snoc r rs)
  let ?S = "run_steps (sys_step T H) (sys_new T H) rs"
  have IH: "seq_ok tv (length rs) (ls_loader ?S)" "\<And>cb. cb \<in> passed rs \<Longrightarrow> keeps_cb tv ?S cb" and len: "Suc (length rs) < 2 ^ 32"
    using snoc by auto
  have "seq_ok tv (Suc (length rs)) (ls_loader (sys_step T H ?S r)) \<and>
    (\<forall>cb \<in> passed (rs @ [r]). keeps_cb tv (sys_step T H ?S r) cb)"
  proof (cases r)
    case (ReqPool b)
    then show ?thesis using IH by (auto simp: SetThreadPool_def seq_ok_def keeps_cb_def answered_def waiting_def)
  next
    case (ReqTransfer u b d as cb)
    then show ?thesis
      using IH transfer_seq_cb [OF IH(1) len] keeps_cb_mono [OF IH(2) transfer_grows] by (auto simp del: sys_step.simps)
  next
    case (ReqBegin i)
    then show ?thesis using IH job_begin_seq [OF IH(1)]
      by (auto simp: with_job_def split_def seq_ok_mono intro: job_begin_cb [unfolded with_job_def split_def])
  next
    case (ReqEnd i b)
    then show ?thesis using IH job_end_seq [OF IH(1)]
      by (auto simp: with_job_def split_def seq_ok_mono intro: job_end_cb [unfolded with_job_def split_def])
  qed
  then show ?case by (simp add: run_steps_append)
qed

end

text \<open>What the jobs still have to do; each step of a job that is not over makes it less.\<close>

definition job_work :: "transfer_job \<Rightarrow> nat" where
  "job_work j = 2 * length (tj_assets j) + (case tj_current j of None \<Rightarrow> 0 | Some a \<Rightarrow> 1)"

definition work :: "('t, 'h) loader_sys \<Rightarrow> nat" where
  "work S = sum_list (map job_work (ls_jobs S))"

lemma sum_list_update_less:
  "i < length js \<Longrightarrow> f j < f (js ! i) \<Longrightarrow> sum_list (map f (js[i := j])) < (sum_list (map f js) :: nat)"
  by (induction js arbitrary: i) (auto split: nat.splits simp: less_Suc_eq_0_disj)

lemma job_begin_work:
  "tj_current j = None \<Longrightarrow> tj_assets j \<noteq> [] \<Longrightarrow> job_work (snd (snd (job_begin T H L j))) < job_work j"
  by (auto simp: job_begin_def job_work_def Let_def split_def neq_Nil_conv)

lemma job_end_work: "tj_current j = Some a \<Longrightarrow> job_work (snd (snd (job_end T H L j b))) < job_work j"
  by (simp add: job_end_Some job_work_def)

lemma step_work:
  assumes "i < length (ls_jobs S)"
  shows "tj_current (ls_jobs S ! i) = None \<Longrightarrow> tj_assets (ls_jobs S ! i) \<noteq> [] \<Longrightarrow> work (sys_step T H S (ReqBegin i)) < work S"
    and "tj_current (ls_jobs S ! i) \<noteq> None \<Longrightarrow> work (sys_step T H S (ReqEnd i b)) < work S"
  using assms by (auto simp: work_def with_job_def split_def intro!: sum_list_update_less job_begin_work job_end_work)

lemma work_left:
  assumes "work S \<noteq> 0"
  shows "\<exists>r. work (sys_step T H S r) < work S \<and> passed [r] = {}"
proof -
  from assms obtain j where "j \<in> set (ls_jobs S)" "job_work j \<noteq> 0" by (auto simp: work_def)
  then obtain i where i: "i < length (ls_jobs S)" "job_work (ls_jobs S ! i) \<noteq> 0" by (metis in_set_conv_nth)
  show ?thesis
  proof (cases "tj_current (ls_jobs S ! i)")
    case None
    with i have "tj_assets (ls_jobs S ! i) \<noteq> []" by (auto simp: job_work_def)
    with step_work(1) [OF i(1) None] show ?thesis by (intro exI [of _ "ReqBegin i"]) simp
  next
    case (Some a)
    then show ?thesis using step_work(2) [OF i(1), of T H True] by (intro exI [of _ "ReqEnd i True"]) simp
  qed
qed

lemma idle_answered:
  assumes "sys_inv tv hv S" "work S = 0" "keeps_cb tv S cb" shows "answered S cb"
proof (rule ccontr)
  assume "\<not> answered S cb"
  with assms(3) obtain seq t u where t: "tv (al_tasks (ls_loader S)) seq = Some t" "u \<in> set (tt_downloadAssets t)"
    by (fastforce simp: keeps_cb_def waiting_def neq_Nil_conv)
  have "job_uris j = {}" if "j \<in> set (ls_jobs S)" for j
    using assms(2) that by (auto simp: work_def job_work_def job_uris_def split: option.splits)
  then have "\<Union> (job_uris ` set (ls_jobs S)) = {}" by blast
  with waits_okD [of tv "ls_loader S" "ls_jobs S" seq t] t assms(1) show False by (auto simp: sys_inv_def)
qed

text \<open>
  C5: Every request for a transfer is answered. Whatever was requested, however the jobs interleave
  and whichever transfers fail: once the jobs have nothing left to do, the callback of every request
  has been called. (The request counter has 32 bits; the claim is for runs shorter than that.)
\<close>
theorem transfers_answered:
  assumes "cmap_full_ok T tv" and "cmap_full_ok H hv"
    and "length rs < 2 ^ 32" and "work (run_steps (sys_step T H) (sys_new T H) rs) = 0" and "cb \<in> passed rs"
  shows "\<exists>r. (cb, r) \<in> set (ls_calls (run_steps (sys_step T H) (sys_new T H) rs))"
proof -
  have l: "loader_maps T tv H hv" using assms by (simp add: loader_maps_def concurrent_map_def)
  show ?thesis
    using idle_answered [OF loader_maps.run_inv [OF l] assms(4)] loader_maps.run_answers [OF l assms(3)] assms(5)
    by (auto simp: answered_def)
qed

definition photo :: Asset where "photo = Asset_new\<lparr>as_uri := ''p'', as_hash := ''1''\<rparr>"
definition film :: Asset where "film = Asset_new\<lparr>as_uri := ''f'', as_hash := ''1''\<rparr>"

text \<open>Runs over plain maps, for concrete inputs.\<close>

definition plain_run ::
    "loader_req list \<Rightarrow> ((u32 \<times> TransferTask) list, (string \<times> string) list) loader_sys" where
  "plain_run rs = run_steps (sys_step alist_cmap alist_cmap) (sys_new alist_cmap alist_cmap) rs"

theorem transfers_answered_witness:
  "\<exists>r. (7, r) \<in> set (ls_calls (plain_run [ReqPool True, ReqTransfer 100 ''app'' ''dev'' [photo] 7, ReqBegin 0, ReqEnd 0 True]))"
proof -
  let ?rs = "[ReqPool True, ReqTransfer 100 ''app'' ''dev'' [photo] 7, ReqBegin 0, ReqEnd 0 True]"
  have "work (plain_run ?rs) = 0" by code_simp
  then show ?thesis using transfers_answered [OF alist_cmap_ok alist_cmap_ok, of ?rs 7] by (simp add: plain_run_def)
qed



subsection \<open>Answers that are wrong\<close>

text \<open>
  A request whose assets are all there already is answered at once, but its task is stored all the
  same; the next asset that any job finishes answers it a second time, with that job's result.
\<close>
theorem downloaded_request_answered_twice:
  assumes "cmap_full_ok T tv"
    and "al_executors L" and "\<forall>a \<in> set assets. IsDownloaded H L a" and "tv (al_tasks L) (al_taskSeq L + 1) = None"
    and "TransferAssetsAsync T H L u b d assets cb = (L', calls, j)"
  shows "calls = [(cb, True)] \<and> (cb, r) \<in> set (snd (FinishTask T L' uri r))"
proof -
  have m: "concurrent_map T tv" using assms(1) by (simp add: concurrent_map_def)
  let ?t = "\<lparr>tt_downloadAssets = [], tt_callback = Some cb\<rparr>"
  have "filter (\<lambda>a. \<not> IsDownloaded H L a) assets = []" using assms(3) by simp
  with assms(2,5) have c: "calls = [(cb, True)]" and l: "al_tasks L' = snd (cm_ComputeIfAbsent T (al_tasks L) (al_taskSeq L + 1) ?t)"
    by (auto simp: TransferAssetsAsync_def Let_def)
  then have "tv (al_tasks L') (al_taskSeq L + 1) = Some ?t"
    by (simp add: concurrent_map.view_ComputeIfAbsent [OF m] assms(4))
  with c show ?thesis
    by (force simp: FinishTask_def Let_def task_done_def image_iff concurrent_map.set_entries [OF m] concurrent_map.view_replace [OF m])
qed

theorem downloaded_request_answered_twice_witness:
  "let L = loader_new alist_cmap alist_cmap\<lparr>al_executors := True\<rparr>
   in (7, False) \<in> set (snd (FinishTask alist_cmap (fst (TransferAssetsAsync alist_cmap alist_cmap L 100 ''app'' ''dev'' [] 7)) ''x'' False))"
  using downloaded_request_answered_twice [OF alist_cmap_ok, of "loader_new alist_cmap alist_cmap\<lparr>al_executors := True\<rparr>" "[]" alist_cmap
      100 "''app''" "''dev''" 7 _ _ _ False "''x''"]
  by (cases "TransferAssetsAsync alist_cmap alist_cmap (loader_new alist_cmap alist_cmap\<lparr>al_executors := True\<rparr>) 100 ''app'' ''dev'' [] 7")
    (simp add: loader_new_def alist_cmap_def)

text \<open>
  The result passed is the result of the job that handled the last missing asset, over all assets of
  that job so far: a request may be told of success although its first asset failed in another job,
  and of failure although its only asset was transferred.
\<close>

lemma success_despite_failure:
  "ls_calls (plain_run
     [ReqPool True, ReqTransfer 100 ''app'' ''dev'' [photo] 1, ReqBegin 0, ReqTransfer 100 ''app'' ''dev'' [photo, film] 2,
      ReqBegin 1, ReqEnd 0 False, ReqBegin 1, ReqEnd 1 True]) = [(1, False), (2, True)]"
  by code_simp

lemma failure_despite_success:
  "ls_calls (plain_run
     [ReqPool True, ReqTransfer 100 ''app'' ''dev'' [photo, film] 1, ReqTransfer 100 ''app'' ''dev'' [film] 2,
      ReqBegin 0, ReqEnd 0 False, ReqBegin 0, ReqEnd 0 True]) = [(1, False), (2, False)]"
  by code_simp

end
