(* ===== verification/User_Access.thy ===== *)
theory User_Access
  imports Meta_Codec Concurrent_Map
begin

text \<open>
  Users of this and of other devices (service/kvdb/user_delegate.cpp), the capabilities of other
  devices (app/src/session_manager/upgrade_manager.cpp) and the decision whether two users may
  exchange data (service/kvdb/auth_delegate.cpp).

  Users and capabilities are caches in front of the metadata store: what is not in the map is loaded.
  The metadata store, the account service and the device manager are answers of the environment
  \<open>access_env\<close>; \<open>D\<close> and \<open>K\<close> are the concurrent maps of users and of capabilities.
\<close>

subsection \<open>Environment\<close>

record AccessCaller =
  cr_accountId :: string
  cr_bundleName :: string
  cr_networkId :: string
  cr_userId :: u32

record AccessCallee =
  ce_accountId :: string
  ce_networkId :: string
  ce_userId :: u32

record AclParams =
  acl_accCaller :: AccessCaller
  acl_accCallee :: AccessCallee
  acl_authType :: u32

definition AclParams_new :: AclParams where
  "AclParams_new = \<lparr>acl_accCaller = \<lparr>cr_accountId = [], cr_bundleName = [], cr_networkId = [], cr_userId = 0\<rparr>,
     acl_accCallee = \<lparr>ce_accountId = [], ce_networkId = [], ce_userId = 0\<rparr>, acl_authType = 0\<rparr>"

record access_env =
  en_localUuid :: string
  en_loadUsers :: "string \<Rightarrow> UserMetaData option"
  en_saveUsers :: "string \<Rightarrow> UserMetaData \<Rightarrow> bool"
  en_loadCap :: "string \<Rightarrow> CapMetaData option"
  en_saveCap :: "string \<Rightarrow> CapMetaData \<Rightarrow> bool"
  en_QueryUsers :: "(u32 list) option"
  en_IsSameAccount :: "AccessCaller \<Rightarrow> AccessCallee \<Rightarrow> bool"
  en_CheckAccessControl :: "AccessCaller \<Rightarrow> AccessCallee \<Rightarrow> bool"
  en_AUTH_DEFAULT :: u32
  en_AUTH_IDENTICAL :: u32

abbreviation (input) SYSTEM_USER :: u32 where "SYSTEM_USER \<equiv> 0"

datatype meta_flag = META_INSERT | META_UPDATE | META_DELETE | META_OTHER

subsection \<open>Users of a device\<close>

text \<open>A \<open>std::map\<close> from users to whether they are active, in the order of the keys.\<close>

type_synonym user_map = "(u32 \<times> bool) list"
type_synonym 'd users_ops = "(string, user_map, 'd) cmap"

fun put_user :: "u32 \<Rightarrow> bool \<Rightarrow> user_map \<Rightarrow> user_map" where
  "put_user k v [] = [(k, v)]"
| "put_user k v ((k', v') # users) =
     (if k = k' then (k, v) # users
      else if sint k < sint k' then (k, v) # (k', v') # users
      else (k', v') # put_user k v users)"

definition put_users :: "UserStatus list \<Rightarrow> user_map \<Rightarrow> user_map" where
  "put_users us users = fold (\<lambda>user users. put_user (ust_id user) (ust_isActive user) users) us users"

definition status_of :: "user_map \<Rightarrow> UserStatus list" where
  "status_of users = map (\<lambda>(key, value). \<lparr>ust_id = key, ust_isActive = value\<rparr>) users"

text \<open>The part of the two readers that fills an empty entry from the metadata.\<close>

definition filled :: "access_env \<Rightarrow> string \<Rightarrow> user_map option \<Rightarrow> user_map" where
  "filled E deviceId entry =
     (let users = (case entry of None \<Rightarrow> [] | Some users \<Rightarrow> users)
      in if users = []
         then put_users (case en_loadUsers E (UserMetaRow_GetKeyFor deviceId) of None \<Rightarrow> [] | Some md \<Rightarrow> umd_users md) []
         else users)"

definition keep_filled :: "user_map \<Rightarrow> user_map option" where
  "keep_filled users = (if users = [] then None else Some users)"

definition GetUsers :: "'d users_ops \<Rightarrow> access_env \<Rightarrow> 'd \<Rightarrow> string \<Rightarrow> UserStatus list \<times> 'd" where
  "GetUsers D E st deviceId =
     (status_of (filled E deviceId (cm_Find D st deviceId)),
      cm_Compute D st deviceId (\<lambda>entry. keep_filled (filled E deviceId entry)))"

definition GetLocalUserStatus :: "'d users_ops \<Rightarrow> access_env \<Rightarrow> 'd \<Rightarrow> UserStatus list \<times> 'd" where
  "GetLocalUserStatus D E st = (if en_localUuid E = [] then ([], st) else GetUsers D E st (en_localUuid E))"

definition GetLocalUsers :: "'d users_ops \<Rightarrow> access_env \<Rightarrow> 'd \<Rightarrow> string set \<times> 'd" where
  "GetLocalUsers D E st =
     (if en_localUuid E = [] then ({}, st)
      else (set (map (\<lambda>(user, active). to_string (sint user)) (filled E (en_localUuid E) (cm_Find D st (en_localUuid E)))),
            cm_Compute D st (en_localUuid E) (\<lambda>entry. keep_filled (filled E (en_localUuid E) entry))))"

definition GetRemoteUserStatus :: "'d users_ops \<Rightarrow> access_env \<Rightarrow> 'd \<Rightarrow> string \<Rightarrow> UserStatus list \<times> 'd" where
  "GetRemoteUserStatus D E st deviceId = (if deviceId = [] then ([], st) else GetUsers D E st deviceId)"

definition DeleteUsers :: "'d users_ops \<Rightarrow> 'd \<Rightarrow> string \<Rightarrow> 'd" where
  "DeleteUsers D st deviceId = cm_Erase D st deviceId"

definition UpdateUsers :: "'d users_ops \<Rightarrow> 'd \<Rightarrow> string \<Rightarrow> UserStatus list \<Rightarrow> 'd" where
  "UpdateUsers D st deviceId userStatus = cm_Compute D st deviceId (\<lambda>entry. Some (put_users userStatus []))"

definition InitLocalUserMeta :: "'d users_ops \<Rightarrow> access_env \<Rightarrow> 'd \<Rightarrow> bool \<times> 'd \<times> (string \<times> UserMetaData) option" where
  "InitLocalUserMeta D E st =
     (case en_QueryUsers E of
        None \<Rightarrow> (False, st, None)
      | Some users \<Rightarrow>
          if users = [] then (False, st, None)
          else
            let userStatus = \<lparr>ust_id = 0, ust_isActive = True\<rparr> # map (\<lambda>user. \<lparr>ust_id = user, ust_isActive = True\<rparr>) users;
                st = UpdateUsers D st (en_localUuid E) userStatus;
                md = \<lparr>umd_deviceId = en_localUuid E,
                      umd_users = (case cm_Find D st (en_localUuid E) of None \<Rightarrow> [] | Some users \<Rightarrow> status_of users)\<rparr>;
                key = UserMetaRow_GetKeyFor (umd_deviceId md)
            in (en_saveUsers E key md, st, Some (key, md)))"

text \<open>The observer of user metadata.\<close>

definition OnUserMeta ::
    "'d users_ops \<Rightarrow> json_text \<Rightarrow> access_env \<Rightarrow> 'd \<Rightarrow> string \<Rightarrow> string \<Rightarrow> meta_flag \<Rightarrow> bool \<times> 'd" where
  "OnUserMeta D J E st key val flag =
     (let metaData = (if val = [] then (case en_loadUsers E key of None \<Rightarrow> UserMetaData_new | Some md \<Rightarrow> md)
                      else snd (Unmarshall_static J UserMetaData_Unmarshal val UserMetaData_new))
      in if umd_deviceId metaData = en_localUuid E then (False, st)
         else case flag of
           META_INSERT \<Rightarrow> (True, UpdateUsers D st (umd_deviceId metaData) (umd_users metaData))
         | META_UPDATE \<Rightarrow> (True, UpdateUsers D st (umd_deviceId metaData) (umd_users metaData))
         | META_DELETE \<Rightarrow> (True, DeleteUsers D st (umd_deviceId metaData))
         | META_OTHER \<Rightarrow> (True, st))"

subsection \<open>Capabilities of a device\<close>

type_synonym 'k caps_ops = "(string, CapMetaData, 'k) cmap"

abbreviation (input) CAP_CURRENT_VERSION :: u32 where "CAP_CURRENT_VERSION \<equiv> 3"
abbreviation (input) CAP_INVALID_VERSION :: u32 where "CAP_INVALID_VERSION \<equiv> - 1"
abbreviation (input) CAP_ACCOUNT_VERSION :: u32 where "CAP_ACCOUNT_VERSION \<equiv> 2"
abbreviation (input) CAP_UDMF_AND_OBJECT_VERSION :: u32 where "CAP_UDMF_AND_OBJECT_VERSION \<equiv> 3"

definition OnCapMeta ::
    "'k caps_ops \<Rightarrow> json_text \<Rightarrow> access_env \<Rightarrow> 'k \<Rightarrow> string \<Rightarrow> string \<Rightarrow> meta_flag \<Rightarrow> bool \<times> 'k" where
  "OnCapMeta K J E caps key val flag =
     (let capMeta = (if val = [] then (case en_loadCap E key of None \<Rightarrow> CapMetaData_new | Some c \<Rightarrow> c)
                     else snd (Unmarshall_static J CapMetaData_Unmarshal val CapMetaData_new))
      in case CapMetaRow_GetDeviceId key of
           None \<Rightarrow> (False, caps)
         | Some deviceId \<Rightarrow>
             if deviceId = [] then (False, caps)
             else if deviceId = en_localUuid E then (True, caps)
             else
               let capMeta = capMeta\<lparr>cap_deviceId := if cap_deviceId capMeta = [] then deviceId else cap_deviceId capMeta\<rparr>
               in case flag of
                    META_INSERT \<Rightarrow> (True, cm_InsertOrAssign K caps (cap_deviceId capMeta) capMeta)
                  | META_UPDATE \<Rightarrow> (True, cm_InsertOrAssign K caps (cap_deviceId capMeta) capMeta)
                  | META_DELETE \<Rightarrow> (True, cm_Erase K caps (cap_deviceId capMeta))
                  | META_OTHER \<Rightarrow> (True, caps))"

definition GetCapability :: "'k caps_ops \<Rightarrow> access_env \<Rightarrow> 'k \<Rightarrow> string \<Rightarrow> bool \<times> CapMetaData \<times> 'k" where
  "GetCapability K E caps deviceId =
     (case cm_Find K caps deviceId of
        Some c \<Rightarrow> (True, c, caps)
      | None \<Rightarrow>
          (case en_loadCap E (CapMetaRow_GetKeyFor deviceId) of
             None \<Rightarrow> (False, CapMetaData_new, caps)
           | Some c \<Rightarrow> (True, c, snd (cm_Insert K caps deviceId c))))"

definition InitLocalCapability :: "'k caps_ops \<Rightarrow> access_env \<Rightarrow> 'k \<Rightarrow> bool \<times> 'k" where
  "InitLocalCapability K E caps =
     (let capMetaData = CapMetaData_new\<lparr>cap_version := CAP_CURRENT_VERSION, cap_deviceId := en_localUuid E\<rparr>
      in if en_saveCap E (CapMetaRow_GetKeyFor (en_localUuid E)) capMetaData
         then (True, snd (cm_Insert K caps (en_localUuid E) capMetaData))
         else (False, caps))"

subsection \<open>Access\<close>

definition IsSystemUser :: "u32 \<Rightarrow> u32 \<Rightarrow> bool" where
  "IsSystemUser localUserId peerUserId \<longleftrightarrow> localUserId = SYSTEM_USER \<and> peerUserId = SYSTEM_USER"

definition IsUserActive :: "UserStatus list \<Rightarrow> u32 \<Rightarrow> bool" where
  "IsUserActive users userId \<longleftrightarrow> list_ex (\<lambda>user. ust_id user = userId \<and> ust_isActive user) users"

definition CheckUsers :: "'d users_ops \<Rightarrow> access_env \<Rightarrow> 'd \<Rightarrow> u32 \<Rightarrow> u32 \<Rightarrow> string \<Rightarrow> bool \<times> 'd" where
  "CheckUsers D E st localUserId peerUserId peerDeviceId =
     (if localUserId = SYSTEM_USER then (peerUserId = SYSTEM_USER, st)
      else
        let (localUsers, st) = GetLocalUserStatus D E st;
            (peerUsers, st) = GetRemoteUserStatus D E st peerDeviceId
        in (peerUserId \<noteq> SYSTEM_USER \<and> IsUserActive localUsers localUserId \<and> IsUserActive peerUsers peerUserId, st))"

text \<open>The answer is whether access is permitted and whether both users have the same account.\<close>

definition CheckAccess ::
    "'d users_ops \<Rightarrow> access_env \<Rightarrow> 'd \<Rightarrow> u32 \<Rightarrow> u32 \<Rightarrow> string \<Rightarrow> AclParams \<Rightarrow> (bool \<times> bool) \<times> 'd" where
  "CheckAccess D E st localUserId peerUserId peerDeviceId aclParams =
     (if IsSystemUser localUserId peerUserId then ((True, False), st)
      else
        let (ok, st) = CheckUsers D E st localUserId peerUserId peerDeviceId
        in if \<not> ok then ((False, False), st)
           else if acl_authType aclParams = en_AUTH_DEFAULT E then
             (if en_IsSameAccount E (acl_accCaller aclParams) (acl_accCallee aclParams) then ((True, True), st)
              else if en_CheckAccessControl E (acl_accCaller aclParams) (acl_accCallee aclParams) then ((True, False), st)
              else ((False, False), st))
           else if acl_authType aclParams = en_AUTH_IDENTICAL E then
             (let same = en_IsSameAccount E (acl_accCaller aclParams) (acl_accCallee aclParams) in ((same, same), st))
           else ((False, False), st))"

subsection \<open>The map of users\<close>

definition users_sorted :: "user_map \<Rightarrow> bool" where
  "users_sorted users \<longleftrightarrow> sorted_wrt (\<lambda>a b. sint (fst a) < sint (fst b)) users"

lemma put_user_keys: "fst ` set (put_user k v users) = insert k (fst ` set users)"
  by (induction k v users rule: put_user.induct) auto

lemma put_user_sorted: "users_sorted users \<Longrightarrow> users_sorted (put_user k v users)"
proof (induction k v users rule: put_user.induct)
  case (2 k v k' v' users)
  have tail: "users_sorted users" and low: "\<forall>x \<in> fst ` set users. sint k' < sint x"
    using "2.prems" by (auto simp: users_sorted_def)
  consider "k = k'" | "sint k < sint k'" | "k \<noteq> k'" "sint k' < sint k"
    by (metis linorder_neqE signed_word_eqI)
  then show ?case
  proof cases
    case 3
    have "\<forall>x \<in> fst ` set (put_user k v users). sint k' < sint x" using low 3 by (simp add: put_user_keys)
    with 3 "2.IH" tail show ?thesis by (auto simp: users_sorted_def)
  qed (use "2.prems" low in \<open>auto simp: users_sorted_def\<close>)
qed (simp add: users_sorted_def)

lemma put_user_map: "map_of (put_user k v users) = (map_of users)(k \<mapsto> v)"
  by (induction k v users rule: put_user.induct) (auto simp: fun_eq_iff)

lemma put_users_sorted: "users_sorted users \<Longrightarrow> users_sorted (put_users us users)"
  unfolding put_users_def by (induction us arbitrary: users) (auto intro: put_user_sorted)

lemma put_users_map: "map_of (put_users us users) = map_of users ++ map_of (rev (map (\<lambda>u. (ust_id u, ust_isActive u)) us))"
  unfolding put_users_def
  by (induction us arbitrary: users) (auto simp: put_user_map map_add_def fun_eq_iff split: option.splits)

lemma put_users_Nil [simp]: "put_users [] users = users"
  by (simp add: put_users_def)

lemma sorted_distinct: "users_sorted users \<Longrightarrow> distinct (map fst users)"
  unfolding users_sorted_def by (induction users) fastforce+

subsection \<open>The cache of users is transparent\<close>

text \<open>
  What the service takes the users of a device to be: the entry of the map, or the metadata when
  there is none. The abstract service has just this function as its state.
\<close>

definition users_view :: "access_env \<Rightarrow> ('d \<Rightarrow> string \<rightharpoonup> user_map) \<Rightarrow> 'd \<Rightarrow> string \<Rightarrow> user_map" where
  "users_view E dv st = (\<lambda>deviceId. filled E deviceId (dv st deviceId))"

definition stored_users :: "access_env \<Rightarrow> string \<Rightarrow> user_map" where
  "stored_users E deviceId = filled E deviceId None"

lemma filled_keep [simp]: "filled E d (keep_filled (filled E d entry)) = filled E d entry"
  by (simp add: filled_def keep_filled_def Let_def split: option.split)

lemma filled_Some [simp]: "users \<noteq> [] \<Longrightarrow> filled E d (Some users) = users"
  by (simp add: filled_def)

lemma filled_empty: "filled E d (Some []) = stored_users E d"
  by (simp add: filled_def stored_users_def)

locale user_maps = users: concurrent_map D dv for D :: "'d users_ops" and dv
begin

lemma GetUsers_view: "fst (GetUsers D E st d) = status_of (users_view E dv st d)"
  by (simp add: GetUsers_def users_view_def users.Find)

lemma GetUsers_keeps: "users_view E dv (snd (GetUsers D E st d)) = users_view E dv st"
  by (simp add: GetUsers_def users_view_def fun_eq_iff users.map_laws)

lemma GetLocalUserStatus_view:
  "fst (GetLocalUserStatus D E st) = (if en_localUuid E = [] then [] else status_of (users_view E dv st (en_localUuid E)))"
  "users_view E dv (snd (GetLocalUserStatus D E st)) = users_view E dv st"
  by (simp_all add: GetLocalUserStatus_def GetUsers_view GetUsers_keeps)

lemma GetRemoteUserStatus_view:
  "fst (GetRemoteUserStatus D E st d) = (if d = [] then [] else status_of (users_view E dv st d))"
  "users_view E dv (snd (GetRemoteUserStatus D E st d)) = users_view E dv st"
  by (simp_all add: GetRemoteUserStatus_def GetUsers_view GetUsers_keeps)

lemma GetLocalUsers_view:
  "fst (GetLocalUsers D E st) = (if en_localUuid E = [] then {} else (\<lambda>(u, a). to_string (sint u)) ` set (users_view E dv st (en_localUuid E)))"
  "users_view E dv (snd (GetLocalUsers D E st)) = users_view E dv st"
  by (simp_all add: GetLocalUsers_def users_view_def users.map_laws fun_eq_iff)

lemma UpdateUsers_view:
  "users_view E dv (UpdateUsers D st d us) = (users_view E dv st)(d := (if us = [] then stored_users E d else put_users us []))"
proof -
  have "put_users us [] \<noteq> []" if "us \<noteq> []"
    using put_users_map [of us "[]"] that by (cases us rule: rev_cases) (auto simp: fun_eq_iff split: if_splits)
  then show ?thesis by (auto simp: UpdateUsers_def users_view_def fun_eq_iff users.map_laws filled_empty)
qed

lemma DeleteUsers_view: "users_view E dv (DeleteUsers D st d) = (users_view E dv st)(d := stored_users E d)"
  by (simp add: DeleteUsers_def users_view_def fun_eq_iff users.map_laws stored_users_def)

end

interpretation plain_users: user_maps alist_cmap map_of
  by unfold_locales

text \<open>Requests to the service, and the abstract service that has no cache.\<close>

datatype users_req = UReqGet string | UReqUpdate string "UserStatus list" | UReqDelete string

fun users_step :: "'d users_ops \<Rightarrow> access_env \<Rightarrow> 'd \<Rightarrow> users_req \<Rightarrow> UserStatus list \<times> 'd" where
  "users_step D E st (UReqGet d) = GetRemoteUserStatus D E st d"
| "users_step D E st (UReqUpdate d us) = ([], UpdateUsers D st d us)"
| "users_step D E st (UReqDelete d) = ([], DeleteUsers D st d)"

fun users_spec :: "access_env \<Rightarrow> (string \<Rightarrow> user_map) \<Rightarrow> users_req \<Rightarrow> UserStatus list \<times> (string \<Rightarrow> user_map)" where
  "users_spec E a (UReqGet d) = (if d = [] then [] else status_of (a d), a)"
| "users_spec E a (UReqUpdate d us) = ([], a(d := (if us = [] then stored_users E d else put_users us [])))"
| "users_spec E a (UReqDelete d) = ([], a(d := stored_users E d))"

fun outputs :: "('s \<Rightarrow> 'r \<Rightarrow> 'o \<times> 's) \<Rightarrow> 's \<Rightarrow> 'r list \<Rightarrow> 'o list" where
  "outputs step s [] = []"
| "outputs step s (r # rs) = fst (step s r) # outputs step (snd (step s r)) rs"

lemma users_simulation:
  assumes "user_maps D dv"
  shows "fst (users_step D E st r) = fst (users_spec E (users_view E dv st) r) \<and>
    users_view E dv (snd (users_step D E st r)) = snd (users_spec E (users_view E dv st) r)"
  using assms
  by (cases r) (auto simp: user_maps.GetRemoteUserStatus_view user_maps.UpdateUsers_view user_maps.DeleteUsers_view)


definition env0 :: access_env where
  "env0 = \<lparr>en_localUuid = ''me'', en_loadUsers = (\<lambda>k. Some \<lparr>umd_deviceId = ''d'', umd_users = [\<lparr>ust_id = 100, ust_isActive = True\<rparr>]\<rparr>),
     en_saveUsers = (\<lambda>k m. True), en_loadCap = (\<lambda>k. Some \<lparr>cap_version = 3, cap_deviceId = ''d''\<rparr>), en_saveCap = (\<lambda>k m. True), en_QueryUsers = Some [100],
     en_IsSameAccount = (\<lambda>a b. True), en_CheckAccessControl = (\<lambda>a b. True), en_AUTH_DEFAULT = 0, en_AUTH_IDENTICAL = 1\<rparr>"


subsection \<open>Who may talk to whom\<close>

lemma IsUserActive_status:
  assumes "users_sorted users" shows "IsUserActive (status_of users) u \<longleftrightarrow> map_of users u = Some True"
proof -
  have "IsUserActive (status_of users) u \<longleftrightarrow> (u, True) \<in> set users"
    by (force simp: IsUserActive_def status_of_def list_ex_iff)
  also have "\<dots> \<longleftrightarrow> map_of users u = Some True" using sorted_distinct [OF assms] by (simp add: map_of_eq_Some_iff)
  finally show ?thesis .
qed

definition active_on :: "access_env \<Rightarrow> (string \<Rightarrow> user_map) \<Rightarrow> string \<Rightarrow> u32 \<Rightarrow> bool" where
  "active_on E a d u \<longleftrightarrow> d \<noteq> [] \<and> IsUserActive (status_of (a d)) u"

definition access_spec :: "access_env \<Rightarrow> (string \<Rightarrow> user_map) \<Rightarrow> u32 \<Rightarrow> u32 \<Rightarrow> string \<Rightarrow> AclParams \<Rightarrow> bool" where
  "access_spec E a localUser peerUser peerDevice acl \<longleftrightarrow>
     (localUser = SYSTEM_USER \<and> peerUser = SYSTEM_USER) \<or>
     (localUser \<noteq> SYSTEM_USER \<and> peerUser \<noteq> SYSTEM_USER \<and>
      active_on E a (en_localUuid E) localUser \<and> active_on E a peerDevice peerUser \<and>
      (en_IsSameAccount E (acl_accCaller acl) (acl_accCallee acl) \<and> acl_authType acl \<in> {en_AUTH_DEFAULT E, en_AUTH_IDENTICAL E} \<or>
       en_CheckAccessControl E (acl_accCaller acl) (acl_accCallee acl) \<and> acl_authType acl = en_AUTH_DEFAULT E))"

lemma CheckUsers_view:
  assumes "user_maps D dv"
  shows "fst (CheckUsers D E st l p d) = (if l = 0 then p = 0 else p \<noteq> 0 \<and> active_on E (users_view E dv st) (en_localUuid E) l \<and> active_on E (users_view E dv st) d p)"
    and "users_view E dv (snd (CheckUsers D E st l p d)) = users_view E dv st"
  using assms
  by (auto simp: CheckUsers_def split_def Let_def active_on_def user_maps.GetRemoteUserStatus_view user_maps.GetLocalUserStatus_view IsUserActive_def)

text \<open>The decision as a formula over the users known, and no effect on them.\<close>

lemma CheckAccess_view:
  assumes "user_maps D dv"
  shows "fst (CheckAccess D E st l p d acl) =
      (access_spec E (users_view E dv st) l p d acl,
       access_spec E (users_view E dv st) l p d acl \<and> l \<noteq> 0 \<and> en_IsSameAccount E (acl_accCaller acl) (acl_accCallee acl))"
    and "users_view E dv (snd (CheckAccess D E st l p d acl)) = users_view E dv st"
  by (auto simp: CheckAccess_def IsSystemUser_def access_spec_def split_def Let_def CheckUsers_view [OF assms])

end
