(* ===== verification/Session_Manager.thy ===== *)
theory Session_Manager
  imports User_Access
begin

text \<open>
  Sessions between a user of this device and users of another one (app/src/session_manager/
  session_manager.cpp): which users of the peer a store is sent to, and whether data that came in is
  for a local user. The loaded store metadata, the account and the network identifiers are answers
  of the environment.
\<close>

subsection \<open>Sessions\<close>

record SessionPoint =
  sp_deviceId :: string
  sp_userId :: u32
  sp_appId :: string
  sp_storeId :: string
  sp_accountId :: string

record Session =
  ses_sourceDeviceId :: "string"
  ses_targetDeviceId :: "string"
  ses_sourceUserId :: "u32"
  ses_targetUserIds :: "u32 list"
  ses_appId :: "string"
  ses_storeId :: "string"
  ses_accountId :: "string"

definition Session_new :: Session where
  "Session_new = \<lparr>ses_sourceDeviceId = [], ses_targetDeviceId = [], ses_sourceUserId = 0, ses_targetUserIds = [], ses_appId = [], ses_storeId = [], ses_accountId = []\<rparr>"

definition Session_members :: "Session \<Rightarrow> (string \<times> json) list" where
  "Session_members m = [
     (''sourceDeviceId'', SetValue_string (ses_sourceDeviceId m)),
     (''targetDeviceId'', SetValue_string (ses_targetDeviceId m)),
     (''sourceUserId'', SetValue_u32 (ses_sourceUserId m)),
     (''targetUserIds'', SetValue_vector SetValue_u32 (ses_targetUserIds m)),
     (''appId'', SetValue_string (ses_appId m)),
     (''storeId'', SetValue_string (ses_storeId m)),
     (''accountId'', SetValue_string (ses_accountId m))]"

definition Session_Marshal :: "Session \<Rightarrow> json \<Rightarrow> json" where
  "Session_Marshal m node = json_puts (Session_members m) node"

definition Session_Unmarshal :: "json \<Rightarrow> Session \<Rightarrow> bool \<times> Session" where
  "Session_Unmarshal node m =
     (
      fst (GetValue_string node ''sourceDeviceId'' (ses_sourceDeviceId m)) \<and>
      fst (GetValue_string node ''targetDeviceId'' (ses_targetDeviceId m)) \<and>
      fst (GetValue_u32 node ''sourceUserId'' (ses_sourceUserId m)) \<and>
      fst (GetValue_vector GetValue_u32 0 node ''targetUserIds'' (ses_targetUserIds m)) \<and>
      fst (GetValue_string node ''appId'' (ses_appId m)) \<and>
      fst (GetValue_string node ''storeId'' (ses_storeId m)) \<and>
      fst (GetValue_string node ''accountId'' (ses_accountId m)),
      m\<lparr>ses_sourceDeviceId := snd (GetValue_string node ''sourceDeviceId'' (ses_sourceDeviceId m)),
        ses_targetDeviceId := snd (GetValue_string node ''targetDeviceId'' (ses_targetDeviceId m)),
        ses_sourceUserId := snd (GetValue_u32 node ''sourceUserId'' (ses_sourceUserId m)),
        ses_targetUserIds := snd (GetValue_vector GetValue_u32 0 node ''targetUserIds'' (ses_targetUserIds m)),
        ses_appId := snd (GetValue_string node ''appId'' (ses_appId m)),
        ses_storeId := snd (GetValue_string node ''storeId'' (ses_storeId m)),
        ses_accountId := snd (GetValue_string node ''accountId'' (ses_accountId m))\<rparr>)"

lemma session_json_read:
  assumes "holds_members node (Session_members m)"
  shows "Session_Unmarshal node old = (True, m)"
proof -
  have
    "GetValue_string node ''sourceDeviceId'' (ses_sourceDeviceId old) = (True, ses_sourceDeviceId m)" and
    "GetValue_string node ''targetDeviceId'' (ses_targetDeviceId old) = (True, ses_targetDeviceId m)" and
    "GetValue_u32 node ''sourceUserId'' (ses_sourceUserId old) = (True, ses_sourceUserId m)" and
    "GetValue_vector GetValue_u32 0 node ''targetUserIds'' (ses_targetUserIds old) = (True, ses_targetUserIds m)" and
    "GetValue_string node ''appId'' (ses_appId old) = (True, ses_appId m)" and
    "GetValue_string node ''storeId'' (ses_storeId old) = (True, ses_storeId m)" and
    "GetValue_string node ''accountId'' (ses_accountId old) = (True, ses_accountId m)"
    by (rule reads, rule assms, simp, simp add: Session_members_def)+
  then show ?thesis by (simp add: Session_Unmarshal_def)
qed

interpretation session_json: json_object Session_Marshal Session_Unmarshal
  by (rule json_object_by_members [OF Session_Marshal_def session_json_read]) (simp_all add: Session_members_def)

definition Session_IsValid :: "Session \<Rightarrow> bool" where
  "Session_IsValid s \<longleftrightarrow> ses_targetUserIds s \<noteq> []"

record session_env = access_env +
  en_loadStores :: "string \<Rightarrow> StoreMetaData list option"
  en_ToNetworkID :: "string \<Rightarrow> string"
  en_accountId :: string
  en_IsUserForeground :: "u32 \<Rightarrow> bool"

subsection \<open>Parameters of a decision\<close>

definition GetSendAuthParams :: "session_env \<Rightarrow> SessionPoint \<Rightarrow> string \<Rightarrow> AclParams option" where
  "GetSendAuthParams E loc targetDeviceId =
     (case en_loadStores E (GetPrefix_fields [sp_deviceId loc]) of
        None \<Rightarrow> None
      | Some metaData \<Rightarrow>
          (case find (\<lambda>storeMeta. sm_appId storeMeta = sp_appId loc \<and> sm_storeId storeMeta = sp_storeId loc) metaData of
             None \<Rightarrow> None
           | Some storeMeta \<Rightarrow>
               Some \<lparr>acl_accCaller = \<lparr>cr_accountId = sp_accountId loc, cr_bundleName = sm_bundleName storeMeta,
                       cr_networkId = en_ToNetworkID E (sp_deviceId loc), cr_userId = sp_userId loc\<rparr>,
                     acl_accCallee = \<lparr>ce_accountId = [], ce_networkId = en_ToNetworkID E targetDeviceId, ce_userId = 0\<rparr>,
                     acl_authType = sm_authType storeMeta\<rparr>))"

definition GetRecvAuthParams :: "session_env \<Rightarrow> SessionPoint \<Rightarrow> SessionPoint \<Rightarrow> bool \<Rightarrow> AclParams option" where
  "GetRecvAuthParams E loc peer accountFlag =
     (case en_loadStores E (GetPrefix_fields [sp_deviceId peer]) of
        None \<Rightarrow> None
      | Some metaData \<Rightarrow>
          (case find (\<lambda>storeMeta. sm_appId storeMeta = sp_appId loc) metaData of
             None \<Rightarrow> None
           | Some storeMeta \<Rightarrow>
               Some \<lparr>acl_accCaller = \<lparr>cr_accountId = en_accountId E, cr_bundleName = sm_bundleName storeMeta,
                       cr_networkId = en_ToNetworkID E (sp_deviceId loc), cr_userId = sp_userId loc\<rparr>,
                     acl_accCallee = \<lparr>ce_accountId = (if accountFlag then sp_accountId peer else en_accountId E),
                       ce_networkId = en_ToNetworkID E (sp_deviceId peer), ce_userId = sp_userId peer\<rparr>,
                     acl_authType = sm_authType storeMeta\<rparr>))"

definition with_callee :: "AclParams \<Rightarrow> u32 \<Rightarrow> AclParams" where
  "with_callee acl user = acl\<lparr>acl_accCallee := (acl_accCallee acl)\<lparr>ce_userId := user\<rparr>\<rparr>"

subsection \<open>Operations\<close>

text \<open>
  The loop over the users of the peer: those of the same account go into the session, the others
  are collected and come after them.
\<close>

fun session_users ::
    "'d users_ops \<Rightarrow> session_env \<Rightarrow> 'd \<Rightarrow> u32 \<Rightarrow> string \<Rightarrow> AclParams \<Rightarrow> UserStatus list \<Rightarrow> u32 list \<Rightarrow> u32 list \<Rightarrow> u32 list \<times> 'd" where
  "session_users D E st localUser targetDeviceId acl [] ids targetUsers = (ids @ targetUsers, st)"
| "session_users D E st localUser targetDeviceId acl (user # users) ids targetUsers =
     (case CheckAccess D (access_env.truncate E) st localUser (ust_id user) targetDeviceId (with_callee acl (ust_id user)) of
        ((isPermitted, isSameAccount), st) \<Rightarrow>
          if isPermitted \<and> ust_id user \<notin> set ids then
            (if isSameAccount then session_users D E st localUser targetDeviceId acl users (ids @ [ust_id user]) targetUsers
             else session_users D E st localUser targetDeviceId acl users ids (targetUsers @ [ust_id user]))
          else session_users D E st localUser targetDeviceId acl users ids targetUsers)"

definition GetSession :: "'d users_ops \<Rightarrow> session_env \<Rightarrow> 'd \<Rightarrow> SessionPoint \<Rightarrow> string \<Rightarrow> Session \<times> 'd" where
  "GetSession D E st loc targetDeviceId =
     (let session = \<lparr>ses_sourceDeviceId = sp_deviceId loc, ses_targetDeviceId = targetDeviceId, ses_sourceUserId = sp_userId loc,
            ses_targetUserIds = [], ses_appId = sp_appId loc, ses_storeId = sp_storeId loc, ses_accountId = sp_accountId loc\<rparr>;
          (users, st) = GetRemoteUserStatus D (access_env.truncate E) st targetDeviceId;
          ids = (if sp_userId loc = SYSTEM_USER then [SYSTEM_USER] else [])
      in case GetSendAuthParams E loc targetDeviceId of
           None \<Rightarrow> (session\<lparr>ses_targetUserIds := ids\<rparr>, st)
         | Some acl \<Rightarrow>
             (let (ids, st) = session_users D E st (sp_userId loc) targetDeviceId acl users ids []
              in (session\<lparr>ses_targetUserIds := ids\<rparr>, st)))"

definition CheckSession :: "'d users_ops \<Rightarrow> session_env \<Rightarrow> 'd \<Rightarrow> SessionPoint \<Rightarrow> SessionPoint \<Rightarrow> bool \<Rightarrow> bool \<times> 'd" where
  "CheckSession D E st loc peer accountFlag =
     (case GetRecvAuthParams E loc peer accountFlag of
        None \<Rightarrow> (False, st)
      | Some acl \<Rightarrow>
          (case CheckAccess D (access_env.truncate E) st (sp_userId loc) (sp_userId peer) (sp_deviceId peer) acl of
             ((isPermitted, isSameAccount), st) \<Rightarrow>
               (if isPermitted \<and> sp_userId loc \<noteq> SYSTEM_USER then en_IsUserForeground E (sp_userId loc) else isPermitted, st)))"

subsection \<open>Who a session reaches\<close>

definition may_send :: "session_env \<Rightarrow> (string \<Rightarrow> user_map) \<Rightarrow> u32 \<Rightarrow> string \<Rightarrow> AclParams \<Rightarrow> u32 \<Rightarrow> bool" where
  "may_send E a localUser dev acl u \<longleftrightarrow> access_spec (access_env.truncate E) a localUser u dev (with_callee acl u)"

definition same_account :: "session_env \<Rightarrow> u32 \<Rightarrow> AclParams \<Rightarrow> u32 \<Rightarrow> bool" where
  "same_account E localUser acl u \<longleftrightarrow>
     localUser \<noteq> 0 \<and> en_IsSameAccount E (acl_accCaller (with_callee acl u)) (acl_accCallee (with_callee acl u))"

lemma truncate_same [simp]: "en_IsSameAccount (access_env.truncate E) = en_IsSameAccount E"
  by (simp add: access_env.truncate_def)

lemma truncate_uuid [simp]: "en_localUuid (access_env.truncate E) = en_localUuid E"
  by (simp add: access_env.truncate_def)

lemma session_users_view:
  assumes "user_maps D dv" "distinct (map ust_id users)" "users_view (access_env.truncate E) dv st = a"
  shows "fst (session_users D E st l dev acl users ids others) =
      ids @ filter (\<lambda>u. may_send E a l dev acl u \<and> same_account E l acl u \<and> u \<notin> set ids) (map ust_id users) @
      others @ filter (\<lambda>u. may_send E a l dev acl u \<and> \<not> same_account E l acl u \<and> u \<notin> set ids) (map ust_id users)"
  using assms(2,3)
proof (induction users arbitrary: st ids others)
  case (Cons user users)
  let ?r = "CheckAccess D (access_env.truncate E) st l (ust_id user) dev (with_callee acl (ust_id user))"
  obtain p s st' where r: "?r = ((p, s), st')" by (metis prod.collapse)
  have p: "p = may_send E a l dev acl (ust_id user)" "p \<longrightarrow> s = same_account E l acl (ust_id user)"
    using CheckAccess_view(1) [OF assms(1), of "access_env.truncate E" st l "ust_id user" dev "with_callee acl (ust_id user)"] r Cons.prems(2)
    by (auto simp: may_send_def same_account_def)
  have v: "users_view (access_env.truncate E) dv st' = a"
    using CheckAccess_view(2) [OF assms(1), of "access_env.truncate E" st l "ust_id user" dev "with_callee acl (ust_id user)"] r Cons.prems(2) by simp
  have d: "distinct (map ust_id users)" using Cons.prems(1) by simp
  have same: "filter (\<lambda>u. Q u \<and> u \<notin> set (ids @ [ust_id user])) (map ust_id users) = filter (\<lambda>u. Q u \<and> u \<notin> set ids) (map ust_id users)" for Q
  proof (rule filter_cong [OF refl])
    fix x assume "x \<in> set (map ust_id users)"
    with Cons.prems(1) have "x \<noteq> ust_id user" by (metis distinct.simps(2) list.simps(9))
    then show "(Q x \<and> x \<notin> set (ids @ [ust_id user])) = (Q x \<and> x \<notin> set ids)" by simp
  qed
  note IH = Cons.IH [OF d v]
  show ?case
  proof (cases "p \<and> ust_id user \<notin> set ids")
    case False
    then show ?thesis using p by (auto simp: r IH)
  next
    case True
    then show ?thesis
      using p same [of "\<lambda>u. may_send E a l dev acl u \<and> same_account E l acl u"]
        same [of "\<lambda>u. may_send E a l dev acl u \<and> \<not> same_account E l acl u"]
      by (cases s) (simp_all add: r IH conj_assoc)
  qed
qed simp

lemma session_users_keeps:
  assumes "user_maps D dv"
  shows "users_view (access_env.truncate E) dv (snd (session_users D E st l dev acl users ids others)) = users_view (access_env.truncate E) dv st"
proof (induction users arbitrary: st ids others)
  case (Cons user users)
  then show ?case using CheckAccess_view(2) [OF assms, of "access_env.truncate E" st]
    by (auto simp: split_def)
qed simp

lemma sorted_wrt_all: "(\<And>x y. x \<in> set xs \<Longrightarrow> y \<in> set xs \<Longrightarrow> R x y) \<Longrightarrow> sorted_wrt R xs"
  by (induction xs) auto

lemma status_ids: "map ust_id (status_of users) = map fst users"
  by (induction users) (auto simp: status_of_def)

text \<open>
  The session of a store has as its targets exactly the known users of the peer that the sender may
  reach, each once, users of the same account first; the system user in front when the sender is
  one. A store no metadata is found for reaches nobody but the system user.
\<close>
theorem GetSession_targets:
  assumes "cmap_full_ok D dv" and "users_sorted (users_view (access_env.truncate E) dv st dev)"
    and "users_view (access_env.truncate E) dv st = a" and "dev \<noteq> []"
    and "GetSession D E st loc dev = (session, st')"
  shows "users_view (access_env.truncate E) dv st' = a \<and> distinct (ses_targetUserIds session) \<and>
    (case GetSendAuthParams E loc dev of
       None \<Rightarrow> set (ses_targetUserIds session) = (if sp_userId loc = 0 then {0} else {})
     | Some acl \<Rightarrow>
         set (ses_targetUserIds session) =
           (if sp_userId loc = 0 then {0} else {}) \<union> {u \<in> fst ` set (a dev). may_send E a (sp_userId loc) dev acl u} \<and>
         sorted_wrt (\<lambda>u v. same_account E (sp_userId loc) acl v \<longrightarrow> same_account E (sp_userId loc) acl u \<or> u = 0) (ses_targetUserIds session))"
proof -
  have m: "user_maps D dv" using assms(1) by (simp add: user_maps_def concurrent_map_def)
  let ?E = "access_env.truncate E" and ?ids0 = "if sp_userId loc = 0 then [0] else [] :: u32 list"
  obtain users st1 where u: "GetRemoteUserStatus D ?E st dev = (users, st1)" by (metis prod.collapse)
  have users: "users = status_of (a dev)" and v1: "users_view ?E dv st1 = a"
    using user_maps.GetRemoteUserStatus_view [OF m, of ?E st dev] u assms(3,4) by auto
  have d: "distinct (map ust_id users)"
    using sorted_distinct [OF assms(2)] assms(3) by (simp add: users status_ids)
  show ?thesis
  proof (cases "GetSendAuthParams E loc dev")
    case None
    then have "ses_targetUserIds session = ?ids0" "st' = st1"
      using assms(5) u by (auto simp: GetSession_def Let_def)
    then show ?thesis using None v1 by simp
  next
    case (Some acl)
    let ?l = "sp_userId loc"
    obtain ids st2 where r: "session_users D E st1 ?l dev acl users ?ids0 [] = (ids, st2)" by (metis prod.collapse)
    have s: "ses_targetUserIds session = ids" "st' = st2" using assms(5) u Some r by (auto simp: GetSession_def Let_def)
    have ids: "ids = ?ids0 @ filter (\<lambda>u. may_send E a ?l dev acl u \<and> same_account E ?l acl u \<and> u \<notin> set ?ids0) (map fst (a dev)) @
        filter (\<lambda>u. may_send E a ?l dev acl u \<and> \<not> same_account E ?l acl u \<and> u \<notin> set ?ids0) (map fst (a dev))"
      using session_users_view [OF m d v1, of ?l dev acl ?ids0 "[]"] r by (simp add: users status_ids)
    have dd: "distinct (map fst (a dev))" using d by (simp add: users status_ids)
    have "users_view ?E dv st2 = a" using session_users_keeps [OF m, of E st1] r v1 by (metis snd_conv)
    moreover have "distinct ids" unfolding ids using dd by (auto simp: distinct_filter)
    moreover have "set ids = set ?ids0 \<union> {u \<in> fst ` set (a dev). may_send E a ?l dev acl u}" unfolding ids by (auto simp: may_send_def access_spec_def)
    moreover have "sorted_wrt (\<lambda>u v. same_account E ?l acl v \<longrightarrow> same_account E ?l acl u \<or> u = 0) ids"
      unfolding ids by (auto simp: sorted_wrt_append same_account_def intro!: sorted_wrt_all)
    ultimately show ?thesis using s Some by simp
  qed
qed

definition senv0 :: session_env where
  "senv0 = access_env.extend env0
     \<lparr>en_loadStores = (\<lambda>p. Some [StoreMetaData_new\<lparr>sm_appId := ''app'', sm_storeId := ''s''\<rparr>]), en_ToNetworkID = (\<lambda>d. d),
      en_accountId = ''acc'', en_IsUserForeground = (\<lambda>u. True)\<rparr>"

definition point0 :: SessionPoint where
  "point0 = \<lparr>sp_deviceId = ''me'', sp_userId = 100, sp_appId = ''app'', sp_storeId = ''s'', sp_accountId = ''acc''\<rparr>"

lemma env0_view: "users_view (access_env.truncate senv0) map_of [] = (\<lambda>d. [(100, True)])"
  by (simp add: users_view_def filled_def senv0_def env0_def access_env.truncate_def access_env.extend_def put_users_def fun_eq_iff)

definition acl0 :: AclParams where
  "acl0 = \<lparr>acl_accCaller = \<lparr>cr_accountId = ''acc'', cr_bundleName = [], cr_networkId = ''me'', cr_userId = 100\<rparr>,
     acl_accCallee = \<lparr>ce_accountId = [], ce_networkId = ''d'', ce_userId = 0\<rparr>, acl_authType = 0\<rparr>"

lemma senv0_params: "GetSendAuthParams senv0 point0 ''d'' = Some acl0"
  by (simp add: GetSendAuthParams_def senv0_def env0_def point0_def acl0_def access_env.extend_def StoreMetaData_new_def)

lemma senv0_may_send: "may_send senv0 (\<lambda>d. [(100, True)]) 100 ''d'' acl0 100"
  by (simp add: may_send_def access_spec_def active_on_def status_of_def IsUserActive_def acl0_def
      senv0_def env0_def access_env.extend_def access_env.truncate_def with_callee_def)

theorem GetSession_targets_witness:
  "set (ses_targetUserIds (fst (GetSession alist_cmap senv0 [] point0 ''d''))) = {100}"
proof -
  have s: "users_sorted (users_view (access_env.truncate senv0) map_of [] ''d'')" by (simp add: env0_view users_sorted_def)
  have u: "sp_userId point0 = 100" by (simp add: point0_def)
  from GetSession_targets [OF alist_cmap_ok s env0_view _ prod.collapse [symmetric], of point0] senv0_may_send
  show ?thesis unfolding senv0_params u by auto
qed



end
