(* ===== verification/Route_Head.thy ===== *)
theory Route_Head
  imports Session_Manager "HOL-Library.Monad_Syntax"
begin

text \<open>
  The head put in front of messages between devices (app/src/session_manager/route_head_handler_impl.cpp):
  who sends from which user to which users, for which application, store and account.

  A buffer is a list of bytes. Reading or writing outside of it has no result (\<open>None\<close>), so that a result
  means every access was inside. The bounded copies of the C string library are the argument \<open>B\<close>: when
  they succeed, for a destination size and a length.
\<close>

subsection \<open>Memory\<close>

type_synonym bytes = "char list"

abbreviation (input) NUL :: char where "NUL \<equiv> CHR 0x00"

definition write_at :: "bytes \<Rightarrow> nat \<Rightarrow> bytes \<Rightarrow> bytes option" where
  "write_at buf off bs =
     (if off + length bs \<le> length buf then Some (take off buf @ bs @ drop (off + length bs) buf) else None)"

definition read_at :: "bytes \<Rightarrow> nat \<Rightarrow> nat \<Rightarrow> bytes option" where
  "read_at buf off n = (if off + n \<le> length buf then Some (take n (drop off buf)) else None)"

text \<open>Integers in memory after \<open>HostToNet\<close>: the low byte first.\<close>

fun to_le :: "nat \<Rightarrow> nat \<Rightarrow> bytes" where
  "to_le 0 v = []"
| "to_le (Suc n) v = char_of (v mod 256) # to_le n (v div 256)"

fun from_le :: "bytes \<Rightarrow> nat" where
  "from_le [] = 0"
| "from_le (b # bs) = of_char b + 256 * from_le bs"

definition HostToNet16 :: "u16 \<Rightarrow> bytes" where "HostToNet16 v = to_le 2 (unat v)"
definition HostToNet32 :: "u32 \<Rightarrow> bytes" where "HostToNet32 v = to_le 4 (unat v)"
definition HostToNet64 :: "u64 \<Rightarrow> bytes" where "HostToNet64 v = to_le 8 (unat v)"
definition NetToHost16 :: "bytes \<Rightarrow> u16" where "NetToHost16 bs = of_nat (from_le bs)"
definition NetToHost32 :: "bytes \<Rightarrow> u32" where "NetToHost32 bs = of_nat (from_le bs)"
definition NetToHost64 :: "bytes \<Rightarrow> u64" where "NetToHost64 bs = of_nat (from_le bs)"

text \<open>The bounded copies: \<open>strcpy_s\<close> takes the text up to its end, \<open>memcpy_s\<close> a number of bytes.\<close>

record bounded_copy =
  bc_strcpy :: "nat \<Rightarrow> nat \<Rightarrow> bool"
  bc_memcpy :: "nat \<Rightarrow> nat \<Rightarrow> bool"

definition bounded_copy_ok :: "bounded_copy \<Rightarrow> bool" where
  "bounded_copy_ok B \<longleftrightarrow>
     (\<forall>size len. bc_strcpy B size len = (len < size)) \<and>
     (\<forall>size len. bc_memcpy B size len \<longrightarrow> len \<le> size) \<and>
     (\<forall>size len. 0 < size \<and> len \<le> size \<and> size < 2 ^ 31 \<longrightarrow> bc_memcpy B size len)"

definition c_str :: "string \<Rightarrow> bytes" where
  "c_str s = takeWhile (\<lambda>c. c \<noteq> NUL) s"

text \<open>The difference of two pointers as a size, which wraps around when it is negative.\<close>

definition ptr_diff :: "nat \<Rightarrow> nat \<Rightarrow> nat" where
  "ptr_diff e p = unat (of_nat e - of_nat p :: u64)"

subsection \<open>Layout\<close>

abbreviation (input) MAGIC_NUMBER :: u16 where "MAGIC_NUMBER \<equiv> 0x8421"
abbreviation (input) ROUTE_VERSION :: u16 where "ROUTE_VERSION \<equiv> 1"
abbreviation (input) MAX_DEVICE_ID :: nat where "MAX_DEVICE_ID \<equiv> 65"
abbreviation (input) SIZE_RouteHead :: nat where "SIZE_RouteHead \<equiv> 16"
abbreviation (input) SIZE_SessionDevicePair :: nat where "SIZE_SessionDevicePair \<equiv> 130"
abbreviation (input) SIZE_SessionUserPair :: nat where "SIZE_SessionUserPair \<equiv> 5"
abbreviation (input) SIZE_len :: nat where "SIZE_len \<equiv> 4"

record RouteHead =
  rh_magic :: u16
  rh_version :: u16
  rh_checkSum :: u64
  rh_dataLen :: u32

definition GET_ALIGNED_SIZE :: "u64 \<Rightarrow> u64 \<Rightarrow> u64" where
  "GET_ALIGNED_SIZE x alignWidth = (x + (alignWidth - 1)) AND NOT (alignWidth - 1)"

definition expectSize :: "Session \<Rightarrow> u64" where
  "expectSize s = of_nat (SIZE_RouteHead + SIZE_SessionDevicePair + SIZE_SessionUserPair +
     length (ses_targetUserIds s) * 4 + SIZE_len + length (ses_appId s) +
     SIZE_len + length (ses_storeId s) + SIZE_len + length (ses_accountId s))"

subsection \<open>Packing\<close>

definition PackDataHead :: "u32 \<Rightarrow> bytes \<Rightarrow> nat \<Rightarrow> (bool \<times> bytes) option" where
  "PackDataHead headSize data totalLen =
     (if unat headSize < SIZE_RouteHead then Some (False, data)
      else do {
        data \<leftarrow> write_at data 0 (HostToNet16 MAGIC_NUMBER);
        data \<leftarrow> write_at data 2 (HostToNet16 ROUTE_VERSION);
        data \<leftarrow> write_at data 4 (HostToNet64 0);
        data \<leftarrow> write_at data 12 (HostToNet32 (of_nat (totalLen - SIZE_RouteHead)));
        Some (True, data)
      })"

text \<open>A length in four bytes and that many bytes, as the three identifiers are packed.\<close>

definition pack_block :: "bounded_copy \<Rightarrow> string \<Rightarrow> bytes \<Rightarrow> nat \<Rightarrow> nat \<Rightarrow> (bool \<times> bytes \<times> nat) option" where
  "pack_block B s data ptr lim =
     do {
       let size = (of_nat (length s) :: u32);
       data \<leftarrow> write_at data ptr (HostToNet32 size);
       let ptr = ptr + SIZE_len;
       if bc_memcpy B (ptr_diff lim ptr) (unat size)
       then do { data \<leftarrow> write_at data ptr (take (unat size) s); Some (True, data, ptr + unat size) }
       else Some (False, data, ptr)
     }"

definition PackAppId :: "bounded_copy \<Rightarrow> Session \<Rightarrow> bytes \<Rightarrow> nat \<Rightarrow> nat \<Rightarrow> (bool \<times> bytes \<times> nat) option" where
  "PackAppId B s data ptr lim = pack_block B (ses_appId s) data ptr lim"

definition PackStoreId :: "bounded_copy \<Rightarrow> Session \<Rightarrow> bytes \<Rightarrow> nat \<Rightarrow> nat \<Rightarrow> (bool \<times> bytes \<times> nat) option" where
  "PackStoreId B s data ptr lim = pack_block B (ses_storeId s) data ptr lim"

definition PackAccountId :: "bounded_copy \<Rightarrow> Session \<Rightarrow> bytes \<Rightarrow> nat \<Rightarrow> nat \<Rightarrow> (bool \<times> bytes \<times> nat) option" where
  "PackAccountId B s data ptr lim = pack_block B (ses_accountId s) data ptr lim"

fun write_users :: "bytes \<Rightarrow> nat \<Rightarrow> u32 list \<Rightarrow> bytes option" where
  "write_users data ptr [] = Some data"
| "write_users data ptr (u # us) = do { data \<leftarrow> write_at data ptr (HostToNet32 u); write_users data (ptr + 4) us }"

definition PackDataBody :: "bounded_copy \<Rightarrow> Session \<Rightarrow> bytes \<Rightarrow> nat \<Rightarrow> nat \<Rightarrow> (bool \<times> bytes) option" where
  "PackDataBody B s data base totalLen =
     (let ptr = base; src = c_str (ses_sourceDeviceId s); tgt = c_str (ses_targetDeviceId s)
      in if \<not> bc_strcpy B MAX_DEVICE_ID (length src) then Some (False, data)
         else do {
           data \<leftarrow> write_at data ptr (src @ [NUL]);
           if \<not> bc_strcpy B MAX_DEVICE_ID (length tgt) then Some (False, data)
           else do {
             data \<leftarrow> write_at data (ptr + MAX_DEVICE_ID) (tgt @ [NUL]);
             let ptr = ptr + SIZE_SessionDevicePair;
             data \<leftarrow> write_at data ptr (HostToNet32 (ses_sourceUserId s));
             data \<leftarrow> write_at data (ptr + 4) [char_of (length (ses_targetUserIds s) mod 256)];
             data \<leftarrow> write_users data (ptr + SIZE_SessionUserPair) (ses_targetUserIds s);
             let ptr = ptr + SIZE_SessionUserPair + length (ses_targetUserIds s) * 4;
             let lim = base + totalLen;
             (ok, data, ptr) \<leftarrow> PackAppId B s data ptr lim;
             if \<not> ok then Some (False, data)
             else do {
               (ok, data, ptr) \<leftarrow> PackStoreId B s data ptr lim;
               if \<not> ok then Some (False, data)
               else do { (ok, data, ptr) \<leftarrow> PackAccountId B s data ptr lim; Some (ok, data) }
             }
           }
         })"

definition PackData :: "bounded_copy \<Rightarrow> u32 \<Rightarrow> Session \<Rightarrow> bytes \<Rightarrow> u32 \<Rightarrow> (bool \<times> bytes) option" where
  "PackData B headSize s data totalLen =
     (if unat headSize > unat totalLen then Some (False, data)
      else do {
        (isOk, data) \<leftarrow> PackDataHead headSize data (unat headSize);
        if isOk then PackDataBody B s data SIZE_RouteHead (unat headSize - SIZE_RouteHead) else Some (False, data)
      })"

subsection \<open>Unpacking\<close>

definition UnPackDataHead :: "bytes \<Rightarrow> nat \<Rightarrow> (bool \<times> RouteHead) option" where
  "UnPackDataHead data totalLen =
     (let zero = \<lparr>rh_magic = 0, rh_version = 0, rh_checkSum = 0, rh_dataLen = 0\<rparr>
      in if totalLen < SIZE_RouteHead then Some (False, zero)
         else do {
           magic \<leftarrow> read_at data 0 2;
           version \<leftarrow> read_at data 2 2;
           checkSum \<leftarrow> read_at data 4 8;
           dataLen \<leftarrow> read_at data 12 4;
           let head = \<lparr>rh_magic = NetToHost16 magic, rh_version = NetToHost16 version, rh_checkSum = NetToHost64 checkSum, rh_dataLen = NetToHost32 dataLen\<rparr>;
           Some (rh_magic head = MAGIC_NUMBER \<and> \<not> totalLen - SIZE_RouteHead < unat (rh_dataLen head), head)
         })"

text \<open>The common part of the three readers: the text and the pointer behind it, or nothing read.\<close>

definition unpack_block :: "bytes \<Rightarrow> nat \<Rightarrow> nat \<Rightarrow> (string option \<times> nat) option" where
  "unpack_block data ptr leftSize =
     (if leftSize < SIZE_len then Some (None, ptr)
      else do {
        len \<leftarrow> read_at data ptr 4;
        let n = unat (NetToHost32 len);
        if leftSize - SIZE_len < n then Some (None, ptr)
        else do { s \<leftarrow> read_at data (ptr + SIZE_len) n; Some (Some s, ptr + SIZE_len + n) }
      })"

definition UnPackAppId :: "Session \<Rightarrow> bytes \<Rightarrow> nat \<Rightarrow> nat \<Rightarrow> (bool \<times> Session \<times> nat) option" where
  "UnPackAppId session data ptr leftSize =
     do { (r, ptr) \<leftarrow> unpack_block data ptr leftSize;
          Some (case r of None \<Rightarrow> (False, session, ptr) | Some s \<Rightarrow> (True, session\<lparr>ses_appId := s\<rparr>, ptr)) }"

definition UnPackStoreId :: "Session \<Rightarrow> bytes \<Rightarrow> nat \<Rightarrow> nat \<Rightarrow> (bool \<times> Session \<times> nat) option" where
  "UnPackStoreId session data ptr leftSize =
     do { (r, ptr) \<leftarrow> unpack_block data ptr leftSize;
          Some (case r of None \<Rightarrow> (False, session, ptr) | Some s \<Rightarrow> (True, session\<lparr>ses_storeId := s\<rparr>, ptr)) }"

definition UnPackAccountId :: "Session \<Rightarrow> bytes \<Rightarrow> nat \<Rightarrow> nat \<Rightarrow> (bool \<times> Session \<times> nat) option" where
  "UnPackAccountId session data ptr leftSize =
     do { (r, p) \<leftarrow> unpack_block data ptr leftSize;
          Some (case r of None \<Rightarrow> (False, session, ptr) | Some s \<Rightarrow> (True, session\<lparr>ses_accountId := s\<rparr>, ptr)) }"

fun read_users :: "bytes \<Rightarrow> nat \<Rightarrow> nat \<Rightarrow> u32 list option" where
  "read_users data ptr 0 = Some []"
| "read_users data ptr (Suc n) = do { u \<leftarrow> read_at data ptr 4; us \<leftarrow> read_users data (ptr + 4) n; Some (NetToHost32 u # us) }"

definition UnPackDataBody ::
    "'k caps_ops \<Rightarrow> session_env \<Rightarrow> 'k \<Rightarrow> Session \<Rightarrow> bytes \<Rightarrow> nat \<Rightarrow> nat \<Rightarrow> (bool \<times> Session \<times> 'k) option" where
  "UnPackDataBody K E caps session data base totalLen =
     (let ptr = base; leftSize = totalLen
      in if leftSize < SIZE_SessionDevicePair then Some (False, session, caps)
         else do {
           src \<leftarrow> read_at data ptr MAX_DEVICE_ID;
           tgt \<leftarrow> read_at data (ptr + MAX_DEVICE_ID) MAX_DEVICE_ID;
           let session = session\<lparr>ses_sourceDeviceId := c_str src, ses_targetDeviceId := c_str tgt\<rparr>;
           let ptr = ptr + SIZE_SessionDevicePair;
           let leftSize = leftSize - SIZE_SessionDevicePair;
           if leftSize < SIZE_SessionUserPair then Some (False, session, caps)
           else do {
             user \<leftarrow> read_at data ptr 4;
             let session = session\<lparr>ses_sourceUserId := NetToHost32 user\<rparr>;
             cnt \<leftarrow> read_at data (ptr + 4) 1;
             let count = from_le cnt;
             let userPairSize = SIZE_SessionUserPair + count * 4;
             if leftSize < userPairSize then Some (False, session, caps)
             else do {
               us \<leftarrow> read_users data (ptr + SIZE_SessionUserPair) count;
               let session = session\<lparr>ses_targetUserIds := ses_targetUserIds session @ us\<rparr>;
               let ptr = ptr + userPairSize;
               let leftSize = leftSize - userPairSize;
               (ok, session, ptr) \<leftarrow> UnPackAppId session data ptr leftSize;
               if \<not> ok then Some (False, session, caps)
               else (case GetCapability K (access_env.truncate E) caps (ses_sourceDeviceId session) of
                  (flag, peerCap, caps) \<Rightarrow>
                    if \<not> flag then Some (False, session, caps)
                    else if sint (cap_version peerCap) \<ge> sint CAP_ACCOUNT_VERSION then do {
                      (ok, session, ptr) \<leftarrow> UnPackStoreId session data ptr leftSize;
                      if \<not> ok then Some (False, session, caps)
                      else do { (ok, session, ptr) \<leftarrow> UnPackAccountId session data ptr leftSize; Some (ok, session, caps) }
                    }
                    else Some (True, session, caps))
             }
           }
         })"

definition UnPackData ::
    "'k caps_ops \<Rightarrow> session_env \<Rightarrow> 'k \<Rightarrow> Session \<Rightarrow> bytes option \<Rightarrow> nat \<Rightarrow> (bool \<times> Session \<times> nat \<times> 'k) option" where
  "UnPackData K E caps session data totalLen =
     (case data of
        None \<Rightarrow> Some (False, session, 0, caps)
      | Some data \<Rightarrow>
          if totalLen < SIZE_RouteHead then Some (False, session, 0, caps)
          else do {
            (result, head) \<leftarrow> UnPackDataHead data totalLen;
            if result \<and> rh_version head = ROUTE_VERSION then do {
              (isOk, session, caps) \<leftarrow> UnPackDataBody K E caps session data SIZE_RouteHead (totalLen - SIZE_RouteHead);
              Some (isOk, session, if isOk then SIZE_RouteHead + unat (rh_dataLen head) else 0, caps)
            }
            else Some (False, session, 0, caps)
          })"

subsection \<open>The handler\<close>

record route_env = session_env +
  en_IsOHOSType :: "string \<Rightarrow> bool"
  en_processLabel :: string
  en_metaDBName :: string
  en_hasStoreMeta :: "string \<Rightarrow> bool"
  en_foregroundUser :: u32
  en_IsTrust :: "string \<Rightarrow> bool"
  en_Convert :: "string \<Rightarrow> string"
  en_Identifier :: "string \<Rightarrow> string \<Rightarrow> string"

record route_handler =
  rt_userId :: string
  rt_appId :: string
  rt_storeId :: string
  rt_deviceId :: string
  rt_session :: Session
  rt_headSize :: u32

datatype DBStatus = DB_STATUS_OK | DB_STATUS_ERROR

abbreviation (input) DEFAULT_USERID :: string where "DEFAULT_USERID \<equiv> ''0''"
abbreviation (input) DATA_OBJECT_STORE_ID :: string where "DATA_OBJECT_STORE_ID \<equiv> ''distributedObject_''"
abbreviation (input) UDMF_STORE_ID :: string where "UDMF_STORE_ID \<equiv> ''drag''"
abbreviation (input) ALIGN_WIDTH :: u64 where "ALIGN_WIDTH \<equiv> 8"

definition RouteHeadHandler_new :: "string \<Rightarrow> string \<Rightarrow> string \<Rightarrow> string \<Rightarrow> route_handler" where
  "RouteHeadHandler_new userId appId storeId dstTarget =
     \<lparr>rt_userId = userId, rt_appId = appId, rt_storeId = storeId, rt_deviceId = dstTarget, rt_session = Session_new, rt_headSize = 0\<rparr>"

definition RouteHandler_Init :: "'d users_ops \<Rightarrow> route_env \<Rightarrow> 'd \<Rightarrow> route_handler \<Rightarrow> route_handler \<times> 'd" where
  "RouteHandler_Init D E st H =
     (if rt_deviceId H = [] \<or> \<not> en_IsOHOSType E (rt_deviceId H) then (H, st)
      else
        let meta = StoreMetaData_new\<lparr>sm_deviceId := rt_deviceId H, sm_user := DEFAULT_USERID, sm_bundleName := rt_appId H, sm_storeId := rt_storeId H\<rparr>;
            H = (if rt_userId H \<noteq> DEFAULT_USERID \<and> en_hasStoreMeta E (GetKeyWithoutPath meta) then H\<lparr>rt_userId := DEFAULT_USERID\<rparr> else H);
            H = (if rt_appId H = en_processLabel E \<and> rt_storeId H \<noteq> en_metaDBName E
                 then H\<lparr>rt_userId := to_string (sint (en_foregroundUser E))\<rparr> else H);
            localPoint = \<lparr>sp_deviceId = en_localUuid E, sp_userId = of_int (atoi (rt_userId H)), sp_appId = rt_appId H,
                          sp_storeId = rt_storeId H, sp_accountId = en_accountId E\<rparr>;
            (session, st) = GetSession D (session_env.truncate E) st localPoint (rt_deviceId H)
        in (H\<lparr>rt_session := session\<rparr>, st))"

definition GetTargetUserId :: "route_handler \<Rightarrow> string" where
  "GetTargetUserId H =
     (if \<not> Session_IsValid (rt_session H) then [] else to_string (uint (hd (ses_targetUserIds (rt_session H)))))"

definition GetHeadDataSize ::
    "'k caps_ops \<Rightarrow> route_env \<Rightarrow> 'k \<Rightarrow> route_handler \<Rightarrow> DBStatus \<times> u32 \<times> route_handler \<times> 'k" where
  "GetHeadDataSize K E caps H =
     (let system = (rt_appId H = en_processLabel E); session = rt_session H; target = ses_targetDeviceId session;
          shared = (rt_storeId H = UDMF_STORE_ID \<or> rt_storeId H = DATA_OBJECT_STORE_ID)
      in if system \<and> \<not> shared then (DB_STATUS_OK, 0, H, caps)
         else if \<not> en_IsOHOSType E target then
           (if rt_appId H = [] then DB_STATUS_ERROR
            else if \<not> en_IsTrust E (en_Convert E (rt_appId H)) then DB_STATUS_ERROR else DB_STATUS_OK, 0, H, caps)
         else case GetCapability K (access_env.truncate E) caps target of (flag, peerCap, caps) \<Rightarrow>
           if \<not> flag then (if system \<and> shared then DB_STATUS_OK else DB_STATUS_ERROR, 0, H, caps)
           else if system \<and> rt_storeId H \<noteq> en_metaDBName E \<and> sint (cap_version peerCap) < sint CAP_UDMF_AND_OBJECT_VERSION
                 \<or> cap_version peerCap = CAP_INVALID_VERSION then (DB_STATUS_OK, 0, H, caps)
           else if \<not> Session_IsValid session then (DB_STATUS_ERROR, 0, H, caps)
           else let headSize = ucast (GET_ALIGNED_SIZE (expectSize session) ALIGN_WIDTH)
                in (DB_STATUS_OK, headSize, H\<lparr>rt_headSize := headSize\<rparr>, caps))"

definition FillHeadData :: "bounded_copy \<Rightarrow> route_handler \<Rightarrow> bytes option \<Rightarrow> u32 \<Rightarrow> (DBStatus \<times> bytes option) option" where
  "FillHeadData B H data headSize =
     (case data of
        None \<Rightarrow> Some (DB_STATUS_ERROR, None)
      | Some data \<Rightarrow>
          if headSize \<noteq> rt_headSize H then Some (DB_STATUS_ERROR, Some data)
          else if rt_headSize H = 0 then Some (DB_STATUS_OK, Some data)
          else do {
            (packRet, data) \<leftarrow> PackData B (rt_headSize H) (rt_session H) data headSize;
            Some (if packRet then DB_STATUS_OK else DB_STATUS_ERROR, Some data)
          })"

text \<open>The size of the head is an output: \<open>None\<close> in its place means it was not assigned.\<close>

definition ParseHeadDataLen ::
    "'k caps_ops \<Rightarrow> route_env \<Rightarrow> 'k \<Rightarrow> route_handler \<Rightarrow> bytes option \<Rightarrow> nat \<Rightarrow> string \<Rightarrow> (bool \<times> nat option \<times> 'k) option" where
  "ParseHeadDataLen K E caps H data totalLen device =
     (case data of
        None \<Rightarrow> Some (False, None, caps)
      | Some data \<Rightarrow>
          if \<not> en_IsOHOSType E device then Some (True, None, caps)
          else
            let (old, caps) =
                  (if rt_appId H = en_processLabel E \<and> (rt_storeId H = UDMF_STORE_ID \<or> rt_storeId H = DATA_OBJECT_STORE_ID)
                   then (case GetCapability K (access_env.truncate E) caps device of (flag, peerCap, caps) \<Rightarrow>
                          (flag \<and> sint (cap_version peerCap) < sint CAP_UDMF_AND_OBJECT_VERSION, caps))
                   else (False, caps))
            in if old then Some (False, None, caps)
               else do {
                 (ret, head) \<leftarrow> UnPackDataHead data totalLen;
                 Some (ret, Some (if ret then SIZE_RouteHead + unat (rh_dataLen head) else 0), caps)
               })"

definition ParseStoreId :: "route_env \<Rightarrow> route_handler \<Rightarrow> string \<Rightarrow> string \<Rightarrow> string" where
  "ParseStoreId E H deviceId label =
     (if ses_storeId (rt_session H) \<noteq> [] then ses_storeId (rt_session H)
      else case en_loadStores E (GetPrefix_fields [deviceId]) of
             None \<Rightarrow> []
           | Some metaData \<Rightarrow>
               (case find (\<lambda>storeMeta. en_Identifier E (sm_appId storeMeta) (sm_storeId storeMeta) = label) metaData of
                  None \<Rightarrow> [] | Some storeMeta \<Rightarrow> sm_storeId storeMeta))"

record UserInfo =
  ui_receiveUser :: string
  ui_sendUser :: string

fun check_users ::
    "'d users_ops \<Rightarrow> session_env \<Rightarrow> 'd \<Rightarrow> SessionPoint \<Rightarrow> SessionPoint \<Rightarrow> bool \<Rightarrow> u32 list \<Rightarrow> UserInfo list \<times> 'd" where
  "check_users D E st loc peer accountFlag [] = ([], st)"
| "check_users D E st loc peer accountFlag (item # items) =
     (case CheckSession D E st (loc\<lparr>sp_userId := item\<rparr>) peer accountFlag of (ok, st) \<Rightarrow>
        case check_users D E st loc peer accountFlag items of (infos, st) \<Rightarrow>
          (if ok then \<lparr>ui_receiveUser = to_string (uint item), ui_sendUser = to_string (uint (sp_userId peer))\<rparr> # infos else infos, st))"

definition ParseHeadDataUser ::
    "'d users_ops \<Rightarrow> 'k caps_ops \<Rightarrow> route_env \<Rightarrow> 'd \<Rightarrow> 'k \<Rightarrow> route_handler \<Rightarrow> bytes option \<Rightarrow> nat \<Rightarrow> string \<Rightarrow>
     (bool \<times> UserInfo list \<times> route_handler \<times> 'd \<times> 'k) option" where
  "ParseHeadDataUser D K E st caps H data totalLen label =
     do {
       (ret, session, headSize, caps) \<leftarrow> UnPackData K (session_env.truncate E) caps (rt_session H) data totalLen;
       let H = H\<lparr>rt_session := session\<rparr>;
       if \<not> ret then Some (False, [], H, st, caps)
       else
         let sender = to_string (uint (ses_sourceUserId session));
             storeId = ParseStoreId E H (ses_targetDeviceId session) label;
             meta = StoreMetaData_new\<lparr>sm_deviceId := ses_targetDeviceId session, sm_user := DEFAULT_USERID, sm_bundleName := ses_appId session, sm_storeId := storeId\<rparr>
         in if en_IsOHOSType E (ses_sourceDeviceId session) \<and> storeId \<noteq> [] \<and> sender = DEFAULT_USERID \<and>
               \<not> en_hasStoreMeta E (GetKeyWithoutPath meta)
            then Some (True, [\<lparr>ui_receiveUser = to_string (sint (en_foregroundUser E)), ui_sendUser = sender\<rparr>], H, st, caps)
            else
              let loc = \<lparr>sp_deviceId = ses_targetDeviceId session, sp_userId = 0, sp_appId = ses_appId session, sp_storeId = [], sp_accountId = []\<rparr>;
                  peer = \<lparr>sp_deviceId = ses_sourceDeviceId session, sp_userId = ses_sourceUserId session, sp_appId = ses_appId session,
                          sp_storeId = [], sp_accountId = ses_accountId session\<rparr>
              in case GetCapability K (access_env.truncate E) caps (ses_sourceDeviceId session) of (flag, peerCap, caps) \<Rightarrow>
                   if \<not> flag then Some (False, [], H, st, caps)
                   else
                     let accountFlag = (sint (cap_version peerCap) \<ge> sint CAP_ACCOUNT_VERSION);
                         (infos, st) = check_users D (session_env.truncate E) st loc peer accountFlag (ses_targetUserIds session)
                     in Some (True, infos, H, st, caps)
     }"

end
