(* ===== verification/Route_Head_Results.thy ===== *)
theory Route_Head_Results
  imports Route_Head
begin

text \<open>
  What the head of messages guarantees: what was packed is what is read on the other side, packing
  stays inside the buffer, and when reading does.
\<close>

subsection \<open>Bytes\<close>

lemma length_to_le [simp]: "length (to_le n v) = n"
  by (induction n v rule: to_le.induct) auto

lemma from_le_to_le: "from_le (to_le n v) = v mod 256 ^ n"
  by (induction n v rule: to_le.induct) (simp_all add: mod_mult2_eq)

lemma from_le_bound: "from_le bs < 256 ^ length bs"
proof (induction bs)
  case (Cons b bs)
  have "of_char b + 256 * from_le bs < 256 * Suc (from_le bs)" by simp
  also have "\<dots> \<le> 256 * 256 ^ length bs" using Cons by (intro mult_le_mono) auto
  finally show ?case by simp
qed simp

lemma HostToNet_length [simp]:
  "length (HostToNet16 a) = 2" "length (HostToNet32 b) = 4" "length (HostToNet64 c) = 8"
  by (simp_all add: HostToNet16_def HostToNet32_def HostToNet64_def)

lemma unat_mod [simp]:
  "unat (a :: u16) mod 65536 = unat a" "unat (b :: u32) mod 4294967296 = unat b"
proof -
  have "unat a < 2 ^ LENGTH(16)" "unat b < 2 ^ LENGTH(32)" by (rule unsigned_less)+
  then show "unat a mod 65536 = unat a" "unat b mod 4294967296 = unat b" by simp_all
qed

lemma NetToHost_HostToNet [simp]:
  "NetToHost16 (HostToNet16 a) = a" "NetToHost32 (HostToNet32 b) = b"
  by (simp_all add: HostToNet16_def HostToNet32_def NetToHost16_def NetToHost32_def from_le_to_le)

lemma write_at_append:
  "length pre = off \<Longrightarrow> length bs \<le> length rest \<Longrightarrow> write_at (pre @ rest) off bs = Some (pre @ bs @ drop (length bs) rest)"
  by (auto simp: write_at_def)

lemma read_at_append: "length pre = off \<Longrightarrow> length bs = n \<Longrightarrow> read_at (pre @ bs @ rest) off n = Some bs"
  by (auto simp: read_at_def)

lemma write_users_append:
  "length pre = off \<Longrightarrow> 4 * length us \<le> length rest \<Longrightarrow>
   write_users (pre @ rest) off us = Some (pre @ concat (map HostToNet32 us) @ drop (4 * length us) rest)"
proof (induction us arbitrary: pre off rest)
  case (Cons u us)
  have "write_users ((pre @ HostToNet32 u) @ drop 4 rest) (off + 4) us =
      Some ((pre @ HostToNet32 u) @ concat (map HostToNet32 us) @ drop (4 * length us) (drop 4 rest))"
    using Cons.prems by (intro Cons.IH) auto
  then show ?case using Cons.prems by (simp add: write_at_append algebra_simps)
qed simp

lemma length_users [simp]: "length (concat (map HostToNet32 us)) = 4 * length us"
  by (induction us) auto

lemma read_users_append:
  "length pre = off \<Longrightarrow> read_users (pre @ concat (map HostToNet32 us) @ rest) off (length us) = Some us"
proof (induction us arbitrary: pre off)
  case (Cons u us)
  have "read_at (pre @ HostToNet32 u @ (concat (map HostToNet32 us) @ rest)) off 4 = Some (HostToNet32 u)"
    using Cons.prems by (intro read_at_append) auto
  moreover have "read_users ((pre @ HostToNet32 u) @ concat (map HostToNet32 us) @ rest) (off + 4) (length us) = Some us"
    using Cons.prems by (intro Cons.IH) simp
  ultimately show ?case by simp
qed simp

lemma c_str_NUL: "NUL \<notin> set s \<Longrightarrow> c_str (s @ NUL # rest) = s"
  unfolding c_str_def by (subst takeWhile_append2) auto

lemma c_str_id: "NUL \<notin> set s \<Longrightarrow> c_str s = s"
  unfolding c_str_def by (subst takeWhile_eq_all_conv) auto

lemma char_byte: "from_le [char_of (n mod 256)] = n mod 256"
  by simp

subsection \<open>Size\<close>

lemma aligned_size:
  assumes "n < 2 ^ 31"
  shows "unat (GET_ALIGNED_SIZE (of_nat n) 8) = (n + 7) div 8 * 8"
proof -
  have "unat (of_nat n + 7 :: u64) = n + 7" using assms by (simp add: unat_word_ariths unat_of_nat)
  moreover have "(7 :: u64) = mask 3" by (simp add: mask_eq_exp_minus_1)
  moreover have "w AND NOT (mask 3) = push_bit 3 (drop_bit 3 w)" for w :: u64
    by (rule bit_eqI) (auto simp: bit_simps)
  ultimately show ?thesis using assms
    by (simp add: GET_ALIGNED_SIZE_def push_bit_eq_mult drop_bit_eq_div unat_word_ariths unat_div_distrib)
qed

subsection \<open>The format\<close>

text \<open>The bytes of a message head, with what the buffer held before in the gaps.\<close>

definition head_bytes :: "u32 \<Rightarrow> bytes" where
  "head_bytes len = HostToNet16 MAGIC_NUMBER @ HostToNet16 ROUTE_VERSION @ HostToNet64 0 @ HostToNet32 len"

definition block :: "string \<Rightarrow> bytes" where
  "block s = HostToNet32 (of_nat (length s)) @ s"

definition front :: "u32 \<Rightarrow> Session \<Rightarrow> bytes \<Rightarrow> bytes \<Rightarrow> bytes" where
  "front len s gap1 gap2 =
     head_bytes len @ (ses_sourceDeviceId s @ NUL # gap1) @ (ses_targetDeviceId s @ NUL # gap2) @
     HostToNet32 (ses_sourceUserId s) @ [char_of (length (ses_targetUserIds s) mod 256)] @ concat (map HostToNet32 (ses_targetUserIds s))"

definition packet :: "u32 \<Rightarrow> Session \<Rightarrow> bytes \<Rightarrow> bytes \<Rightarrow> bytes \<Rightarrow> bytes" where
  "packet len s gap1 gap2 rear = front len s gap1 gap2 @ block (ses_appId s) @ rear"

definition session_fits :: "Session \<Rightarrow> bool" where
  "session_fits s \<longleftrightarrow>
     NUL \<notin> set (ses_sourceDeviceId s) \<and> NUL \<notin> set (ses_targetDeviceId s) \<and>
     length (ses_sourceDeviceId s) \<le> 64 \<and> length (ses_targetDeviceId s) \<le> 64 \<and>
     length (ses_targetUserIds s) < 256 \<and> length (ses_appId s) + length (ses_storeId s) + length (ses_accountId s) < 2 ^ 30"

definition gaps_ok :: "Session \<Rightarrow> bytes \<Rightarrow> bytes \<Rightarrow> bool" where
  "gaps_ok s gap1 gap2 \<longleftrightarrow> length (ses_sourceDeviceId s) + length gap1 = 64 \<and> length (ses_targetDeviceId s) + length gap2 = 64"

lemma length_head [simp]: "length (head_bytes len) = 16"
  by (simp add: head_bytes_def)

lemma length_block [simp]: "length (block s) = 4 + length s"
  by (simp add: block_def)

lemma length_front: "gaps_ok s gap1 gap2 \<Longrightarrow> length (front len s gap1 gap2) = 151 + 4 * length (ses_targetUserIds s)"
  by (simp add: front_def gaps_ok_def)

subsection \<open>Packing\<close>

lemma ptr_diff_le: "p \<le> e \<Longrightarrow> e < 2 ^ 31 \<Longrightarrow> ptr_diff e p = e - p"
proof -
  assume "p \<le> e" "e < 2 ^ 31"
  then have "(of_nat e - of_nat p :: u64) = of_nat (e - p)" by (simp add: of_nat_diff)
  then show ?thesis using \<open>e < 2 ^ 31\<close> by (simp add: ptr_diff_def unat_of_nat)
qed

lemma memcpy_ok: "bounded_copy_ok B \<Longrightarrow> 0 < n \<Longrightarrow> len \<le> n \<Longrightarrow> n < 2 ^ 31 \<Longrightarrow> bc_memcpy B n len"
  by (simp add: bounded_copy_ok_def)

lemma strcpy_ok: "bounded_copy_ok B \<Longrightarrow> bc_strcpy B n len = (len < n)"
  by (simp add: bounded_copy_ok_def)

lemma pack_block_ok:
  assumes "bounded_copy_ok B" "length pre = ptr" "lim = ptr + length rest" "lim < 2 ^ 31" "4 + length s \<le> length rest" "4 < length rest"
  shows "pack_block B s (pre @ rest) ptr lim = Some (True, (pre @ block s) @ drop (4 + length s) rest, ptr + 4 + length s)"
proof -
  have n: "unat (of_nat (length s) :: u32) = length s" using assms(3-5) by (simp add: unat_of_nat)
  have w: "write_at (pre @ rest) ptr (HostToNet32 (of_nat (length s))) = Some (pre @ HostToNet32 (of_nat (length s)) @ drop 4 rest)"
    using assms(2,5) by (subst write_at_append) auto
  have w2: "write_at ((pre @ HostToNet32 (of_nat (length s))) @ drop 4 rest) (ptr + 4) s =
      Some ((pre @ HostToNet32 (of_nat (length s))) @ s @ drop (length s) (drop 4 rest))"
    using assms(2,5) by (intro write_at_append) auto
  have "ptr_diff lim (ptr + 4) = length rest - 4" using assms(3,4,6) by (subst ptr_diff_le) auto
  moreover have "bc_memcpy B (length rest - 4) (length s)" using assms(3-6) by (intro memcpy_ok [OF assms(1)]) auto
  ultimately show ?thesis using w w2 by (simp add: pack_block_def n block_def Let_def add.commute)
qed

lemma PackDataHead_ok:
  assumes "16 \<le> length data" "unat headSize = length data"
  shows "PackDataHead headSize data (length data) = Some (True, head_bytes (of_nat (length data - 16)) @ drop 16 data)"
proof -
  let ?m = "HostToNet16 MAGIC_NUMBER" and ?v = "HostToNet16 ROUTE_VERSION" and ?l = "HostToNet32 (of_nat (length data - 16))"
  have "write_at data 0 ?m = Some (?m @ drop 2 data)" using write_at_append [of "[]" 0 ?m data] assms(1) by simp
  moreover have "write_at (?m @ drop 2 data) 2 ?v = Some (?m @ ?v @ drop 4 data)"
    using write_at_append [of ?m 2 ?v "drop 2 data"] assms(1) by simp
  moreover have "write_at ((?m @ ?v) @ drop 4 data) 4 (HostToNet64 0) = Some ((?m @ ?v) @ HostToNet64 0 @ drop 12 data)"
    using write_at_append [of "?m @ ?v" 4 "HostToNet64 0" "drop 4 data"] assms(1) by simp
  moreover have "write_at ((?m @ ?v @ HostToNet64 0) @ drop 12 data) 12 ?l = Some ((?m @ ?v @ HostToNet64 0) @ ?l @ drop 16 data)"
    using write_at_append [of "?m @ ?v @ HostToNet64 0" 12 ?l "drop 12 data"] assms(1) by simp
  ultimately show ?thesis using assms by (simp add: PackDataHead_def head_bytes_def)
qed

text \<open>The device pair and the users.\<close>

lemma strcpy_field:
  assumes "length pre = ptr" "length s \<le> 64" "65 \<le> length rest"
  shows "write_at (pre @ rest) ptr (s @ [NUL]) = Some ((pre @ s @ NUL # take (64 - length s) (drop (length s + 1) rest)) @ drop 65 rest)"
proof -
  let ?gap = "take (64 - length s) (drop (length s + 1) rest)"
  have "drop (64 - length s) (drop (length s + 1) rest) = drop 65 rest" using assms(2) by simp
  then have d: "drop (length (s @ [NUL])) rest = ?gap @ drop 65 rest"
    using append_take_drop_id [of "64 - length s" "drop (length s + 1) rest"] by (metis length_append_singleton Suc_eq_plus1)
  have "write_at (pre @ rest) ptr (s @ [NUL]) = Some (pre @ (s @ [NUL]) @ drop (length (s @ [NUL])) rest)"
    by (rule write_at_append) (use assms in auto)
  also have "\<dots> = Some ((pre @ s @ NUL # ?gap) @ drop 65 rest)" unfolding d by simp
  finally show ?thesis .
qed

lemma PackDataBody_ok:
  assumes B: "bounded_copy_ok B" and fits: "session_fits s" and pre: "length pre = 16" and len: "n = length rest"
    and room: "135 + 4 * length (ses_targetUserIds s) + 12 + length (ses_appId s) + length (ses_storeId s) + length (ses_accountId s) \<le> n"
    and acc: "ses_accountId s \<noteq> []" and small: "16 + n < 2 ^ 31"
  shows "\<exists>gap1 gap2 pad. gaps_ok s gap1 gap2 \<and>
    length pad + (135 + 4 * length (ses_targetUserIds s) + 12 + length (ses_appId s) + length (ses_storeId s) + length (ses_accountId s)) = n \<and>
    PackDataBody B s (pre @ rest) 16 n =
      Some (True, (pre @ (ses_sourceDeviceId s @ NUL # gap1) @ (ses_targetDeviceId s @ NUL # gap2) @ HostToNet32 (ses_sourceUserId s) @
        [char_of (length (ses_targetUserIds s) mod 256)] @ concat (map HostToNet32 (ses_targetUserIds s))) @
        block (ses_appId s) @ block (ses_storeId s) @ block (ses_accountId s) @ pad)"
proof -
  let ?src = "ses_sourceDeviceId s" and ?tgt = "ses_targetDeviceId s" and ?us = "ses_targetUserIds s"
  let ?a = "ses_appId s" and ?b = "ses_storeId s" and ?c = "ses_accountId s"
  have id: "c_str ?src = ?src" "c_str ?tgt = ?tgt" "length ?src \<le> 64" "length ?tgt \<le> 64"
    using fits by (auto simp: session_fits_def c_str_id)
  obtain k where acc': "length ?c = Suc k" using acc by (cases ?c) auto
  have m: "length ?us * 4 = 4 * length ?us" by simp
  define gap1 where "gap1 = take (64 - length ?src) (drop (length ?src + 1) rest)"
  define gap2 where "gap2 = take (64 - length ?tgt) (drop (length ?tgt + 1) (drop 65 rest))"
  have gaps: "gaps_ok s gap1 gap2" using id len room by (simp add: gaps_ok_def gap1_def gap2_def)
  define p1 where "p1 = pre @ ?src @ NUL # gap1"
  define p2 where "p2 = p1 @ ?tgt @ NUL # gap2"
  define p3 where "p3 = p2 @ HostToNet32 (ses_sourceUserId s)"
  define p4 where "p4 = p3 @ [char_of (length ?us)]"
  define p5 where "p5 = p4 @ concat (map HostToNet32 ?us)"
  define r5 where "r5 = drop (135 + 4 * length ?us) rest"
  have lp: "length p1 = 81" "length p2 = 146" "length p3 = 150" "length p4 = 151" "length p5 = 151 + 4 * length ?us"
    using gaps pre by (simp_all add: p1_def p2_def p3_def p4_def p5_def gaps_ok_def)
  have lr: "length r5 = n - (135 + 4 * length ?us)" using len by (simp add: r5_def)
  have w1: "write_at (pre @ rest) 16 (?src @ [NUL]) = Some (p1 @ drop 65 rest)"
    unfolding p1_def gap1_def by (rule strcpy_field) (use pre id len room in auto)
  have w2: "write_at (p1 @ drop 65 rest) 81 (?tgt @ [NUL]) = Some (p2 @ drop 130 rest)"
    using strcpy_field [OF lp(1) id(4), of "drop 65 rest"] len room by (simp add: p2_def gap2_def)
  have w3: "write_at (p2 @ drop 130 rest) 146 (HostToNet32 (ses_sourceUserId s)) = Some (p3 @ drop 134 rest)"
    using write_at_append [OF lp(2), of "HostToNet32 (ses_sourceUserId s)" "drop 130 rest"] len room by (simp add: p3_def)
  have w4: "write_at (p3 @ drop 134 rest) 150 [char_of (length ?us)] = Some (p4 @ drop 135 rest)"
    using write_at_append [OF lp(3), of "[char_of (length ?us)]" "drop 134 rest"] len room by (simp add: p4_def)
  have w5: "write_users (p4 @ drop 135 rest) 151 ?us = Some (p5 @ r5)"
    using write_users_append [OF lp(4), of ?us "drop 135 rest"] len room by (simp add: p5_def r5_def add.commute)
  define q2 where "q2 = 151 + 4 * length ?us + 4 + length ?a"
  define q3 where "q3 = q2 + 4 + length ?b"
  have b1: "PackAppId B s (p5 @ r5) (151 + 4 * length ?us) (16 + n) = Some (True, (p5 @ block ?a) @ drop (4 + length ?a) r5, q2)"
    unfolding PackAppId_def q2_def by (rule pack_block_ok [OF B lp(5)]) (use lr room small in auto)
  have b2: "PackStoreId B s ((p5 @ block ?a) @ drop (4 + length ?a) r5) q2 (16 + n) =
      Some (True, ((p5 @ block ?a) @ block ?b) @ drop (4 + length ?b) (drop (4 + length ?a) r5), q3)"
    unfolding PackStoreId_def q3_def by (rule pack_block_ok [OF B]) (use lp(5) lr room small in \<open>auto simp: q2_def\<close>)
  have b3: "PackAccountId B s (((p5 @ block ?a) @ block ?b) @ drop (4 + length ?b) (drop (4 + length ?a) r5)) q3 (16 + n) =
      Some (True, (((p5 @ block ?a) @ block ?b) @ block ?c) @ drop (4 + length ?c) (drop (4 + length ?b) (drop (4 + length ?a) r5)), q3 + 4 + length ?c)"
    unfolding PackAccountId_def by (rule pack_block_ok [OF B]) (use lp(5) lr room small acc' in \<open>auto simp: q2_def q3_def\<close>)
  define pad where "pad = drop (4 + length ?c) (drop (4 + length ?b) (drop (4 + length ?a) r5))"
  have st: "bc_strcpy B 65 (length ?src)" "bc_strcpy B 65 (length ?tgt)" using id by (simp_all add: strcpy_ok [OF B])
  have "PackDataBody B s (pre @ rest) 16 n = Some (True, (((p5 @ block ?a) @ block ?b) @ block ?c) @ pad)"
    unfolding PackDataBody_def Let_def id(1,2) pad_def m
    by (simp add: st w1 w2 w3 w4 w5 b1 b2 b3 del: append_assoc drop_drop length_append)
  moreover have "length pad + (135 + 4 * length ?us + 12 + length ?a + length ?b + length ?c) = n"
    using lr room by (simp add: pad_def)
  moreover have "(((p5 @ block ?a) @ block ?b) @ block ?c) @ pad = (pre @ (?src @ NUL # gap1) @ (?tgt @ NUL # gap2) @ HostToNet32 (ses_sourceUserId s) @
        [char_of (length ?us mod 256)] @ concat (map HostToNet32 ?us)) @ block ?a @ block ?b @ block ?c @ pad"
    by (simp add: p5_def p4_def p3_def p2_def p1_def)
  ultimately have "gaps_ok s gap1 gap2 \<and> length pad + (135 + 4 * length ?us + 12 + length ?a + length ?b + length ?c) = n \<and>
      PackDataBody B s (pre @ rest) 16 n = Some (True, (pre @ (?src @ NUL # gap1) @ (?tgt @ NUL # gap2) @ HostToNet32 (ses_sourceUserId s) @
        [char_of (length ?us mod 256)] @ concat (map HostToNet32 ?us)) @ block ?a @ block ?b @ block ?c @ pad)"
    using gaps by simp
  then show ?thesis by blast
qed

definition total_size :: "Session \<Rightarrow> nat" where
  "total_size s = 163 + 4 * length (ses_targetUserIds s) + length (ses_appId s) + length (ses_storeId s) + length (ses_accountId s)"

definition head_size :: "Session \<Rightarrow> u32" where
  "head_size s = ucast (GET_ALIGNED_SIZE (expectSize s) ALIGN_WIDTH)"

lemma head_size_value:
  assumes "session_fits s"
  shows "unat (head_size s) = (total_size s + 7) div 8 * 8" "total_size s \<le> unat (head_size s)" "unat (head_size s) < 2 ^ 31"
proof -
  have e: "expectSize s = of_nat (total_size s)" by (simp add: expectSize_def total_size_def algebra_simps)
  have small: "total_size s < 2 ^ 30 + 2000" using assms by (simp add: session_fits_def total_size_def)
  then have a: "unat (GET_ALIGNED_SIZE (expectSize s) 8) = (total_size s + 7) div 8 * 8" unfolding e by (intro aligned_size) simp
  have l: "(total_size s + 7) div 8 * 8 < 2 ^ 31" using small by simp
  have "unat (head_size s) = unat (GET_ALIGNED_SIZE (expectSize s) 8) mod 2 ^ 32"
    by (simp add: head_size_def unsigned_ucast_eq take_bit_eq_mod)
  then show h: "unat (head_size s) = (total_size s + 7) div 8 * 8" using a l by simp
  show "unat (head_size s) < 2 ^ 31" using h l by simp
  show "total_size s \<le> unat (head_size s)" unfolding h by presburger
qed

lemma PackData_ok:
  assumes "bounded_copy_ok B" "session_fits s" "ses_accountId s \<noteq> []" "length data = unat (head_size s)"
  shows "\<exists>gap1 gap2 pad. gaps_ok s gap1 gap2 \<and> length pad + total_size s = unat (head_size s) \<and>
    PackData B (head_size s) s data (head_size s) =
      Some (True, packet (of_nat (unat (head_size s) - 16)) s gap1 gap2 (block (ses_storeId s) @ block (ses_accountId s) @ pad))"
proof -
  note h = head_size_value [OF assms(2)]
  have l16: "16 \<le> length data" using h(2) assms(4) by (simp add: total_size_def)
  let ?pre = "head_bytes (of_nat (length data - 16))" and ?rest = "drop 16 data"
  have head: "PackDataHead (head_size s) data (unat (head_size s)) = Some (True, ?pre @ ?rest)"
    using PackDataHead_ok [OF l16, of "head_size s"] assms(4) by simp
  have room: "135 + 4 * length (ses_targetUserIds s) + 12 + length (ses_appId s) + length (ses_storeId s) + length (ses_accountId s) \<le> unat (head_size s) - 16"
    using h(2) by (simp add: total_size_def)
  have n: "unat (head_size s) - 16 = length ?rest" and small: "16 + (unat (head_size s) - 16) < 2 ^ 31"
    using assms(4) l16 h(3) by simp_all
  obtain gap1 gap2 pad where g: "gaps_ok s gap1 gap2"
    "length pad + (135 + 4 * length (ses_targetUserIds s) + 12 + length (ses_appId s) + length (ses_storeId s) + length (ses_accountId s)) = unat (head_size s) - 16"
    "PackDataBody B s (?pre @ ?rest) 16 (unat (head_size s) - 16) =
      Some (True, (?pre @ (ses_sourceDeviceId s @ NUL # gap1) @ (ses_targetDeviceId s @ NUL # gap2) @ HostToNet32 (ses_sourceUserId s) @
        [char_of (length (ses_targetUserIds s) mod 256)] @ concat (map HostToNet32 (ses_targetUserIds s))) @
        block (ses_appId s) @ block (ses_storeId s) @ block (ses_accountId s) @ pad)"
    using PackDataBody_ok [OF assms(1,2) length_head n room assms(3) small] by blast
  have "PackData B (head_size s) s data (head_size s) =
      Some (True, packet (of_nat (unat (head_size s) - 16)) s gap1 gap2 (block (ses_storeId s) @ block (ses_accountId s) @ pad))"
    using g(3) assms(4) by (simp add: PackData_def head packet_def front_def)
  moreover have "length pad + total_size s = unat (head_size s)" using g(2) h(2) by (simp add: total_size_def)
  ultimately show ?thesis using g(1) by blast
qed

subsection \<open>Unpacking\<close>

lemma unpack_block_ok:
  assumes "length pre = ptr" "4 + length s \<le> leftSize" "length s < 2 ^ 32"
  shows "unpack_block (pre @ block s @ rest) ptr leftSize = Some (Some s, ptr + 4 + length s)"
proof -
  have n: "unat (of_nat (length s) :: u32) = length s" using assms(3) by (simp add: unat_of_nat)
  have "read_at (pre @ HostToNet32 (of_nat (length s)) @ (s @ rest)) ptr 4 = Some (HostToNet32 (of_nat (length s)))"
    by (rule read_at_append) (simp_all add: assms(1))
  moreover have "read_at ((pre @ HostToNet32 (of_nat (length s))) @ s @ rest) (ptr + 4) (length s) = Some s"
    by (rule read_at_append) (simp_all add: assms(1))
  ultimately show ?thesis using assms(2) by (simp add: unpack_block_def block_def n Let_def)
qed

lemma UnPackDataHead_ok:
  assumes "totalLen = length (head_bytes len @ rest)" "unat len \<le> length rest"
  shows "\<exists>c. UnPackDataHead (head_bytes len @ rest) totalLen =
    Some (True, \<lparr>rh_magic = MAGIC_NUMBER, rh_version = ROUTE_VERSION, rh_checkSum = c, rh_dataLen = len\<rparr>)"
proof -
  let ?m = "HostToNet16 MAGIC_NUMBER" and ?v = "HostToNet16 ROUTE_VERSION" and ?c = "HostToNet64 0" and ?l = "HostToNet32 len"
  have "read_at ([] @ ?m @ (?v @ ?c @ ?l @ rest)) 0 2 = Some ?m" by (rule read_at_append) simp_all
  moreover have "read_at (?m @ ?v @ (?c @ ?l @ rest)) 2 2 = Some ?v" by (rule read_at_append) simp_all
  moreover have "read_at ((?m @ ?v) @ ?c @ (?l @ rest)) 4 8 = Some ?c" by (rule read_at_append) simp_all
  moreover have "read_at ((?m @ ?v @ ?c) @ ?l @ rest) 12 4 = Some ?l" by (rule read_at_append) simp_all
  ultimately show ?thesis using assms by (simp add: UnPackDataHead_def head_bytes_def Let_def)
qed

definition front_read :: "Session \<Rightarrow> Session \<Rightarrow> Session" where
  "front_read s old = old\<lparr>ses_sourceDeviceId := ses_sourceDeviceId s, ses_targetDeviceId := ses_targetDeviceId s,
     ses_sourceUserId := ses_sourceUserId s, ses_targetUserIds := ses_targetUserIds old @ ses_targetUserIds s, ses_appId := ses_appId s\<rparr>"

lemma UnPackDataBody_front:
  assumes fits: "session_fits s" and gaps: "gaps_ok s gap1 gap2" and data: "data = packet len s gap1 gap2 rear"
    and cap: "GetCapability K (access_env.truncate E) caps (ses_sourceDeviceId s) = (True, peerCap, caps')"
  shows "UnPackDataBody K E caps old data 16 (length data - 16) =
    (if sint (cap_version peerCap) \<ge> sint CAP_ACCOUNT_VERSION then do {
       (ok, session, ptr) \<leftarrow> UnPackStoreId (front_read s old) data (length data - length rear) (4 + length (ses_appId s) + length rear);
       if \<not> ok then Some (False, session, caps')
       else do { (ok, session, ptr) \<leftarrow> UnPackAccountId session data ptr (4 + length (ses_appId s) + length rear); Some (ok, session, caps') }
     }
     else Some (True, front_read s old, caps'))"
proof -
  let ?us = "ses_targetUserIds s" and ?a = "ses_appId s"
  let ?src = "ses_sourceDeviceId s @ NUL # gap1" and ?tgt = "ses_targetDeviceId s @ NUL # gap2"
  let ?u = "HostToNet32 (ses_sourceUserId s)" and ?n = "[char_of (length ?us)] :: bytes" and ?l = "concat (map HostToNet32 ?us)"
  have len: "length (ses_sourceDeviceId s) + length gap1 = 64" "length (ses_targetDeviceId s) + length gap2 = 64"
    using gaps by (simp_all add: gaps_ok_def)
  have ids: "c_str ?src = ses_sourceDeviceId s" "c_str ?tgt = ses_targetDeviceId s" using fits by (auto simp: session_fits_def intro: c_str_NUL)
  have cnt: "length ?us < 256" "length ?a < 2 ^ 32" using fits by (simp_all add: session_fits_def)
  have d: "data = head_bytes len @ ?src @ ?tgt @ ?u @ ?n @ ?l @ block ?a @ rear" by (simp add: data packet_def front_def)
  have ld: "length data = 155 + 4 * length ?us + length ?a + length rear" using len by (simp add: d)
  have r1: "read_at data 16 65 = Some ?src" unfolding d by (rule read_at_append) (simp_all add: len)
  have r2: "read_at data 81 65 = Some ?tgt"
    using read_at_append [of "head_bytes len @ ?src" 81 ?tgt 65 "?u @ ?n @ ?l @ block ?a @ rear"] len by (simp add: d)
  have r3: "read_at data 146 4 = Some ?u"
    using read_at_append [of "head_bytes len @ ?src @ ?tgt" 146 ?u 4 "?n @ ?l @ block ?a @ rear"] len by (simp add: d)
  have r4: "read_at data 150 (Suc 0) = Some ?n"
    using read_at_append [of "head_bytes len @ ?src @ ?tgt @ ?u" 150 ?n 1 "?l @ block ?a @ rear"] len by (simp add: d)
  have r5: "read_users data 151 (length ?us) = Some ?us"
    using read_users_append [of "head_bytes len @ ?src @ ?tgt @ ?u @ ?n" 151 ?us "block ?a @ rear"] len by (simp add: d)
  have r6: "unpack_block data (151 + 4 * length ?us) (4 + length ?a + length rear) = Some (Some ?a, 155 + 4 * length ?us + length ?a)"
    using unpack_block_ok [of "head_bytes len @ ?src @ ?tgt @ ?u @ ?n @ ?l" "151 + 4 * length ?us" ?a "4 + length ?a + length rear" rear] len cnt
    by (simp add: d)
  define left where "left = 4 + length ?a + length rear"
  have s1: "length data - 16 = 130 + (5 + 4 * length ?us + left)" using ld by (simp add: left_def)
  have fl: "from_le ?n = length ?us" using cnt by simp
  have p: "length data - length rear = 155 + 4 * length ?us + length ?a" using ld by simp
  have "UnPackAppId (old\<lparr>ses_sourceDeviceId := ses_sourceDeviceId s, ses_targetDeviceId := ses_targetDeviceId s,
      ses_sourceUserId := ses_sourceUserId s, ses_targetUserIds := ses_targetUserIds old @ ?us\<rparr>) data (151 + 4 * length ?us) left =
      Some (True, front_read s old, 155 + 4 * length ?us + length ?a)"
    by (simp add: UnPackAppId_def r6 [folded left_def] front_read_def)
  then show ?thesis
    unfolding UnPackDataBody_def Let_def s1 left_def [symmetric]
    by (simp add: r1 r2 r3 r4 r5 ids fl p cap front_read_def mult.commute [of _ 4] del: from_le.simps cong: if_cong)
qed

lemma length_packet: "gaps_ok s gap1 gap2 \<Longrightarrow> length (packet len s gap1 gap2 rear) = 155 + 4 * length (ses_targetUserIds s) + length (ses_appId s) + length rear"
  by (simp add: packet_def length_front)

lemma UnPackData_packet:
  assumes "gaps_ok s gap1 gap2" "data = packet len s gap1 gap2 rear" "unat len = length data - 16"
  shows "UnPackData K E caps old (Some data) (length data) =
    do { (isOk, session, caps) \<leftarrow> UnPackDataBody K E caps old data 16 (length data - 16);
         Some (isOk, session, if isOk then length data else 0, caps) }"
proof -
  have l: "16 \<le> length data" using length_packet [OF assms(1)] assms(2) by simp
  obtain rest where r: "data = head_bytes len @ rest" using assms(2) by (simp add: packet_def front_def)
  then have "unat len = length rest" using assms(3) by simp
  then obtain c where "UnPackDataHead data (length data) = Some (True, \<lparr>rh_magic = MAGIC_NUMBER, rh_version = ROUTE_VERSION, rh_checkSum = c, rh_dataLen = len\<rparr>)"
    using UnPackDataHead_ok [of "length data" len rest] r by auto
  then show ?thesis using l assms(3) by (simp add: UnPackData_def cong: if_cong)
qed

lemma unpack_store_account:
  assumes "session_fits s" "data = pre @ block (ses_storeId s) @ block (ses_accountId s) @ pad" "length pre = ptr"
    "8 + length (ses_storeId s) + length (ses_accountId s) \<le> left"
  shows "do { (ok, session, ptr) \<leftarrow> UnPackStoreId old data ptr left;
       if \<not> ok then Some (False, session, caps)
       else do { (ok, session, ptr) \<leftarrow> UnPackAccountId session data ptr left; Some (ok, session, caps) } } =
     Some (True, old\<lparr>ses_storeId := ses_storeId s, ses_accountId := ses_accountId s\<rparr>, caps)"
proof -
  have n: "length (ses_storeId s) < 2 ^ 32" "length (ses_accountId s) < 2 ^ 32" using assms(1) by (simp_all add: session_fits_def)
  have "unpack_block data ptr left = Some (Some (ses_storeId s), ptr + 4 + length (ses_storeId s))"
    unfolding assms(2) by (rule unpack_block_ok) (use assms(3,4) n in auto)
  moreover have "unpack_block ((pre @ block (ses_storeId s)) @ block (ses_accountId s) @ pad) (ptr + 4 + length (ses_storeId s)) left =
      Some (Some (ses_accountId s), ptr + 4 + length (ses_storeId s) + 4 + length (ses_accountId s))"
    by (rule unpack_block_ok) (use assms(3,4) n in auto)
  ultimately show ?thesis by (simp add: UnPackStoreId_def UnPackAccountId_def assms(2))
qed

text \<open>
  C4: What one device packs, the other reads. For a session whose identifiers fit, the head fills
  exactly the size computed for it, every write is inside that buffer, and the peer gets back the
  whole session: devices, users, application, and for a sender known to have accounts also store
  and account, with every read inside the buffer.
\<close>
theorem route_head_roundtrip:
  assumes "bounded_copy_ok B" and "session_fits s" and "ses_accountId s \<noteq> []" and "length data = unat (head_size s)"
    and "GetCapability K (access_env.truncate E) caps (ses_sourceDeviceId s) = (True, peerCap, caps')"
    and "ses_targetUserIds old = []"
  shows "\<exists>data'. PackData B (head_size s) s data (head_size s) = Some (True, data') \<and> length data' = unat (head_size s) \<and>
    UnPackData K E caps old (Some data') (length data') =
      Some (True, if sint (cap_version peerCap) \<ge> sint CAP_ACCOUNT_VERSION then s
                  else s\<lparr>ses_storeId := ses_storeId old, ses_accountId := ses_accountId old\<rparr>, length data', caps')"
proof -
  obtain gap1 gap2 pad where p: "gaps_ok s gap1 gap2" "length pad + total_size s = unat (head_size s)"
    "PackData B (head_size s) s data (head_size s) =
      Some (True, packet (of_nat (unat (head_size s) - 16)) s gap1 gap2 (block (ses_storeId s) @ block (ses_accountId s) @ pad))"
    using PackData_ok [OF assms(1-4)] by blast
  define rear where "rear = block (ses_storeId s) @ block (ses_accountId s) @ pad"
  define data' where "data' = packet (of_nat (unat (head_size s) - 16)) s gap1 gap2 rear"
  note h = head_size_value [OF assms(2)]
  have len: "length data' = unat (head_size s)"
    using p(2) length_packet [OF p(1)] by (simp add: data'_def rear_def total_size_def)
  have "unat (of_nat (unat (head_size s) - 16) :: u32) = length data' - 16"
    using h(3) by (simp add: len unat_of_nat)
  note u = UnPackData_packet [OF p(1) data'_def this, of K E caps old]
  have pre: "data' = (front (of_nat (unat (head_size s) - 16)) s gap1 gap2 @ block (ses_appId s)) @ block (ses_storeId s) @ block (ses_accountId s) @ pad"
    by (simp add: data'_def packet_def rear_def)
  have "length (front (of_nat (unat (head_size s) - 16)) s gap1 gap2 @ block (ses_appId s)) = length data' - length rear"
    by (simp add: data'_def packet_def)
  note sa = unpack_store_account [OF assms(2) pre this, of "4 + length (ses_appId s) + length rear" "front_read s old" caps']
  have r: "front_read s old\<lparr>ses_storeId := ses_storeId s, ses_accountId := ses_accountId s\<rparr> = s"
    "front_read s old = s\<lparr>ses_storeId := ses_storeId old, ses_accountId := ses_accountId old\<rparr>"
    using assms(6) by (simp_all add: front_read_def)
  have "UnPackDataBody K E caps old data' 16 (length data' - 16) =
      Some (True, if sint (cap_version peerCap) \<ge> sint CAP_ACCOUNT_VERSION then s
                  else s\<lparr>ses_storeId := ses_storeId old, ses_accountId := ses_accountId old\<rparr>, caps')"
    unfolding UnPackDataBody_front [OF assms(2) p(1) data'_def assms(5)] sa [unfolded r] r(2) [symmetric]
    using sa by (simp add: r(1) rear_def)
  then show ?thesis using p(3) u len by (intro exI [of _ data']) (simp add: data'_def rear_def)
qed

definition plain_copy :: bounded_copy where
  "plain_copy = \<lparr>bc_strcpy = (\<lambda>n len. len < n), bc_memcpy = (\<lambda>n len. 0 < n \<and> len \<le> n)\<rparr>"

lemma plain_copy_ok: "bounded_copy_ok plain_copy"
  by (auto simp: bounded_copy_ok_def plain_copy_def)

definition session0 :: Session where
  "session0 = \<lparr>ses_sourceDeviceId = ''phone'', ses_targetDeviceId = ''tablet'', ses_sourceUserId = 100, ses_targetUserIds = [100, 101],
     ses_appId = ''app'', ses_storeId = ''store'', ses_accountId = ''account''\<rparr>"

definition caps0 :: "(string \<times> CapMetaData) list" where
  "caps0 = [(''phone'', \<lparr>cap_version = 3, cap_deviceId = ''phone''\<rparr>), (''old'', \<lparr>cap_version = 1, cap_deviceId = ''old''\<rparr>)]"

lemma session0_fits: "session_fits session0"
  by (simp add: session_fits_def session0_def)

lemma caps0_phone: "GetCapability alist_cmap (access_env.truncate senv0) caps0 (ses_sourceDeviceId session0) =
    (True, \<lparr>cap_version = 3, cap_deviceId = ''phone''\<rparr>, caps0)"
  by (simp add: GetCapability_def alist_cmap_def caps0_def session0_def)

theorem route_head_roundtrip_witness:
  "\<exists>data'. PackData plain_copy (head_size session0) session0 (replicate (unat (head_size session0)) NUL) (head_size session0) = Some (True, data') \<and>
    UnPackData alist_cmap senv0 caps0 Session_new (Some data') (length data') = Some (True, session0, length data', caps0)"
proof -
  have "ses_accountId session0 \<noteq> []" "ses_targetUserIds Session_new = []" by (simp_all add: session0_def Session_new_def)
  with route_head_roundtrip [OF plain_copy_ok session0_fits _ _ caps0_phone, of "replicate (unat (head_size session0)) NUL" Session_new]
  show ?thesis by auto
qed

text \<open>
  C34: A head that ends after the application makes the reader leave the buffer. The size left is handed
  to the readers of the store and of the account as it was before the application was read; so the
  head of an older sender that is known as a newer one, or a crafted one, is read beyond its end.
\<close>
theorem short_head_read_outside:
  assumes "session_fits s" and "gaps_ok s gap1 gap2" and "data = packet len s gap1 gap2 []" and "unat len = length data - 16"
    and "GetCapability K (access_env.truncate E) caps (ses_sourceDeviceId s) = (True, peerCap, caps')"
    and "sint (cap_version peerCap) \<ge> sint CAP_ACCOUNT_VERSION"
  shows "UnPackData K E caps old (Some data) (length data) = None"
proof -
  have "UnPackStoreId (front_read s old) data (length data - length []) (4 + length (ses_appId s) + length []) = None"
    by (simp add: UnPackStoreId_def unpack_block_def read_at_def)
  then show ?thesis
    unfolding UnPackData_packet [OF assms(2-4)] UnPackDataBody_front [OF assms(1-3,5)] using assms(6) by simp
qed

theorem short_head_read_outside_witness:
  "UnPackData alist_cmap senv0 caps0 Session_new
     (Some (packet 146 (session0\<lparr>ses_targetUserIds := [100]\<rparr>) (replicate 59 NUL) (replicate 58 NUL) [])) 162 = None"
proof -
  let ?s = "session0\<lparr>ses_targetUserIds := [100]\<rparr>"
  let ?d = "packet 146 ?s (replicate 59 NUL) (replicate 58 NUL) []"
  have g: "gaps_ok ?s (replicate 59 NUL) (replicate 58 NUL)" by (simp add: gaps_ok_def session0_def)
  have f: "session_fits ?s" by (simp add: session_fits_def session0_def)
  have l: "length ?d = 162" using length_packet [OF g] by (simp add: session0_def)
  have c: "GetCapability alist_cmap (access_env.truncate senv0) caps0 (ses_sourceDeviceId ?s) = (True, \<lparr>cap_version = 3, cap_deviceId = ''phone''\<rparr>, caps0)"
    using caps0_phone by simp
  show ?thesis using short_head_read_outside [OF f g refl _ c, of 146 Session_new] l by simp
qed

text \<open>What is read before the application is read inside, whatever the bytes are.\<close>

lemma unpack_block_inside: "ptr + left \<le> length data \<Longrightarrow> unpack_block data ptr left \<noteq> None"
  by (auto simp: unpack_block_def read_at_def Let_def)

lemma read_users_inside: "ptr + 4 * n \<le> length data \<Longrightarrow> \<exists>us. read_users data ptr n = Some us"
proof (induction n arbitrary: ptr)
  case (Suc n)
  obtain us where "read_users data (ptr + 4) n = Some us" using Suc.IH [of "ptr + 4"] Suc.prems by auto
  with Suc.prems show ?case by (simp add: read_at_def)
qed simp

text \<open>
  From senders without accounts every head is read inside its buffer: whatever the bytes and
  however long the message, no read goes beyond its end.
\<close>
theorem old_sender_read_inside:
  assumes "\<forall>d. fst (GetCapability K (access_env.truncate E) caps d) \<longrightarrow>
      sint (cap_version (fst (snd (GetCapability K (access_env.truncate E) caps d)))) < sint CAP_ACCOUNT_VERSION"
  shows "UnPackData K E caps old (Some data) (length data) \<noteq> None"
proof (cases "length data < 16")
  case True
  then show ?thesis by (simp add: UnPackData_def)
next
  case False
  then obtain ok head where h: "UnPackDataHead data (length data) = Some (ok, head)" by (auto simp: UnPackDataHead_def read_at_def Let_def)
  have "UnPackDataBody K E caps old data 16 (length data - 16) \<noteq> None"
  proof (cases "length data - 16 < 130 \<or> length data - 146 < 5 + 4 * from_le (take 1 (drop 150 data))")
    case True
    then show ?thesis using False
      by (auto simp: UnPackDataBody_def Let_def read_at_def)
  next
    case big: False
    define cnt where "cnt = take 1 (drop 150 data)"
    define n where "n = from_le cnt"
    define left where "left = length data - 151 - 4 * n"
    have room: "151 + 4 * n + left = length data" using big unfolding cnt_def n_def left_def by arith
    obtain us where us: "read_users data 151 n = Some us" using read_users_inside [of 151 n data] room by auto
    obtain r p where b: "unpack_block data (151 + 4 * n) left = Some (r, p)"
      using unpack_block_inside [of "151 + 4 * n" left data] room by auto
    have cap: "\<not> flag \<or> \<not> 2 \<le> sint (cap_version c)" if "GetCapability K (access_env.truncate E) caps d = (flag, c, caps')" for d flag c caps'
      using assms [rule_format, of d] that by auto
    have reads: "read_at data 16 65 = Some (take 65 (drop 16 data))" "read_at data 81 65 = Some (take 65 (drop 81 data))"
      "read_at data 146 4 = Some (take 4 (drop 146 data))" "read_at data 150 (Suc 0) = Some cnt"
      using room by (simp_all add: read_at_def cnt_def)
    have size: "length data - 16 = 130 + (5 + 4 * n + left)" using room by simp
    have app: "UnPackAppId S data (151 + 4 * n) left = Some (case r of None \<Rightarrow> (False, S, p) | Some s \<Rightarrow> (True, S\<lparr>ses_appId := s\<rparr>, p))" for S
      using b by (simp add: UnPackAppId_def)
    show ?thesis
      unfolding UnPackDataBody_def Let_def size
      using us cap by (cases r) (auto simp: reads n_def [symmetric] app mult.commute [of _ 4] split: prod.splits)
  qed
  then show ?thesis using False h by (auto simp: UnPackData_def split: prod.splits)
qed

theorem old_sender_read_inside_witness:
  "UnPackData alist_cmap (senv0\<lparr>en_loadCap := (\<lambda>k. None)\<rparr>) [(''old'', \<lparr>cap_version = 1, cap_deviceId = ''old''\<rparr>)] Session_new
     (Some ''no head'') (length ''no head'') \<noteq> None"
  by (rule old_sender_read_inside)
    (auto simp: GetCapability_def alist_cmap_def access_env.truncate_def split: if_splits)

subsection \<open>Who receives\<close>

definition recv_ok :: "session_env \<Rightarrow> (string \<Rightarrow> user_map) \<Rightarrow> SessionPoint \<Rightarrow> SessionPoint \<Rightarrow> bool \<Rightarrow> u32 \<Rightarrow> bool" where
  "recv_ok E a loc peer accountFlag u \<longleftrightarrow>
     (case GetRecvAuthParams E (loc\<lparr>sp_userId := u\<rparr>) peer accountFlag of
        None \<Rightarrow> False
      | Some acl \<Rightarrow> access_spec (access_env.truncate E) a u (sp_userId peer) (sp_deviceId peer) acl \<and> (u \<noteq> 0 \<longrightarrow> en_IsUserForeground E u))"

lemma CheckSession_recv:
  assumes "user_maps D dv"
  shows "fst (CheckSession D E st (loc\<lparr>sp_userId := u\<rparr>) peer f) = recv_ok E (users_view (access_env.truncate E) dv st) loc peer f u"
    and "users_view (access_env.truncate E) dv (snd (CheckSession D E st p peer f)) = users_view (access_env.truncate E) dv st"
  by (auto simp: CheckSession_def recv_ok_def split_def CheckAccess_view [OF assms] split: option.splits)

lemma check_users_spec:
  assumes "user_maps D dv" "users_view (access_env.truncate E) dv st = a"
  shows "fst (check_users D E st loc peer f items) =
    map (\<lambda>u. \<lparr>ui_receiveUser = to_string (uint u), ui_sendUser = to_string (uint (sp_userId peer))\<rparr>) (filter (recv_ok E a loc peer f) items)"
  using assms(2)
proof (induction items arbitrary: st)
  case (Cons u items)
  obtain ok st1 where c: "CheckSession D E st (loc\<lparr>sp_userId := u\<rparr>) peer f = (ok, st1)" by (metis prod.collapse)
  have "ok = recv_ok E a loc peer f u" "users_view (access_env.truncate E) dv st1 = a"
    using CheckSession_recv [OF assms(1), of E st] c Cons.prems by (metis fst_conv, metis snd_conv)
  then show ?case using Cons.IH [of st1] c by (simp add: split_def)
qed simp


definition renv0 :: route_env where
  "renv0 = session_env.extend senv0
     \<lparr>en_IsOHOSType = (\<lambda>d. True), en_processLabel = ''distributeddata'', en_metaDBName = ''meta'', en_hasStoreMeta = (\<lambda>k. True),
      en_foregroundUser = 100, en_IsTrust = (\<lambda>b. True), en_Convert = (\<lambda>a. a), en_Identifier = (\<lambda>a s. a @ s)\<rparr>"

definition head0 :: bytes where
  "head0 = packet 170 session0 (replicate 59 NUL) (replicate 58 NUL) (block (ses_storeId session0) @ block (ses_accountId session0))"

lemma renv0_truncate: "session_env.truncate renv0 = senv0" "access_env.truncate renv0 = access_env.truncate senv0"
  by (simp_all add: renv0_def session_env.truncate_def session_env.extend_def access_env.truncate_def)

lemma head0_read:
  "UnPackData alist_cmap senv0 caps0 Session_new (Some head0) (length head0) = Some (True, session0, length head0, caps0)"
proof -
  let ?rear = "block (ses_storeId session0) @ block (ses_accountId session0)"
  let ?pre = "front 170 session0 (replicate 59 NUL) (replicate 58 NUL) @ block (ses_appId session0)"
  have g: "gaps_ok session0 (replicate 59 NUL) (replicate 58 NUL)" by (simp add: gaps_ok_def session0_def)
  have l: "length head0 = 186" using length_packet [OF g] by (simp add: head0_def session0_def)
  have lp: "length ?pre = length head0 - length ?rear" using length_front [OF g] by (simp add: l session0_def)
  have d: "head0 = ?pre @ block (ses_storeId session0) @ block (ses_accountId session0) @ []" by (simp add: head0_def packet_def)
  have "8 + length (ses_storeId session0) + length (ses_accountId session0) \<le> 4 + length (ses_appId session0) + length ?rear"
    by (simp add: session0_def)
  note sa = unpack_store_account [OF session0_fits d lp this, of "front_read session0 Session_new" caps0]
  have r: "front_read session0 Session_new\<lparr>ses_storeId := ses_storeId session0, ses_accountId := ses_accountId session0\<rparr> = session0"
    by (simp add: front_read_def Session_new_def)
  have "UnPackDataBody alist_cmap senv0 caps0 Session_new head0 16 (length head0 - 16) = Some (True, session0, caps0)"
    unfolding UnPackDataBody_front [OF session0_fits g head0_def caps0_phone] using sa unfolding r by simp
  then show ?thesis using UnPackData_packet [OF g head0_def, of alist_cmap senv0 caps0 Session_new] l by simp
qed

lemma recv0: "recv_ok senv0 (\<lambda>d. [(100, True)]) \<lparr>sp_deviceId = ''tablet'', sp_userId = 0, sp_appId = ''app'', sp_storeId = [], sp_accountId = []\<rparr>
    \<lparr>sp_deviceId = ''phone'', sp_userId = 100, sp_appId = ''app'', sp_storeId = [], sp_accountId = ''account''\<rparr> f u \<longleftrightarrow> u = 100"
  by (auto simp: recv_ok_def GetRecvAuthParams_def access_spec_def active_on_def status_of_def IsUserActive_def
      senv0_def env0_def access_env.extend_def access_env.truncate_def StoreMetaData_new_def)


end
