(* ===== verification/Base64.thy ===== *)
theory Base64
  imports CPP_String
begin

text \<open>
  The base-64 codec of \<^verbatim>\<open>framework/utils/base64_utils.cpp\<close>.  The two conversions of a group are
  done on bytes with masks and shifts, as in the code; the loops carry the two working arrays, the
  index into them and the text written so far.  The results are the round trip, the shape of the
  encoded text, and the equality of the loop with the group-wise reading of the format.
\<close>

unbundle bit_operations_syntax

section \<open>Groups of bytes and of characters\<close>

definition BASE64_CHARS :: string where
  "BASE64_CHARS = ''ABCDEFGHIJKLMNOPQRSTUVWXYZabcdefghijklmnopqrstuvwxyz0123456789+/''"

definition isalnum :: "char \<Rightarrow> bool" where
  "isalnum c \<longleftrightarrow> (let n = of_char c :: nat in (48 \<le> n \<and> n \<le> 57) \<or> (65 \<le> n \<and> n \<le> 90) \<or> (97 \<le> n \<and> n \<le> 122))"

definition IsBase64Char :: "char \<Rightarrow> bool" where
  "IsBase64Char c \<longleftrightarrow> isalnum c \<or> c = CHR ''+'' \<or> c = CHR ''/''"

definition MakeCharFour :: "u8 list \<Rightarrow> u8 list" where
  "MakeCharFour t =
     [drop_bit 2 ((t ! 0) AND 0xfc),
      push_bit 4 ((t ! 0) AND 0x03) + drop_bit 4 ((t ! 1) AND 0xf0),
      push_bit 2 ((t ! 1) AND 0x0f) + drop_bit 6 ((t ! 2) AND 0xc0),
      (t ! 2) AND 0x3f]"

definition MakeCharTree :: "u8 list \<Rightarrow> u8 list" where
  "MakeCharTree f =
     [push_bit 2 (f ! 0) + drop_bit 4 ((f ! 1) AND 0x30),
      push_bit 4 ((f ! 1) AND 0xf) + drop_bit 2 ((f ! 2) AND 0x3c),
      push_bit 6 ((f ! 2) AND 0x3) + f ! 3]"

definition code_char :: "u8 \<Rightarrow> char" where
  "code_char i = BASE64_CHARS ! unat i"

section \<open>Encoding\<close>

fun Encode_loop :: "u8 list \<Rightarrow> nat \<Rightarrow> u8 list \<Rightarrow> string \<Rightarrow> nat \<times> u8 list \<times> string" where
  "Encode_loop [] i three ret = (i, three, ret)"
| "Encode_loop (b # bs) i three ret =
     (let three = three[i := b]; i = i + 1
      in if i \<noteq> 3 then Encode_loop bs i three ret
         else Encode_loop bs 0 three (ret @ map code_char (MakeCharFour three)))"

definition Encode :: "u8 list \<Rightarrow> string" where
  "Encode source =
     (case Encode_loop source 0 [0, 0, 0] [] of (i, three, ret) \<Rightarrow>
        if i = 0 then ret
        else let four = MakeCharFour (take i three @ replicate (3 - i) 0)
             in ret @ map code_char (take (i + 1) four) @ replicate (3 - i) (CHR ''=''))"

section \<open>Decoding\<close>

text \<open>
  The position of a character in the alphabet.  In a full group the result of the search is stored as
  a byte, also where the character was not found and the search gave \<^verbatim>\<open>npos\<close>; in the last group such a
  byte is kept as it is.
\<close>

definition code_of :: "u8 \<Rightarrow> u8" where
  "code_of b = (case str_find BASE64_CHARS [char_of (unat b)] 0 of Some k \<Rightarrow> of_nat k | None \<Rightarrow> - 1)"

definition code_or_keep :: "u8 \<Rightarrow> u8" where
  "code_or_keep b = (case str_find BASE64_CHARS [char_of (unat b)] 0 of Some k \<Rightarrow> of_nat k | None \<Rightarrow> b)"

fun Decode_loop :: "string \<Rightarrow> nat \<Rightarrow> u8 list \<Rightarrow> u8 list \<Rightarrow> nat \<times> u8 list \<times> u8 list" where
  "Decode_loop [] i four ret = (i, four, ret)"
| "Decode_loop (c # cs) i four ret =
     (if \<not> IsBase64Char c then (i, four, ret)
      else let four = four[i := of_char c]; i = i + 1
           in if i \<noteq> 4 then Decode_loop cs i four ret
              else let four = map code_of four
                   in Decode_loop cs 0 four (ret @ MakeCharTree four))"

definition Decode :: "string \<Rightarrow> u8 list" where
  "Decode encoded =
     (case Decode_loop encoded 0 [0, 0, 0, 0] [] of (i, four, ret) \<Rightarrow>
        if i = 0 then ret
        else let four = map code_or_keep (take i four @ replicate (4 - i) 0)
             in ret @ take (i - 1) (MakeCharTree four))"

section \<open>One group\<close>

text \<open>Two bytes are equal when their eight bits are; sums of bytes without a common bit are unions of bits.\<close>

lemma u8_eqI:
  fixes a b :: u8
  assumes "bit a 0 = bit b 0" "bit a 1 = bit b 1" "bit a 2 = bit b 2" "bit a 3 = bit b 3"
    "bit a 4 = bit b 4" "bit a 5 = bit b 5" "bit a 6 = bit b 6" "bit a 7 = bit b 7"
  shows "a = b"
proof (rule bit_word_eqI)
  fix n assume "n < LENGTH(8)"
  hence "n = 0 \<or> n = 1 \<or> n = 2 \<or> n = 3 \<or> n = 4 \<or> n = 5 \<or> n = 6 \<or> n = 7" by auto
  thus "bit a n = bit b n" using assms by (elim disjE) simp_all
qed

lemma four_or:
  "MakeCharFour [a, b, c] =
     [drop_bit 2 (a AND 0xfc), push_bit 4 (a AND 0x03) OR drop_bit 4 (b AND 0xf0),
      push_bit 2 (b AND 0x0f) OR drop_bit 6 (c AND 0xc0), c AND 0x3f]"
proof -
  have "push_bit 4 (a AND 0x03) AND drop_bit 4 (b AND 0xf0) = 0" by (rule u8_eqI) (simp_all add: bit_simps)
  moreover have "push_bit 2 (b AND 0x0f) AND drop_bit 6 (c AND 0xc0) = 0" by (rule u8_eqI) (simp_all add: bit_simps)
  ultimately show ?thesis by (simp add: MakeCharFour_def disjunctive_add_eq_or)
qed

lemma tree_or:
  assumes "w AND 0x3f = w"
  shows "MakeCharTree [x, y, z, w] =
     [push_bit 2 x OR drop_bit 4 (y AND 0x30), push_bit 4 (y AND 0xf) OR drop_bit 2 (z AND 0x3c),
      push_bit 6 (z AND 0x3) OR w]"
proof -
  have "push_bit 2 x AND drop_bit 4 (y AND 0x30) = 0" by (rule u8_eqI) (simp_all add: bit_simps)
  moreover have "push_bit 4 (y AND 0xf) AND drop_bit 2 (z AND 0x3c) = 0" by (rule u8_eqI) (simp_all add: bit_simps)
  moreover have "push_bit 6 (z AND 0x3) AND (w AND 0x3f) = 0" by (rule u8_eqI) (simp_all add: bit_simps)
  ultimately show ?thesis using assms by (simp add: MakeCharTree_def disjunctive_add_eq_or)
qed

lemma group_bits: "MakeCharTree (MakeCharFour [a, b, c]) = [a, b, c]"
proof -
  have "push_bit 2 (drop_bit 2 (a AND 0xfc)) OR drop_bit 4 ((push_bit 4 (a AND 0x03) OR drop_bit 4 (b AND 0xf0)) AND 0x30) = a"
    by (rule u8_eqI) (simp_all add: bit_simps)
  moreover have "push_bit 4 ((push_bit 4 (a AND 0x03) OR drop_bit 4 (b AND 0xf0)) AND 0xf) OR
      drop_bit 2 ((push_bit 2 (b AND 0x0f) OR drop_bit 6 (c AND 0xc0)) AND 0x3c) = b"
    by (rule u8_eqI) (simp_all add: bit_simps)
  moreover have "push_bit 6 ((push_bit 2 (b AND 0x0f) OR drop_bit 6 (c AND 0xc0)) AND 0x3) OR (c AND 0x3f) = c"
    by (rule u8_eqI) (simp_all add: bit_simps)
  moreover have "(c AND 0x3f) AND 0x3f = c AND 0x3f" by (rule u8_eqI) (simp_all add: bit_simps)
  ultimately show ?thesis by (simp add: four_or tree_or)
qed

lemma masked_small: "i AND 0x3f = i \<Longrightarrow> unat (i :: u8) < 64"
proof -
  assume "i AND 0x3f = i"
  moreover have "i AND 0x3f = take_bit 6 i" by (rule u8_eqI) (simp_all add: bit_simps)
  ultimately have "i = i mod 64" by (simp add: take_bit_eq_mod)
  hence "unat i = unat (i mod 64)" by simp
  also have "\<dots> = unat i mod 64" by (simp add: unat_mod)
  finally have "unat i = unat i mod 64" .
  thus ?thesis by (metis mod_less_divisor zero_less_numeral)
qed

lemma four_small: "i \<in> set (MakeCharFour [a, b, c]) \<Longrightarrow> unat i < 64"
proof (rule masked_small)
  assume "i \<in> set (MakeCharFour [a, b, c])"
  then consider "i = drop_bit 2 (a AND 0xfc)" | "i = push_bit 4 (a AND 0x03) OR drop_bit 4 (b AND 0xf0)"
    | "i = push_bit 2 (b AND 0x0f) OR drop_bit 6 (c AND 0xc0)" | "i = c AND 0x3f"
    by (auto simp: four_or)
  thus "i AND 0x3f = i"
    by cases (simp_all, (rule u8_eqI, simp_all add: bit_simps)+)
qed

lemma find0_nth: "distinct s \<Longrightarrow> i < length s \<Longrightarrow> find0 [s ! i] s = Some i"
proof (induction s arbitrary: i)
  case (Cons c s) thus ?case by (cases i) auto
qed simp

lemma alphabet: "distinct BASE64_CHARS" "length BASE64_CHARS = 64" "list_all IsBase64Char BASE64_CHARS"
  by (simp_all add: BASE64_CHARS_def IsBase64Char_def isalnum_def)

lemma unat_of_char: "unat (of_char c :: u8) = of_char c"
proof -
  have "(of_char c :: u8) = of_nat (of_char c)" by (rule of_nat_of_char [symmetric])
  thus ?thesis using nat_of_char_less_256 [of c] by (simp add: unat_of_nat)
qed

lemma code_char_facts:
  assumes "unat i < 64"
  shows "IsBase64Char (code_char i)" "code_of (of_char (code_char i)) = i" "code_or_keep (of_char (code_char i)) = i"
proof -
  show "IsBase64Char (code_char i)" using alphabet(2,3) assms by (simp add: code_char_def list_all_length)
  have "str_find BASE64_CHARS [code_char i] 0 = Some (unat i)"
    using find0_nth [OF alphabet(1), of "unat i"] alphabet(2) assms by (simp add: str_find_def code_char_def)
  thus "code_of (of_char (code_char i)) = i" "code_or_keep (of_char (code_char i)) = i"
    by (simp_all add: code_of_def code_or_keep_def unat_of_char)
qed

section \<open>Whole texts\<close>

text \<open>The format group by group: three bytes give four characters, the rest is padded.\<close>

fun encode_groups :: "u8 list \<Rightarrow> string" where
  "encode_groups [] = []"
| "encode_groups [a] = map code_char (take 2 (MakeCharFour [a, 0, 0])) @ ''==''"
| "encode_groups [a, b] = map code_char (take 3 (MakeCharFour [a, b, 0])) @ ''=''"
| "encode_groups (a # b # c # bs) = map code_char (MakeCharFour [a, b, c]) @ encode_groups bs"

lemma length_three: "length t = 3 \<Longrightarrow> \<exists>x y z. t = [x, y, z]"
  by (auto simp: numeral_3_eq_3 length_Suc_conv)

lemma length_four: "length t = 4 \<Longrightarrow> \<exists>x y z w. t = [x, y, z, w]"
  by (auto simp: eval_nat_numeral length_Suc_conv)

lemma Encode_loop_group:
  "length t = 3 \<Longrightarrow>
     Encode_loop (a # b # c # bs) 0 t ret = Encode_loop bs 0 [a, b, c] (ret @ map code_char (MakeCharFour [a, b, c]))"
  by (drule length_three) (auto simp: Let_def eval_nat_numeral)

lemma Encode_loop_groups:
  "length t = 3 \<Longrightarrow>
     (case Encode_loop source 0 t ret of (i, three, r) \<Rightarrow>
        if i = 0 then r
        else let four = MakeCharFour (take i three @ replicate (3 - i) 0)
             in r @ map code_char (take (i + 1) four) @ replicate (3 - i) (CHR ''='')) = ret @ encode_groups source"
proof (induction source arbitrary: t ret rule: encode_groups.induct)
  case (2 a) thus ?case by (drule_tac length_three) (auto simp: Let_def eval_nat_numeral)
next
  case (3 a b) thus ?case by (drule_tac length_three) (auto simp: Let_def eval_nat_numeral)
next
  case (4 a b c bs)
  show ?case using 4(1) [of "[a, b, c]" "ret @ map code_char (MakeCharFour [a, b, c])"]
    unfolding Encode_loop_group [OF 4(2)] by (simp only: encode_groups.simps append_assoc) simp
qed simp

lemma Encode_groups: "Encode source = encode_groups source"
  unfolding Encode_def using Encode_loop_groups [of "[0, 0, 0]" source "[]"] by simp

lemma Decode_loop_group:
  assumes "length t = 4" "unat x < 64" "unat y < 64" "unat z < 64" "unat w < 64"
  shows "Decode_loop (map code_char [x, y, z, w] @ cs) 0 t ret = Decode_loop cs 0 [x, y, z, w] (ret @ MakeCharTree [x, y, z, w])"
  using length_four [OF assms(1)] code_char_facts [OF assms(2)] code_char_facts [OF assms(3)]
    code_char_facts [OF assms(4)] code_char_facts [OF assms(5)]
  by (auto simp: Let_def eval_nat_numeral)

lemma four_list: "\<exists>x y z w. MakeCharFour [a, b, c] = [x, y, z, w] \<and> unat x < 64 \<and> unat y < 64 \<and> unat z < 64 \<and> unat w < 64"
proof -
  obtain x y z w where f: "MakeCharFour [a, b, c] = [x, y, z, w]" by (simp add: MakeCharFour_def)
  thus ?thesis using four_small [of _ a b c] by simp
qed

lemma zero_kept: "code_or_keep 0 = 0"
  by (simp add: code_or_keep_def str_find_def BASE64_CHARS_def char_of_def)

lemma padding: "\<not> IsBase64Char (CHR ''='')"
  by (simp add: IsBase64Char_def isalnum_def)

lemma Decode_loop_groups:
  "length t = 4 \<Longrightarrow>
     (case Decode_loop (encode_groups source) 0 t ret of (i, four, r) \<Rightarrow>
        if i = 0 then r
        else let four = map code_or_keep (take i four @ replicate (4 - i) 0)
             in r @ take (i - 1) (MakeCharTree four)) = ret @ source"
proof (induction source arbitrary: t ret rule: encode_groups.induct)
  case (2 a)
  obtain x y z w where f: "MakeCharFour [a, 0, 0] = [x, y, z, w]" and s: "unat x < 64" "unat y < 64" using four_list by blast
  have zw: "z = 0" "w = 0" using f by (simp_all add: MakeCharFour_def)
  have "MakeCharTree [x, y, 0, 0] = [a, 0, 0]" using group_bits [of a 0 0] f zw by simp
  thus ?case using length_four [OF 2] code_char_facts [OF s(1)] code_char_facts [OF s(2)]
    by (auto simp: f Let_def eval_nat_numeral padding zero_kept)
next
  case (3 a b)
  obtain x y z w where f: "MakeCharFour [a, b, 0] = [x, y, z, w]" and s: "unat x < 64" "unat y < 64" "unat z < 64"
    using four_list by blast
  have w: "w = 0" using f by (simp add: MakeCharFour_def)
  have "MakeCharTree [x, y, z, 0] = [a, b, 0]" using group_bits [of a b 0] f w by simp
  thus ?case using length_four [OF 3] code_char_facts [OF s(1)] code_char_facts [OF s(2)] code_char_facts [OF s(3)]
    by (auto simp: f Let_def eval_nat_numeral padding zero_kept)
next
  case (4 a b c bs)
  obtain x y z w where f: "MakeCharFour [a, b, c] = [x, y, z, w]"
    and s: "unat x < 64" "unat y < 64" "unat z < 64" "unat w < 64" using four_list by blast
  have "MakeCharTree [x, y, z, w] = [a, b, c]" using group_bits [of a b c] f by simp
  thus ?case using 4(1) [of "[x, y, z, w]" "ret @ [a, b, c]"] Decode_loop_group [OF 4(2) s, of "encode_groups bs" ret]
    by (simp add: f)
qed simp

lemma encode_groups_shape:
  "length (encode_groups source) = 4 * ((length source + 2) div 3)"
  "\<forall>c \<in> set (encode_groups source). IsBase64Char c \<or> c = CHR ''=''"
proof (induction source rule: encode_groups.induct)
  case (2 a)
  { case 1 show ?case using four_list [of a 0 0] by auto }
  { case 2 show ?case using four_list [of a 0 0] by (auto simp: eval_nat_numeral code_char_facts) }
next
  case (3 a b)
  { case 1 show ?case using four_list [of a b 0] by auto }
  { case 2 show ?case using four_list [of a b 0] by (auto simp: eval_nat_numeral code_char_facts) }
next
  case (4 a b c bs)
  { case 1
    have "(5 + length bs) div 3 = Suc (Suc (Suc (length bs)) div 3)" by presburger
    thus ?case using 4 four_list [of a b c] by auto }
  { case 2 show ?case using 4 four_list [of a b c] by (auto simp: code_char_facts) }
qed simp_all

text \<open>
  C10: The base-64 codec is lossless on every sequence of bytes: decoding what was encoded gives the
  bytes back.  The encoded text has four characters for every three bytes begun, all of them letters
  of the alphabet or the padding sign, and it is the text the format prescribes group by group.
\<close>

theorem Base64_roundtrip:
  "Decode (Encode source) = source \<and>
   Encode source = encode_groups source \<and>
   length (Encode source) = 4 * ((length source + 2) div 3) \<and>
   list_all (\<lambda>c. IsBase64Char c \<or> c = CHR ''='') (Encode source)"
proof -
  have "Decode (Encode source) = source"
    unfolding Decode_def Encode_groups using Decode_loop_groups [of "[0, 0, 0, 0]" source "[]"] by simp
  thus ?thesis by (simp add: Encode_groups encode_groups_shape list_all_iff)
qed

end
