(* ===== verification/Timeline.thy ===== *)
theory Timeline
  imports DDS_Prelude "HOL-Library.Multiset"
begin

text \<open>
  A container ordered by time points, as the two schedulers of the service keep it: a
  \<^verbatim>\<open>std::multimap\<close> from time points, and a \<^verbatim>\<open>std::priority_queue\<close> whose top is the entry with the
  earliest time.  Both are lists of entries in ascending order; a new entry goes behind the entries
  with the same time, which is what \<^verbatim>\<open>emplace\<close> of a multimap guarantees.  Times are steady-clock
  ticks in nanoseconds.
\<close>

type_synonym time = int

abbreviation (input) ms :: "u32 \<Rightarrow> time" where
  "ms d \<equiv> int (unat d) * 1000000"

fun emplace :: "time \<Rightarrow> 'a \<Rightarrow> (time \<times> 'a) list \<Rightarrow> (time \<times> 'a) list" where
  "emplace t x [] = [(t, x)]"
| "emplace t x (e # es) = (if fst e \<le> t then e # emplace t x es else (t, x) # e # es)"

definition ordered :: "(time \<times> 'a) list \<Rightarrow> bool" where
  "ordered q \<longleftrightarrow> sorted (map fst q)"

lemma mset_emplace [simp]: "mset (emplace t x q) = add_mset (t, x) (mset q)"
  by (induction q) auto

lemma set_emplace [simp]: "set (emplace t x q) = insert (t, x) (set q)"
  by (induction q) auto

lemma length_emplace [simp]: "length (emplace t x q) = Suc (length q)"
  by (induction q) auto

lemma emplace_not_Nil [simp]: "emplace t x q \<noteq> []"
  by (cases q) auto

lemma ordered_Nil [simp]: "ordered []"
  by (simp add: ordered_def)

lemma ordered_Cons [simp]: "ordered ((t, x) # q) \<longleftrightarrow> (\<forall>e \<in> set q. t \<le> fst e) \<and> ordered q"
  by (auto simp: ordered_def)

lemma ordered_emplace [simp]: "ordered (emplace t x q) \<longleftrightarrow> ordered q"
  by (induction q) (auto simp: ordered_def)

lemma ordered_filter [intro]: "ordered q \<Longrightarrow> ordered (filter P q)"
  by (induction q) (auto simp: ordered_def)

lemma ordered_drop [intro]: "ordered q \<Longrightarrow> ordered (drop n q)"
  unfolding ordered_def by (metis sorted_wrt_drop drop_map)

lemma ordered_dropWhile [intro]: "ordered q \<Longrightarrow> ordered (dropWhile P q)"
  unfolding ordered_def by (metis dropWhile_eq_drop sorted_wrt_drop drop_map)

lemma emplace_hd: "hd (emplace t x q) = (if q = [] \<or> t < fst (hd q) then (t, x) else hd q)"
  by (cases q) auto

end
