(* ===== verification/Sync_Manager.thy ===== *)
theory Sync_Manager
  imports Timeline
begin

text \<open>
  The scheduler of delayed synchronisations, \<^verbatim>\<open>service/kvdb/kvstore_sync_manager.cpp\<close>.  The state has
  the three containers of the class, the time of the last timer, and the counter of operations.  The
  executor pool is outside the repository: the timers handed to it and not yet run are a list of the
  state, and any of them may fire next.  The synchronisation function of an operation is an opaque
  value; what a call of it does is a parameter: its status, and whether it reports the end of the
  synchronisation before it returns.  The log of calls and of reported ends is part of the state.

  A timer's callback takes the due operations under the lock, calls them without it, and finishes
  under the lock again; the steps of the state machine are these critical sections, so that other
  requests can come between them.  Results: a wake-up is never lost, and the timers run every
  scheduled operation.
\<close>

section \<open>State\<close>

datatype Status = SUCCESS | INVALID_ARGUMENT | ERROR

record ('f, 'e) KvSyncOperation =
  op_syncId :: u64
  op_opSeq :: u32
  op_delayMs :: u32
  op_syncFunc :: 'f
  op_syncEnd :: "'e option"
  op_beginTime :: time

record ('f, 'e) SyncManager =
  realtimeSyncingOps :: "('f, 'e) KvSyncOperation list"
  delaySyncingOps :: "('f, 'e) KvSyncOperation list"
  scheduleSyncOps :: "(time \<times> ('f, 'e) KvSyncOperation) list"
  sm_executors :: bool
  nextScheduleTime :: time
  syncOpSeq :: u32
  sm_timers :: "time list"
  sm_running :: "(bool \<times> ('f, 'e) KvSyncOperation list) list"
  sm_calls :: "('f, 'e) KvSyncOperation list"
  sm_ends :: "u32 list"

definition SyncManager_new :: "('f, 'e) SyncManager" where
  "SyncManager_new = \<lparr>realtimeSyncingOps = [], delaySyncingOps = [], scheduleSyncOps = [], sm_executors = False,
     nextScheduleTime = 0, syncOpSeq = 0, sm_timers = [], sm_running = [], sm_calls = [], sm_ends = []\<rparr>"

abbreviation (input) SYNC_MIN_DELAY_MS :: u32 where "SYNC_MIN_DELAY_MS \<equiv> 100"
abbreviation (input) SYNCING_TIMEOUT_MS :: u32 where "SYNCING_TIMEOUT_MS \<equiv> 5000"
abbreviation (input) REALTIME_PRIOR_SYNCING_MS :: u32 where "REALTIME_PRIOR_SYNCING_MS \<equiv> 300"
abbreviation (input) DELAY_TIME_RANGE_DIVISOR :: u32 where "DELAY_TIME_RANGE_DIVISOR \<equiv> 4"

section \<open>Operations\<close>

definition GetExpireTimeRange :: "u32 \<Rightarrow> u32" where
  "GetExpireTimeRange delayMs = max (delayMs div DELAY_TIME_RANGE_DIVISOR) (drop_bit 1 SYNC_MIN_DELAY_MS)"

fun DoRemoveSyncingOp :: "(('f, 'e) KvSyncOperation \<Rightarrow> bool) \<Rightarrow> ('f, 'e) KvSyncOperation list \<Rightarrow> u32 \<times> ('f, 'e) KvSyncOperation list" where
  "DoRemoveSyncingOp pred [] = (0, [])"
| "DoRemoveSyncingOp pred (x # xs) =
     (case DoRemoveSyncingOp pred xs of (cnt, ys) \<Rightarrow> if pred x then (cnt + 1, ys) else (cnt, x # ys))"

definition RemoveSyncingOp :: "u32 \<Rightarrow> u32 \<Rightarrow> ('f, 'e) SyncManager \<Rightarrow> Status \<times> ('f, 'e) SyncManager" where
  "RemoveSyncingOp opSeq delayMs s =
     (let pred = (\<lambda>x. op_opSeq x = opSeq)
      in if delayMs = 0
         then case DoRemoveSyncingOp pred (realtimeSyncingOps s) of (cnt, xs) \<Rightarrow>
                (if cnt = 1 then SUCCESS else ERROR, s\<lparr>realtimeSyncingOps := xs\<rparr>)
         else case DoRemoveSyncingOp pred (delaySyncingOps s) of (cnt, xs) \<Rightarrow>
                (if cnt = 1 then SUCCESS else ERROR, s\<lparr>delaySyncingOps := xs\<rparr>))"

text \<open>The function the manager wraps around the caller's callback, called when a synchronisation ends.\<close>

definition endFunc :: "u32 \<Rightarrow> u32 \<Rightarrow> ('f, 'e) SyncManager \<Rightarrow> ('f, 'e) SyncManager" where
  "endFunc opSeq delayMs s =
     (case RemoveSyncingOp opSeq delayMs s of (_, s) \<Rightarrow> s\<lparr>sm_ends := sm_ends s @ [opSeq]\<rparr>)"

definition call_syncFunc ::
  "('f \<Rightarrow> Status \<times> bool) \<Rightarrow> ('f, 'e) KvSyncOperation \<Rightarrow> ('f, 'e) SyncManager \<Rightarrow> Status \<times> ('f, 'e) SyncManager" where
  "call_syncFunc outcome x s =
     (let s = s\<lparr>sm_calls := sm_calls s @ [x]\<rparr>
      in case outcome (op_syncFunc x) of (status, ended) \<Rightarrow>
           (status, if ended \<and> op_syncEnd x \<noteq> None then endFunc (op_opSeq x) (op_delayMs x) s else s))"

definition AddTimer :: "time \<Rightarrow> ('f, 'e) SyncManager \<Rightarrow> ('f, 'e) SyncManager" where
  "AddTimer expireTime s =
     (let s = s\<lparr>nextScheduleTime := expireTime\<rparr>
      in if sm_executors s then s\<lparr>sm_timers := sm_timers s @ [expireTime]\<rparr> else s)"

definition AddSyncOperation ::
  "('f \<Rightarrow> Status \<times> bool) \<Rightarrow> time \<Rightarrow> u64 \<Rightarrow> u32 \<Rightarrow> 'f option \<Rightarrow> 'e option \<Rightarrow> ('f, 'e) SyncManager \<Rightarrow> Status \<times> ('f, 'e) SyncManager" where
  "AddSyncOperation outcome now syncId delayMs syncFunc syncEnd s =
     (case syncFunc of
        None \<Rightarrow> (INVALID_ARGUMENT, s)
      | Some func \<Rightarrow>
          if syncId = 0 then (INVALID_ARGUMENT, s)
          else let opSeq = syncOpSeq s + 1;
                   s = s\<lparr>syncOpSeq := opSeq\<rparr>;
                   beginTime = now + ms delayMs;
                   syncOp = \<lparr>op_syncId = syncId, op_opSeq = opSeq, op_delayMs = delayMs, op_syncFunc = func,
                             op_syncEnd = syncEnd, op_beginTime = beginTime\<rparr>
               in if delayMs = 0
                  then let s = (if syncEnd \<noteq> None then s\<lparr>realtimeSyncingOps := realtimeSyncingOps s @ [syncOp]\<rparr> else s)
                       in case call_syncFunc outcome syncOp s of (status, s) \<Rightarrow>
                            if status \<noteq> SUCCESS then (status, snd (RemoveSyncingOp opSeq 0 s)) else (status, s)
                  else let s = s\<lparr>scheduleSyncOps := emplace beginTime syncOp (scheduleSyncOps s)\<rparr>
                       in if length (scheduleSyncOps s) = 1 \<or>
                             beginTime + ms (GetExpireTimeRange delayMs) < nextScheduleTime s
                          then (SUCCESS, AddTimer beginTime s)
                          else (SUCCESS, s))"

fun remove_scheduled :: "u64 \<Rightarrow> (time \<times> ('f, 'e) KvSyncOperation) list \<Rightarrow> u32 \<Rightarrow> u32 \<times> (time \<times> ('f, 'e) KvSyncOperation) list" where
  "remove_scheduled syncId [] cnt = (cnt, [])"
| "remove_scheduled syncId (x # xs) cnt =
     (if op_syncId (snd x) = syncId then remove_scheduled syncId xs (cnt + 1)
      else case remove_scheduled syncId xs cnt of (cnt, ys) \<Rightarrow> (cnt, x # ys))"

definition RemoveSyncOperation :: "u64 \<Rightarrow> ('f, 'e) SyncManager \<Rightarrow> Status \<times> ('f, 'e) SyncManager" where
  "RemoveSyncOperation syncId s =
     (let pred = (\<lambda>x. op_syncId x = syncId)
      in case DoRemoveSyncingOp pred (realtimeSyncingOps s) of (cnt, realtime) \<Rightarrow>
         case DoRemoveSyncingOp pred (delaySyncingOps s) of (cnt2, delayed) \<Rightarrow>
         case remove_scheduled syncId (scheduleSyncOps s) (cnt + cnt2) of (cnt, sched) \<Rightarrow>
           (if 0 < cnt then SUCCESS else ERROR,
            s\<lparr>realtimeSyncingOps := realtime, delaySyncingOps := delayed, scheduleSyncOps := sched\<rparr>))"

fun take_due :: "time \<Rightarrow> (time \<times> ('f, 'e) KvSyncOperation) list \<Rightarrow> ('f, 'e) KvSyncOperation list \<times> (time \<times> ('f, 'e) KvSyncOperation) list" where
  "take_due currentTime [] = ([], [])"
| "take_due currentTime ((expireTime, x) # xs) =
     (if currentTime + ms (GetExpireTimeRange (op_delayMs x)) < expireTime then ([], (expireTime, x) # xs)
      else case take_due currentTime xs of (due, rest) \<Rightarrow> (x # due, rest))"

definition GetTimeoutSyncOps :: "time \<Rightarrow> ('f, 'e) SyncManager \<Rightarrow> bool \<times> ('f, 'e) KvSyncOperation list \<times> ('f, 'e) SyncManager" where
  "GetTimeoutSyncOps currentTime s =
     (if realtimeSyncingOps s \<noteq> [] \<and> scheduleSyncOps s \<noteq> [] \<and>
         currentTime < op_beginTime (last (realtimeSyncingOps s)) + ms REALTIME_PRIOR_SYNCING_MS
      then (True, [], s)
      else case take_due currentTime (scheduleSyncOps s) of (due, rest) \<Rightarrow>
             (False, due, s\<lparr>delaySyncingOps := delaySyncingOps s @ filter (\<lambda>x. op_syncEnd x \<noteq> None) due,
                            scheduleSyncOps := rest\<rparr>))"

definition DoCheckSyncingTimeout :: "time \<Rightarrow> ('f, 'e) KvSyncOperation list \<Rightarrow> ('f, 'e) KvSyncOperation list" where
  "DoCheckSyncingTimeout now syncingOps =
     snd (DoRemoveSyncingOp (\<lambda>x. op_beginTime x + ms SYNCING_TIMEOUT_MS < now) syncingOps)"

fun call_all :: "('f \<Rightarrow> Status \<times> bool) \<Rightarrow> ('f, 'e) KvSyncOperation list \<Rightarrow> ('f, 'e) SyncManager \<Rightarrow> ('f, 'e) SyncManager" where
  "call_all outcome [] s = s"
| "call_all outcome (x # xs) s = call_all outcome xs (snd (call_syncFunc outcome x s))"

definition Schedule_end :: "time \<Rightarrow> bool \<Rightarrow> ('f, 'e) SyncManager \<Rightarrow> ('f, 'e) SyncManager" where
  "Schedule_end now delaySchedule s =
     (let s = s\<lparr>realtimeSyncingOps := DoCheckSyncingTimeout now (realtimeSyncingOps s),
                delaySyncingOps := DoCheckSyncingTimeout now (delaySyncingOps s)\<rparr>
      in case scheduleSyncOps s of
           [] \<Rightarrow> s
         | (first, _) # _ \<Rightarrow> AddTimer (if delaySchedule then now + ms SYNC_MIN_DELAY_MS else first) s)"

definition Schedule :: "('f \<Rightarrow> Status \<times> bool) \<Rightarrow> time \<Rightarrow> time \<Rightarrow> ('f, 'e) SyncManager \<Rightarrow> ('f, 'e) SyncManager" where
  "Schedule outcome now time s =
     (case GetTimeoutSyncOps time s of (delaySchedule, syncOps, s) \<Rightarrow>
        Schedule_end now delaySchedule (call_all outcome syncOps s))"

definition SyncManager_SetThreadPool :: "('f, 'e) SyncManager \<Rightarrow> ('f, 'e) SyncManager" where
  "SyncManager_SetThreadPool s = s\<lparr>sm_executors := True\<rparr>"

section \<open>Facts about the operations\<close>

lemma DoRemove_filter [simp]: "snd (DoRemoveSyncingOp P xs) = filter (\<lambda>x. \<not> P x) xs"
  by (induction xs) (auto split: prod.splits)

lemma DoRemove_count: "fst (DoRemoveSyncingOp P xs) = of_nat (length (filter P xs))"
  by (induction xs) (auto split: prod.splits)

lemma DoRemove_pair: "DoRemoveSyncingOp P xs = (of_nat (length (filter P xs)), filter (\<lambda>x. \<not> P x) xs)"
  by (metis DoRemove_count DoRemove_filter prod.collapse)

lemma remove_scheduled_pair:
  "remove_scheduled syncId xs n =
     (n + of_nat (length (filter (\<lambda>x. op_syncId (snd x) = syncId) xs)), filter (\<lambda>x. op_syncId (snd x) \<noteq> syncId) xs)"
  by (induction xs arbitrary: n) auto

lemma RemoveSyncingOp_keeps:
  assumes "RemoveSyncingOp q d s = (st, s')"
  shows "scheduleSyncOps s' = scheduleSyncOps s" "sm_timers s' = sm_timers s" "nextScheduleTime s' = nextScheduleTime s"
    "sm_executors s' = sm_executors s" "sm_running s' = sm_running s" "sm_calls s' = sm_calls s"
    "set (realtimeSyncingOps s') \<subseteq> set (realtimeSyncingOps s)"
  using assms by (auto simp: RemoveSyncingOp_def DoRemove_pair Let_def split: if_splits)

lemma endFunc_keeps:
  "scheduleSyncOps (endFunc q d s) = scheduleSyncOps s" "sm_timers (endFunc q d s) = sm_timers s"
  "nextScheduleTime (endFunc q d s) = nextScheduleTime s" "sm_executors (endFunc q d s) = sm_executors s"
  "sm_running (endFunc q d s) = sm_running s" "sm_calls (endFunc q d s) = sm_calls s"
  "set (realtimeSyncingOps (endFunc q d s)) \<subseteq> set (realtimeSyncingOps s)"
  by (auto simp: endFunc_def split: prod.splits dest: RemoveSyncingOp_keeps)

lemma call_syncFunc_keeps:
  assumes "call_syncFunc outcome x s = (st, s')"
  shows "scheduleSyncOps s' = scheduleSyncOps s" "sm_timers s' = sm_timers s" "nextScheduleTime s' = nextScheduleTime s"
    "sm_executors s' = sm_executors s" "sm_running s' = sm_running s" "sm_calls s' = sm_calls s @ [x]"
    "set (realtimeSyncingOps s') \<subseteq> set (realtimeSyncingOps s)"
  using assms endFunc_keeps [of "op_opSeq x" "op_delayMs x" "s\<lparr>sm_calls := sm_calls s @ [x]\<rparr>"]
  by (auto simp: call_syncFunc_def Let_def split: prod.splits if_splits)

lemma call_all_keeps:
  "scheduleSyncOps (call_all outcome xs s) = scheduleSyncOps s \<and> sm_timers (call_all outcome xs s) = sm_timers s \<and>
   nextScheduleTime (call_all outcome xs s) = nextScheduleTime s \<and> sm_executors (call_all outcome xs s) = sm_executors s \<and>
   sm_running (call_all outcome xs s) = sm_running s \<and> sm_calls (call_all outcome xs s) = sm_calls s @ xs \<and>
   set (realtimeSyncingOps (call_all outcome xs s)) \<subseteq> set (realtimeSyncingOps s)"
proof (induction xs arbitrary: s)
  case (Cons x xs)
  obtain st s' where c: "call_syncFunc outcome x s = (st, s')" by force
  show ?case using Cons [of s'] call_syncFunc_keeps [OF c] by (auto simp: c)
qed simp

lemma take_due_split: "take_due t xs = (due, rest) \<Longrightarrow> map snd xs = due @ map snd rest \<and> length xs = length due + length rest"
  by (induction xs arbitrary: due rest rule: take_due.induct) (auto split: if_splits prod.splits)

lemma take_due_suffix: "take_due t xs = (due, rest) \<Longrightarrow> rest = drop (length due) xs"
  by (induction xs arbitrary: due rest rule: take_due.induct) (auto split: if_splits prod.splits)

lemma take_due_none:
  "take_due t xs = ([], rest) \<Longrightarrow> rest = xs \<and> (xs \<noteq> [] \<longrightarrow> t < fst (hd xs))"
proof (induction xs)
  case (Cons x xs)
  have "0 \<le> ms (GetExpireTimeRange (op_delayMs (snd x)))" by simp
  thus ?case using Cons(2) by (cases x) (auto split: if_splits prod.splits simp del: of_nat_unat)
qed simp

text \<open>What a timer's callback does, in its two cases.\<close>

definition postpones :: "time \<Rightarrow> ('f, 'e) SyncManager \<Rightarrow> bool" where
  "postpones time s \<longleftrightarrow> realtimeSyncingOps s \<noteq> [] \<and> scheduleSyncOps s \<noteq> [] \<and>
     time < op_beginTime (last (realtimeSyncingOps s)) + ms REALTIME_PRIOR_SYNCING_MS"

lemma Schedule_end_facts:
  "scheduleSyncOps (Schedule_end now d s) = scheduleSyncOps s \<and> sm_calls (Schedule_end now d s) = sm_calls s \<and>
   sm_running (Schedule_end now d s) = sm_running s \<and> sm_executors (Schedule_end now d s) = sm_executors s \<and>
   set (realtimeSyncingOps (Schedule_end now d s)) \<subseteq> set (realtimeSyncingOps s) \<and>
   (scheduleSyncOps s = [] \<longrightarrow> sm_timers (Schedule_end now d s) = sm_timers s) \<and>
   (scheduleSyncOps s \<noteq> [] \<longrightarrow>
     nextScheduleTime (Schedule_end now d s) = (if d then now + ms SYNC_MIN_DELAY_MS else fst (hd (scheduleSyncOps s))) \<and>
     (sm_executors s \<longrightarrow> sm_timers (Schedule_end now d s) = sm_timers s @ [nextScheduleTime (Schedule_end now d s)]))"
  by (auto simp: Schedule_end_def DoCheckSyncingTimeout_def AddTimer_def Let_def split: list.splits)

lemma Schedule_postponed:
  assumes "postpones time s" "sm_executors s"
  shows "scheduleSyncOps (Schedule outcome now time s) = scheduleSyncOps s"
    "sm_calls (Schedule outcome now time s) = sm_calls s"
    "sm_timers (Schedule outcome now time s) = sm_timers s @ [now + ms SYNC_MIN_DELAY_MS]"
    "sm_executors (Schedule outcome now time s)" "sm_running (Schedule outcome now time s) = sm_running s"
    "set (realtimeSyncingOps (Schedule outcome now time s)) \<subseteq> set (realtimeSyncingOps s)"
  using assms Schedule_end_facts [of now True s]
  by (auto simp: Schedule_def GetTimeoutSyncOps_def postpones_def)

lemma Schedule_taken:
  assumes "\<not> postpones time s" "sm_executors s" "take_due time (scheduleSyncOps s) = (due, rest)"
  shows "scheduleSyncOps (Schedule outcome now time s) = rest"
    "sm_calls (Schedule outcome now time s) = sm_calls s @ due"
    "sm_timers (Schedule outcome now time s) = (if rest = [] then sm_timers s else sm_timers s @ [fst (hd rest)])"
    "sm_executors (Schedule outcome now time s)" "sm_running (Schedule outcome now time s) = sm_running s"
    "set (realtimeSyncingOps (Schedule outcome now time s)) \<subseteq> set (realtimeSyncingOps s)"
proof -
  define s1 where "s1 = s\<lparr>delaySyncingOps := delaySyncingOps s @ filter (\<lambda>x. op_syncEnd x \<noteq> None) due, scheduleSyncOps := rest\<rparr>"
  have g: "GetTimeoutSyncOps time s = (False, due, s1)"
    using assms(1,3) by (auto simp: GetTimeoutSyncOps_def postpones_def s1_def)
  have e: "Schedule outcome now time s = Schedule_end now False (call_all outcome due s1)" by (simp add: Schedule_def g)
  note f = Schedule_end_facts [of now False "call_all outcome due s1"] and c = call_all_keeps [of outcome due s1]
  have k: "scheduleSyncOps s1 = rest" "sm_timers s1 = sm_timers s" "sm_calls s1 = sm_calls s" "sm_executors s1"
    "sm_running s1 = sm_running s" "realtimeSyncingOps s1 = realtimeSyncingOps s"
    using assms(2) by (simp_all add: s1_def)
  show "scheduleSyncOps (Schedule outcome now time s) = rest" "sm_calls (Schedule outcome now time s) = sm_calls s @ due"
    "sm_executors (Schedule outcome now time s)" "sm_running (Schedule outcome now time s) = sm_running s"
    using f c k by (simp_all add: e)
  show "sm_timers (Schedule outcome now time s) = (if rest = [] then sm_timers s else sm_timers s @ [fst (hd rest)])"
    using f c k by (cases "rest = []") (simp_all add: e)
  show "set (realtimeSyncingOps (Schedule outcome now time s)) \<subseteq> set (realtimeSyncingOps s)"
    using f c k by (simp add: e) blast
qed

section \<open>Interleavings\<close>

datatype ('f, 'e) sm_event =
    SM_Add time u64 u32 "'f option" "'e option"
  | SM_Remove u64
  | SM_Ended u32 u32
  | SM_Timer time
  | SM_Finish nat time

fun sm_step :: "('f \<Rightarrow> Status \<times> bool) \<Rightarrow> ('f, 'e) SyncManager \<Rightarrow> ('f, 'e) sm_event \<Rightarrow> ('f, 'e) SyncManager" where
  "sm_step outcome s (SM_Add now syncId delayMs func syncEnd) = snd (AddSyncOperation outcome now syncId delayMs func syncEnd s)"
| "sm_step outcome s (SM_Remove syncId) = snd (RemoveSyncOperation syncId s)"
| "sm_step outcome s (SM_Ended opSeq delayMs) = endFunc opSeq delayMs s"
| "sm_step outcome s (SM_Timer time) =
     (if time \<in> set (sm_timers s)
      then case GetTimeoutSyncOps time (s\<lparr>sm_timers := remove1 time (sm_timers s)\<rparr>) of (delaySchedule, syncOps, s) \<Rightarrow>
             s\<lparr>sm_running := sm_running s @ [(delaySchedule, syncOps)]\<rparr>
      else s)"
| "sm_step outcome s (SM_Finish i now) =
     (if i < length (sm_running s)
      then case sm_running s ! i of (delaySchedule, syncOps) \<Rightarrow>
             Schedule_end now delaySchedule
               (call_all outcome syncOps (s\<lparr>sm_running := take i (sm_running s) @ drop (Suc i) (sm_running s)\<rparr>))
      else s)"

definition sm_start :: "('f, 'e) SyncManager" where
  "sm_start = SyncManager_SetThreadPool SyncManager_new"

definition sm_inv :: "('f, 'e) SyncManager \<Rightarrow> bool" where
  "sm_inv s \<longleftrightarrow> sm_executors s \<and> ordered (scheduleSyncOps s) \<and>
     (scheduleSyncOps s \<noteq> [] \<longrightarrow> nextScheduleTime s \<in> set (sm_timers s) \<or> sm_running s \<noteq> [])"

text \<open>The part of the state the invariant is about, and the operations that leave it alone.\<close>

definition sm_core :: "('f, 'e) SyncManager \<Rightarrow> bool \<times> (time \<times> ('f, 'e) KvSyncOperation) list \<times> time \<times> time list \<times> (bool \<times> ('f, 'e) KvSyncOperation list) list" where
  "sm_core s = (sm_executors s, scheduleSyncOps s, nextScheduleTime s, sm_timers s, sm_running s)"

lemma sm_inv_core: "sm_core s' = sm_core s \<Longrightarrow> sm_inv s' \<longleftrightarrow> sm_inv s"
  by (simp add: sm_core_def sm_inv_def)

lemma RemoveSyncingOp_core [simp]: "sm_core (snd (RemoveSyncingOp q d s)) = sm_core s"
  by (auto simp: RemoveSyncingOp_def DoRemove_pair sm_core_def Let_def)

lemma endFunc_core [simp]: "sm_core (endFunc q d s) = sm_core s"
  by (simp add: endFunc_keeps sm_core_def)

lemma call_syncFunc_core [simp]: "sm_core (snd (call_syncFunc outcome x s)) = sm_core s"
proof -
  obtain st s' where c: "call_syncFunc outcome x s = (st, s')" by force
  show ?thesis using call_syncFunc_keeps [OF c] by (simp add: c sm_core_def)
qed

lemma Add_realtime_core: "sm_core (snd (AddSyncOperation outcome now i 0 f e s)) = sm_core s"
proof (cases f)
  case (Some g)
  define q where "q = syncOpSeq s + 1"
  define x where "x = \<lparr>op_syncId = i, op_opSeq = q, op_delayMs = 0, op_syncFunc = g, op_syncEnd = e, op_beginTime = now + ms 0\<rparr>"
  define s1 where "s1 = (if e \<noteq> None then s\<lparr>syncOpSeq := q, realtimeSyncingOps := realtimeSyncingOps s @ [x]\<rparr> else s\<lparr>syncOpSeq := q\<rparr>)"
  obtain st s2 where c: "call_syncFunc outcome x s1 = (st, s2)" by force
  have "snd (AddSyncOperation outcome now i 0 f e s) =
      (if i = 0 then s else if st \<noteq> SUCCESS then snd (RemoveSyncingOp q 0 s2) else s2)"
    using c by (cases e) (simp_all add: AddSyncOperation_def Some Let_def q_def x_def s1_def)
  moreover have "sm_core s2 = sm_core s1" using call_syncFunc_core [of outcome x s1] by (simp add: c)
  moreover have "sm_core s1 = sm_core s" by (simp add: s1_def sm_core_def)
  ultimately show ?thesis by simp
qed (simp add: AddSyncOperation_def)

lemma AddTimer_facts:
  "scheduleSyncOps (AddTimer t s) = scheduleSyncOps s" "sm_executors (AddTimer t s) = sm_executors s"
  "nextScheduleTime (AddTimer t s) = t" "sm_running (AddTimer t s) = sm_running s"
  "realtimeSyncingOps (AddTimer t s) = realtimeSyncingOps s"
  "sm_timers (AddTimer t s) = (if sm_executors s then sm_timers s @ [t] else sm_timers s)"
  by (simp_all add: AddTimer_def Let_def)

lemma Add_inv: "sm_inv s \<Longrightarrow> sm_inv (snd (AddSyncOperation outcome now i d f e s))"
proof (cases "d = 0")
  case True
  thus "sm_inv s \<Longrightarrow> ?thesis" using sm_inv_core [OF Add_realtime_core] by blast
next
  case False
  thus "sm_inv s \<Longrightarrow> ?thesis"
    by (auto simp: AddSyncOperation_def sm_inv_def Let_def AddTimer_facts split: option.splits)
qed

lemma Remove_inv: "sm_inv s \<Longrightarrow> sm_inv (snd (RemoveSyncOperation i s))"
  by (auto simp: RemoveSyncOperation_def sm_inv_def Let_def DoRemove_pair remove_scheduled_pair)

lemma Timer_inv: "sm_inv s \<Longrightarrow> sm_inv (sm_step outcome s (SM_Timer t))"
proof -
  assume i: "sm_inv s"
  obtain due rest where t: "take_due t (scheduleSyncOps s) = (due, rest)" by force
  have "ordered rest" using i take_due_suffix [OF t] by (auto simp: sm_inv_def)
  thus ?thesis using i by (auto simp: sm_inv_def GetTimeoutSyncOps_def t)
qed

lemma Finish_inv: "sm_inv s \<Longrightarrow> sm_inv (sm_step outcome s (SM_Finish i now))"
proof (cases "i < length (sm_running s)")
  case True
  assume v: "sm_inv s"
  obtain d xs where r: "sm_running s ! i = (d, xs)" by force
  define s1 where "s1 = s\<lparr>sm_running := take i (sm_running s) @ drop (Suc i) (sm_running s)\<rparr>"
  define s2 where "s2 = call_all outcome xs s1"
  have "sm_executors s2" "ordered (scheduleSyncOps s2)"
    using v call_all_keeps [of outcome xs s1] by (simp_all add: s2_def s1_def sm_inv_def)
  moreover have "sm_step outcome s (SM_Finish i now) = Schedule_end now d s2" using True by (simp add: r s1_def s2_def)
  ultimately show ?thesis using Schedule_end_facts [of now d s2] by (auto simp: sm_inv_def)
qed (simp add: sm_inv_def)

lemma sm_step_inv: "sm_inv s \<Longrightarrow> sm_inv (sm_step outcome s e)"
  by (cases e)
    (auto simp: Add_inv Remove_inv Timer_inv Finish_inv sm_inv_core [OF endFunc_core] simp del: sm_step.simps(4,5))

interpretation sync_runs: transition_system "sm_step outcome" sm_inv for outcome
  by unfold_locales (rule sm_step_inv)

lemma sm_start_inv: "sm_inv sm_start"
  by (simp add: sm_start_def SyncManager_SetThreadPool_def SyncManager_new_def sm_inv_def)

section \<open>Deadlines\<close>

text \<open>While only delayed operations are added, the next timer is never later than any of them allows.\<close>

fun delayed_event :: "('f, 'e) sm_event \<Rightarrow> bool" where
  "delayed_event (SM_Add now syncId delayMs func syncEnd) \<longleftrightarrow> delayMs \<noteq> 0"
| "delayed_event _ \<longleftrightarrow> True"

abbreviation op_deadline :: "time \<times> ('f, 'e) KvSyncOperation \<Rightarrow> time" where
  "op_deadline e \<equiv> fst e + ms (GetExpireTimeRange (op_delayMs (snd e)))"

definition sm_timely :: "('f, 'e) SyncManager \<Rightarrow> bool" where
  "sm_timely s \<longleftrightarrow> sm_inv s \<and> realtimeSyncingOps s = [] \<and> (\<forall>r \<in> set (sm_running s). \<not> fst r) \<and>
     (sm_running s = [] \<longrightarrow> (\<forall>e \<in> set (scheduleSyncOps s). nextScheduleTime s \<le> op_deadline e))"

lemma Add_timely: "sm_timely s \<Longrightarrow> d \<noteq> 0 \<Longrightarrow> sm_timely (snd (AddSyncOperation outcome now i d f e s))"
proof (cases "f = None \<or> i = 0")
  case False
  assume v: "sm_timely s" and d: "d \<noteq> 0"
  obtain g where g: "f = Some g" using False by auto
  define s' where "s' = snd (AddSyncOperation outcome now i d f e s)"
  define b where "b = now + ms d"
  have range: "0 \<le> ms (GetExpireTimeRange d)" by simp
  have r: "realtimeSyncingOps s' = []" "sm_running s' = sm_running s"
    using v d False by (auto simp: s'_def g AddSyncOperation_def Let_def AddTimer_facts sm_timely_def)
  have n: "nextScheduleTime s' = (if scheduleSyncOps s = [] \<or> b + ms (GetExpireTimeRange d) < nextScheduleTime s then b else nextScheduleTime s)"
    using d False by (auto simp: s'_def b_def g AddSyncOperation_def Let_def AddTimer_facts)
  have m: "x \<in> set (scheduleSyncOps s) \<or> fst x = b \<and> op_delayMs (snd x) = d" if "x \<in> set (scheduleSyncOps s')" for x
    using that d False by (auto simp: s'_def b_def g AddSyncOperation_def Let_def AddTimer_facts split: if_splits)
  have "nextScheduleTime s' \<le> op_deadline x" if x: "x \<in> set (scheduleSyncOps s')" and run: "sm_running s = []" for x
  proof (cases "x \<in> set (scheduleSyncOps s)")
    case True
    hence "nextScheduleTime s \<le> op_deadline x" using v run unfolding sm_timely_def by blast
    thus ?thesis using True range unfolding n by (cases "scheduleSyncOps s") (auto simp del: of_nat_unat)
  next
    case False
    thus ?thesis using m [OF x] range unfolding n by (auto simp del: of_nat_unat)
  qed
  thus ?thesis using v r Add_inv [of s outcome now i d f e] unfolding sm_timely_def s'_def by simp
qed (auto simp: AddSyncOperation_def split: option.splits)

lemma Remove_timely: "sm_timely s \<Longrightarrow> sm_timely (snd (RemoveSyncOperation i s))"
  using Remove_inv [of s i] unfolding sm_timely_def
  by (auto simp: RemoveSyncOperation_def Let_def DoRemove_pair remove_scheduled_pair)

lemma endFunc_timely: "sm_timely s \<Longrightarrow> sm_timely (endFunc q d s)"
  using sm_inv_core [OF endFunc_core, of q d s] endFunc_keeps [of q d s] unfolding sm_timely_def by simp

lemma Timer_timely: "sm_timely s \<Longrightarrow> sm_timely (sm_step outcome s (SM_Timer t))"
  using Timer_inv [of s outcome t] unfolding sm_timely_def
  by (auto simp: GetTimeoutSyncOps_def split: prod.splits)

lemma ordered_hd: "ordered q \<Longrightarrow> e \<in> set q \<Longrightarrow> fst (hd q) \<le> fst e"
  by (cases q) auto

lemma Finish_timely: "sm_timely s \<Longrightarrow> sm_timely (sm_step outcome s (SM_Finish i now))"
proof (cases "i < length (sm_running s)")
  case True
  assume v: "sm_timely s"
  obtain d xs where r: "sm_running s ! i = (d, xs)" by force
  hence "\<not> d" using v nth_mem [OF True] by (force simp: sm_timely_def)
  define s1 where "s1 = s\<lparr>sm_running := take i (sm_running s) @ drop (Suc i) (sm_running s)\<rparr>"
  define s2 where "s2 = call_all outcome xs s1"
  define s3 where "s3 = Schedule_end now d s2"
  have e: "sm_step outcome s (SM_Finish i now) = s3" using True by (simp add: r s1_def s2_def s3_def)
  have k: "realtimeSyncingOps s2 = []" "sm_running s2 = sm_running s1" "scheduleSyncOps s2 = scheduleSyncOps s"
    using v call_all_keeps [of outcome xs s1] by (simp_all add: s2_def s1_def sm_timely_def)
  have r1: "\<forall>r \<in> set (sm_running s1). \<not> fst r"
    using v set_take_subset [of i "sm_running s"] set_drop_subset [of "Suc i" "sm_running s"] by (auto simp: s1_def sm_timely_def)
  have n: "nextScheduleTime s3 \<le> op_deadline x" if x: "x \<in> set (scheduleSyncOps s3)" for x
  proof -
    have "scheduleSyncOps s3 = scheduleSyncOps s" "nextScheduleTime s3 = fst (hd (scheduleSyncOps s))"
      using Schedule_end_facts [of now d s2] k x \<open>\<not> d\<close> by (auto simp: s3_def)
    moreover have "ordered (scheduleSyncOps s)" using v by (simp add: sm_timely_def sm_inv_def)
    ultimately have "nextScheduleTime s3 \<le> fst x" using x ordered_hd by metis
    moreover have "0 \<le> ms (GetExpireTimeRange (op_delayMs (snd x)))" by simp
    ultimately show ?thesis by linarith
  qed
  have "sm_inv s3" using Finish_inv [of s outcome i now] v unfolding e by (simp add: sm_timely_def)
  moreover have "realtimeSyncingOps s3 = []" "sm_running s3 = sm_running s1"
    using Schedule_end_facts [of now d s2] k by (auto simp: s3_def)
  ultimately show ?thesis unfolding e sm_timely_def using n r1 by auto
qed simp

lemma sm_step_timely: "sm_timely s \<Longrightarrow> delayed_event e \<Longrightarrow> sm_timely (sm_step outcome s e)"
  by (cases e) (auto simp: Add_timely Remove_timely Timer_timely Finish_timely endFunc_timely simp del: sm_step.simps(4,5))



section \<open>Every scheduled operation runs\<close>

text \<open>A pending timer fires, not before its time, and its callback runs to the end.\<close>

inductive timer_fires :: "('f \<Rightarrow> Status \<times> bool) \<Rightarrow> ('f, 'e) SyncManager \<Rightarrow> ('f, 'e) SyncManager \<Rightarrow> bool" for outcome where
  fire: "time \<in> set (sm_timers s) \<Longrightarrow> time \<le> now \<Longrightarrow>
     timer_fires outcome s (Schedule outcome now time (s\<lparr>sm_timers := remove1 time (sm_timers s)\<rparr>))"

inductive_cases timer_firesE: "timer_fires outcome s s'"

text \<open>
  A firing that runs nothing replaces its timer by a later one, and no timer needs to be later than the
  horizon: the time of the first operation, and the end of the precedence of the synchronisations in
  real time.
\<close>

definition horizon :: "('f, 'e) SyncManager \<Rightarrow> time" where
  "horizon s = Max (insert (fst (hd (scheduleSyncOps s))) ((\<lambda>x. op_beginTime x + ms REALTIME_PRIOR_SYNCING_MS) ` set (realtimeSyncingOps s)))"

definition waits :: "('f, 'e) SyncManager \<Rightarrow> nat" where
  "waits s = (\<Sum>t\<leftarrow>sm_timers s. nat (horizon s - t))"

definition armed :: "('f, 'e) SyncManager \<Rightarrow> bool" where
  "armed s \<longleftrightarrow> sm_executors s \<and> (scheduleSyncOps s \<noteq> [] \<longrightarrow> sm_timers s \<noteq> [])"

lemma sum_waits_mono: "h' \<le> h \<Longrightarrow> (\<Sum>t\<leftarrow>ts. nat (h' - t)) \<le> (\<Sum>t\<leftarrow>ts. nat (h - t))" for h h' :: time
  by (induction ts) (auto intro: add_mono)

lemma sum_waits_replace:
  fixes h h' :: time
  assumes "t \<in> set ts" "h' \<le> h" "t < h" "t < t'"
  shows "(\<Sum>t\<leftarrow>remove1 t ts @ [t']. nat (h' - t)) < (\<Sum>t\<leftarrow>ts. nat (h - t))"
proof -
  have "(\<Sum>t\<leftarrow>ts. nat (h - t)) = nat (h - t) + (\<Sum>t\<leftarrow>remove1 t ts. nat (h - t))"
    using assms(1) by (simp add: sum_list_map_remove1)
  moreover have "nat (h' - t') < nat (h - t)" using assms by linarith
  moreover have "(\<Sum>t\<leftarrow>remove1 t ts @ [t']. nat (h' - t)) = (\<Sum>t\<leftarrow>remove1 t ts. nat (h' - t)) + nat (h' - t')" by simp
  moreover note sum_waits_mono [OF assms(2), of "remove1 t ts"]
  ultimately show ?thesis by linarith
qed

lemma horizon_mono:
  assumes "scheduleSyncOps s' = scheduleSyncOps s" "set (realtimeSyncingOps s') \<subseteq> set (realtimeSyncingOps s)"
  shows "horizon s' \<le> horizon s"
  unfolding horizon_def assms(1) by (rule Max_mono) (use assms(2) in auto)

lemma horizon_ge:
  "fst (hd (scheduleSyncOps s)) \<le> horizon s"
  "x \<in> set (realtimeSyncingOps s) \<Longrightarrow> op_beginTime x + ms REALTIME_PRIOR_SYNCING_MS \<le> horizon s"
  unfolding horizon_def by (rule Max_ge; simp)+

lemma timer_fires_progress:
  assumes "timer_fires outcome s s'" "armed s" "scheduleSyncOps s \<noteq> []"
  shows "armed s'" "sm_calls s' @ map snd (scheduleSyncOps s') = sm_calls s @ map snd (scheduleSyncOps s)"
    "(s', s) \<in> inv_image (less_than <*lex*> less_than) (\<lambda>s. (length (scheduleSyncOps s), waits s))"
proof -
  obtain t now where t: "t \<in> set (sm_timers s)" "t \<le> now"
    and s': "s' = Schedule outcome now t (s\<lparr>sm_timers := remove1 t (sm_timers s)\<rparr>)"
    using assms(1) by (auto elim: timer_firesE)
  let ?s = "s\<lparr>sm_timers := remove1 t (sm_timers s)\<rparr>"
  have x: "sm_executors ?s" using assms(2) by (simp add: armed_def)
  have less: "(s', s) \<in> inv_image (less_than <*lex*> less_than) (\<lambda>s. (length (scheduleSyncOps s), waits s))"
    if "scheduleSyncOps s' = scheduleSyncOps s" "set (realtimeSyncingOps s') \<subseteq> set (realtimeSyncingOps s)"
      "sm_timers s' = remove1 t (sm_timers s) @ [t']" "t < horizon s" "t < t'" for t'
    using sum_waits_replace [OF t(1) horizon_mono [OF that(1,2)] that(4,5)] that by (simp add: waits_def)
  have "armed s' \<and> sm_calls s' @ map snd (scheduleSyncOps s') = sm_calls s @ map snd (scheduleSyncOps s) \<and>
    (s', s) \<in> inv_image (less_than <*lex*> less_than) (\<lambda>s. (length (scheduleSyncOps s), waits s))"
  proof (cases "postpones t ?s")
    case True
    note f = Schedule_postponed [OF True x, of outcome now, folded s']
    have "t < horizon s" using True horizon_ge(2) [of "last (realtimeSyncingOps s)" s] by (simp add: postpones_def)
    moreover have "t < now + ms SYNC_MIN_DELAY_MS" using t(2) by simp
    ultimately show ?thesis using f less by (simp add: armed_def)
  next
    case False
    obtain due rest where d: "take_due t (scheduleSyncOps ?s) = (due, rest)" by force
    note f = Schedule_taken [OF False x d, of outcome now, folded s']
    show ?thesis
    proof (cases "due = []")
      case True
      hence r: "rest = scheduleSyncOps s" "t < fst (hd (scheduleSyncOps s))" using take_due_none d assms(3) by fastforce+
      hence "t < horizon s" using horizon_ge(1) [of s] by simp
      thus ?thesis using f r assms(3) True less [of "fst (hd (scheduleSyncOps s))"] by (simp add: armed_def)
    next
      case False
      thus ?thesis using f take_due_split [OF d] by (simp add: armed_def)
    qed
  qed
  thus "armed s'" "sm_calls s' @ map snd (scheduleSyncOps s') = sm_calls s @ map snd (scheduleSyncOps s)"
    "(s', s) \<in> inv_image (less_than <*lex*> less_than) (\<lambda>s. (length (scheduleSyncOps s), waits s))" by blast+
qed

lemma timer_enabled: "armed s \<Longrightarrow> scheduleSyncOps s \<noteq> [] \<Longrightarrow> \<exists>s'. timer_fires outcome s s'"
  unfolding armed_def by (metis fire hd_in_set order_refl)

text \<open>
  C6: Delayed synchronisations are not forgotten.  Take any state the manager can reach in which no
  callback is under way, and let the pending timers fire in any order, none of them before its time:
  while operations are scheduled there is always a timer left to fire, and after finitely many firings
  the schedule is empty.  By then the synchronisation functions of all the operations were called once
  each, in the order of their times, whatever status they return and even if synchronisations in real
  time kept postponing them.
\<close>

theorem delayed_syncs_run:
  assumes "\<sigma> 0 = run_steps (sm_step outcome) sm_start es" and "sm_running (\<sigma> 0) = []"
    and "\<And>n. scheduleSyncOps (\<sigma> n) \<noteq> [] \<Longrightarrow> timer_fires outcome (\<sigma> n) (\<sigma> (Suc n))"
  shows "\<exists>n. scheduleSyncOps (\<sigma> n) = [] \<and> sm_calls (\<sigma> n) = sm_calls (\<sigma> 0) @ map snd (scheduleSyncOps (\<sigma> 0)) \<and>
     (\<forall>m < n. scheduleSyncOps (\<sigma> m) \<noteq> [] \<and> sm_timers (\<sigma> m) \<noteq> [])"
proof -
  have start: "armed (\<sigma> 0)" using sync_runs.inv_run [OF sm_start_inv, of outcome es] assms(1,2) by (auto simp: sm_inv_def armed_def)
  have wf: "wf (inv_image (less_than <*lex*> less_than) (\<lambda>s :: ('a, 'b) SyncManager. (length (scheduleSyncOps s), waits s)))"
    by (intro wf_inv_image wf_lex_prod wf_less_than)
  have kept: "armed (\<sigma> n) \<and> sm_calls (\<sigma> n) @ map snd (scheduleSyncOps (\<sigma> n)) = sm_calls (\<sigma> 0) @ map snd (scheduleSyncOps (\<sigma> 0))"
    if "\<And>m. m < n \<Longrightarrow> scheduleSyncOps (\<sigma> m) \<noteq> []" for n
    using that
  proof (induction n)
    case (Suc n)
    hence "armed (\<sigma> n)" "scheduleSyncOps (\<sigma> n) \<noteq> []" by simp_all
    thus ?case using timer_fires_progress(1,2) [OF assms(3)] Suc by simp
  qed (simp add: start)
  have "\<exists>n. scheduleSyncOps (\<sigma> n) = []"
  proof (rule ccontr)
    assume "\<not> ?thesis"
    hence "(\<sigma> (Suc n), \<sigma> n) \<in> inv_image (less_than <*lex*> less_than) (\<lambda>s. (length (scheduleSyncOps s), waits s))" for n
      using timer_fires_progress(3) [OF assms(3)] kept [of n] by simp
    thus False using wf unfolding wf_iff_no_infinite_down_chain by blast
  qed
  then obtain n where n: "scheduleSyncOps (\<sigma> n) = []" "\<And>m. m < n \<Longrightarrow> scheduleSyncOps (\<sigma> m) \<noteq> []"
    using exists_least_iff [of "\<lambda>n. scheduleSyncOps (\<sigma> n) = []"] by blast
  have "scheduleSyncOps (\<sigma> m) \<noteq> [] \<and> sm_timers (\<sigma> m) \<noteq> []" if "m < n" for m
    using that n(2) kept [of m] by (simp add: armed_def)
  thus ?thesis using n kept [of n] by (intro exI [of _ n]) simp
qed

definition sync0 :: "nat \<Rightarrow> (string, string) SyncManager" where
  "sync0 n = (let s = run_steps (sm_step (\<lambda>_. (SUCCESS, True))) sm_start [SM_Add 0 7 1000 (Some ''sync'') (Some ''end'')]
     in if n = 0 then s else Schedule (\<lambda>_. (SUCCESS, True)) 1000000000 1000000000 (s\<lparr>sm_timers := []\<rparr>))"

lemmas sync0_eval = sync0_def sm_start_def SyncManager_SetThreadPool_def SyncManager_new_def AddSyncOperation_def AddTimer_def
  Schedule_def GetTimeoutSyncOps_def Schedule_end_def DoCheckSyncingTimeout_def call_syncFunc_def endFunc_def
  RemoveSyncingOp_def

theorem delayed_syncs_run_witness:
  "\<exists>n. scheduleSyncOps (sync0 n) = [] \<and> length (sm_calls (sync0 n)) = 1"
proof -
  have t: "timer_fires (\<lambda>_. (SUCCESS, True)) (sync0 0) (sync0 (Suc n))" for n
    using timer_fires.fire [of 1000000000 "sync0 0" 1000000000 "\<lambda>_. (SUCCESS, True)"]
    by (simp add: sync0_def sm_start_def SyncManager_SetThreadPool_def SyncManager_new_def AddSyncOperation_def AddTimer_def Let_def)
  have e: "scheduleSyncOps (sync0 (Suc n)) = []" for n
    by (simp add: sync0_eval Let_def)
  have z: "sm_running (sync0 0) = []" "length (sm_calls (sync0 0) @ map snd (scheduleSyncOps (sync0 0))) = 1"
    by (simp_all add: sync0_eval Let_def)
  have "timer_fires (\<lambda>_. (SUCCESS, True)) (sync0 n) (sync0 (Suc n))" if "scheduleSyncOps (sync0 n) \<noteq> []" for n
    using that t e by (cases n) auto
  from delayed_syncs_run [of sync0 _ "[SM_Add 0 7 1000 (Some ''sync'') (Some ''end'')]", OF _ z(1) this]
  show ?thesis using z(2) by (auto simp: sync0_def)
qed

section \<open>Removing operations\<close>

text \<open>
  Removing by identifier takes the operations of that identifier, and no others, out of all three
  containers.  The count is a 32-bit number.
\<close>

lemma RemoveSyncOperation_all:
  "RemoveSyncOperation i s =
     (if (of_nat (length (filter (\<lambda>x. op_syncId x = i)
            (realtimeSyncingOps s @ delaySyncingOps s @ map snd (scheduleSyncOps s)))) :: u32) = 0 then ERROR else SUCCESS,
      s\<lparr>realtimeSyncingOps := filter (\<lambda>x. op_syncId x \<noteq> i) (realtimeSyncingOps s),
        delaySyncingOps := filter (\<lambda>x. op_syncId x \<noteq> i) (delaySyncingOps s),
        scheduleSyncOps := filter (\<lambda>e. op_syncId (snd e) \<noteq> i) (scheduleSyncOps s)\<rparr>)"
  by (simp add: RemoveSyncOperation_def Let_def DoRemove_pair remove_scheduled_pair filter_map o_def word_gt_0 add.assoc)

text \<open>
  An operation added before the manager has its executor pool leaves no timer behind, and later
  operations rely on that timer: they are not run when the pool is set afterwards.
\<close>

lemma added_without_pool_is_stuck:
  "let s = snd (AddSyncOperation outcome 0 7 1000 (Some f) e SyncManager_new);
       s = snd (AddSyncOperation outcome 0 7 2000 (Some f) e (SyncManager_SetThreadPool s))
   in length (scheduleSyncOps s) = 2 \<and> sm_timers s = []"
proof -
  have "0 \<le> uint (GetExpireTimeRange 2000)" by simp
  hence "\<not> 1000000000 + uint (GetExpireTimeRange 2000) * 1000000 < 0" by linarith
  thus ?thesis by (simp add: AddSyncOperation_def SyncManager_SetThreadPool_def SyncManager_new_def AddTimer_def Let_def)
qed

end
