(* ===== verification/Flow_Control.thy ===== *)
theory Flow_Control
  imports Timeline Concurrent_Map
begin

text \<open>
  Flow control: \<^verbatim>\<open>framework/flow_control_manager/flow_control_manager.cpp\<close> queues tasks until the time
  its strategy gives them; \<^verbatim>\<open>service/rdb/rdb_flow_control_manager.cpp\<close> has the strategy that limits the
  number of tasks in a period, and puts one such queue per application in front of a global one.

  The executor pool is not part of the repository.  It is a record of operations over a state of its
  own; \<^verbatim>\<open>pl_armed\<close> observes when a delayed task is due, and \<^verbatim>\<open>pool_ok\<close> is what the manager relies on.
  Tasks are opaque values, \<^verbatim>\<open>None\<close> the empty function.  Every operation takes the reading of the clock.
\<close>

section \<open>The executor pool\<close>

record ('p, 'k) pool_ops =
  pl_Schedule :: "time \<Rightarrow> time \<Rightarrow> 'p \<Rightarrow> u64 \<times> 'p"
  pl_Reset :: "time \<Rightarrow> u64 \<Rightarrow> time \<Rightarrow> 'p \<Rightarrow> 'p"
  pl_Remove :: "u64 \<Rightarrow> 'p \<Rightarrow> 'p"
  pl_Execute :: "'k list \<Rightarrow> 'p \<Rightarrow> 'p"
  pl_Fire :: "u64 \<Rightarrow> 'p \<Rightarrow> 'p"
  pl_armed :: "'p \<Rightarrow> u64 \<Rightarrow> time option"

abbreviation (input) INVALID_TASK_ID :: u64 where "INVALID_TASK_ID \<equiv> 0"

text \<open>
  A scheduled task gets a valid identifier and is due after the given duration; resetting a task that is
  still waiting changes when it is due; removing or firing one task leaves the others waiting, and so
  does handing over work that is to run at once.
\<close>

definition pool_ok :: "('p, 'k) pool_ops \<Rightarrow> bool" where
  "pool_ok P \<longleftrightarrow>
     (\<forall>now d p. fst (pl_Schedule P now d p) \<noteq> INVALID_TASK_ID \<and>
        pl_armed P (snd (pl_Schedule P now d p)) (fst (pl_Schedule P now d p)) = Some (now + d)) \<and>
     (\<forall>now i d p. pl_armed P p i \<noteq> None \<longrightarrow> pl_armed P (pl_Reset P now i d p) i = Some (now + d)) \<and>
     (\<forall>i j p. i \<noteq> j \<longrightarrow> pl_armed P (pl_Remove P i p) j = pl_armed P p j) \<and>
     (\<forall>i j p. i \<noteq> j \<longrightarrow> pl_armed P (pl_Fire P i p) j = pl_armed P p j) \<and>
     (\<forall>ks p. pl_armed P (pl_Execute P ks p) = pl_armed P p)"

section \<open>The manager\<close>

record TaskInfo =
  ti_type :: u32
  ti_label :: string

record 'k InnerTask =
  it_task :: "'k option"
  it_info :: TaskInfo
  it_id :: u64

record ('k, 'q) FlowControlManager =
  fc_pool :: bool
  fc_strategy :: "'q option"
  fc_isRunning :: bool
  fc_tasks :: "(time \<times> 'k InnerTask) list"
  fc_taskId :: u64
  fc_innerTaskId :: u64

definition FlowControlManager_new :: "bool \<Rightarrow> 'q option \<Rightarrow> ('k, 'q) FlowControlManager" where
  "FlowControlManager_new pool strategy =
     \<lparr>fc_pool = pool, fc_strategy = strategy, fc_isRunning = True, fc_tasks = [], fc_taskId = INVALID_TASK_ID, fc_innerTaskId = 0\<rparr>"

definition FlowControlManager_destroy ::
  "('p, 'k) pool_ops \<Rightarrow> ('k, 'q) FlowControlManager \<Rightarrow> 'p \<Rightarrow> ('k, 'q) FlowControlManager \<times> 'p" where
  "FlowControlManager_destroy P m p =
     (let taskId = fc_taskId m; m = m\<lparr>fc_isRunning := False, fc_taskId := INVALID_TASK_ID, fc_tasks := []\<rparr>
      in (m, if fc_pool m then pl_Remove P taskId p else p))"

definition GenTaskId :: "('k, 'q) FlowControlManager \<Rightarrow> u64 \<times> ('k, 'q) FlowControlManager" where
  "GenTaskId m =
     (let taskId = fc_innerTaskId m + 1; taskId = (if taskId = 0 then taskId + 1 else taskId)
      in (taskId, m\<lparr>fc_innerTaskId := taskId\<rparr>))"

text \<open>The part of \<^verbatim>\<open>Execute\<close> that queues the task; the result says whether the timer has to be looked at.\<close>

definition Execute_push ::
  "(time \<Rightarrow> 'k option \<Rightarrow> TaskInfo \<Rightarrow> 'q \<Rightarrow> time \<times> 'q) \<Rightarrow> time \<Rightarrow> 'k option \<Rightarrow> TaskInfo \<Rightarrow> ('k, 'q) FlowControlManager \<Rightarrow>
     bool \<times> ('k, 'q) FlowControlManager" where
  "Execute_push GetExecuteTime now task info m =
     (if \<not> fc_isRunning m \<or> \<not> fc_pool m then (False, m)
      else case (case fc_strategy m of
                   None \<Rightarrow> (now, m)
                 | Some q \<Rightarrow> (case GetExecuteTime now task info q of (t, q) \<Rightarrow> (t, m\<lparr>fc_strategy := Some q\<rparr>))) of
             (executeTime, m) \<Rightarrow>
           case GenTaskId m of (taskId, m) \<Rightarrow>
             let m = m\<lparr>fc_tasks := emplace executeTime \<lparr>it_task = task, it_info = info, it_id = taskId\<rparr> (fc_tasks m)\<rparr>
             in (it_id (snd (hd (fc_tasks m))) = taskId, m))"

definition FC_Schedule ::
  "('p, 'k) pool_ops \<Rightarrow> time \<Rightarrow> ('k, 'q) FlowControlManager \<Rightarrow> 'p \<Rightarrow> ('k, 'q) FlowControlManager \<times> 'p" where
  "FC_Schedule P now m p =
     (if \<not> fc_isRunning m \<or> \<not> fc_pool m then (m, p)
      else if fc_tasks m = [] \<and> fc_taskId m \<noteq> INVALID_TASK_ID
           then (m\<lparr>fc_taskId := INVALID_TASK_ID\<rparr>, pl_Remove P (fc_taskId m) p)
      else case fc_tasks m of
             [] \<Rightarrow> (m, p)
           | (time, task) # _ \<Rightarrow>
               let duration = (if time < now then 0 else time - now)
               in if fc_taskId m \<noteq> INVALID_TASK_ID then (m, pl_Reset P now (fc_taskId m) duration p)
                  else case pl_Schedule P now duration p of (taskId, p) \<Rightarrow> (m\<lparr>fc_taskId := taskId\<rparr>, p))"

definition FC_Execute ::
  "('p, 'k) pool_ops \<Rightarrow> (time \<Rightarrow> 'k option \<Rightarrow> TaskInfo \<Rightarrow> 'q \<Rightarrow> time \<times> 'q) \<Rightarrow> time \<Rightarrow> 'k option \<Rightarrow> TaskInfo \<Rightarrow>
     ('k, 'q) FlowControlManager \<Rightarrow> 'p \<Rightarrow> ('k, 'q) FlowControlManager \<times> 'p" where
  "FC_Execute P GetExecuteTime now task info m p =
     (case Execute_push GetExecuteTime now task info m of (first, m) \<Rightarrow> if first then FC_Schedule P now m p else (m, p))"

definition FC_Execute_type ::
  "('p, 'k) pool_ops \<Rightarrow> (time \<Rightarrow> 'k option \<Rightarrow> TaskInfo \<Rightarrow> 'q \<Rightarrow> time \<times> 'q) \<Rightarrow> time \<Rightarrow> 'k option \<Rightarrow> u32 \<Rightarrow>
     ('k, 'q) FlowControlManager \<Rightarrow> 'p \<Rightarrow> ('k, 'q) FlowControlManager \<times> 'p" where
  "FC_Execute_type P GetExecuteTime now task ty m p = FC_Execute P GetExecuteTime now task \<lparr>ti_type = ty, ti_label = []\<rparr> m p"

fun pop_due :: "time \<Rightarrow> (time \<times> 'k InnerTask) list \<Rightarrow> 'k list \<times> (time \<times> 'k InnerTask) list" where
  "pop_due now [] = ([], [])"
| "pop_due now ((time, x) # xs) =
     (case it_task x of
        None \<Rightarrow> pop_due now xs
      | Some k \<Rightarrow> if time \<le> now then (case pop_due now xs of (ks, rest) \<Rightarrow> (k # ks, rest)) else ([], (time, x) # xs))"

definition ExecuteTask ::
  "('p, 'k) pool_ops \<Rightarrow> time \<Rightarrow> ('k, 'q) FlowControlManager \<Rightarrow> 'p \<Rightarrow> ('k, 'q) FlowControlManager \<times> 'p" where
  "ExecuteTask P now m p =
     (if \<not> fc_isRunning m \<or> \<not> fc_pool m then (m, p)
      else case pop_due now (fc_tasks m) of (ks, rest) \<Rightarrow>
             (m\<lparr>fc_tasks := rest, fc_taskId := INVALID_TASK_ID\<rparr>, if ks \<noteq> [] then pl_Execute P ks p else p))"

definition Remove_tasks :: "(TaskInfo \<Rightarrow> bool) option \<Rightarrow> ('k, 'q) FlowControlManager \<Rightarrow> ('k, 'q) FlowControlManager" where
  "Remove_tasks flt m =
     m\<lparr>fc_tasks := (case flt of None \<Rightarrow> [] | Some f \<Rightarrow> filter (\<lambda>x. \<not> f (it_info (snd x))) (fc_tasks m))\<rparr>"

definition FC_Remove ::
  "('p, 'k) pool_ops \<Rightarrow> time \<Rightarrow> (TaskInfo \<Rightarrow> bool) option \<Rightarrow> ('k, 'q) FlowControlManager \<Rightarrow> 'p \<Rightarrow> ('k, 'q) FlowControlManager \<times> 'p" where
  "FC_Remove P now flt m p = FC_Schedule P now (Remove_tasks flt m) p"

definition FC_Remove_type ::
  "('p, 'k) pool_ops \<Rightarrow> time \<Rightarrow> u32 \<Rightarrow> ('k, 'q) FlowControlManager \<Rightarrow> 'p \<Rightarrow> ('k, 'q) FlowControlManager \<times> 'p" where
  "FC_Remove_type P now ty m p = FC_Remove P now (Some (\<lambda>info. ti_type info = ty)) m p"

section \<open>The limiting strategy\<close>

record RdbFlowControlStrategy =
  fs_limit :: u32
  fs_duration :: u32
  fs_queue :: "time list"

definition RdbFlowControlStrategy_new :: "u32 \<Rightarrow> u32 \<Rightarrow> RdbFlowControlStrategy" where
  "RdbFlowControlStrategy_new limit duration = \<lparr>fs_limit = limit, fs_duration = duration, fs_queue = []\<rparr>"

fun drop_old :: "u32 \<Rightarrow> u32 \<Rightarrow> time \<Rightarrow> time list \<Rightarrow> time list" where
  "drop_old limit duration executeTime [] = []"
| "drop_old limit duration executeTime (t # ts) =
     (if unat limit < length (t # ts) \<or> t + ms duration < executeTime then drop_old limit duration executeTime ts else t # ts)"

definition GetExecuteTime :: "time \<Rightarrow> 'k option \<Rightarrow> TaskInfo \<Rightarrow> RdbFlowControlStrategy \<Rightarrow> time \<times> RdbFlowControlStrategy" where
  "GetExecuteTime now task info q =
     (if fs_limit q = 0 then (now, q)
      else let ts = drop_old (fs_limit q) (fs_duration q) now (fs_queue q);
               executeTime = (if unat (fs_limit q) \<le> length ts then max now (hd ts + ms (fs_duration q)) else now)
           in (executeTime, q\<lparr>fs_queue := ts @ [executeTime]\<rparr>))"

section \<open>The two-level manager of the relational stores\<close>

text \<open>
  A task of an application's queue is a closure that, when the pool runs it, passes the caller's task
  with its description on to the global queue.
\<close>

type_synonym 'k app_queue = "('k option \<times> TaskInfo, RdbFlowControlStrategy) FlowControlManager"

record ('k, 'c) RdbFlowControlManager =
  rf_pool :: bool
  rf_appLimit :: u32
  rf_globalLimit :: u32
  rf_duration :: u32
  rf_globalManager :: "('k, RdbFlowControlStrategy) FlowControlManager option"
  rf_managers :: 'c

definition RdbFlowControlManager_new :: "(string, 'k app_queue, 'c) cmap \<Rightarrow> u32 \<Rightarrow> u32 \<Rightarrow> u32 \<Rightarrow> ('k, 'c) RdbFlowControlManager" where
  "RdbFlowControlManager_new M appLimit globalLimit duration =
     \<lparr>rf_pool = False, rf_appLimit = appLimit, rf_globalLimit = globalLimit, rf_duration = duration, rf_globalManager = None,
      rf_managers = cm_new M\<rparr>"

definition RdbFlow_Init :: "bool \<Rightarrow> ('k, 'c) RdbFlowControlManager \<Rightarrow> ('k, 'c) RdbFlowControlManager" where
  "RdbFlow_Init pool r =
     (if \<not> pool \<or> rf_pool r then r
      else r\<lparr>rf_pool := True,
             rf_globalManager := Some (FlowControlManager_new True (Some (RdbFlowControlStrategy_new (rf_globalLimit r) (rf_duration r))))\<rparr>)"

definition app_manager :: "('k, 'c) RdbFlowControlManager \<Rightarrow> 'k app_queue option \<Rightarrow> 'k app_queue" where
  "app_manager r v =
     (case v of
        Some m \<Rightarrow> m
      | None \<Rightarrow> FlowControlManager_new True (Some (RdbFlowControlStrategy_new (rf_appLimit r) (rf_duration r))))"

definition RdbFlow_Execute ::
  "(string, 'k app_queue, 'c) cmap \<Rightarrow> ('p, 'k option \<times> TaskInfo) pool_ops \<Rightarrow> time \<Rightarrow> 'k option \<Rightarrow> TaskInfo \<Rightarrow>
     ('k, 'c) RdbFlowControlManager \<Rightarrow> 'p \<Rightarrow> int \<times> ('k, 'c) RdbFlowControlManager \<times> 'p" where
  "RdbFlow_Execute M P now task taskInfo r p =
     (if rf_globalManager r = None \<or> \<not> rf_pool r then (- 1, r, p)
      else let manager = app_manager r (cm_Find M (rf_managers r) (ti_label taskInfo))
           in case FC_Execute P GetExecuteTime now (Some (task, taskInfo)) taskInfo manager p of (manager, p) \<Rightarrow>
                (0, r\<lparr>rf_managers := cm_Compute M (rf_managers r) (ti_label taskInfo) (\<lambda>_. Some manager)\<rparr>, p))"

text \<open>What the closure does when the pool runs it.\<close>

definition RdbFlow_forward ::
  "('p, 'k) pool_ops \<Rightarrow> time \<Rightarrow> 'k option \<times> TaskInfo \<Rightarrow> ('k, 'c) RdbFlowControlManager \<Rightarrow> 'p \<Rightarrow> ('k, 'c) RdbFlowControlManager \<times> 'p" where
  "RdbFlow_forward P now x r p =
     (case rf_globalManager r of
        None \<Rightarrow> (r, p)
      | Some g \<Rightarrow> (case FC_Execute P GetExecuteTime now (fst x) (snd x) g p of (g, p) \<Rightarrow> (r\<lparr>rf_globalManager := Some g\<rparr>, p)))"

definition RdbFlow_Remove ::
  "(string, 'k app_queue, 'c) cmap \<Rightarrow> ('p, 'k) pool_ops \<Rightarrow> ('p, 'k option \<times> TaskInfo) pool_ops \<Rightarrow> time \<Rightarrow> string \<Rightarrow>
     ('k, 'c) RdbFlowControlManager \<Rightarrow> 'p \<Rightarrow> int \<times> ('k, 'c) RdbFlowControlManager \<times> 'p" where
  "RdbFlow_Remove M PG PA now label r p =
     (case rf_globalManager r of
        None \<Rightarrow> (0, r, p)
      | Some g \<Rightarrow>
          case FC_Remove PG now (Some (\<lambda>info. ti_label info = label)) g p of (g, p) \<Rightarrow>
            let r = r\<lparr>rf_globalManager := Some g\<rparr>
            in case cm_Find M (rf_managers r) label of
                 None \<Rightarrow> (0, r, p)
               | Some m \<Rightarrow>
                   (case FC_Remove PA now (Some (\<lambda>info. ti_label info = label)) m p of (m, p) \<Rightarrow>
                    case FlowControlManager_destroy PA m p of (_, p) \<Rightarrow>
                      (0, r\<lparr>rf_managers := cm_Erase M (rf_managers r) label\<rparr>, p)))"

section \<open>Tasks are not forgotten\<close>

text \<open>
  The manager together with the pool, the number of threads that still have to run \<^verbatim>\<open>Schedule\<close>, and
  the number of callbacks the pool has started and that have not reached \<^verbatim>\<open>ExecuteTask\<close> yet.  The clock
  is the latest reading so far.
\<close>

record ('k, 'q, 'p) fc_system =
  fy_manager :: "('k, 'q) FlowControlManager"
  fy_pool :: 'p
  fy_scheduling :: nat
  fy_started :: nat
  fy_clock :: time

datatype 'k fc_event =
    FC_Push time "'k option" TaskInfo
  | FC_Drop time "(TaskInfo \<Rightarrow> bool) option"
  | FC_Run_Schedule time
  | FC_Timer u64
  | FC_Callback time

fun fc_step ::
  "('p, 'k) pool_ops \<Rightarrow> (time \<Rightarrow> 'k option \<Rightarrow> TaskInfo \<Rightarrow> 'q \<Rightarrow> time \<times> 'q) \<Rightarrow> ('k, 'q, 'p) fc_system \<Rightarrow> 'k fc_event \<Rightarrow> ('k, 'q, 'p) fc_system" where
  "fc_step P G y (FC_Push now task info) =
     (case Execute_push G (max (fy_clock y) now) task info (fy_manager y) of (first, m) \<Rightarrow>
        y\<lparr>fy_manager := m, fy_clock := max (fy_clock y) now,
          fy_scheduling := (if first then fy_scheduling y + 1 else fy_scheduling y)\<rparr>)"
| "fc_step P G y (FC_Drop now flt) =
     y\<lparr>fy_manager := Remove_tasks flt (fy_manager y), fy_clock := max (fy_clock y) now, fy_scheduling := fy_scheduling y + 1\<rparr>"
| "fc_step P G y (FC_Run_Schedule now) =
     (if fy_scheduling y = 0 then y
      else case FC_Schedule P (max (fy_clock y) now) (fy_manager y) (fy_pool y) of (m, p) \<Rightarrow>
             y\<lparr>fy_manager := m, fy_pool := p, fy_clock := max (fy_clock y) now, fy_scheduling := fy_scheduling y - 1\<rparr>)"
| "fc_step P G y (FC_Timer i) =
     (if pl_armed P (fy_pool y) i = None then y
      else y\<lparr>fy_pool := pl_Fire P i (fy_pool y), fy_started := fy_started y + 1\<rparr>)"
| "fc_step P G y (FC_Callback now) =
     (if fy_started y = 0 then y
      else case ExecuteTask P (max (fy_clock y) now) (fy_manager y) (fy_pool y) of (m, p) \<Rightarrow>
             y\<lparr>fy_manager := m, fy_pool := p, fy_clock := max (fy_clock y) now, fy_started := fy_started y - 1,
               fy_scheduling := fy_scheduling y + 1\<rparr>)"

definition fc_start :: "'q option \<Rightarrow> 'p \<Rightarrow> ('k, 'q, 'p) fc_system" where
  "fc_start strategy p =
     \<lparr>fy_manager = FlowControlManager_new True strategy, fy_pool = p, fy_scheduling = 0, fy_started = 0, fy_clock = 0\<rparr>"

text \<open>Either the timer is set for the first task, or someone is about to set it.\<close>

definition fc_wakes :: "('p, 'k) pool_ops \<Rightarrow> ('k, 'q, 'p) fc_system \<Rightarrow> bool" where
  "fc_wakes P y \<longleftrightarrow> fc_taskId (fy_manager y) \<noteq> INVALID_TASK_ID \<and>
     (\<exists>due. pl_armed P (fy_pool y) (fc_taskId (fy_manager y)) = Some due \<and>
        due \<le> max (fst (hd (fc_tasks (fy_manager y)))) (fy_clock y))"

definition fc_inv :: "('p, 'k) pool_ops \<Rightarrow> ('k, 'q, 'p) fc_system \<Rightarrow> bool" where
  "fc_inv P y \<longleftrightarrow> fc_isRunning (fy_manager y) \<and> fc_pool (fy_manager y) \<and> ordered (fc_tasks (fy_manager y)) \<and>
     (fc_taskId (fy_manager y) \<noteq> INVALID_TASK_ID \<longrightarrow>
        pl_armed P (fy_pool y) (fc_taskId (fy_manager y)) \<noteq> None \<or> 0 < fy_started y) \<and>
     (fc_tasks (fy_manager y) \<noteq> [] \<longrightarrow>
        fc_wakes P y \<or> 0 < fy_scheduling y \<or> 0 < fy_started y)"

lemma Execute_push_facts:
  assumes "Execute_push G now task info m = (first, m')" "fc_isRunning m" "fc_pool m"
  shows "fc_isRunning m'" "fc_pool m'" "fc_taskId m' = fc_taskId m" "ordered (fc_tasks m') = ordered (fc_tasks m)"
    "\<not> first \<Longrightarrow> fc_tasks m \<noteq> [] \<and> hd (fc_tasks m') = hd (fc_tasks m)"
  using assms
  by (auto simp: Execute_push_def GenTaskId_def Let_def emplace_hd split: option.splits prod.splits if_splits)

lemma pop_due_suffix: "pop_due now xs = (ks, rest) \<Longrightarrow> \<exists>n. rest = drop n xs"
proof (induction xs arbitrary: ks rest rule: pop_due.induct)
  case (2 now t x xs)
  have "\<exists>n. rest = drop n xs \<Longrightarrow> ?case" by (metis drop_Suc_Cons)
  thus ?case using 2 by (fastforce split: option.splits if_splits prod.splits intro: exI [of _ 0])
qed simp

locale executor_pool =
  fixes P :: "('p, 'k) pool_ops"
  assumes ok: "pool_ok P"
begin

lemma Schedule_armed:
  "pl_Schedule P now d p = (i, p') \<Longrightarrow> i \<noteq> INVALID_TASK_ID \<and> pl_armed P p' i = Some (now + d)"
  using ok unfolding pool_ok_def by (metis fst_conv snd_conv)

lemma Reset_armed: "pl_armed P p i \<noteq> None \<Longrightarrow> pl_armed P (pl_Reset P now i d p) i = Some (now + d)"
  using ok unfolding pool_ok_def by metis

lemma Fire_others: "i \<noteq> j \<Longrightarrow> pl_armed P (pl_Fire P i p) j = pl_armed P p j"
  using ok unfolding pool_ok_def by metis

lemma push_inv: "fc_inv P y \<Longrightarrow> fc_inv P (fc_step P G y (FC_Push now task info))"
proof -
  assume v: "fc_inv P y"
  let ?m = "fy_manager y"
  obtain first m where e: "Execute_push G (max (fy_clock y) now) task info ?m = (first, m)" by force
  have r: "fc_isRunning ?m" "fc_pool ?m" using v by (simp_all add: fc_inv_def)
  note f = Execute_push_facts [OF e r]
  have "ordered (fc_tasks m)" using f(4) v by (simp add: fc_inv_def)
  moreover have "\<not> first \<Longrightarrow> fc_wakes P y \<Longrightarrow> fc_wakes P (fc_step P G y (FC_Push now task info))"
    using f by (auto simp: fc_wakes_def e)
  ultimately show ?thesis using v f by (cases first) (auto simp: fc_inv_def fc_wakes_def e)
qed

lemma run_schedule_inv: "fc_inv P y \<Longrightarrow> fc_inv P (fc_step P G y (FC_Run_Schedule now))"
proof (cases "fy_scheduling y = 0")
  case False
  assume v: "fc_inv P y"
  let ?m = "fy_manager y" and ?now = "max (fy_clock y) now"
  consider (empty) "fc_tasks ?m = []" | (reset) t x xs where "fc_tasks ?m = (t, x) # xs" "fc_taskId ?m \<noteq> INVALID_TASK_ID"
    | (new) t x xs where "fc_tasks ?m = (t, x) # xs" "fc_taskId ?m = INVALID_TASK_ID" by (metis list.exhaust prod.exhaust)
  thus ?thesis
  proof cases
    case empty
    thus ?thesis using v False by (auto simp: fc_inv_def FC_Schedule_def)
  next
    case reset
    hence a: "pl_armed P (fy_pool y) (fc_taskId ?m) \<noteq> None \<or> 0 < fy_started y" using v by (simp add: fc_inv_def)
    show ?thesis
    proof (cases "0 < fy_started y")
      case True
      thus ?thesis using v False reset by (auto simp: fc_inv_def FC_Schedule_def Let_def)
    next
      case no: False
      hence "pl_armed P (pl_Reset P ?now (fc_taskId ?m) (if t < ?now then 0 else t - ?now) (fy_pool y)) (fc_taskId ?m) =
          Some (?now + (if t < ?now then 0 else t - ?now))" using a Reset_armed by simp
      moreover have "?now + (if t < ?now then 0 else t - ?now) \<le> max t ?now" by simp
      ultimately show ?thesis using v False reset by (simp add: fc_inv_def fc_wakes_def FC_Schedule_def Let_def)
    qed
  next
    case new
    obtain i p where s: "pl_Schedule P ?now (if t < ?now then 0 else t - ?now) (fy_pool y) = (i, p)" by force
    note a = Schedule_armed [OF s]
    moreover have "?now + (if t < ?now then 0 else t - ?now) \<le> max t ?now" by simp
    ultimately show ?thesis using v False new s by (simp add: fc_inv_def fc_wakes_def FC_Schedule_def Let_def)
  qed
qed simp

lemma timer_inv: "fc_inv P y \<Longrightarrow> fc_inv P (fc_step P G y (FC_Timer i))"
  by (auto simp: fc_inv_def)

lemma callback_inv: "fc_inv P y \<Longrightarrow> fc_inv P (fc_step P G y (FC_Callback now))"
proof -
  assume v: "fc_inv P y"
  obtain ks rest where d: "pop_due (max (fy_clock y) now) (fc_tasks (fy_manager y)) = (ks, rest)" by force
  have "ordered rest" using pop_due_suffix [OF d] v ordered_drop by (auto simp: fc_inv_def)
  thus ?thesis using v by (auto simp: fc_inv_def ExecuteTask_def d)
qed

lemma step_inv: "fc_inv P y \<Longrightarrow> fc_inv P (fc_step P G y e)"
proof (cases e)
  case (FC_Drop now flt)
  assume "fc_inv P y"
  thus ?thesis by (auto simp: FC_Drop fc_inv_def Remove_tasks_def split: option.splits)
qed (use push_inv run_schedule_inv timer_inv callback_inv in blast)+

end

sublocale executor_pool \<subseteq> runs: transition_system "fc_step P G" "fc_inv P" for G
  by unfold_locales (rule step_inv)

context executor_pool
begin

lemma reachable_inv: "fc_inv P (run_steps (fc_step P G) (fc_start strategy p) es)"
proof (rule runs.inv_run)
  show "fc_inv P (fc_start strategy p)" by (simp add: fc_inv_def fc_start_def FlowControlManager_new_def)
qed

end

text \<open>
  C23: A queued task is never left without a timer.  Whatever interleaving of queueing and removing
  tasks, of threads setting the timer, and of timers firing and their callbacks led here: once no
  thread is about to set the timer and no callback is on its way, and tasks are queued, the timer the
  manager holds is waiting in the pool and is due no later than the first task, or at once if that
  task is overdue.  Whatever the strategy, the queue is in the order of the times.
\<close>

theorem flow_timer_kept:
  assumes "pool_ok P" and "y = run_steps (fc_step P G) (fc_start strategy p) es"
    and "fy_scheduling y = 0" and "fy_started y = 0" and "fc_tasks (fy_manager y) \<noteq> []"
  shows "\<exists>due. pl_armed P (fy_pool y) (fc_taskId (fy_manager y)) = Some due \<and>
     due \<le> max (fst (hd (fc_tasks (fy_manager y)))) (fy_clock y) \<and> ordered (fc_tasks (fy_manager y))"
proof -
  have l: "executor_pool P" using assms(1) by unfold_locales
  have "fc_inv P y" unfolding assms(2) by (rule executor_pool.reachable_inv [OF l])
  thus ?thesis using assms(3-5) by (auto simp: fc_inv_def fc_wakes_def)
qed

text \<open>A pool that keeps its waiting task in a list.\<close>

definition list_pool :: "((u64 \<times> time) list, 'k) pool_ops" where
  "list_pool =
     \<lparr>pl_Schedule = (\<lambda>now d p. (1, (1, now + d) # p)),
      pl_Reset = (\<lambda>now i d p. (i, now + d) # p),
      pl_Remove = (\<lambda>i p. filter (\<lambda>x. fst x \<noteq> i) p),
      pl_Execute = (\<lambda>ks p. p),
      pl_Fire = (\<lambda>i p. filter (\<lambda>x. fst x \<noteq> i) p),
      pl_armed = map_of\<rparr>"

lemma map_of_filter_other: "i \<noteq> j \<Longrightarrow> map_of (filter (\<lambda>x. fst x \<noteq> i) p) j = map_of p j"
  by (induction p) auto

lemma list_pool_ok: "pool_ok list_pool"
  by (simp add: pool_ok_def list_pool_def map_of_filter_other)

interpretation list_pool: executor_pool list_pool
  by unfold_locales (rule list_pool_ok)

definition string_pool :: "((u64 \<times> time) list, string) pool_ops" where
  "string_pool = list_pool"

lemma string_pool_ok: "pool_ok string_pool"
  unfolding string_pool_def by (rule list_pool_ok)

theorem flow_timer_kept_witness:
  "let y = run_steps (fc_step string_pool GetExecuteTime) (fc_start (Some (RdbFlowControlStrategy_new 1 1000)) [])
             [FC_Push 5 (Some ''sync'') \<lparr>ti_type = 0, ti_label = ''app''\<rparr>, FC_Run_Schedule 5]
   in \<exists>due. pl_armed string_pool (fy_pool y) (fc_taskId (fy_manager y)) = Some due \<and> due \<le> max (fst (hd (fc_tasks (fy_manager y)))) (fy_clock y)"
proof -
  let ?es = "[FC_Push 5 (Some ''sync'') \<lparr>ti_type = 0, ti_label = ''app''\<rparr>, FC_Run_Schedule 5]"
  define y where "y = run_steps (fc_step string_pool GetExecuteTime) (fc_start (Some (RdbFlowControlStrategy_new 1 1000)) []) ?es"
  have "fy_scheduling y = 0" "fy_started y = 0" "fc_tasks (fy_manager y) \<noteq> []"
    by (simp_all add: y_def fc_start_def FlowControlManager_new_def Execute_push_def GetExecuteTime_def RdbFlowControlStrategy_new_def
        GenTaskId_def FC_Schedule_def string_pool_def list_pool_def Let_def)
  from flow_timer_kept [OF string_pool_ok y_def this] show ?thesis unfolding y_def Let_def by blast
qed

section \<open>What a callback runs\<close>

lemma pop_due_later: "ordered xs \<Longrightarrow> pop_due now xs = (ks, rest) \<Longrightarrow> list_all (\<lambda>e. now < fst e) rest"
  by (induction xs arbitrary: ks rest rule: pop_due.induct)
    (force simp: list_all_iff split: option.splits if_splits prod.splits)+

lemma pop_due_tasks:
  "ordered xs \<Longrightarrow> pop_due now xs = (ks, rest) \<Longrightarrow>
     ks = List.map_filter (\<lambda>e. if fst e \<le> now then it_task (snd e) else None) xs"
proof (induction xs arbitrary: ks rest rule: pop_due.induct)
  case (2 now t x xs)
  have "t \<le> now \<or> List.map_filter (\<lambda>e. if fst e \<le> now then it_task (snd e) else None) xs = []"
    using 2(3) by (induction xs) (auto simp: map_filter_simps)
  thus ?case using 2 by (auto simp: map_filter_simps split: option.splits if_splits prod.splits)
qed (simp add: map_filter_simps)

section \<open>The rate limit\<close>

text \<open>The times the strategy assigns to requests that come at the given readings of the clock.\<close>

fun assigned :: "RdbFlowControlStrategy \<Rightarrow> time list \<Rightarrow> time list" where
  "assigned q [] = []"
| "assigned q (now # nows) = (case GetExecuteTime now (None :: unit option) \<lparr>ti_type = 0, ti_label = []\<rparr> q of (t, q) \<Rightarrow> t # assigned q nows)"

lemma drop_old_split:
  obtains k where "drop_old L d now ts = drop k ts" "k \<le> length ts"
    "\<And>j. j < k \<Longrightarrow> unat L < length ts - j \<or> ts ! j + ms d < now"
    "drop k ts \<noteq> [] \<Longrightarrow> length (drop k ts) \<le> unat L"
proof (induction ts arbitrary: thesis)
  case Nil thus ?case using Nil [of 0] by simp
next
  case (Cons t ts)
  show ?case
  proof (cases "unat L < length (t # ts) \<or> t + ms d < now")
    case True
    obtain k where k: "drop_old L d now ts = drop k ts" "k \<le> length ts"
      "\<And>j. j < k \<Longrightarrow> unat L < length ts - j \<or> ts ! j + ms d < now"
      "drop k ts \<noteq> [] \<Longrightarrow> length (drop k ts) \<le> unat L" using Cons.IH by blast
    have "unat L < length (t # ts) - j \<or> (t # ts) ! j + ms d < now" if "j < Suc k" for j
      using that True k(3) [of "j - 1"] by (cases j) auto
    thus ?thesis using Cons.prems [of "Suc k"] k True by simp
  next
    case False
    thus ?thesis using Cons.prems [of 0] by simp
  qed
qed

text \<open>
  The queue of the strategy is the end of the list of all assigned times; what was dropped from it no
  longer matters, because it is too old or because enough later times are still in the queue.
\<close>

definition recent :: "nat \<Rightarrow> time \<Rightarrow> time list \<Rightarrow> time list \<Rightarrow> time \<Rightarrow> bool" where
  "recent L d H ts clock \<longleftrightarrow> (\<exists>n \<le> length H. ts = drop n H \<and> (\<forall>i < n. length H \<le> i + L \<longrightarrow> H ! i + d \<le> clock))"

lemma GetExecuteTime_recent:
  assumes "GetExecuteTime now task info q = (t, q')" "fs_limit q = L" "L \<noteq> 0" "fs_duration q = d"
    "recent (unat L) (ms d) H (fs_queue q) clock" "clock \<le> now"
  shows "recent (unat L) (ms d) (H @ [t]) (fs_queue q') now" "fs_limit q' = L" "fs_duration q' = d"
    "t = (if length H < unat L then now else max now (H ! (length H - unat L) + ms d))"
proof -
  obtain n where n: "n \<le> length H" "fs_queue q = drop n H" "\<And>i. i < n \<Longrightarrow> length H \<le> i + unat L \<Longrightarrow> H ! i + ms d \<le> clock"
    using assms(5) unfolding recent_def by blast
  obtain k where k: "drop_old L d now (fs_queue q) = drop k (fs_queue q)" "k \<le> length (fs_queue q)"
    "\<And>j. j < k \<Longrightarrow> unat L < length (fs_queue q) - j \<or> fs_queue q ! j + ms d < now"
    "drop k (fs_queue q) \<noteq> [] \<Longrightarrow> length (drop k (fs_queue q)) \<le> unat L" by (rule drop_old_split) (rule that)
  define ts where "ts = drop (n + k) H"
  have ts: "drop_old L d now (fs_queue q) = ts" "n + k \<le> length H" using k(1,2) n(1,2) by (auto simp: ts_def add.commute)
  have small: "length ts \<le> unat L" using k(1,4) ts(1) by (cases "ts = []") auto
  have old: "H ! i + ms d \<le> now" if "i < n + k" "length H \<le> i + unat L" for i
  proof (cases "i < n")
    case True
    thus ?thesis using n(3) [of i] that assms(6) by linarith
  next
    case False
    hence "i - n < k" "fs_queue q ! (i - n) = H ! i" using that n(1,2) by auto
    thus ?thesis using k(3) [of "i - n"] that(2) n(1,2) False by auto
  qed
  have e: "t = (if unat L \<le> length ts then max now (hd ts + ms d) else now)" "q' = q\<lparr>fs_queue := ts @ [t]\<rparr>"
    using assms(1-4) ts(1) by (auto simp: GetExecuteTime_def Let_def)
  show "fs_limit q' = L" "fs_duration q' = d" using e assms(2,4) by simp_all
  show "recent (unat L) (ms d) (H @ [t]) (fs_queue q') now"
    unfolding recent_def
  proof (intro exI [of _ "n + k"] conjI allI impI)
    fix i assume "i < n + k" "length (H @ [t]) \<le> i + unat L"
    thus "(H @ [t]) ! i + ms d \<le> now" using old [of i] ts(2) by (simp add: nth_append)
  qed (use ts(2) e in \<open>simp_all add: ts_def\<close>)
  have L: "0 < unat L" using assms(3) by (simp add: unat_gt_0)
  show "t = (if length H < unat L then now else max now (H ! (length H - unat L) + ms d))"
  proof (cases "unat L \<le> length ts")
    case True
    hence l: "length ts = unat L" using small by simp
    hence p: "n + k = length H - unat L" "n + k < length H" using L ts(2) by (auto simp: ts_def)
    hence "hd ts = H ! (length H - unat L)" unfolding ts_def p(1) using p by (simp add: hd_drop_conv_nth)
    moreover have "unat L \<le> length H" using l by (simp add: ts_def)
    ultimately show ?thesis using e True by simp
  next
    case False
    hence "unat L \<le> length H \<Longrightarrow> length H - unat L < n + k" using ts(2) by (auto simp: ts_def)
    thus ?thesis using e False old [of "length H - unat L"] by auto
  qed
qed

lemma assigned_times:
  assumes "fs_limit q = L" "L \<noteq> 0" "fs_duration q = d" "recent (unat L) (ms d) H (fs_queue q) clock" "sorted (clock # nows)"
    and "i < length nows"
  shows "length (assigned q nows) = length nows \<and>
    assigned q nows ! i = (if length H + i < unat L then nows ! i
       else max (nows ! i) ((H @ assigned q nows) ! (length H + i - unat L) + ms d))"
  using assms
proof (induction nows arbitrary: q H clock i)
  case (Cons now nows)
  obtain t q' where g: "GetExecuteTime now (None :: unit option) \<lparr>ti_type = 0, ti_label = []\<rparr> q = (t, q')" by force
  have "clock \<le> now" "sorted (now # nows)" using Cons.prems(5) by auto
  note r = GetExecuteTime_recent [OF g Cons.prems(1-4) this(1)]
  have L: "0 < unat L" using Cons.prems(2) by (simp add: unat_gt_0)
  note IH = Cons.IH [OF r(2) Cons.prems(2) r(3) r(1) \<open>sorted (now # nows)\<close>]
  have len: "length (assigned q' nows) = length nows" using IH [of 0] by (cases nows) auto
  show ?case
  proof (cases i)
    case 0
    thus ?thesis using r(4) L len by (auto simp: g nth_append)
  next
    case (Suc j)
    thus ?thesis using IH [of j] Cons.prems(6) len by (simp add: g)
  qed
qed simp

text \<open>
  C9: The strategy limits the rate and delays nothing it does not have to.  With a limit \<^verbatim>\<open>L\<close> other
  than zero, the first \<^verbatim>\<open>L\<close> requests run when they come, and every later request runs when it comes or
  one period after the request \<^verbatim>\<open>L\<close> places before it, whichever is later.  So between any request and
  the one \<^verbatim>\<open>L\<close> places after it there is at least one period.  A limit of zero means no limit.
\<close>

theorem rate_limited:
  assumes "sorted nows" and "i < length nows"
    and ts_def: "ts = assigned (RdbFlowControlStrategy_new limit duration) nows"
  shows "length ts = length nows \<and>
    ts ! i = (if limit = 0 \<or> i < unat limit then nows ! i else max (nows ! i) (ts ! (i - unat limit) + ms duration)) \<and>
    (limit \<noteq> 0 \<and> i + unat limit < length nows \<longrightarrow> ts ! i + ms duration \<le> ts ! (i + unat limit))"
proof (cases "limit = 0")
  case True
  have "assigned (RdbFlowControlStrategy_new 0 duration) nows = nows"
    by (induction nows) (simp_all add: GetExecuteTime_def RdbFlowControlStrategy_new_def)
  thus ?thesis using True by (simp add: ts_def)
next
  case False
  let ?q = "RdbFlowControlStrategy_new limit duration"
  have q: "fs_limit ?q = limit" "fs_duration ?q = duration" "recent (unat limit) (ms duration) [] (fs_queue ?q) (hd nows)"
    by (simp_all add: RdbFlowControlStrategy_new_def recent_def)
  have s: "sorted (hd nows # nows)" using assms(1,2) by (cases nows) auto
  have "length ts = length nows \<and>
     ts ! j = (if j < unat limit then nows ! j else max (nows ! j) (ts ! (j - unat limit) + ms duration))"
    if "j < length nows" for j
    using assigned_times [OF q(1) False q(2,3) s that] by (simp add: ts_def)
  note t = this
  have "ts ! i + ms duration \<le> ts ! (i + unat limit)" if "i + unat limit < length nows" using t [OF that] by simp
  thus ?thesis using t [OF assms(2)] False by simp
qed

theorem rate_limited_witness:
  "assigned (RdbFlowControlStrategy_new 2 1) [0, 10, 20] ! 2 = max 20 (assigned (RdbFlowControlStrategy_new 2 1) [0, 10, 20] ! 0 + 1000000)"
  using rate_limited [OF _ _ refl, of "[0, 10, 20]" 2 2 1] by simp

section \<open>The two levels\<close>

lemma FC_Schedule_tasks: "FC_Schedule P now m p = (m', p') \<Longrightarrow> fc_tasks m' = fc_tasks m \<and> fc_strategy m' = fc_strategy m"
  by (auto simp: FC_Schedule_def Let_def split: if_splits list.splits prod.splits)

text \<open>
  Removing an application takes all its tasks out of both levels and leaves those of the other
  applications queued, in the same order and with their rate limits.  A task added to one application
  is queued in that application's manager only.
\<close>

theorem RdbFlow_separates:
  assumes "cmap_full_ok M view" and "rf_globalManager r = Some g"
  shows "case RdbFlow_Remove M PG PA now label r p of (_, r', _) \<Rightarrow>
      view (rf_managers r') = (view (rf_managers r))(label := None) \<and>
      (\<exists>g'. rf_globalManager r' = Some g' \<and> fc_strategy g' = fc_strategy g \<and>
         fc_tasks g' = filter (\<lambda>x. ti_label (it_info (snd x)) \<noteq> label) (fc_tasks g))"
    and "case RdbFlow_Execute M PA now task info r p of (_, r', _) \<Rightarrow>
      rf_globalManager r' = Some g \<and> (\<forall>l. l \<noteq> ti_label info \<longrightarrow> view (rf_managers r') l = view (rf_managers r) l)"
proof -
  have c: "concurrent_map M view" using assms(1) by unfold_locales
  note laws = concurrent_map.Find [OF c] concurrent_map.view_Erase [OF c] concurrent_map.view_Compute [OF c]
  obtain g1 p1 where f: "FC_Remove PG now (Some (\<lambda>info. ti_label info = label)) g p = (g1, p1)" by force
  hence "fc_tasks g1 = filter (\<lambda>x. ti_label (it_info (snd x)) \<noteq> label) (fc_tasks g)" "fc_strategy g1 = fc_strategy g"
    using FC_Schedule_tasks [of PG now _ p g1 p1] by (simp_all add: FC_Remove_def Remove_tasks_def)
  moreover have "(view (rf_managers r))(label := None) = view (rf_managers r)" if "view (rf_managers r) label = None"
    using that by auto
  ultimately show "case RdbFlow_Remove M PG PA now label r p of (_, r', _) \<Rightarrow>
      view (rf_managers r') = (view (rf_managers r))(label := None) \<and>
      (\<exists>g'. rf_globalManager r' = Some g' \<and> fc_strategy g' = fc_strategy g \<and>
         fc_tasks g' = filter (\<lambda>x. ti_label (it_info (snd x)) \<noteq> label) (fc_tasks g))"
    by (auto simp: RdbFlow_Remove_def assms(2) f laws Let_def split: option.splits prod.splits)
  show "case RdbFlow_Execute M PA now task info r p of (_, r', _) \<Rightarrow>
      rf_globalManager r' = Some g \<and> (\<forall>l. l \<noteq> ti_label info \<longrightarrow> view (rf_managers r') l = view (rf_managers r) l)"
    by (auto simp: RdbFlow_Execute_def assms(2) laws Let_def split: prod.splits)
qed

end
