(* ===== verification/Serializable_Maps.thy ===== *)
theory Serializable_Maps
  imports Serializable Text_Utils "HOL-Library.Char_ord" "HOL-Library.List_Lexorder"
begin

text \<open>
  Two additions to the serialisable objects.  Documents that show the members a class writes and no
  others are what a class sees that also reads names it never writes, the names of older versions.
  A field of type \<^verbatim>\<open>std::map<std::string, T>\<close> is kept as its entries in the order of the keys; its
  reader adds entries to the map it is given.
\<close>

section \<open>Documents with exactly the members written\<close>

definition exact_members :: "json \<Rightarrow> (string \<times> json) list \<Rightarrow> bool" where
  "exact_members node kvs \<longleftrightarrow> holds_members node kvs \<and>
     (\<forall>name. name \<noteq> [] \<longrightarrow> map_of kvs name = None \<longrightarrow> GetSubNode node name = JNull)"

lemma exact_puts:
  assumes "distinct (map fst kvs)" "kvs \<noteq> []"
  shows "exact_members (json_puts kvs JNull) kvs" "exact_members (json_norm (json_puts kvs JNull)) kvs"
  using assms holds_puts [OF assms] by (auto simp: exact_members_def GetSubNode_puts GetSubNode_puts_norm)

lemma exact_holds: "exact_members node kvs \<Longrightarrow> holds_members node kvs"
  by (simp add: exact_members_def)

lemma exact_absent: "exact_members node kvs \<Longrightarrow> name \<noteq> [] \<Longrightarrow> map_of kvs name = None \<Longrightarrow> GetSubNode node name = JNull"
  by (simp add: exact_members_def)

lemma absent_reads:
  assumes "GetSubNode node name = JNull"
  shows "GetValue_string node name s = (False, s)" "GetValue_bool node name b = (False, b)"
    "GetValue_u32 node name u = (False, u)" "GetValue_i32 node name u = (False, u)"
    "GetValue_vector get fresh node name vs = (False, vs)" "GetValue_object U node name v = (False, v)"
  using assms by (simp_all add: GetValue_simps)

lemmas exact_absent_reads = absent_reads [OF exact_absent]

lemma json_object_by_exact_members:
  assumes "\<And>m node. Marshal m node = json_puts (members m) node"
    and "\<And>node m old. exact_members node (members m) \<Longrightarrow> Unmarshal node old = (True, m)"
    and "\<And>m. distinct (map fst (members m))" and "\<And>m. members m \<noteq> []"
  shows "json_object Marshal Unmarshal"
  using assms(2) [OF exact_puts(1)] assms(2) [OF exact_puts(2)] assms(1,3,4)
  by unfold_locales auto

section \<open>Ordered maps\<close>

fun map_put :: "'k::linorder \<Rightarrow> 'v \<Rightarrow> ('k \<times> 'v) list \<Rightarrow> ('k \<times> 'v) list" where
  "map_put k v [] = [(k, v)]"
| "map_put k v ((k', v') # m) =
     (if k < k' then (k, v) # (k', v') # m else if k = k' then (k, v) # m else (k', v') # map_put k v m)"

fun map_sorted :: "('k::linorder \<times> 'v) list \<Rightarrow> bool" where
  "map_sorted [] \<longleftrightarrow> True"
| "map_sorted (e # m) \<longleftrightarrow> list_all (\<lambda>x. fst e < fst x) m \<and> map_sorted m"

lemma map_of_put [simp]: "map_of (map_put k v m) = (map_of m)(k \<mapsto> v)"
  by (induction m) auto

lemma list_all_put [simp]: "list_all (\<lambda>x. P (fst x)) (map_put k v m) \<longleftrightarrow> P k \<and> list_all (\<lambda>x. P (fst x)) m"
  by (induction m) (auto split: if_splits)

lemma map_sorted_put: "map_sorted m \<Longrightarrow> map_sorted (map_put k v m)"
proof (induction k v m rule: map_put.induct)
  case (2 k v k' v' m)
  have "list_all (\<lambda>x. k < fst x) m" if "k < k'"
    using 2(2) that by (auto simp: list_all_iff)
  thus ?case using 2 by auto
qed simp

lemma map_put_last: "list_all (\<lambda>e. fst e < k) m \<Longrightarrow> map_put k v m = m @ [(k, v)]"
  by (induction m) auto

definition SetValue_map :: "('v \<Rightarrow> json) \<Rightarrow> (string \<times> 'v) list \<Rightarrow> json" where
  "SetValue_map put m = json_puts (map (\<lambda>(k, v). (k, put v)) m) (JObj [])"

fun read_entries :: "(json \<Rightarrow> string \<Rightarrow> 'v \<Rightarrow> bool \<times> 'v) \<Rightarrow> 'v \<Rightarrow> (string \<times> json) list \<Rightarrow> (string \<times> 'v) list \<Rightarrow> bool \<Rightarrow> bool \<times> (string \<times> 'v) list" where
  "read_entries get fresh [] m result = (result, m)"
| "read_entries get fresh ((k, j) # kvs) m result =
     (case get j [] (case map_of m k of Some v \<Rightarrow> v | None \<Rightarrow> fresh) of (ok, v) \<Rightarrow>
        read_entries get fresh kvs (map_put k v m) (ok \<and> result))"

definition GetValue_map ::
    "(json \<Rightarrow> string \<Rightarrow> 'v \<Rightarrow> bool \<times> 'v) \<Rightarrow> 'v \<Rightarrow> json \<Rightarrow> string \<Rightarrow> (string \<times> 'v) list \<Rightarrow> bool \<times> (string \<times> 'v) list" where
  "GetValue_map get fresh node name values =
     (case GetSubNode node name of JObj kvs \<Rightarrow> read_entries get fresh kvs values True | _ \<Rightarrow> (False, values))"

lemma update_new: "list_all (\<lambda>e. fst e \<noteq> k) m \<Longrightarrow> AList.update k v m = m @ [(k, v)]"
  by (induction m) auto

lemma json_puts_sorted:
  "map_sorted m \<Longrightarrow> list_all (\<lambda>e. list_all (\<lambda>x. fst e < fst x) m) kvs \<Longrightarrow> json_puts m (JObj kvs) = JObj (kvs @ m)"
proof (induction m arbitrary: kvs)
  case (Cons e m)
  obtain k j where e: "e = (k, j)" by force
  have "list_all (\<lambda>x. fst x \<noteq> k) kvs" using Cons.prems(2) e by (auto simp: list_all_iff)
  moreover have "list_all (\<lambda>e. list_all (\<lambda>x. fst e < fst x) m) (kvs @ [(k, j)])"
    using Cons.prems e by (auto simp: list_all_iff)
  ultimately show ?case using Cons.IH [of "kvs @ [(k, j)]"] Cons.prems(1) e by (simp add: update_new)
qed simp

lemma map_sorted_map: "map_sorted (map (\<lambda>(k, v). (k, f v)) m) \<longleftrightarrow> map_sorted m"
  by (induction m) (auto simp: list_all_iff)

lemma SetValue_map_sorted: "map_sorted m \<Longrightarrow> SetValue_map put m = JObj (map (\<lambda>(k, v). (k, put v)) m)"
  using json_puts_sorted [of "map (\<lambda>(k, v). (k, put v)) m" "[]"] by (simp add: SetValue_map_def map_sorted_map)

lemma map_of_new: "list_all (\<lambda>e. fst e < k) m \<Longrightarrow> map_of m k = None" for k :: "'k::linorder"
  by (induction m) auto

text \<open>Reading what was written into an empty map gives the map back, directly and through text.\<close>

lemma read_entries_put:
  assumes "json_field put get" "\<And>v. f v = put v \<or> f v = json_norm (put v)"
  shows "map_sorted m \<Longrightarrow> list_all (\<lambda>e. list_all (\<lambda>x. fst e < fst x) m) acc \<Longrightarrow>
    read_entries get fresh (map (\<lambda>(k, v). (k, f v)) m) acc result = (result, acc @ m)"
proof (induction m arbitrary: acc)
  case (Cons e m)
  obtain k v where e: "e = (k, v)" by force
  have a: "list_all (\<lambda>x. fst x < k) acc" using Cons.prems(2) e by (simp add: list_all_iff)
  have "list_all (\<lambda>e. list_all (\<lambda>x. fst e < fst x) m) (acc @ [(k, v)])" using Cons.prems e by (auto simp: list_all_iff)
  moreover have "get (f v) [] fresh = (True, v)" using assms(2) [of v] json_field.get_here [OF assms(1)] by metis
  ultimately show ?case using Cons.IH [of "acc @ [(k, v)]"] Cons.prems(1) e by (simp add: map_put_last [OF a] map_of_new [OF a])
qed simp

lemma map_of_members:
  assumes "json_field put get" "holds_members node kvs" "name \<noteq> []" "map_of kvs name = Some (SetValue_map put m)" "map_sorted m"
  shows "GetValue_map get fresh node name [] = (True, m)"
proof -
  have "GetSubNode node name = JObj (map (\<lambda>(k, v). (k, put v)) m) \<or>
      GetSubNode node name = JObj (map (\<lambda>(k, v). (k, json_norm (put v))) m)"
    using holds_membersD [OF assms(2-4)] by (simp add: SetValue_map_sorted [OF assms(5)] o_def case_prod_unfold)
  thus ?thesis using read_entries_put [OF assms(1) _ assms(5), of put "[]"] read_entries_put [OF assms(1) _ assms(5), of "\<lambda>v. json_norm (put v)" "[]"]
    by (auto simp: GetValue_map_def)
qed

end
