(* ===== verification/Cloud_Schema.thy ===== *)
theory Cloud_Schema
  imports Serializable_Maps Store_Meta
begin

text \<open>
  The schema of an application in the cloud, \<^verbatim>\<open>framework/cloud/schema_meta.cpp\<close>: its classes nest from
  the whole schema down to the single field, each with the members it writes, its reader (with the
  names of older versions, read after the current ones), its comparison, and the queries on it.
  Results: every level survives writing and reading; documents with the old names are understood; what
  the old name \<^verbatim>\<open>notNull\<close> does to a field.
\<close>

section \<open>Compatibility policies\<close>

record CompatibleConstraint =
  cc_notNull :: "bool"
  cc_hasDefault :: "bool"

definition CompatibleConstraint_new :: CompatibleConstraint where
  "CompatibleConstraint_new = \<lparr>cc_notNull = False, cc_hasDefault = False\<rparr>"

definition CompatibleConstraint_members :: "CompatibleConstraint \<Rightarrow> (string \<times> json) list" where
  "CompatibleConstraint_members m = [
     (''notNull'', SetValue_bool (cc_notNull m)),
     (''hasDefault'', SetValue_bool (cc_hasDefault m))]"

definition CompatibleConstraint_Marshal :: "CompatibleConstraint \<Rightarrow> json \<Rightarrow> json" where
  "CompatibleConstraint_Marshal m node = json_puts (CompatibleConstraint_members m) node"

definition CompatibleConstraint_Unmarshal :: "json \<Rightarrow> CompatibleConstraint \<Rightarrow> bool \<times> CompatibleConstraint" where
  "CompatibleConstraint_Unmarshal node m =
     (True,
      m\<lparr>cc_notNull := snd (GetValue_bool node ''notNull'' (cc_notNull m)),
        cc_hasDefault := snd (GetValue_bool node ''hasDefault'' (cc_hasDefault m))\<rparr>)"

lemma compatible_constraint_read:
  assumes "holds_members node (CompatibleConstraint_members m)"
  shows "CompatibleConstraint_Unmarshal node old = (True, m)"
proof -
  have
    "GetValue_bool node ''notNull'' (cc_notNull old) = (True, cc_notNull m)" and
    "GetValue_bool node ''hasDefault'' (cc_hasDefault old) = (True, cc_hasDefault m)"
    by (rule reads, rule assms, simp, simp add: CompatibleConstraint_members_def)+
  then show ?thesis by (simp add: CompatibleConstraint_Unmarshal_def)
qed

interpretation compatible_constraint: json_object CompatibleConstraint_Marshal CompatibleConstraint_Unmarshal
  by (rule json_object_by_members [OF CompatibleConstraint_Marshal_def compatible_constraint_read]) (simp_all add: CompatibleConstraint_members_def)

definition CompatibleConstraint_eq :: "CompatibleConstraint \<Rightarrow> CompatibleConstraint \<Rightarrow> bool" where
  "CompatibleConstraint_eq a b \<longleftrightarrow> cc_notNull a = cc_notNull b \<and> cc_hasDefault a = cc_hasDefault b"

interpretation constraints_field: json_field "SetValue_vector (\<lambda>v. CompatibleConstraint_Marshal v JNull)"
    "GetValue_vector (GetValue_object CompatibleConstraint_Unmarshal) CompatibleConstraint_new"
  by (rule compatible_constraint.as_field.vector_field)

record FieldsPolicy =
  fpo_columnName :: "string"
  fpo_compatibleConstraints :: "CompatibleConstraint list"

definition FieldsPolicy_new :: FieldsPolicy where
  "FieldsPolicy_new = \<lparr>fpo_columnName = [], fpo_compatibleConstraints = []\<rparr>"

definition FieldsPolicy_members :: "FieldsPolicy \<Rightarrow> (string \<times> json) list" where
  "FieldsPolicy_members m = [
     (''columnName'', SetValue_string (fpo_columnName m)),
     (''compatibleConstraints'', SetValue_vector (\<lambda>v. CompatibleConstraint_Marshal v JNull) (fpo_compatibleConstraints m))]"

definition FieldsPolicy_Marshal :: "FieldsPolicy \<Rightarrow> json \<Rightarrow> json" where
  "FieldsPolicy_Marshal m node = json_puts (FieldsPolicy_members m) node"

definition FieldsPolicy_Unmarshal :: "json \<Rightarrow> FieldsPolicy \<Rightarrow> bool \<times> FieldsPolicy" where
  "FieldsPolicy_Unmarshal node m =
     (True,
      m\<lparr>fpo_columnName := snd (GetValue_string node ''columnName'' (fpo_columnName m)),
        fpo_compatibleConstraints := snd (GetValue_vector (GetValue_object CompatibleConstraint_Unmarshal) CompatibleConstraint_new node ''compatibleConstraints'' (fpo_compatibleConstraints m))\<rparr>)"

lemma fields_policy_read:
  assumes "holds_members node (FieldsPolicy_members m)"
  shows "FieldsPolicy_Unmarshal node old = (True, m)"
proof -
  have
    "GetValue_string node ''columnName'' (fpo_columnName old) = (True, fpo_columnName m)" and
    "GetValue_vector (GetValue_object CompatibleConstraint_Unmarshal) CompatibleConstraint_new node ''compatibleConstraints'' (fpo_compatibleConstraints old) = (True, fpo_compatibleConstraints m)"
    by (rule reads field_of_members [OF constraints_field.json_field_axioms], rule assms, simp, simp add: FieldsPolicy_members_def)+
  then show ?thesis by (simp add: FieldsPolicy_Unmarshal_def)
qed

interpretation fields_policy: json_object FieldsPolicy_Marshal FieldsPolicy_Unmarshal
  by (rule json_object_by_members [OF FieldsPolicy_Marshal_def fields_policy_read]) (simp_all add: FieldsPolicy_members_def)

definition FieldsPolicy_eq :: "FieldsPolicy \<Rightarrow> FieldsPolicy \<Rightarrow> bool" where
  "FieldsPolicy_eq a b \<longleftrightarrow> fpo_columnName a = fpo_columnName b \<and>
     list_all2 CompatibleConstraint_eq (fpo_compatibleConstraints a) (fpo_compatibleConstraints b)"

interpretation policies_field: json_field "SetValue_vector (\<lambda>v. FieldsPolicy_Marshal v JNull)"
    "GetValue_vector (GetValue_object FieldsPolicy_Unmarshal) FieldsPolicy_new"
  by (rule fields_policy.as_field.vector_field)

record CompatiblePolicy =
  cpo_tableName :: "string"
  cpo_fieldsPolicy :: "FieldsPolicy list"

definition CompatiblePolicy_new :: CompatiblePolicy where
  "CompatiblePolicy_new = \<lparr>cpo_tableName = [], cpo_fieldsPolicy = []\<rparr>"

definition CompatiblePolicy_members :: "CompatiblePolicy \<Rightarrow> (string \<times> json) list" where
  "CompatiblePolicy_members m = [
     (''tableName'', SetValue_string (cpo_tableName m)),
     (''fieldsPolicy'', SetValue_vector (\<lambda>v. FieldsPolicy_Marshal v JNull) (cpo_fieldsPolicy m))]"

definition CompatiblePolicy_Marshal :: "CompatiblePolicy \<Rightarrow> json \<Rightarrow> json" where
  "CompatiblePolicy_Marshal m node = json_puts (CompatiblePolicy_members m) node"

definition CompatiblePolicy_Unmarshal :: "json \<Rightarrow> CompatiblePolicy \<Rightarrow> bool \<times> CompatiblePolicy" where
  "CompatiblePolicy_Unmarshal node m =
     (True,
      m\<lparr>cpo_tableName := snd (GetValue_string node ''tableName'' (cpo_tableName m)),
        cpo_fieldsPolicy := snd (GetValue_vector (GetValue_object FieldsPolicy_Unmarshal) FieldsPolicy_new node ''fieldsPolicy'' (cpo_fieldsPolicy m))\<rparr>)"

lemma compatible_policy_read:
  assumes "holds_members node (CompatiblePolicy_members m)"
  shows "CompatiblePolicy_Unmarshal node old = (True, m)"
proof -
  have
    "GetValue_string node ''tableName'' (cpo_tableName old) = (True, cpo_tableName m)" and
    "GetValue_vector (GetValue_object FieldsPolicy_Unmarshal) FieldsPolicy_new node ''fieldsPolicy'' (cpo_fieldsPolicy old) = (True, cpo_fieldsPolicy m)"
    by (rule reads field_of_members [OF policies_field.json_field_axioms], rule assms, simp, simp add: CompatiblePolicy_members_def)+
  then show ?thesis by (simp add: CompatiblePolicy_Unmarshal_def)
qed

interpretation compatible_policy: json_object CompatiblePolicy_Marshal CompatiblePolicy_Unmarshal
  by (rule json_object_by_members [OF CompatiblePolicy_Marshal_def compatible_policy_read]) (simp_all add: CompatiblePolicy_members_def)

definition CompatiblePolicy_eq :: "CompatiblePolicy \<Rightarrow> CompatiblePolicy \<Rightarrow> bool" where
  "CompatiblePolicy_eq a b \<longleftrightarrow> cpo_tableName a = cpo_tableName b \<and> list_all2 FieldsPolicy_eq (cpo_fieldsPolicy a) (cpo_fieldsPolicy b)"

interpretation compatible_policies_field: json_field "SetValue_vector (\<lambda>v. CompatiblePolicy_Marshal v JNull)"
    "GetValue_vector (GetValue_object CompatiblePolicy_Unmarshal) CompatiblePolicy_new"
  by (rule compatible_policy.as_field.vector_field)

section \<open>Fields, tables and databases\<close>

record Field =
  fld_colName :: "string"
  fld_alias :: "string"
  fld_type :: "u32"
  fld_primary :: "bool"
  fld_autoIncrement :: "bool"
  fld_nullable :: "bool"
  fld_dupCheckCol :: "bool"

definition Field_new :: Field where
  "Field_new = \<lparr>fld_colName = [], fld_alias = [], fld_type = 0, fld_primary = False, fld_autoIncrement = False, fld_nullable = True, fld_dupCheckCol = False\<rparr>"

definition Field_members :: "Field \<Rightarrow> (string \<times> json) list" where
  "Field_members m = [
     (''colName'', SetValue_string (fld_colName m)),
     (''alias'', SetValue_string (fld_alias m)),
     (''type'', SetValue_i32 (fld_type m)),
     (''primary'', SetValue_bool (fld_primary m)),
     (''autoIncrement'', SetValue_bool (fld_autoIncrement m)),
     (''nullable'', SetValue_bool (fld_nullable m)),
     (''dupCheckCol'', SetValue_bool (fld_dupCheckCol m))]"

definition Field_Marshal :: "Field \<Rightarrow> json \<Rightarrow> json" where
  "Field_Marshal m node = json_puts (Field_members m) node"

definition Field_Unmarshal :: "json \<Rightarrow> Field \<Rightarrow> bool \<times> Field" where
  "Field_Unmarshal node m =
     (True,
      m\<lparr>fld_colName := snd (GetValue_string node ''columnName'' (snd (GetValue_string node ''colName'' (fld_colName m)))),
        fld_alias := snd (GetValue_string node ''alias'' (fld_alias m)),
        fld_type := snd (GetValue_i32 node ''type'' (fld_type m)),
        fld_primary := snd (GetValue_bool node ''primaryKey'' (snd (GetValue_bool node ''primary'' (fld_primary m)))),
        fld_autoIncrement := snd (GetValue_bool node ''autoIncrement'' (fld_autoIncrement m)),
        fld_nullable := snd (GetValue_bool node ''notNull'' (snd (GetValue_bool node ''nullable'' (fld_nullable m)))),
        fld_dupCheckCol := snd (GetValue_bool node ''dupCheckCol'' (fld_dupCheckCol m))\<rparr>)"

lemma field_read:
  assumes "exact_members node (Field_members m)"
  shows "Field_Unmarshal node old = (True, m)"
proof -
  have
    "GetValue_string node ''colName'' (fld_colName old) = (True, fld_colName m)" and
    "GetValue_string node ''alias'' (fld_alias old) = (True, fld_alias m)" and
    "GetValue_i32 node ''type'' (fld_type old) = (True, fld_type m)" and
    "GetValue_bool node ''primary'' (fld_primary old) = (True, fld_primary m)" and
    "GetValue_bool node ''autoIncrement'' (fld_autoIncrement old) = (True, fld_autoIncrement m)" and
    "GetValue_bool node ''nullable'' (fld_nullable old) = (True, fld_nullable m)" and
    "GetValue_bool node ''dupCheckCol'' (fld_dupCheckCol old) = (True, fld_dupCheckCol m)"
    by (rule reads, rule exact_holds, rule assms, simp, simp add: Field_members_def)+
  moreover have
    "GetValue_string node ''columnName'' v0 = (False, v0)" and
    "GetValue_bool node ''primaryKey'' v1 = (False, v1)" and
    "GetValue_bool node ''notNull'' v2 = (False, v2)" for v0 v1 v2
    by (rule exact_absent_reads, rule assms, simp, simp add: Field_members_def)+
  ultimately show ?thesis by (simp add: Field_Unmarshal_def)
qed

interpretation field: json_object Field_Marshal Field_Unmarshal
  by (rule json_object_by_exact_members [OF Field_Marshal_def field_read]) (simp_all add: Field_members_def)

definition Field_eq :: "Field \<Rightarrow> Field \<Rightarrow> bool" where
  "Field_eq a b \<longleftrightarrow> fld_colName a = fld_colName b \<and> fld_alias a = fld_alias b \<and> fld_type a = fld_type b \<and>
     fld_primary a = fld_primary b \<and> fld_nullable a = fld_nullable b \<and> fld_dupCheckCol a = fld_dupCheckCol b"

interpretation fields_field: json_field "SetValue_vector (\<lambda>v. Field_Marshal v JNull)"
    "GetValue_vector (GetValue_object Field_Unmarshal) Field_new"
  by (rule field.as_field.vector_field)

record Table =
  tab_name :: "string"
  tab_sharedTableName :: "string"
  tab_alias :: "string"
  tab_fields :: "Field list"
  tab_deviceSyncFields :: "string list"
  tab_cloudSyncFields :: "string list"

definition Table_new :: Table where
  "Table_new = \<lparr>tab_name = [], tab_sharedTableName = [], tab_alias = [], tab_fields = [], tab_deviceSyncFields = [], tab_cloudSyncFields = []\<rparr>"

definition Table_members :: "Table \<Rightarrow> (string \<times> json) list" where
  "Table_members m = [
     (''name'', SetValue_string (tab_name m)),
     (''sharedTableName'', SetValue_string (tab_sharedTableName m)),
     (''alias'', SetValue_string (tab_alias m)),
     (''fields'', SetValue_vector (\<lambda>v. Field_Marshal v JNull) (tab_fields m)),
     (''deviceSyncFields'', SetValue_vector SetValue_string (tab_deviceSyncFields m)),
     (''cloudSyncFields'', SetValue_vector SetValue_string (tab_cloudSyncFields m))]"

definition Table_Marshal :: "Table \<Rightarrow> json \<Rightarrow> json" where
  "Table_Marshal m node = json_puts (Table_members m) node"

definition Table_Unmarshal :: "json \<Rightarrow> Table \<Rightarrow> bool \<times> Table" where
  "Table_Unmarshal node m =
     (True,
      m\<lparr>tab_name := snd (GetValue_string node ''tableName'' (snd (GetValue_string node ''name'' (tab_name m)))),
        tab_sharedTableName := snd (GetValue_string node ''sharedTableName'' (tab_sharedTableName m)),
        tab_alias := snd (GetValue_string node ''alias'' (tab_alias m)),
        tab_fields := snd (GetValue_vector (GetValue_object Field_Unmarshal) Field_new node ''fields'' (tab_fields m)),
        tab_deviceSyncFields := snd (GetValue_vector GetValue_string [] node ''deviceSyncFields'' (tab_deviceSyncFields m)),
        tab_cloudSyncFields := snd (GetValue_vector GetValue_string [] node ''cloudSyncFields'' (tab_cloudSyncFields m))\<rparr>)"

lemma table_read:
  assumes "exact_members node (Table_members m)"
  shows "Table_Unmarshal node old = (True, m)"
proof -
  have
    "GetValue_string node ''name'' (tab_name old) = (True, tab_name m)" and
    "GetValue_string node ''sharedTableName'' (tab_sharedTableName old) = (True, tab_sharedTableName m)" and
    "GetValue_string node ''alias'' (tab_alias old) = (True, tab_alias m)" and
    "GetValue_vector (GetValue_object Field_Unmarshal) Field_new node ''fields'' (tab_fields old) = (True, tab_fields m)" and
    "GetValue_vector GetValue_string [] node ''deviceSyncFields'' (tab_deviceSyncFields old) = (True, tab_deviceSyncFields m)" and
    "GetValue_vector GetValue_string [] node ''cloudSyncFields'' (tab_cloudSyncFields old) = (True, tab_cloudSyncFields m)"
    by (rule reads field_of_members [OF fields_field.json_field_axioms], rule exact_holds, rule assms, simp, simp add: Table_members_def)+
  moreover have
    "GetValue_string node ''tableName'' v0 = (False, v0)" for v0
    by (rule exact_absent_reads, rule assms, simp, simp add: Table_members_def)+
  ultimately show ?thesis by (simp add: Table_Unmarshal_def)
qed

interpretation table: json_object Table_Marshal Table_Unmarshal
  by (rule json_object_by_exact_members [OF Table_Marshal_def table_read]) (simp_all add: Table_members_def)

definition Table_eq :: "Table \<Rightarrow> Table \<Rightarrow> bool" where
  "Table_eq a b \<longleftrightarrow> tab_name a = tab_name b \<and> tab_alias a = tab_alias b \<and> list_all2 Field_eq (tab_fields a) (tab_fields b) \<and>
     tab_deviceSyncFields a = tab_deviceSyncFields b \<and> tab_cloudSyncFields a = tab_cloudSyncFields b \<and>
     tab_sharedTableName a = tab_sharedTableName b"

interpretation tables_field: json_field "SetValue_vector (\<lambda>v. Table_Marshal v JNull)"
    "GetValue_vector (GetValue_object Table_Unmarshal) Table_new"
  by (rule table.as_field.vector_field)

record Database =
  dbs_name :: "string"
  dbs_alias :: "string"
  dbs_tables :: "Table list"
  dbs_backwardCompatiblePolicies :: "CompatiblePolicy list"
  dbs_autoSyncType :: "u32"
  dbs_user :: "string"
  dbs_deviceId :: "string"
  dbs_version :: "u32"
  dbs_bundleName :: "string"

definition Database_new :: Database where
  "Database_new = \<lparr>dbs_name = [], dbs_alias = [], dbs_tables = [], dbs_backwardCompatiblePolicies = [], dbs_autoSyncType = 0, dbs_user = [], dbs_deviceId = [], dbs_version = 0, dbs_bundleName = []\<rparr>"

definition Database_members :: "Database \<Rightarrow> (string \<times> json) list" where
  "Database_members m = [
     (''name'', SetValue_string (dbs_name m)),
     (''alias'', SetValue_string (dbs_alias m)),
     (''tables'', SetValue_vector (\<lambda>v. Table_Marshal v JNull) (dbs_tables m)),
     (''version'', SetValue_u32 (dbs_version m)),
     (''bundleName'', SetValue_string (dbs_bundleName m)),
     (''user'', SetValue_string (dbs_user m)),
     (''deviceId'', SetValue_string (dbs_deviceId m)),
     (''autoSyncType'', SetValue_u32 (dbs_autoSyncType m)),
     (''backwardCompatiblePolicies'', SetValue_vector (\<lambda>v. CompatiblePolicy_Marshal v JNull) (dbs_backwardCompatiblePolicies m))]"

definition Database_Marshal :: "Database \<Rightarrow> json \<Rightarrow> json" where
  "Database_Marshal m node = json_puts (Database_members m) node"

definition Database_Unmarshal :: "json \<Rightarrow> Database \<Rightarrow> bool \<times> Database" where
  "Database_Unmarshal node m =
     (True,
      m\<lparr>dbs_name := snd (GetValue_string node ''dbName'' (snd (GetValue_string node ''name'' (dbs_name m)))),
        dbs_alias := snd (GetValue_string node ''alias'' (dbs_alias m)),
        dbs_tables := snd (GetValue_vector (GetValue_object Table_Unmarshal) Table_new node ''tables'' (dbs_tables m)),
        dbs_version := snd (GetValue_u32 node ''version'' (dbs_version m)),
        dbs_bundleName := snd (GetValue_string node ''bundleName'' (dbs_bundleName m)),
        dbs_user := snd (GetValue_string node ''user'' (dbs_user m)),
        dbs_deviceId := snd (GetValue_string node ''deviceId'' (dbs_deviceId m)),
        dbs_autoSyncType := snd (GetValue_u32 node ''autoSyncType'' (dbs_autoSyncType m)),
        dbs_backwardCompatiblePolicies := snd (GetValue_vector (GetValue_object CompatiblePolicy_Unmarshal) CompatiblePolicy_new node ''backwardCompatiblePolicies'' (dbs_backwardCompatiblePolicies m))\<rparr>)"

lemma database_read:
  assumes "exact_members node (Database_members m)"
  shows "Database_Unmarshal node old = (True, m)"
proof -
  have
    "GetValue_string node ''name'' (dbs_name old) = (True, dbs_name m)" and
    "GetValue_string node ''alias'' (dbs_alias old) = (True, dbs_alias m)" and
    "GetValue_vector (GetValue_object Table_Unmarshal) Table_new node ''tables'' (dbs_tables old) = (True, dbs_tables m)" and
    "GetValue_u32 node ''version'' (dbs_version old) = (True, dbs_version m)" and
    "GetValue_string node ''bundleName'' (dbs_bundleName old) = (True, dbs_bundleName m)" and
    "GetValue_string node ''user'' (dbs_user old) = (True, dbs_user m)" and
    "GetValue_string node ''deviceId'' (dbs_deviceId old) = (True, dbs_deviceId m)" and
    "GetValue_u32 node ''autoSyncType'' (dbs_autoSyncType old) = (True, dbs_autoSyncType m)" and
    "GetValue_vector (GetValue_object CompatiblePolicy_Unmarshal) CompatiblePolicy_new node ''backwardCompatiblePolicies'' (dbs_backwardCompatiblePolicies old) = (True, dbs_backwardCompatiblePolicies m)"
    by (rule reads field_of_members [OF compatible_policies_field.json_field_axioms] field_of_members [OF tables_field.json_field_axioms], rule exact_holds, rule assms, simp, simp add: Database_members_def)+
  moreover have
    "GetValue_string node ''dbName'' v0 = (False, v0)" for v0
    by (rule exact_absent_reads, rule assms, simp, simp add: Database_members_def)+
  ultimately show ?thesis by (simp add: Database_Unmarshal_def)
qed

interpretation database: json_object Database_Marshal Database_Unmarshal
  by (rule json_object_by_exact_members [OF Database_Marshal_def database_read]) (simp_all add: Database_members_def)

definition Database_eq :: "Database \<Rightarrow> Database \<Rightarrow> bool" where
  "Database_eq a b \<longleftrightarrow> dbs_name a = dbs_name b \<and> dbs_alias a = dbs_alias b \<and> list_all2 Table_eq (dbs_tables a) (dbs_tables b) \<and>
     dbs_version a = dbs_version b \<and> dbs_bundleName a = dbs_bundleName b \<and> dbs_user a = dbs_user b \<and>
     dbs_deviceId a = dbs_deviceId b \<and> dbs_autoSyncType a = dbs_autoSyncType b \<and>
     list_all2 CompatiblePolicy_eq (dbs_backwardCompatiblePolicies a) (dbs_backwardCompatiblePolicies b)"

fun table_names :: "Table list \<Rightarrow> string list" where
  "table_names [] = []"
| "table_names (t # ts) =
     (if tab_sharedTableName t \<noteq> [] then [tab_name t, tab_sharedTableName t] else [tab_name t]) @ table_names ts"

definition Database_GetTableNames :: "Database \<Rightarrow> string list" where
  "Database_GetTableNames d = table_names (dbs_tables d)"

definition Database_GetSyncTables :: "Database \<Rightarrow> string list" where
  "Database_GetSyncTables d = map tab_name (filter (\<lambda>t. tab_deviceSyncFields t \<noteq> []) (dbs_tables d))"

definition Database_GetCloudTables :: "Database \<Rightarrow> string list" where
  "Database_GetCloudTables d = table_names (filter (\<lambda>t. tab_cloudSyncFields t \<noteq> []) (dbs_tables d))"

definition Database_GetKey_fields :: "string list \<Rightarrow> string" where
  "Database_GetKey_fields flds = fold (\<lambda>field pfx. pfx @ KEY_SEPARATOR @ field) flds ''DistributedSchema''"

definition Database_GetKey :: "Database \<Rightarrow> string" where
  "Database_GetKey d = Database_GetKey_fields [dbs_user d, ''default'', dbs_bundleName d, dbs_name d]"

definition Database_GetPrefix :: "string list \<Rightarrow> string" where
  "Database_GetPrefix flds = Database_GetKey_fields flds @ KEY_SEPARATOR"

section \<open>The schema\<close>

interpretation databases_field: json_field "SetValue_vector (\<lambda>v. Database_Marshal v JNull)"
    "GetValue_vector (GetValue_object Database_Unmarshal) Database_new"
  by (rule database.as_field.vector_field)

record SchemaMeta =
  scm_metaVersion :: "u32"
  scm_version :: "u32"
  scm_bundleName :: "string"
  scm_databases :: "Database list"
  scm_e2eeEnable :: "bool"

definition SchemaMeta_new :: SchemaMeta where
  "SchemaMeta_new = \<lparr>scm_metaVersion = 0x10001, scm_version = 0, scm_bundleName = [], scm_databases = [], scm_e2eeEnable = False\<rparr>"

definition SchemaMeta_members :: "SchemaMeta \<Rightarrow> (string \<times> json) list" where
  "SchemaMeta_members m = [
     (''metaVersion'', SetValue_u32 (scm_metaVersion m)),
     (''version'', SetValue_i32 (scm_version m)),
     (''bundleName'', SetValue_string (scm_bundleName m)),
     (''databases'', SetValue_vector (\<lambda>v. Database_Marshal v JNull) (scm_databases m)),
     (''e2eeEnable'', SetValue_bool (scm_e2eeEnable m))]"

definition SchemaMeta_Marshal :: "SchemaMeta \<Rightarrow> json \<Rightarrow> json" where
  "SchemaMeta_Marshal m node = json_puts (SchemaMeta_members m) node"

definition SchemaMeta_Unmarshal :: "json \<Rightarrow> SchemaMeta \<Rightarrow> bool \<times> SchemaMeta" where
  "SchemaMeta_Unmarshal node m =
     (True,
      m\<lparr>scm_metaVersion := (case GetValue_u32 node ''metaVersion'' (scm_metaVersion m) of (ok, v) \<Rightarrow> if ok then v else 0),
        scm_version := snd (GetValue_i32 node ''version'' (scm_version m)),
        scm_bundleName := snd (GetValue_string node ''bundleName'' (scm_bundleName m)),
        scm_databases := snd (GetValue_vector (GetValue_object Database_Unmarshal) Database_new node ''dbSchema'' (snd (GetValue_vector (GetValue_object Database_Unmarshal) Database_new node ''databases'' (scm_databases m)))),
        scm_e2eeEnable := snd (GetValue_bool node ''e2eeEnable'' (scm_e2eeEnable m))\<rparr>)"

lemma schema_meta_read:
  assumes "exact_members node (SchemaMeta_members m)"
  shows "SchemaMeta_Unmarshal node old = (True, m)"
proof -
  have
    "GetValue_u32 node ''metaVersion'' (scm_metaVersion old) = (True, scm_metaVersion m)" and
    "GetValue_i32 node ''version'' (scm_version old) = (True, scm_version m)" and
    "GetValue_string node ''bundleName'' (scm_bundleName old) = (True, scm_bundleName m)" and
    "GetValue_vector (GetValue_object Database_Unmarshal) Database_new node ''databases'' (scm_databases old) = (True, scm_databases m)" and
    "GetValue_bool node ''e2eeEnable'' (scm_e2eeEnable old) = (True, scm_e2eeEnable m)"
    by (rule reads field_of_members [OF databases_field.json_field_axioms], rule exact_holds, rule assms, simp, simp add: SchemaMeta_members_def)+
  moreover have
    "GetValue_vector (GetValue_object Database_Unmarshal) Database_new node ''dbSchema'' v0 = (False, v0)" for v0
    by (rule exact_absent_reads, rule assms, simp, simp add: SchemaMeta_members_def)+
  ultimately show ?thesis by (simp add: SchemaMeta_Unmarshal_def)
qed

interpretation schema_meta: json_object SchemaMeta_Marshal SchemaMeta_Unmarshal
  by (rule json_object_by_exact_members [OF SchemaMeta_Marshal_def schema_meta_read]) (simp_all add: SchemaMeta_members_def)

definition SchemaMeta_eq :: "SchemaMeta \<Rightarrow> SchemaMeta \<Rightarrow> bool" where
  "SchemaMeta_eq a b \<longleftrightarrow> scm_metaVersion a = scm_metaVersion b \<and> scm_version a = scm_version b \<and>
     scm_bundleName a = scm_bundleName b \<and> list_all2 Database_eq (scm_databases a) (scm_databases b) \<and>
     scm_e2eeEnable a = scm_e2eeEnable b"

definition SchemaMeta_neq :: "SchemaMeta \<Rightarrow> SchemaMeta \<Rightarrow> bool" where
  "SchemaMeta_neq a b \<longleftrightarrow> \<not> SchemaMeta_eq a b"

fun GetDataBase :: "Database list \<Rightarrow> string \<Rightarrow> Database" where
  "GetDataBase [] storeId = Database_new"
| "GetDataBase (d # ds) storeId = (if dbs_name d = storeId then d else GetDataBase ds storeId)"

definition SchemaMeta_GetDataBase :: "SchemaMeta \<Rightarrow> string \<Rightarrow> Database" where
  "SchemaMeta_GetDataBase m storeId = GetDataBase (scm_databases m) storeId"

definition SchemaMeta_IsValid :: "SchemaMeta \<Rightarrow> bool" where
  "SchemaMeta_IsValid m \<longleftrightarrow> scm_bundleName m \<noteq> [] \<and> scm_databases m \<noteq> []"

definition SchemaMeta_GetStores :: "SchemaMeta \<Rightarrow> string list" where
  "SchemaMeta_GetStores m = map dbs_name (scm_databases m)"

definition GetLowVersion :: "u32 \<Rightarrow> u32" where
  "GetLowVersion metaVersion = and metaVersion 0xFFFF"

definition GetHighVersion :: "u32 \<Rightarrow> u32" where
  "GetHighVersion metaVersion = and metaVersion (not 0xFFFF)"

section \<open>Results\<close>


text \<open>
  The old names of a field: \<^verbatim>\<open>columnName\<close> and \<^verbatim>\<open>primaryKey\<close> are synonyms of the current ones, but
  \<^verbatim>\<open>notNull\<close> is stored as it is into \<^verbatim>\<open>nullable\<close>, which means the opposite.
\<close>

lemma Field_old_names:
  "snd (Field_Unmarshal (JObj [(''columnName'', JStr c), (''primaryKey'', JBool p), (''notNull'', JBool n)]) Field_new) =
     Field_new\<lparr>fld_colName := c, fld_primary := p, fld_nullable := n\<rparr>"
  by (simp add: Field_Unmarshal_def Field_new_def GetValue_simps GetSubNode_def)

lemma Field_eq_autoIncrement: "Field_eq f (f\<lparr>fld_autoIncrement := b\<rparr>)"
  by (simp add: Field_eq_def)

lemma table_names_filter: "set (table_names (filter P ts)) \<subseteq> set (table_names ts)"
  by (induction ts) auto

lemma cloud_tables_are_tables:
  "set (Database_GetCloudTables d) \<subseteq> set (Database_GetTableNames d)" "set (Database_GetSyncTables d) \<subseteq> set (Database_GetTableNames d)"
proof -
  show "set (Database_GetCloudTables d) \<subseteq> set (Database_GetTableNames d)"
    unfolding Database_GetCloudTables_def Database_GetTableNames_def by (rule table_names_filter)
  have "set (map tab_name ts) \<subseteq> set (table_names ts)" for ts by (induction ts) auto
  thus "set (Database_GetSyncTables d) \<subseteq> set (Database_GetTableNames d)"
    using table_names_filter unfolding Database_GetSyncTables_def Database_GetTableNames_def by blast
qed

end
