(* ===== verification/Config_Records.thy ===== *)
theory Config_Records
  imports Serializable_Maps Meta_Codec
begin

text \<open>
  The configuration of the service, \<^verbatim>\<open>service/config/src/model\<close>: one class per section of the
  configuration file, read at the start.  Sections the file leaves out stay null pointers of the
  global configuration.  A component carries its parameters as the text of a nested document, for
  which the JSON library is a parameter.
\<close>

section \<open>Sections\<close>

record TrustApp =
  tra_bundleName :: "string"
  tra_appId :: "string"

definition TrustApp_new :: TrustApp where
  "TrustApp_new = \<lparr>tra_bundleName = [], tra_appId = []\<rparr>"

definition TrustApp_members :: "TrustApp \<Rightarrow> (string \<times> json) list" where
  "TrustApp_members m = [
     (''bundleName'', SetValue_string (tra_bundleName m)),
     (''appId'', SetValue_string (tra_appId m))]"

definition TrustApp_Marshal :: "TrustApp \<Rightarrow> json \<Rightarrow> json" where
  "TrustApp_Marshal m node = json_puts (TrustApp_members m) node"

definition TrustApp_Unmarshal :: "json \<Rightarrow> TrustApp \<Rightarrow> bool \<times> TrustApp" where
  "TrustApp_Unmarshal node m =
     (True,
      m\<lparr>tra_bundleName := snd (GetValue_string node ''bundleName'' (tra_bundleName m)),
        tra_appId := snd (GetValue_string node ''appId'' (tra_appId m))\<rparr>)"

lemma trust_app_read:
  assumes "holds_members node (TrustApp_members m)"
  shows "TrustApp_Unmarshal node old = (True, m)"
proof -
  have
    "GetValue_string node ''bundleName'' (tra_bundleName old) = (True, tra_bundleName m)" and
    "GetValue_string node ''appId'' (tra_appId old) = (True, tra_appId m)"
    by (rule reads, rule assms, simp, simp add: TrustApp_members_def)+
  then show ?thesis by (simp add: TrustApp_Unmarshal_def)
qed

interpretation trust_app: json_object TrustApp_Marshal TrustApp_Unmarshal
  by (rule json_object_by_members [OF TrustApp_Marshal_def trust_app_read]) (simp_all add: TrustApp_members_def)

interpretation trust_apps_field: json_field "SetValue_vector (\<lambda>v. TrustApp_Marshal v JNull)"
    "GetValue_vector (GetValue_object TrustApp_Unmarshal) TrustApp_new"
  by (rule trust_app.as_field.vector_field)

record AppAccessCheckConfig =
  aac_trusts :: "TrustApp list"

definition AppAccessCheckConfig_new :: AppAccessCheckConfig where
  "AppAccessCheckConfig_new = \<lparr>aac_trusts = []\<rparr>"

definition AppAccessCheckConfig_members :: "AppAccessCheckConfig \<Rightarrow> (string \<times> json) list" where
  "AppAccessCheckConfig_members m = [
     (''trusts'', SetValue_vector (\<lambda>v. TrustApp_Marshal v JNull) (aac_trusts m))]"

definition AppAccessCheckConfig_Marshal :: "AppAccessCheckConfig \<Rightarrow> json \<Rightarrow> json" where
  "AppAccessCheckConfig_Marshal m node = json_puts (AppAccessCheckConfig_members m) node"

definition AppAccessCheckConfig_Unmarshal :: "json \<Rightarrow> AppAccessCheckConfig \<Rightarrow> bool \<times> AppAccessCheckConfig" where
  "AppAccessCheckConfig_Unmarshal node m =
     (True,
      m\<lparr>aac_trusts := snd (GetValue_vector (GetValue_object TrustApp_Unmarshal) TrustApp_new node ''trusts'' (aac_trusts m))\<rparr>)"

lemma app_access_config_read:
  assumes "holds_members node (AppAccessCheckConfig_members m)"
  shows "AppAccessCheckConfig_Unmarshal node old = (True, m)"
proof -
  have
    "GetValue_vector (GetValue_object TrustApp_Unmarshal) TrustApp_new node ''trusts'' (aac_trusts old) = (True, aac_trusts m)"
    by (rule reads field_of_members [OF trust_apps_field.json_field_axioms], rule assms, simp, simp add: AppAccessCheckConfig_members_def)+
  then show ?thesis by (simp add: AppAccessCheckConfig_Unmarshal_def)
qed

interpretation app_access_config: json_object AppAccessCheckConfig_Marshal AppAccessCheckConfig_Unmarshal
  by (rule json_object_by_members [OF AppAccessCheckConfig_Marshal_def app_access_config_read]) (simp_all add: AppAccessCheckConfig_members_def)

record AppIdMappingConfig =
  aim_srcAppId :: "string"
  aim_dstAppId :: "string"
  aim_isSystemApp :: "bool"

definition AppIdMappingConfig_new :: AppIdMappingConfig where
  "AppIdMappingConfig_new = \<lparr>aim_srcAppId = [], aim_dstAppId = [], aim_isSystemApp = False\<rparr>"

definition AppIdMappingConfig_members :: "AppIdMappingConfig \<Rightarrow> (string \<times> json) list" where
  "AppIdMappingConfig_members m = [
     (''srcAppId'', SetValue_string (aim_srcAppId m)),
     (''dstAppId'', SetValue_string (aim_dstAppId m)),
     (''isSystemApp'', SetValue_bool (aim_isSystemApp m))]"

definition AppIdMappingConfig_Marshal :: "AppIdMappingConfig \<Rightarrow> json \<Rightarrow> json" where
  "AppIdMappingConfig_Marshal m node = json_puts (AppIdMappingConfig_members m) node"

definition AppIdMappingConfig_Unmarshal :: "json \<Rightarrow> AppIdMappingConfig \<Rightarrow> bool \<times> AppIdMappingConfig" where
  "AppIdMappingConfig_Unmarshal node m =
     (True,
      m\<lparr>aim_srcAppId := snd (GetValue_string node ''srcAppId'' (aim_srcAppId m)),
        aim_dstAppId := snd (GetValue_string node ''dstAppId'' (aim_dstAppId m)),
        aim_isSystemApp := snd (GetValue_bool node ''isSystemApp'' (aim_isSystemApp m))\<rparr>)"

lemma app_id_mapping_read:
  assumes "holds_members node (AppIdMappingConfig_members m)"
  shows "AppIdMappingConfig_Unmarshal node old = (True, m)"
proof -
  have
    "GetValue_string node ''srcAppId'' (aim_srcAppId old) = (True, aim_srcAppId m)" and
    "GetValue_string node ''dstAppId'' (aim_dstAppId old) = (True, aim_dstAppId m)" and
    "GetValue_bool node ''isSystemApp'' (aim_isSystemApp old) = (True, aim_isSystemApp m)"
    by (rule reads, rule assms, simp, simp add: AppIdMappingConfig_members_def)+
  then show ?thesis by (simp add: AppIdMappingConfig_Unmarshal_def)
qed

interpretation app_id_mapping: json_object AppIdMappingConfig_Marshal AppIdMappingConfig_Unmarshal
  by (rule json_object_by_members [OF AppIdMappingConfig_Marshal_def app_id_mapping_read]) (simp_all add: AppIdMappingConfig_members_def)

record AutoSyncAppConfig =
  asa_version :: "u32"
  asa_appId :: "string"
  asa_bundleName :: "string"
  asa_storeIds :: "string list"

definition AutoSyncAppConfig_new :: AutoSyncAppConfig where
  "AutoSyncAppConfig_new = \<lparr>asa_version = 0, asa_appId = [], asa_bundleName = [], asa_storeIds = []\<rparr>"

definition AutoSyncAppConfig_members :: "AutoSyncAppConfig \<Rightarrow> (string \<times> json) list" where
  "AutoSyncAppConfig_members m = [
     (''version'', SetValue_u32 (asa_version m)),
     (''appId'', SetValue_string (asa_appId m)),
     (''bundleName'', SetValue_string (asa_bundleName m)),
     (''storeIds'', SetValue_vector SetValue_string (asa_storeIds m))]"

definition AutoSyncAppConfig_Marshal :: "AutoSyncAppConfig \<Rightarrow> json \<Rightarrow> json" where
  "AutoSyncAppConfig_Marshal m node = json_puts (AutoSyncAppConfig_members m) node"

definition AutoSyncAppConfig_Unmarshal :: "json \<Rightarrow> AutoSyncAppConfig \<Rightarrow> bool \<times> AutoSyncAppConfig" where
  "AutoSyncAppConfig_Unmarshal node m =
     (True,
      m\<lparr>asa_version := snd (GetValue_u32 node ''version'' (asa_version m)),
        asa_appId := snd (GetValue_string node ''appId'' (asa_appId m)),
        asa_bundleName := snd (GetValue_string node ''bundleName'' (asa_bundleName m)),
        asa_storeIds := snd (GetValue_vector GetValue_string [] node ''storeIds'' (asa_storeIds m))\<rparr>)"

lemma auto_sync_app_read:
  assumes "holds_members node (AutoSyncAppConfig_members m)"
  shows "AutoSyncAppConfig_Unmarshal node old = (True, m)"
proof -
  have
    "GetValue_u32 node ''version'' (asa_version old) = (True, asa_version m)" and
    "GetValue_string node ''appId'' (asa_appId old) = (True, asa_appId m)" and
    "GetValue_string node ''bundleName'' (asa_bundleName old) = (True, asa_bundleName m)" and
    "GetValue_vector GetValue_string [] node ''storeIds'' (asa_storeIds old) = (True, asa_storeIds m)"
    by (rule reads, rule assms, simp, simp add: AutoSyncAppConfig_members_def)+
  then show ?thesis by (simp add: AutoSyncAppConfig_Unmarshal_def)
qed

interpretation auto_sync_app: json_object AutoSyncAppConfig_Marshal AutoSyncAppConfig_Unmarshal
  by (rule json_object_by_members [OF AutoSyncAppConfig_Marshal_def auto_sync_app_read]) (simp_all add: AutoSyncAppConfig_members_def)

record BackupConfig =
  bkc_rules :: "string list"
  bkc_schedularDelay :: "u32"
  bkc_schedularInternal :: "u32"
  bkc_backupInternal :: "u32"
  bkc_backupNumber :: "u32"

definition BackupConfig_new :: BackupConfig where
  "BackupConfig_new = \<lparr>bkc_rules = [], bkc_schedularDelay = 0, bkc_schedularInternal = 0, bkc_backupInternal = 0, bkc_backupNumber = 0\<rparr>"

definition BackupConfig_members :: "BackupConfig \<Rightarrow> (string \<times> json) list" where
  "BackupConfig_members m = [
     (''rules'', SetValue_vector SetValue_string (bkc_rules m)),
     (''schedularDelay'', SetValue_i32 (bkc_schedularDelay m)),
     (''schedularInternal'', SetValue_i32 (bkc_schedularInternal m)),
     (''backupInternal'', SetValue_i32 (bkc_backupInternal m)),
     (''backupNumber'', SetValue_i32 (bkc_backupNumber m))]"

definition BackupConfig_Marshal :: "BackupConfig \<Rightarrow> json \<Rightarrow> json" where
  "BackupConfig_Marshal m node = json_puts (BackupConfig_members m) node"

definition BackupConfig_Unmarshal :: "json \<Rightarrow> BackupConfig \<Rightarrow> bool \<times> BackupConfig" where
  "BackupConfig_Unmarshal node m =
     (True,
      m\<lparr>bkc_rules := snd (GetValue_vector GetValue_string [] node ''rules'' (bkc_rules m)),
        bkc_schedularDelay := snd (GetValue_i32 node ''schedularDelay'' (bkc_schedularDelay m)),
        bkc_schedularInternal := snd (GetValue_i32 node ''schedularInternal'' (bkc_schedularInternal m)),
        bkc_backupInternal := snd (GetValue_i32 node ''backupInternal'' (bkc_backupInternal m)),
        bkc_backupNumber := snd (GetValue_i32 node ''backupNumber'' (bkc_backupNumber m))\<rparr>)"

lemma backup_config_read:
  assumes "holds_members node (BackupConfig_members m)"
  shows "BackupConfig_Unmarshal node old = (True, m)"
proof -
  have
    "GetValue_vector GetValue_string [] node ''rules'' (bkc_rules old) = (True, bkc_rules m)" and
    "GetValue_i32 node ''schedularDelay'' (bkc_schedularDelay old) = (True, bkc_schedularDelay m)" and
    "GetValue_i32 node ''schedularInternal'' (bkc_schedularInternal old) = (True, bkc_schedularInternal m)" and
    "GetValue_i32 node ''backupInternal'' (bkc_backupInternal old) = (True, bkc_backupInternal m)" and
    "GetValue_i32 node ''backupNumber'' (bkc_backupNumber old) = (True, bkc_backupNumber m)"
    by (rule reads, rule assms, simp, simp add: BackupConfig_members_def)+
  then show ?thesis by (simp add: BackupConfig_Unmarshal_def)
qed

interpretation backup_config: json_object BackupConfig_Marshal BackupConfig_Unmarshal
  by (rule json_object_by_members [OF BackupConfig_Marshal_def backup_config_read]) (simp_all add: BackupConfig_members_def)

record Trust =
  tru_bundleName :: "string"
  tru_appId :: "string"
  tru_packageName :: "string"
  tru_base64Key :: "string"
  tru_checker :: "string"

definition Trust_new :: Trust where
  "Trust_new = \<lparr>tru_bundleName = [], tru_appId = [], tru_packageName = [], tru_base64Key = [], tru_checker = []\<rparr>"

definition Trust_members :: "Trust \<Rightarrow> (string \<times> json) list" where
  "Trust_members m = [
     (''bundleName'', SetValue_string (tru_bundleName m)),
     (''appId'', SetValue_string (tru_appId m)),
     (''packageName'', SetValue_string (tru_packageName m)),
     (''base64Key'', SetValue_string (tru_base64Key m)),
     (''checker'', SetValue_string (tru_checker m))]"

definition Trust_Marshal :: "Trust \<Rightarrow> json \<Rightarrow> json" where
  "Trust_Marshal m node = json_puts (Trust_members m) node"

definition Trust_Unmarshal :: "json \<Rightarrow> Trust \<Rightarrow> bool \<times> Trust" where
  "Trust_Unmarshal node m =
     (True,
      m\<lparr>tru_bundleName := snd (GetValue_string node ''bundleName'' (tru_bundleName m)),
        tru_appId := snd (GetValue_string node ''appId'' (tru_appId m)),
        tru_packageName := snd (GetValue_string node ''packageName'' (tru_packageName m)),
        tru_base64Key := snd (GetValue_string node ''base64Key'' (tru_base64Key m)),
        tru_checker := snd (GetValue_string node ''checker'' (tru_checker m))\<rparr>)"

lemma checker_trust_read:
  assumes "holds_members node (Trust_members m)"
  shows "Trust_Unmarshal node old = (True, m)"
proof -
  have
    "GetValue_string node ''bundleName'' (tru_bundleName old) = (True, tru_bundleName m)" and
    "GetValue_string node ''appId'' (tru_appId old) = (True, tru_appId m)" and
    "GetValue_string node ''packageName'' (tru_packageName old) = (True, tru_packageName m)" and
    "GetValue_string node ''base64Key'' (tru_base64Key old) = (True, tru_base64Key m)" and
    "GetValue_string node ''checker'' (tru_checker old) = (True, tru_checker m)"
    by (rule reads, rule assms, simp, simp add: Trust_members_def)+
  then show ?thesis by (simp add: Trust_Unmarshal_def)
qed

interpretation checker_trust: json_object Trust_Marshal Trust_Unmarshal
  by (rule json_object_by_members [OF Trust_Marshal_def checker_trust_read]) (simp_all add: Trust_members_def)

record StaticStore =
  sst_uid :: "u32"
  sst_tokenId :: "u32"
  sst_bundleName :: "string"
  sst_storeId :: "string"
  sst_checker :: "string"

definition StaticStore_new :: StaticStore where
  "StaticStore_new = \<lparr>sst_uid = 0, sst_tokenId = 0, sst_bundleName = [], sst_storeId = [], sst_checker = []\<rparr>"

definition StaticStore_members :: "StaticStore \<Rightarrow> (string \<times> json) list" where
  "StaticStore_members m = [
     (''uid'', SetValue_i32 (sst_uid m)),
     (''tokenId'', SetValue_u32 (sst_tokenId m)),
     (''bundleName'', SetValue_string (sst_bundleName m)),
     (''storeId'', SetValue_string (sst_storeId m)),
     (''checker'', SetValue_string (sst_checker m))]"

definition StaticStore_Marshal :: "StaticStore \<Rightarrow> json \<Rightarrow> json" where
  "StaticStore_Marshal m node = json_puts (StaticStore_members m) node"

definition StaticStore_Unmarshal :: "json \<Rightarrow> StaticStore \<Rightarrow> bool \<times> StaticStore" where
  "StaticStore_Unmarshal node m =
     (True,
      m\<lparr>sst_uid := snd (GetValue_i32 node ''uid'' (sst_uid m)),
        sst_tokenId := snd (GetValue_u32 node ''tokenId'' (sst_tokenId m)),
        sst_bundleName := snd (GetValue_string node ''bundleName'' (sst_bundleName m)),
        sst_storeId := snd (GetValue_string node ''storeId'' (sst_storeId m)),
        sst_checker := snd (GetValue_string node ''checker'' (sst_checker m))\<rparr>)"

lemma static_store_read:
  assumes "holds_members node (StaticStore_members m)"
  shows "StaticStore_Unmarshal node old = (True, m)"
proof -
  have
    "GetValue_i32 node ''uid'' (sst_uid old) = (True, sst_uid m)" and
    "GetValue_u32 node ''tokenId'' (sst_tokenId old) = (True, sst_tokenId m)" and
    "GetValue_string node ''bundleName'' (sst_bundleName old) = (True, sst_bundleName m)" and
    "GetValue_string node ''storeId'' (sst_storeId old) = (True, sst_storeId m)" and
    "GetValue_string node ''checker'' (sst_checker old) = (True, sst_checker m)"
    by (rule reads, rule assms, simp, simp add: StaticStore_members_def)+
  then show ?thesis by (simp add: StaticStore_Unmarshal_def)
qed

interpretation static_store: json_object StaticStore_Marshal StaticStore_Unmarshal
  by (rule json_object_by_members [OF StaticStore_Marshal_def static_store_read]) (simp_all add: StaticStore_members_def)

interpretation checker_trusts_field: json_field "SetValue_vector (\<lambda>v. Trust_Marshal v JNull)"
    "GetValue_vector (GetValue_object Trust_Unmarshal) Trust_new"
  by (rule checker_trust.as_field.vector_field)

interpretation static_stores_field: json_field "SetValue_vector (\<lambda>v. StaticStore_Marshal v JNull)"
    "GetValue_vector (GetValue_object StaticStore_Unmarshal) StaticStore_new"
  by (rule static_store.as_field.vector_field)

record CheckerConfig =
  chc_checkers :: "string list"
  chc_trusts :: "Trust list"
  chc_distrusts :: "Trust list"
  chc_switches :: "Trust list"
  chc_staticStores :: "StaticStore list"
  chc_dynamicStores :: "StaticStore list"

definition CheckerConfig_new :: CheckerConfig where
  "CheckerConfig_new = \<lparr>chc_checkers = [], chc_trusts = [], chc_distrusts = [], chc_switches = [], chc_staticStores = [], chc_dynamicStores = []\<rparr>"

definition CheckerConfig_members :: "CheckerConfig \<Rightarrow> (string \<times> json) list" where
  "CheckerConfig_members m = [
     (''checkers'', SetValue_vector SetValue_string (chc_checkers m)),
     (''trusts'', SetValue_vector (\<lambda>v. Trust_Marshal v JNull) (chc_trusts m)),
     (''distrusts'', SetValue_vector (\<lambda>v. Trust_Marshal v JNull) (chc_distrusts m)),
     (''switches'', SetValue_vector (\<lambda>v. Trust_Marshal v JNull) (chc_switches m)),
     (''staticStores'', SetValue_vector (\<lambda>v. StaticStore_Marshal v JNull) (chc_staticStores m)),
     (''dynamicStores'', SetValue_vector (\<lambda>v. StaticStore_Marshal v JNull) (chc_dynamicStores m))]"

definition CheckerConfig_Marshal :: "CheckerConfig \<Rightarrow> json \<Rightarrow> json" where
  "CheckerConfig_Marshal m node = json_puts (CheckerConfig_members m) node"

definition CheckerConfig_Unmarshal :: "json \<Rightarrow> CheckerConfig \<Rightarrow> bool \<times> CheckerConfig" where
  "CheckerConfig_Unmarshal node m =
     (True,
      m\<lparr>chc_checkers := snd (GetValue_vector GetValue_string [] node ''checkers'' (chc_checkers m)),
        chc_trusts := snd (GetValue_vector (GetValue_object Trust_Unmarshal) Trust_new node ''trusts'' (chc_trusts m)),
        chc_distrusts := snd (GetValue_vector (GetValue_object Trust_Unmarshal) Trust_new node ''distrusts'' (chc_distrusts m)),
        chc_switches := snd (GetValue_vector (GetValue_object Trust_Unmarshal) Trust_new node ''switches'' (chc_switches m)),
        chc_staticStores := snd (GetValue_vector (GetValue_object StaticStore_Unmarshal) StaticStore_new node ''staticStores'' (chc_staticStores m)),
        chc_dynamicStores := snd (GetValue_vector (GetValue_object StaticStore_Unmarshal) StaticStore_new node ''dynamicStores'' (chc_dynamicStores m))\<rparr>)"

lemma checker_config_read:
  assumes "holds_members node (CheckerConfig_members m)"
  shows "CheckerConfig_Unmarshal node old = (True, m)"
proof -
  have
    "GetValue_vector GetValue_string [] node ''checkers'' (chc_checkers old) = (True, chc_checkers m)" and
    "GetValue_vector (GetValue_object Trust_Unmarshal) Trust_new node ''trusts'' (chc_trusts old) = (True, chc_trusts m)" and
    "GetValue_vector (GetValue_object Trust_Unmarshal) Trust_new node ''distrusts'' (chc_distrusts old) = (True, chc_distrusts m)" and
    "GetValue_vector (GetValue_object Trust_Unmarshal) Trust_new node ''switches'' (chc_switches old) = (True, chc_switches m)" and
    "GetValue_vector (GetValue_object StaticStore_Unmarshal) StaticStore_new node ''staticStores'' (chc_staticStores old) = (True, chc_staticStores m)" and
    "GetValue_vector (GetValue_object StaticStore_Unmarshal) StaticStore_new node ''dynamicStores'' (chc_dynamicStores old) = (True, chc_dynamicStores m)"
    by (rule reads field_of_members [OF checker_trusts_field.json_field_axioms] field_of_members [OF static_stores_field.json_field_axioms], rule assms, simp, simp add: CheckerConfig_members_def)+
  then show ?thesis by (simp add: CheckerConfig_Unmarshal_def)
qed

interpretation checker_config: json_object CheckerConfig_Marshal CheckerConfig_Unmarshal
  by (rule json_object_by_members [OF CheckerConfig_Marshal_def checker_config_read]) (simp_all add: CheckerConfig_members_def)

record CloudMapper =
  clm_localBundle :: "string"
  clm_cloudBundle :: "string"

definition CloudMapper_new :: CloudMapper where
  "CloudMapper_new = \<lparr>clm_localBundle = [], clm_cloudBundle = []\<rparr>"

definition CloudMapper_members :: "CloudMapper \<Rightarrow> (string \<times> json) list" where
  "CloudMapper_members m = [
     (''localBundle'', SetValue_string (clm_localBundle m)),
     (''cloudBundle'', SetValue_string (clm_cloudBundle m))]"

definition CloudMapper_Marshal :: "CloudMapper \<Rightarrow> json \<Rightarrow> json" where
  "CloudMapper_Marshal m node = json_puts (CloudMapper_members m) node"

definition CloudMapper_Unmarshal :: "json \<Rightarrow> CloudMapper \<Rightarrow> bool \<times> CloudMapper" where
  "CloudMapper_Unmarshal node m =
     (True,
      m\<lparr>clm_localBundle := snd (GetValue_string node ''localBundle'' (clm_localBundle m)),
        clm_cloudBundle := snd (GetValue_string node ''cloudBundle'' (clm_cloudBundle m))\<rparr>)"

lemma cloud_mapper_read:
  assumes "holds_members node (CloudMapper_members m)"
  shows "CloudMapper_Unmarshal node old = (True, m)"
proof -
  have
    "GetValue_string node ''localBundle'' (clm_localBundle old) = (True, clm_localBundle m)" and
    "GetValue_string node ''cloudBundle'' (clm_cloudBundle old) = (True, clm_cloudBundle m)"
    by (rule reads, rule assms, simp, simp add: CloudMapper_members_def)+
  then show ?thesis by (simp add: CloudMapper_Unmarshal_def)
qed

interpretation cloud_mapper: json_object CloudMapper_Marshal CloudMapper_Unmarshal
  by (rule json_object_by_members [OF CloudMapper_Marshal_def cloud_mapper_read]) (simp_all add: CloudMapper_members_def)

interpretation cloud_mappers_field: json_field "SetValue_vector (\<lambda>v. CloudMapper_Marshal v JNull)"
    "GetValue_vector (GetValue_object CloudMapper_Unmarshal) CloudMapper_new"
  by (rule cloud_mapper.as_field.vector_field)

record CloudConfig =
  clc_mapper :: "CloudMapper list"

definition CloudConfig_new :: CloudConfig where
  "CloudConfig_new = \<lparr>clc_mapper = []\<rparr>"

definition CloudConfig_members :: "CloudConfig \<Rightarrow> (string \<times> json) list" where
  "CloudConfig_members m = [
     (''mapper'', SetValue_vector (\<lambda>v. CloudMapper_Marshal v JNull) (clc_mapper m))]"

definition CloudConfig_Marshal :: "CloudConfig \<Rightarrow> json \<Rightarrow> json" where
  "CloudConfig_Marshal m node = json_puts (CloudConfig_members m) node"

definition CloudConfig_Unmarshal :: "json \<Rightarrow> CloudConfig \<Rightarrow> bool \<times> CloudConfig" where
  "CloudConfig_Unmarshal node m =
     (True,
      m\<lparr>clc_mapper := snd (GetValue_vector (GetValue_object CloudMapper_Unmarshal) CloudMapper_new node ''mapper'' (clc_mapper m))\<rparr>)"

lemma cloud_config_read:
  assumes "holds_members node (CloudConfig_members m)"
  shows "CloudConfig_Unmarshal node old = (True, m)"
proof -
  have
    "GetValue_vector (GetValue_object CloudMapper_Unmarshal) CloudMapper_new node ''mapper'' (clc_mapper old) = (True, clc_mapper m)"
    by (rule reads field_of_members [OF cloud_mappers_field.json_field_axioms], rule assms, simp, simp add: CloudConfig_members_def)+
  then show ?thesis by (simp add: CloudConfig_Unmarshal_def)
qed

interpretation cloud_config: json_object CloudConfig_Marshal CloudConfig_Unmarshal
  by (rule json_object_by_members [OF CloudConfig_Marshal_def cloud_config_read]) (simp_all add: CloudConfig_members_def)

record DataShareConfig =
  dsh_dataShareExtNames :: "string list"
  dsh_updateLaunchNames :: "string list"
  dsh_providerIdentifiers :: "string list"

definition DataShareConfig_new :: DataShareConfig where
  "DataShareConfig_new = \<lparr>dsh_dataShareExtNames = [], dsh_updateLaunchNames = [], dsh_providerIdentifiers = []\<rparr>"

definition DataShareConfig_members :: "DataShareConfig \<Rightarrow> (string \<times> json) list" where
  "DataShareConfig_members m = [
     (''dataShareExtNames'', SetValue_vector SetValue_string (dsh_dataShareExtNames m)),
     (''updateLaunchNames'', SetValue_vector SetValue_string (dsh_updateLaunchNames m)),
     (''providerIdentifiers'', SetValue_vector SetValue_string (dsh_providerIdentifiers m))]"

definition DataShareConfig_Marshal :: "DataShareConfig \<Rightarrow> json \<Rightarrow> json" where
  "DataShareConfig_Marshal m node = json_puts (DataShareConfig_members m) node"

definition DataShareConfig_Unmarshal :: "json \<Rightarrow> DataShareConfig \<Rightarrow> bool \<times> DataShareConfig" where
  "DataShareConfig_Unmarshal node m =
     (True,
      m\<lparr>dsh_dataShareExtNames := snd (GetValue_vector GetValue_string [] node ''dataShareExtNames'' (dsh_dataShareExtNames m)),
        dsh_updateLaunchNames := snd (GetValue_vector GetValue_string [] node ''updateLaunchNames'' (dsh_updateLaunchNames m)),
        dsh_providerIdentifiers := snd (GetValue_vector GetValue_string [] node ''providerIdentifiers'' (dsh_providerIdentifiers m))\<rparr>)"

lemma data_share_config_read:
  assumes "holds_members node (DataShareConfig_members m)"
  shows "DataShareConfig_Unmarshal node old = (True, m)"
proof -
  have
    "GetValue_vector GetValue_string [] node ''dataShareExtNames'' (dsh_dataShareExtNames old) = (True, dsh_dataShareExtNames m)" and
    "GetValue_vector GetValue_string [] node ''updateLaunchNames'' (dsh_updateLaunchNames old) = (True, dsh_updateLaunchNames m)" and
    "GetValue_vector GetValue_string [] node ''providerIdentifiers'' (dsh_providerIdentifiers old) = (True, dsh_providerIdentifiers m)"
    by (rule reads, rule assms, simp, simp add: DataShareConfig_members_def)+
  then show ?thesis by (simp add: DataShareConfig_Unmarshal_def)
qed

interpretation data_share_config: json_object DataShareConfig_Marshal DataShareConfig_Unmarshal
  by (rule json_object_by_members [OF DataShareConfig_Marshal_def data_share_config_read]) (simp_all add: DataShareConfig_members_def)

record DirectoryStrategy =
  dis_autoCreate :: "bool"
  dis_version :: "u32"
  dis_pattern :: "string"
  dis_metaPath :: "string"
  dis_clonePath :: "string"

definition DirectoryStrategy_new :: DirectoryStrategy where
  "DirectoryStrategy_new = \<lparr>dis_autoCreate = False, dis_version = 0, dis_pattern = [], dis_metaPath = [], dis_clonePath = []\<rparr>"

definition DirectoryStrategy_members :: "DirectoryStrategy \<Rightarrow> (string \<times> json) list" where
  "DirectoryStrategy_members m = [
     (''version'', SetValue_u32 (dis_version m)),
     (''pattern'', SetValue_string (dis_pattern m)),
     (''metaPath'', SetValue_string (dis_metaPath m)),
     (''autoCreate'', SetValue_bool (dis_autoCreate m)),
     (''clonePath'', SetValue_string (dis_clonePath m))]"

definition DirectoryStrategy_Marshal :: "DirectoryStrategy \<Rightarrow> json \<Rightarrow> json" where
  "DirectoryStrategy_Marshal m node = json_puts (DirectoryStrategy_members m) node"

definition DirectoryStrategy_Unmarshal :: "json \<Rightarrow> DirectoryStrategy \<Rightarrow> bool \<times> DirectoryStrategy" where
  "DirectoryStrategy_Unmarshal node m =
     (True,
      m\<lparr>dis_version := snd (GetValue_u32 node ''version'' (dis_version m)),
        dis_pattern := snd (GetValue_string node ''pattern'' (dis_pattern m)),
        dis_metaPath := snd (GetValue_string node ''metaPath'' (dis_metaPath m)),
        dis_autoCreate := snd (GetValue_bool node ''autoCreate'' (dis_autoCreate m)),
        dis_clonePath := snd (GetValue_string node ''clonePath'' (dis_clonePath m))\<rparr>)"

lemma directory_strategy_read:
  assumes "holds_members node (DirectoryStrategy_members m)"
  shows "DirectoryStrategy_Unmarshal node old = (True, m)"
proof -
  have
    "GetValue_u32 node ''version'' (dis_version old) = (True, dis_version m)" and
    "GetValue_string node ''pattern'' (dis_pattern old) = (True, dis_pattern m)" and
    "GetValue_string node ''metaPath'' (dis_metaPath old) = (True, dis_metaPath m)" and
    "GetValue_bool node ''autoCreate'' (dis_autoCreate old) = (True, dis_autoCreate m)" and
    "GetValue_string node ''clonePath'' (dis_clonePath old) = (True, dis_clonePath m)"
    by (rule reads, rule assms, simp, simp add: DirectoryStrategy_members_def)+
  then show ?thesis by (simp add: DirectoryStrategy_Unmarshal_def)
qed

interpretation directory_strategy: json_object DirectoryStrategy_Marshal DirectoryStrategy_Unmarshal
  by (rule json_object_by_members [OF DirectoryStrategy_Marshal_def directory_strategy_read]) (simp_all add: DirectoryStrategy_members_def)

record StoreType =
  stt_range :: "u32 list"
  stt_type :: "string"

definition StoreType_new :: StoreType where
  "StoreType_new = \<lparr>stt_range = [], stt_type = []\<rparr>"

definition StoreType_members :: "StoreType \<Rightarrow> (string \<times> json) list" where
  "StoreType_members m = [
     (''range'', SetValue_vector SetValue_i32 (stt_range m)),
     (''type'', SetValue_string (stt_type m))]"

definition StoreType_Marshal :: "StoreType \<Rightarrow> json \<Rightarrow> json" where
  "StoreType_Marshal m node = json_puts (StoreType_members m) node"

definition StoreType_Unmarshal :: "json \<Rightarrow> StoreType \<Rightarrow> bool \<times> StoreType" where
  "StoreType_Unmarshal node m =
     (True,
      m\<lparr>stt_range := snd (GetValue_vector GetValue_i32 0 node ''range'' (stt_range m)),
        stt_type := snd (GetValue_string node ''type'' (stt_type m))\<rparr>)"

lemma store_type_read:
  assumes "holds_members node (StoreType_members m)"
  shows "StoreType_Unmarshal node old = (True, m)"
proof -
  have
    "GetValue_vector GetValue_i32 0 node ''range'' (stt_range old) = (True, stt_range m)" and
    "GetValue_string node ''type'' (stt_type old) = (True, stt_type m)"
    by (rule reads, rule assms, simp, simp add: StoreType_members_def)+
  then show ?thesis by (simp add: StoreType_Unmarshal_def)
qed

interpretation store_type: json_object StoreType_Marshal StoreType_Unmarshal
  by (rule json_object_by_members [OF StoreType_Marshal_def store_type_read]) (simp_all add: StoreType_members_def)

interpretation directory_strategies_field: json_field "SetValue_vector (\<lambda>v. DirectoryStrategy_Marshal v JNull)"
    "GetValue_vector (GetValue_object DirectoryStrategy_Unmarshal) DirectoryStrategy_new"
  by (rule directory_strategy.as_field.vector_field)

interpretation store_types_field: json_field "SetValue_vector (\<lambda>v. StoreType_Marshal v JNull)"
    "GetValue_vector (GetValue_object StoreType_Unmarshal) StoreType_new"
  by (rule store_type.as_field.vector_field)

record DirectoryConfig =
  dic_strategy :: "DirectoryStrategy list"
  dic_storeTypes :: "StoreType list"

definition DirectoryConfig_new :: DirectoryConfig where
  "DirectoryConfig_new = \<lparr>dic_strategy = [], dic_storeTypes = []\<rparr>"

definition DirectoryConfig_members :: "DirectoryConfig \<Rightarrow> (string \<times> json) list" where
  "DirectoryConfig_members m = [
     (''strategy'', SetValue_vector (\<lambda>v. DirectoryStrategy_Marshal v JNull) (dic_strategy m)),
     (''storeTypes'', SetValue_vector (\<lambda>v. StoreType_Marshal v JNull) (dic_storeTypes m))]"

definition DirectoryConfig_Marshal :: "DirectoryConfig \<Rightarrow> json \<Rightarrow> json" where
  "DirectoryConfig_Marshal m node = json_puts (DirectoryConfig_members m) node"

definition DirectoryConfig_Unmarshal :: "json \<Rightarrow> DirectoryConfig \<Rightarrow> bool \<times> DirectoryConfig" where
  "DirectoryConfig_Unmarshal node m =
     (True,
      m\<lparr>dic_strategy := snd (GetValue_vector (GetValue_object DirectoryStrategy_Unmarshal) DirectoryStrategy_new node ''strategy'' (dic_strategy m)),
        dic_storeTypes := snd (GetValue_vector (GetValue_object StoreType_Unmarshal) StoreType_new node ''storeTypes'' (dic_storeTypes m))\<rparr>)"

lemma directory_config_read:
  assumes "holds_members node (DirectoryConfig_members m)"
  shows "DirectoryConfig_Unmarshal node old = (True, m)"
proof -
  have
    "GetValue_vector (GetValue_object DirectoryStrategy_Unmarshal) DirectoryStrategy_new node ''strategy'' (dic_strategy old) = (True, dic_strategy m)" and
    "GetValue_vector (GetValue_object StoreType_Unmarshal) StoreType_new node ''storeTypes'' (dic_storeTypes old) = (True, dic_storeTypes m)"
    by (rule reads field_of_members [OF directory_strategies_field.json_field_axioms] field_of_members [OF store_types_field.json_field_axioms], rule assms, simp, simp add: DirectoryConfig_members_def)+
  then show ?thesis by (simp add: DirectoryConfig_Unmarshal_def)
qed

interpretation directory_config: json_object DirectoryConfig_Marshal DirectoryConfig_Unmarshal
  by (rule json_object_by_members [OF DirectoryConfig_Marshal_def directory_config_read]) (simp_all add: DirectoryConfig_members_def)

record DoubleSyncConfig =
  dbl_tokenId :: "u32"
  dbl_appId :: "string"
  dbl_bundleName :: "string"

definition DoubleSyncConfig_new :: DoubleSyncConfig where
  "DoubleSyncConfig_new = \<lparr>dbl_tokenId = 0, dbl_appId = [], dbl_bundleName = []\<rparr>"

definition DoubleSyncConfig_members :: "DoubleSyncConfig \<Rightarrow> (string \<times> json) list" where
  "DoubleSyncConfig_members m = [
     (''appId'', SetValue_string (dbl_appId m)),
     (''bundleName'', SetValue_string (dbl_bundleName m))]"

definition DoubleSyncConfig_Marshal :: "DoubleSyncConfig \<Rightarrow> json \<Rightarrow> json" where
  "DoubleSyncConfig_Marshal m node = json_puts (DoubleSyncConfig_members m) node"

definition DoubleSyncConfig_Unmarshal :: "json \<Rightarrow> DoubleSyncConfig \<Rightarrow> bool \<times> DoubleSyncConfig" where
  "DoubleSyncConfig_Unmarshal node m =
     (True,
      m\<lparr>dbl_appId := snd (GetValue_string node ''appId'' (dbl_appId m)),
        dbl_bundleName := snd (GetValue_string node ''bundleName'' (dbl_bundleName m))\<rparr>)"

lemma double_sync_read:
  assumes "holds_members node (DoubleSyncConfig_members m)"
  shows "DoubleSyncConfig_Unmarshal node old = (True, m\<lparr>dbl_tokenId := dbl_tokenId old\<rparr>)"
proof -
  have
    "GetValue_string node ''appId'' (dbl_appId old) = (True, dbl_appId m)" and
    "GetValue_string node ''bundleName'' (dbl_bundleName old) = (True, dbl_bundleName m)"
    by (rule reads, rule assms, simp, simp add: DoubleSyncConfig_members_def)+
  then show ?thesis by (simp add: DoubleSyncConfig_Unmarshal_def)
qed

record ProtocolConfig =
  prc_name :: "string"
  prc_address :: "string"
  prc_transport :: "string"

definition ProtocolConfig_new :: ProtocolConfig where
  "ProtocolConfig_new = \<lparr>prc_name = [], prc_address = [], prc_transport = []\<rparr>"

definition ProtocolConfig_members :: "ProtocolConfig \<Rightarrow> (string \<times> json) list" where
  "ProtocolConfig_members m = [
     (''name'', SetValue_string (prc_name m)),
     (''address'', SetValue_string (prc_address m)),
     (''transport'', SetValue_string (prc_transport m))]"

definition ProtocolConfig_Marshal :: "ProtocolConfig \<Rightarrow> json \<Rightarrow> json" where
  "ProtocolConfig_Marshal m node = json_puts (ProtocolConfig_members m) node"

definition ProtocolConfig_Unmarshal :: "json \<Rightarrow> ProtocolConfig \<Rightarrow> bool \<times> ProtocolConfig" where
  "ProtocolConfig_Unmarshal node m =
     (True,
      m\<lparr>prc_name := snd (GetValue_string node ''name'' (prc_name m)),
        prc_address := snd (GetValue_string node ''address'' (prc_address m)),
        prc_transport := snd (GetValue_string node ''transport'' (prc_transport m))\<rparr>)"

lemma protocol_config_read:
  assumes "holds_members node (ProtocolConfig_members m)"
  shows "ProtocolConfig_Unmarshal node old = (True, m)"
proof -
  have
    "GetValue_string node ''name'' (prc_name old) = (True, prc_name m)" and
    "GetValue_string node ''address'' (prc_address old) = (True, prc_address m)" and
    "GetValue_string node ''transport'' (prc_transport old) = (True, prc_transport m)"
    by (rule reads, rule assms, simp, simp add: ProtocolConfig_members_def)+
  then show ?thesis by (simp add: ProtocolConfig_Unmarshal_def)
qed

interpretation protocol_config: json_object ProtocolConfig_Marshal ProtocolConfig_Unmarshal
  by (rule json_object_by_members [OF ProtocolConfig_Marshal_def protocol_config_read]) (simp_all add: ProtocolConfig_members_def)

interpretation protocols_field: json_field "SetValue_vector (\<lambda>v. ProtocolConfig_Marshal v JNull)"
    "GetValue_vector (GetValue_object ProtocolConfig_Unmarshal) ProtocolConfig_new"
  by (rule protocol_config.as_field.vector_field)

record NetworkConfig =
  nwc_chains :: "string list"
  nwc_routers :: "string list"
  nwc_transports :: "string list"
  nwc_protocols :: "ProtocolConfig list"

definition NetworkConfig_new :: NetworkConfig where
  "NetworkConfig_new = \<lparr>nwc_chains = [], nwc_routers = [], nwc_transports = [], nwc_protocols = []\<rparr>"

definition NetworkConfig_members :: "NetworkConfig \<Rightarrow> (string \<times> json) list" where
  "NetworkConfig_members m = [
     (''chains'', SetValue_vector SetValue_string (nwc_chains m)),
     (''routers'', SetValue_vector SetValue_string (nwc_routers m)),
     (''transports'', SetValue_vector SetValue_string (nwc_transports m)),
     (''protocols'', SetValue_vector (\<lambda>v. ProtocolConfig_Marshal v JNull) (nwc_protocols m))]"

definition NetworkConfig_Marshal :: "NetworkConfig \<Rightarrow> json \<Rightarrow> json" where
  "NetworkConfig_Marshal m node = json_puts (NetworkConfig_members m) node"

definition NetworkConfig_Unmarshal :: "json \<Rightarrow> NetworkConfig \<Rightarrow> bool \<times> NetworkConfig" where
  "NetworkConfig_Unmarshal node m =
     (True,
      m\<lparr>nwc_chains := snd (GetValue_vector GetValue_string [] node ''chains'' (nwc_chains m)),
        nwc_routers := snd (GetValue_vector GetValue_string [] node ''routers'' (nwc_routers m)),
        nwc_transports := snd (GetValue_vector GetValue_string [] node ''transports'' (nwc_transports m)),
        nwc_protocols := snd (GetValue_vector (GetValue_object ProtocolConfig_Unmarshal) ProtocolConfig_new node ''protocols'' (nwc_protocols m))\<rparr>)"

lemma network_config_read:
  assumes "holds_members node (NetworkConfig_members m)"
  shows "NetworkConfig_Unmarshal node old = (True, m)"
proof -
  have
    "GetValue_vector GetValue_string [] node ''chains'' (nwc_chains old) = (True, nwc_chains m)" and
    "GetValue_vector GetValue_string [] node ''routers'' (nwc_routers old) = (True, nwc_routers m)" and
    "GetValue_vector GetValue_string [] node ''transports'' (nwc_transports old) = (True, nwc_transports m)" and
    "GetValue_vector (GetValue_object ProtocolConfig_Unmarshal) ProtocolConfig_new node ''protocols'' (nwc_protocols old) = (True, nwc_protocols m)"
    by (rule reads field_of_members [OF protocols_field.json_field_axioms], rule assms, simp, simp add: NetworkConfig_members_def)+
  then show ?thesis by (simp add: NetworkConfig_Unmarshal_def)
qed

interpretation network_config: json_object NetworkConfig_Marshal NetworkConfig_Unmarshal
  by (rule json_object_by_members [OF NetworkConfig_Marshal_def network_config_read]) (simp_all add: NetworkConfig_members_def)

record ThreadConfig =
  thc_minThreadNum :: "u32"
  thc_maxThreadNum :: "u32"
  thc_ipcThreadNum :: "u32"

definition ThreadConfig_new :: ThreadConfig where
  "ThreadConfig_new = \<lparr>thc_minThreadNum = 0, thc_maxThreadNum = 0, thc_ipcThreadNum = 0\<rparr>"

definition ThreadConfig_members :: "ThreadConfig \<Rightarrow> (string \<times> json) list" where
  "ThreadConfig_members m = [
     (''minThreadNum'', SetValue_u32 (thc_minThreadNum m)),
     (''maxThreadNum'', SetValue_u32 (thc_maxThreadNum m)),
     (''ipcThreadNum'', SetValue_u32 (thc_ipcThreadNum m))]"

definition ThreadConfig_Marshal :: "ThreadConfig \<Rightarrow> json \<Rightarrow> json" where
  "ThreadConfig_Marshal m node = json_puts (ThreadConfig_members m) node"

definition ThreadConfig_Unmarshal :: "json \<Rightarrow> ThreadConfig \<Rightarrow> bool \<times> ThreadConfig" where
  "ThreadConfig_Unmarshal node m =
     (True,
      m\<lparr>thc_minThreadNum := snd (GetValue_u32 node ''minThreadNum'' (thc_minThreadNum m)),
        thc_maxThreadNum := snd (GetValue_u32 node ''maxThreadNum'' (thc_maxThreadNum m)),
        thc_ipcThreadNum := snd (GetValue_u32 node ''ipcThreadNum'' (thc_ipcThreadNum m))\<rparr>)"

lemma thread_config_read:
  assumes "holds_members node (ThreadConfig_members m)"
  shows "ThreadConfig_Unmarshal node old = (True, m)"
proof -
  have
    "GetValue_u32 node ''minThreadNum'' (thc_minThreadNum old) = (True, thc_minThreadNum m)" and
    "GetValue_u32 node ''maxThreadNum'' (thc_maxThreadNum old) = (True, thc_maxThreadNum m)" and
    "GetValue_u32 node ''ipcThreadNum'' (thc_ipcThreadNum old) = (True, thc_ipcThreadNum m)"
    by (rule reads, rule assms, simp, simp add: ThreadConfig_members_def)+
  then show ?thesis by (simp add: ThreadConfig_Unmarshal_def)
qed

interpretation thread_config: json_object ThreadConfig_Marshal ThreadConfig_Unmarshal
  by (rule json_object_by_members [OF ThreadConfig_Marshal_def thread_config_read]) (simp_all add: ThreadConfig_members_def)

section \<open>Components\<close>

record ComponentConfig =
  cmp_description :: string
  cmp_lib :: string
  cmp_constructor :: string
  cmp_destructor :: string
  cmp_params :: string

definition ComponentConfig_new :: ComponentConfig where
  "ComponentConfig_new = \<lparr>cmp_description = [], cmp_lib = [], cmp_constructor = [], cmp_destructor = [], cmp_params = []\<rparr>"

definition ComponentConfig_Marshal :: "json_text \<Rightarrow> ComponentConfig \<Rightarrow> json \<Rightarrow> json" where
  "ComponentConfig_Marshal T m node =
     (let node = json_puts [
        (''description'', SetValue_string (cmp_description m)),
        (''lib'', SetValue_string (cmp_lib m)),
        (''constructor'', SetValue_string (cmp_constructor m)),
        (''destructor'', SetValue_string (cmp_destructor m))] node
      in if cmp_params m \<noteq> [] then json_put node ''params'' (ToJson (js_parse T) (cmp_params m)) else node)"

definition ComponentConfig_Unmarshal :: "json_text \<Rightarrow> json \<Rightarrow> ComponentConfig \<Rightarrow> bool \<times> ComponentConfig" where
  "ComponentConfig_Unmarshal T node m =
     (True,
      m\<lparr>cmp_description := snd (GetValue_string node ''description'' (cmp_description m)),
        cmp_lib := snd (GetValue_string node ''lib'' (cmp_lib m)),
        cmp_constructor := snd (GetValue_string node ''constructor'' (cmp_constructor m)),
        cmp_destructor := snd (GetValue_string node ''destructor'' (cmp_destructor m)),
        cmp_params := (if GetSubNode node ''params'' \<noteq> JNull then js_dump T (GetSubNode node ''params'') else cmp_params m)\<rparr>)"

section \<open>The whole configuration\<close>

text \<open>Pointers: a null pointer writes nothing, and a section that cannot be read leaves a null pointer.\<close>

definition SetValue_pointer :: "('v \<Rightarrow> json) \<Rightarrow> 'v option \<Rightarrow> json" where
  "SetValue_pointer put value = (case value of None \<Rightarrow> JNull | Some v \<Rightarrow> put v)"

definition GetValue_pointer :: "(json \<Rightarrow> string \<Rightarrow> 'v \<Rightarrow> bool \<times> 'v) \<Rightarrow> 'v \<Rightarrow> json \<Rightarrow> string \<Rightarrow> 'v option \<Rightarrow> bool \<times> 'v option" where
  "GetValue_pointer get fresh node name value =
     (let subNode = GetSubNode node name
      in if subNode = JNull then (False, value)
         else case get subNode [] fresh of (result, v) \<Rightarrow> (result, if result then Some v else None))"

record GlobalConfig =
  glc_processLabel :: string
  glc_metaData :: string
  glc_version :: string
  glc_features :: "string list"
  glc_components :: "ComponentConfig list option"
  glc_bundleChecker :: "CheckerConfig option"
  glc_networks :: "NetworkConfig option"
  glc_directory :: "DirectoryConfig option"
  glc_backup :: "BackupConfig option"
  glc_cloud :: "CloudConfig option"
  glc_appIdMapping :: "AppIdMappingConfig list option"
  glc_thread :: "ThreadConfig option"
  glc_dataShare :: "DataShareConfig option"
  glc_autoSyncApps :: "AutoSyncAppConfig list option"
  glc_syncAppList :: "AppAccessCheckConfig option"
  glc_doubleSyncApps :: "DoubleSyncConfig list option"

definition GlobalConfig_new :: GlobalConfig where
  "GlobalConfig_new = \<lparr>glc_processLabel = [], glc_metaData = [], glc_version = [], glc_features = [], glc_components = None, glc_bundleChecker = None, glc_networks = None, glc_directory = None, glc_backup = None, glc_cloud = None, glc_appIdMapping = None, glc_thread = None, glc_dataShare = None, glc_autoSyncApps = None, glc_syncAppList = None, glc_doubleSyncApps = None\<rparr>"

definition GlobalConfig_members :: "json_text \<Rightarrow> GlobalConfig \<Rightarrow> (string \<times> json) list" where
  "GlobalConfig_members T m = [
     (''processLabel'', SetValue_string (glc_processLabel m)),
     (''metaData'', SetValue_string (glc_metaData m)),
     (''version'', SetValue_string (glc_version m)),
     (''features'', SetValue_vector SetValue_string (glc_features m)),
     (''components'', SetValue_pointer (SetValue_vector (\<lambda>v. ComponentConfig_Marshal T v JNull)) (glc_components m)),
     (''bundleChecker'', SetValue_pointer (\<lambda>v. CheckerConfig_Marshal v JNull) (glc_bundleChecker m)),
     (''networks'', SetValue_pointer (\<lambda>v. NetworkConfig_Marshal v JNull) (glc_networks m)),
     (''directory'', SetValue_pointer (\<lambda>v. DirectoryConfig_Marshal v JNull) (glc_directory m)),
     (''backup'', SetValue_pointer (\<lambda>v. BackupConfig_Marshal v JNull) (glc_backup m)),
     (''cloud'', SetValue_pointer (\<lambda>v. CloudConfig_Marshal v JNull) (glc_cloud m)),
     (''appIdMapping'', SetValue_pointer (SetValue_vector (\<lambda>v. AppIdMappingConfig_Marshal v JNull)) (glc_appIdMapping m)),
     (''thread'', SetValue_pointer (\<lambda>v. ThreadConfig_Marshal v JNull) (glc_thread m)),
     (''dataShare'', SetValue_pointer (\<lambda>v. DataShareConfig_Marshal v JNull) (glc_dataShare m)),
     (''autoSyncApps'', SetValue_pointer (SetValue_vector (\<lambda>v. AutoSyncAppConfig_Marshal v JNull)) (glc_autoSyncApps m)),
     (''syncAppList'', SetValue_pointer (\<lambda>v. AppAccessCheckConfig_Marshal v JNull) (glc_syncAppList m)),
     (''doubleSyncApps'', SetValue_pointer (SetValue_vector (\<lambda>v. DoubleSyncConfig_Marshal v JNull)) (glc_doubleSyncApps m))]"

definition GlobalConfig_Marshal :: "json_text \<Rightarrow> GlobalConfig \<Rightarrow> json \<Rightarrow> json" where
  "GlobalConfig_Marshal T m node = json_puts (GlobalConfig_members T m) node"

definition GlobalConfig_Unmarshal :: "json_text \<Rightarrow> json \<Rightarrow> GlobalConfig \<Rightarrow> bool \<times> GlobalConfig" where
  "GlobalConfig_Unmarshal T node m =
     (True,
      m\<lparr>glc_processLabel := snd (GetValue_string node ''processLabel'' (glc_processLabel m)),
        glc_metaData := snd (GetValue_string node ''metaData'' (glc_metaData m)),
        glc_version := snd (GetValue_string node ''version'' (glc_version m)),
        glc_features := snd (GetValue_vector GetValue_string [] node ''features'' (glc_features m)),
        glc_components := snd (GetValue_pointer (GetValue_vector (GetValue_object (ComponentConfig_Unmarshal T)) ComponentConfig_new) [] node ''components'' (glc_components m)),
        glc_bundleChecker := snd (GetValue_pointer (GetValue_object CheckerConfig_Unmarshal) CheckerConfig_new node ''bundleChecker'' (glc_bundleChecker m)),
        glc_networks := snd (GetValue_pointer (GetValue_object NetworkConfig_Unmarshal) NetworkConfig_new node ''networks'' (glc_networks m)),
        glc_directory := snd (GetValue_pointer (GetValue_object DirectoryConfig_Unmarshal) DirectoryConfig_new node ''directory'' (glc_directory m)),
        glc_backup := snd (GetValue_pointer (GetValue_object BackupConfig_Unmarshal) BackupConfig_new node ''backup'' (glc_backup m)),
        glc_cloud := snd (GetValue_pointer (GetValue_object CloudConfig_Unmarshal) CloudConfig_new node ''cloud'' (glc_cloud m)),
        glc_appIdMapping := snd (GetValue_pointer (GetValue_vector (GetValue_object AppIdMappingConfig_Unmarshal) AppIdMappingConfig_new) [] node ''appIdMapping'' (glc_appIdMapping m)),
        glc_thread := snd (GetValue_pointer (GetValue_object ThreadConfig_Unmarshal) ThreadConfig_new node ''thread'' (glc_thread m)),
        glc_dataShare := snd (GetValue_pointer (GetValue_object DataShareConfig_Unmarshal) DataShareConfig_new node ''dataShare'' (glc_dataShare m)),
        glc_autoSyncApps := snd (GetValue_pointer (GetValue_vector (GetValue_object AutoSyncAppConfig_Unmarshal) AutoSyncAppConfig_new) [] node ''autoSyncApps'' (glc_autoSyncApps m)),
        glc_syncAppList := snd (GetValue_pointer (GetValue_object AppAccessCheckConfig_Unmarshal) AppAccessCheckConfig_new node ''syncAppList'' (glc_syncAppList m)),
        glc_doubleSyncApps := snd (GetValue_pointer (GetValue_vector (GetValue_object DoubleSyncConfig_Unmarshal) DoubleSyncConfig_new) [] node ''doubleSyncApps'' (glc_doubleSyncApps m))\<rparr>)"

text \<open>The file is read line by line and the lines are joined without the line breaks.\<close>

definition ConfigFactory_Initialize :: "json_text \<Rightarrow> string list \<Rightarrow> GlobalConfig" where
  "ConfigFactory_Initialize T fileLines =
     snd (Unmarshall_text (js_parse T) (GlobalConfig_Unmarshal T) (concat fileLines) GlobalConfig_new)"

end
