(* ===== verification/Cloud_Info.thy ===== *)
theory Cloud_Info
  imports Cloud_Schema Meta_Codec
begin

text \<open>
  The other records of \<^verbatim>\<open>framework/cloud\<close>: the account and its applications (\<^verbatim>\<open>cloud_info.cpp\<close>), the
  subscriptions and their relations (\<^verbatim>\<open>subscription.cpp\<close>), the switches per database and table
  (\<^verbatim>\<open>cloud_db_sync_config.cpp\<close>), the result of the last synchronisation, the water mark, the mapping of
  bundle names and the notification of the cloud (\<^verbatim>\<open>cloud_extra_data.cpp\<close>).  Fields of type
  \<^verbatim>\<open>std::map\<close> are lists of entries in the order of their keys.
\<close>

section \<open>Applications of an account\<close>

record AppInfo =
  cai_bundleName :: "string"
  cai_appId :: "string"
  cai_version :: "u64"
  cai_instanceId :: "u32"
  cai_cloudSwitch :: "bool"

definition AppInfo_new :: AppInfo where
  "AppInfo_new = \<lparr>cai_bundleName = [], cai_appId = [], cai_version = 0, cai_instanceId = 0, cai_cloudSwitch = False\<rparr>"

definition AppInfo_members :: "AppInfo \<Rightarrow> (string \<times> json) list" where
  "AppInfo_members m = [
     (''bundleName'', SetValue_string (cai_bundleName m)),
     (''appId'', SetValue_string (cai_appId m)),
     (''version'', SetValue_u64 (cai_version m)),
     (''instanceId'', SetValue_i32 (cai_instanceId m)),
     (''cloudSwitch'', SetValue_bool (cai_cloudSwitch m))]"

definition AppInfo_Marshal :: "AppInfo \<Rightarrow> json \<Rightarrow> json" where
  "AppInfo_Marshal m node = json_puts (AppInfo_members m) node"

definition AppInfo_Unmarshal :: "json \<Rightarrow> AppInfo \<Rightarrow> bool \<times> AppInfo" where
  "AppInfo_Unmarshal node m =
     (True,
      m\<lparr>cai_bundleName := snd (GetValue_string node ''bundleName'' (cai_bundleName m)),
        cai_appId := snd (GetValue_string node ''appId'' (cai_appId m)),
        cai_version := snd (GetValue_u64 node ''version'' (cai_version m)),
        cai_instanceId := snd (GetValue_i32 node ''instanceId'' (cai_instanceId m)),
        cai_cloudSwitch := snd (GetValue_bool node ''cloudSwitch'' (cai_cloudSwitch m))\<rparr>)"

lemma app_info_read:
  assumes "holds_members node (AppInfo_members m)"
  shows "AppInfo_Unmarshal node old = (True, m)"
proof -
  have
    "GetValue_string node ''bundleName'' (cai_bundleName old) = (True, cai_bundleName m)" and
    "GetValue_string node ''appId'' (cai_appId old) = (True, cai_appId m)" and
    "GetValue_u64 node ''version'' (cai_version old) = (True, cai_version m)" and
    "GetValue_i32 node ''instanceId'' (cai_instanceId old) = (True, cai_instanceId m)" and
    "GetValue_bool node ''cloudSwitch'' (cai_cloudSwitch old) = (True, cai_cloudSwitch m)"
    by (rule reads, rule assms, simp, simp add: AppInfo_members_def)+
  then show ?thesis by (simp add: AppInfo_Unmarshal_def)
qed

interpretation app_info: json_object AppInfo_Marshal AppInfo_Unmarshal
  by (rule json_object_by_members [OF AppInfo_Marshal_def app_info_read]) (simp_all add: AppInfo_members_def)

definition AppInfo_eq :: "AppInfo \<Rightarrow> AppInfo \<Rightarrow> bool" where
  "AppInfo_eq a b \<longleftrightarrow> cai_bundleName a = cai_bundleName b \<and> cai_appId a = cai_appId b \<and> cai_version a = cai_version b \<and>
     cai_instanceId a = cai_instanceId b \<and> cai_cloudSwitch a = cai_cloudSwitch b"

definition AppInfo_neq :: "AppInfo \<Rightarrow> AppInfo \<Rightarrow> bool" where
  "AppInfo_neq a b \<longleftrightarrow> \<not> AppInfo_eq a b"

record CloudInfo =
  ci_user :: u32
  ci_id :: string
  ci_totalSpace :: u64
  ci_remainSpace :: u64
  ci_maxNumber :: u32
  ci_maxSize :: u32
  ci_enableCloud :: bool
  ci_apps :: "(string \<times> AppInfo) list"

definition CloudInfo_new :: CloudInfo where
  "CloudInfo_new = \<lparr>ci_user = 0, ci_id = [], ci_totalSpace = 0, ci_remainSpace = 0, ci_maxNumber = 0, ci_maxSize = 0,
     ci_enableCloud = False, ci_apps = []\<rparr>"

abbreviation (input) DEFAULT_BATCH_NUMBER :: u32 where "DEFAULT_BATCH_NUMBER \<equiv> 30"
abbreviation (input) DEFAULT_BATCH_SIZE :: u32 where "DEFAULT_BATCH_SIZE \<equiv> 1024 * 512 * 3"

definition CloudInfo_members :: "CloudInfo \<Rightarrow> (string \<times> json) list" where
  "CloudInfo_members m = [
     (''user'', SetValue_i32 (ci_user m)),
     (''id'', SetValue_string (ci_id m)),
     (''totalSpace'', SetValue_u64 (ci_totalSpace m)),
     (''remainSpace'', SetValue_u64 (ci_remainSpace m)),
     (''enableCloud'', SetValue_bool (ci_enableCloud m)),
     (''apps'', SetValue_map (\<lambda>v. AppInfo_Marshal v JNull) (ci_apps m)),
     (''maxNumber'', SetValue_i32 (ci_maxNumber m)),
     (''maxSize'', SetValue_i32 (ci_maxSize m))]"

definition CloudInfo_Marshal :: "CloudInfo \<Rightarrow> json \<Rightarrow> json" where
  "CloudInfo_Marshal m node = json_puts (CloudInfo_members m) node"

definition read_or_default :: "u32 \<Rightarrow> json \<Rightarrow> string \<Rightarrow> u32 \<Rightarrow> u32" where
  "read_or_default dflt node name value =
     (case GetValue_i32 node name value of (ok, v) \<Rightarrow> if \<not> ok \<or> v = 0 then dflt else v)"

definition CloudInfo_Unmarshal :: "json \<Rightarrow> CloudInfo \<Rightarrow> bool \<times> CloudInfo" where
  "CloudInfo_Unmarshal node m =
     (True,
      m\<lparr>ci_user := snd (GetValue_i32 node ''user'' (ci_user m)),
        ci_id := snd (GetValue_string node ''id'' (ci_id m)),
        ci_totalSpace := snd (GetValue_u64 node ''totalSpace'' (ci_totalSpace m)),
        ci_remainSpace := snd (GetValue_u64 node ''remainSpace'' (ci_remainSpace m)),
        ci_enableCloud := snd (GetValue_bool node ''enableCloud'' (ci_enableCloud m)),
        ci_apps := snd (GetValue_map (GetValue_object AppInfo_Unmarshal) AppInfo_new node ''apps'' (ci_apps m)),
        ci_maxNumber := read_or_default DEFAULT_BATCH_NUMBER node ''maxNumber'' (ci_maxNumber m),
        ci_maxSize := read_or_default DEFAULT_BATCH_SIZE node ''maxSize'' (ci_maxSize m)\<rparr>)"

definition IsAppsEqual :: "(string \<times> AppInfo) list \<Rightarrow> (string \<times> AppInfo) list \<Rightarrow> bool" where
  "IsAppsEqual apps appInfos \<longleftrightarrow>
     length apps = length appInfos \<and> list_all (\<lambda>(x, y). \<not> AppInfo_neq (snd x) (snd y)) (zip apps appInfos)"

definition CloudInfo_eq :: "CloudInfo \<Rightarrow> CloudInfo \<Rightarrow> bool" where
  "CloudInfo_eq a b \<longleftrightarrow> ci_user a = ci_user b \<and> ci_id a = ci_id b \<and> ci_totalSpace a = ci_totalSpace b \<and>
     ci_remainSpace a = ci_remainSpace b \<and> ci_enableCloud a = ci_enableCloud b \<and> ci_maxNumber a = ci_maxNumber b \<and>
     ci_maxSize a = ci_maxSize b \<and> IsAppsEqual (ci_apps a) (ci_apps b)"

definition CloudInfo_neq :: "CloudInfo \<Rightarrow> CloudInfo \<Rightarrow> bool" where
  "CloudInfo_neq a b \<longleftrightarrow> \<not> CloudInfo_eq a b"

definition CloudInfo_GetKey_fields :: "string \<Rightarrow> string list \<Rightarrow> string" where
  "CloudInfo_GetKey_fields pfx flds = Join pfx KEY_SEPARATOR flds"

definition CloudInfo_GetKey :: "CloudInfo \<Rightarrow> string" where
  "CloudInfo_GetKey m = CloudInfo_GetKey_fields ''CLOUD_INFO'' [to_string (sint (ci_user m))]"

definition SchemaKey :: "u32 \<Rightarrow> string \<Rightarrow> u32 \<Rightarrow> string" where
  "SchemaKey user bundleName instanceId =
     CloudInfo_GetKey_fields ''CLOUD_SCHEMA'' [to_string (sint user), bundleName, to_string (sint instanceId)]"

fun SchemaKeys :: "u32 \<Rightarrow> (string \<times> AppInfo) list \<Rightarrow> (string \<times> string) list \<Rightarrow> (string \<times> string) list" where
  "SchemaKeys user [] keys = keys"
| "SchemaKeys user ((bundle, app) # apps) keys =
     SchemaKeys user apps (map_put (cai_bundleName app) (SchemaKey user bundle (cai_instanceId app)) keys)"

definition GetSchemaKeys :: "CloudInfo \<Rightarrow> (string \<times> string) list" where
  "GetSchemaKeys m = SchemaKeys (ci_user m) (ci_apps m) []"

definition GetSchemaKey :: "CloudInfo \<Rightarrow> string \<Rightarrow> u32 \<Rightarrow> string" where
  "GetSchemaKey m bundleName instanceId = SchemaKey (ci_user m) bundleName instanceId"

definition GetSchemaPrefix :: "CloudInfo \<Rightarrow> string \<Rightarrow> string" where
  "GetSchemaPrefix m bundleName =
     (if bundleName = [] then CloudInfo_GetKey_fields ''CLOUD_SCHEMA'' [to_string (sint (ci_user m))]
      else CloudInfo_GetKey_fields ''CLOUD_SCHEMA'' [to_string (sint (ci_user m)), bundleName])"

definition GetSchemaKey_meta :: "StoreMetaData \<Rightarrow> string" where
  "GetSchemaKey_meta meta =
     CloudInfo_GetKey_fields ''CLOUD_SCHEMA'' [sm_user meta, sm_bundleName meta, to_string (sint (sm_instanceId meta))]"

definition CloudInfo_IsValid :: "CloudInfo \<Rightarrow> bool" where
  "CloudInfo_IsValid m \<longleftrightarrow> ci_id m \<noteq> []"

definition CloudInfo_Exist :: "CloudInfo \<Rightarrow> string \<Rightarrow> u32 \<Rightarrow> bool" where
  "CloudInfo_Exist m bundleName instanceId \<longleftrightarrow> bundleName \<noteq> [] \<and>
     (case map_of (ci_apps m) bundleName of
        None \<Rightarrow> False
      | Some app \<Rightarrow> cai_bundleName app = bundleName \<and> cai_instanceId app = instanceId)"

definition CloudInfo_IsOn :: "CloudInfo \<Rightarrow> string \<Rightarrow> u32 \<Rightarrow> bool" where
  "CloudInfo_IsOn m bundleName instanceId \<longleftrightarrow> bundleName \<noteq> [] \<and>
     (case map_of (ci_apps m) bundleName of
        None \<Rightarrow> False
      | Some app \<Rightarrow> cai_instanceId app = instanceId \<and> cai_cloudSwitch app)"

definition IsAllSwitchOff :: "CloudInfo \<Rightarrow> bool" where
  "IsAllSwitchOff m \<longleftrightarrow> list_all (\<lambda>e. \<not> cai_cloudSwitch (snd e)) (ci_apps m)"

definition CloudInfo_GetPrefix :: "string list \<Rightarrow> string" where
  "CloudInfo_GetPrefix flds = CloudInfo_GetKey_fields ''CLOUD_INFO'' flds @ KEY_SEPARATOR"

definition GetAppInfo :: "CloudInfo \<Rightarrow> string \<Rightarrow> AppInfo option" where
  "GetAppInfo m bundleName = (if bundleName = [] then None else map_of (ci_apps m) bundleName)"

section \<open>Subscriptions\<close>

record Relation =
  rel_id :: string
  rel_bundleName :: string
  rel_relations :: "(string \<times> string) list"

definition Relation_new :: Relation where
  "Relation_new = \<lparr>rel_id = [], rel_bundleName = [], rel_relations = []\<rparr>"

definition Relation_members :: "Relation \<Rightarrow> (string \<times> json) list" where
  "Relation_members m = [
     (''id'', SetValue_string (rel_id m)),
     (''bundleName'', SetValue_string (rel_bundleName m)),
     (''relations'', SetValue_map SetValue_string (rel_relations m))]"

definition Relation_Marshal :: "Relation \<Rightarrow> json \<Rightarrow> json" where
  "Relation_Marshal m node = json_puts (Relation_members m) node"

definition Relation_Unmarshal :: "json \<Rightarrow> Relation \<Rightarrow> bool \<times> Relation" where
  "Relation_Unmarshal node m =
     (True,
      m\<lparr>rel_id := snd (GetValue_string node ''id'' (rel_id m)),
        rel_bundleName := snd (GetValue_string node ''bundleName'' (rel_bundleName m)),
        rel_relations := snd (GetValue_map GetValue_string [] node ''relations'' (rel_relations m))\<rparr>)"

record Subscription =
  sub_userId :: u32
  sub_id :: string
  sub_expiresTime :: "(string \<times> u64) list"

definition Subscription_new :: Subscription where
  "Subscription_new = \<lparr>sub_userId = 0, sub_id = [], sub_expiresTime = []\<rparr>"

definition Subscription_members :: "Subscription \<Rightarrow> (string \<times> json) list" where
  "Subscription_members m = [
     (''userId'', SetValue_i32 (sub_userId m)),
     (''id'', SetValue_string (sub_id m)),
     (''expiresTime'', SetValue_map SetValue_u64 (sub_expiresTime m))]"

definition Subscription_Marshal :: "Subscription \<Rightarrow> json \<Rightarrow> json" where
  "Subscription_Marshal m node = json_puts (Subscription_members m) node"

definition Subscription_Unmarshal :: "json \<Rightarrow> Subscription \<Rightarrow> bool \<times> Subscription" where
  "Subscription_Unmarshal node m =
     (True,
      m\<lparr>sub_userId := snd (GetValue_i32 node ''userId'' (sub_userId m)),
        sub_id := snd (GetValue_string node ''id'' (sub_id m)),
        sub_expiresTime := snd (GetValue_map GetValue_u64 0 node ''expiresTime'' (sub_expiresTime m))\<rparr>)"

fun min_expire :: "(string \<times> u64) list \<Rightarrow> u64 \<Rightarrow> u64" where
  "min_expire [] expire = expire"
| "min_expire (e # es) expire =
     (if snd e = 0 then min_expire es expire
      else if snd e < expire then min_expire es (snd e)
      else min_expire es expire)"

definition GetMinExpireTime :: "Subscription \<Rightarrow> u64" where
  "GetMinExpireTime m = (case sub_expiresTime m of [] \<Rightarrow> 0 | e # es \<Rightarrow> min_expire es (snd e))"

definition Subscription_GetKey_user :: "u32 \<Rightarrow> string" where
  "Subscription_GetKey_user userId = Join ''CLOUD_SUBSCRIPTION'' KEY_SEPARATOR [to_string (sint userId)]"

definition Subscription_GetKey :: "Subscription \<Rightarrow> string" where
  "Subscription_GetKey m = Subscription_GetKey_user (sub_userId m)"

definition GetRelationKey_user :: "u32 \<Rightarrow> string \<Rightarrow> string" where
  "GetRelationKey_user userId bundleName = Join ''CLOUD_RELATION'' KEY_SEPARATOR [to_string (sint userId), bundleName]"

definition GetRelationKey :: "Subscription \<Rightarrow> string \<Rightarrow> string" where
  "GetRelationKey m bundleName = GetRelationKey_user (sub_userId m) bundleName"

definition Subscription_GetPrefix :: "string list \<Rightarrow> string" where
  "Subscription_GetPrefix flds = Join ''CLOUD_SUBSCRIPTION'' KEY_SEPARATOR flds"

section \<open>Switches, results and marks\<close>

record TableSyncConfig =
  tsc_tableName :: "string"
  tsc_cloudSyncEnabled :: "bool"

definition TableSyncConfig_new :: TableSyncConfig where
  "TableSyncConfig_new = \<lparr>tsc_tableName = [], tsc_cloudSyncEnabled = True\<rparr>"

definition TableSyncConfig_members :: "TableSyncConfig \<Rightarrow> (string \<times> json) list" where
  "TableSyncConfig_members m = [
     (''tableName'', SetValue_string (tsc_tableName m)),
     (''cloudSyncEnabled'', SetValue_bool (tsc_cloudSyncEnabled m))]"

definition TableSyncConfig_Marshal :: "TableSyncConfig \<Rightarrow> json \<Rightarrow> json" where
  "TableSyncConfig_Marshal m node = json_puts (TableSyncConfig_members m) node"

definition TableSyncConfig_Unmarshal :: "json \<Rightarrow> TableSyncConfig \<Rightarrow> bool \<times> TableSyncConfig" where
  "TableSyncConfig_Unmarshal node m =
     (True,
      m\<lparr>tsc_tableName := snd (GetValue_string node ''tableName'' (tsc_tableName m)),
        tsc_cloudSyncEnabled := snd (GetValue_bool node ''cloudSyncEnabled'' (tsc_cloudSyncEnabled m))\<rparr>)"

lemma table_sync_config_read:
  assumes "holds_members node (TableSyncConfig_members m)"
  shows "TableSyncConfig_Unmarshal node old = (True, m)"
proof -
  have
    "GetValue_string node ''tableName'' (tsc_tableName old) = (True, tsc_tableName m)" and
    "GetValue_bool node ''cloudSyncEnabled'' (tsc_cloudSyncEnabled old) = (True, tsc_cloudSyncEnabled m)"
    by (rule reads, rule assms, simp, simp add: TableSyncConfig_members_def)+
  then show ?thesis by (simp add: TableSyncConfig_Unmarshal_def)
qed

interpretation table_sync_config: json_object TableSyncConfig_Marshal TableSyncConfig_Unmarshal
  by (rule json_object_by_members [OF TableSyncConfig_Marshal_def table_sync_config_read]) (simp_all add: TableSyncConfig_members_def)

interpretation table_configs_field: json_field "SetValue_vector (\<lambda>v. TableSyncConfig_Marshal v JNull)"
    "GetValue_vector (GetValue_object TableSyncConfig_Unmarshal) TableSyncConfig_new"
  by (rule table_sync_config.as_field.vector_field)

record DbSyncConfig =
  dsc_dbName :: "string"
  dsc_cloudSyncEnabled :: "bool"
  dsc_tableConfigs :: "TableSyncConfig list"

definition DbSyncConfig_new :: DbSyncConfig where
  "DbSyncConfig_new = \<lparr>dsc_dbName = [], dsc_cloudSyncEnabled = True, dsc_tableConfigs = []\<rparr>"

definition DbSyncConfig_members :: "DbSyncConfig \<Rightarrow> (string \<times> json) list" where
  "DbSyncConfig_members m = [
     (''dbName'', SetValue_string (dsc_dbName m)),
     (''cloudSyncEnabled'', SetValue_bool (dsc_cloudSyncEnabled m)),
     (''tableConfigs'', SetValue_vector (\<lambda>v. TableSyncConfig_Marshal v JNull) (dsc_tableConfigs m))]"

definition DbSyncConfig_Marshal :: "DbSyncConfig \<Rightarrow> json \<Rightarrow> json" where
  "DbSyncConfig_Marshal m node = json_puts (DbSyncConfig_members m) node"

definition DbSyncConfig_Unmarshal :: "json \<Rightarrow> DbSyncConfig \<Rightarrow> bool \<times> DbSyncConfig" where
  "DbSyncConfig_Unmarshal node m =
     (True,
      m\<lparr>dsc_dbName := snd (GetValue_string node ''dbName'' (dsc_dbName m)),
        dsc_cloudSyncEnabled := snd (GetValue_bool node ''cloudSyncEnabled'' (dsc_cloudSyncEnabled m)),
        dsc_tableConfigs := snd (GetValue_vector (GetValue_object TableSyncConfig_Unmarshal) TableSyncConfig_new node ''tableConfigs'' (dsc_tableConfigs m))\<rparr>)"

lemma db_sync_config_read:
  assumes "holds_members node (DbSyncConfig_members m)"
  shows "DbSyncConfig_Unmarshal node old = (True, m)"
proof -
  have
    "GetValue_string node ''dbName'' (dsc_dbName old) = (True, dsc_dbName m)" and
    "GetValue_bool node ''cloudSyncEnabled'' (dsc_cloudSyncEnabled old) = (True, dsc_cloudSyncEnabled m)" and
    "GetValue_vector (GetValue_object TableSyncConfig_Unmarshal) TableSyncConfig_new node ''tableConfigs'' (dsc_tableConfigs old) = (True, dsc_tableConfigs m)"
    by (rule reads field_of_members [OF table_configs_field.json_field_axioms], rule assms, simp, simp add: DbSyncConfig_members_def)+
  then show ?thesis by (simp add: DbSyncConfig_Unmarshal_def)
qed

interpretation db_sync_config: json_object DbSyncConfig_Marshal DbSyncConfig_Unmarshal
  by (rule json_object_by_members [OF DbSyncConfig_Marshal_def db_sync_config_read]) (simp_all add: DbSyncConfig_members_def)

interpretation db_configs_field: json_field "SetValue_vector (\<lambda>v. DbSyncConfig_Marshal v JNull)"
    "GetValue_vector (GetValue_object DbSyncConfig_Unmarshal) DbSyncConfig_new"
  by (rule db_sync_config.as_field.vector_field)

record CloudDbSyncConfig =
  cds_bundleName :: "string"
  cds_dbConfigs :: "DbSyncConfig list"

definition CloudDbSyncConfig_new :: CloudDbSyncConfig where
  "CloudDbSyncConfig_new = \<lparr>cds_bundleName = [], cds_dbConfigs = []\<rparr>"

definition CloudDbSyncConfig_members :: "CloudDbSyncConfig \<Rightarrow> (string \<times> json) list" where
  "CloudDbSyncConfig_members m = [
     (''bundleName'', SetValue_string (cds_bundleName m)),
     (''dbConfigs'', SetValue_vector (\<lambda>v. DbSyncConfig_Marshal v JNull) (cds_dbConfigs m))]"

definition CloudDbSyncConfig_Marshal :: "CloudDbSyncConfig \<Rightarrow> json \<Rightarrow> json" where
  "CloudDbSyncConfig_Marshal m node = json_puts (CloudDbSyncConfig_members m) node"

definition CloudDbSyncConfig_Unmarshal :: "json \<Rightarrow> CloudDbSyncConfig \<Rightarrow> bool \<times> CloudDbSyncConfig" where
  "CloudDbSyncConfig_Unmarshal node m =
     (True,
      m\<lparr>cds_bundleName := snd (GetValue_string node ''bundleName'' (cds_bundleName m)),
        cds_dbConfigs := snd (GetValue_vector (GetValue_object DbSyncConfig_Unmarshal) DbSyncConfig_new node ''dbConfigs'' (cds_dbConfigs m))\<rparr>)"

lemma cloud_db_sync_config_read:
  assumes "holds_members node (CloudDbSyncConfig_members m)"
  shows "CloudDbSyncConfig_Unmarshal node old = (True, m)"
proof -
  have
    "GetValue_string node ''bundleName'' (cds_bundleName old) = (True, cds_bundleName m)" and
    "GetValue_vector (GetValue_object DbSyncConfig_Unmarshal) DbSyncConfig_new node ''dbConfigs'' (cds_dbConfigs old) = (True, cds_dbConfigs m)"
    by (rule reads field_of_members [OF db_configs_field.json_field_axioms], rule assms, simp, simp add: CloudDbSyncConfig_members_def)+
  then show ?thesis by (simp add: CloudDbSyncConfig_Unmarshal_def)
qed

interpretation cloud_db_sync_config: json_object CloudDbSyncConfig_Marshal CloudDbSyncConfig_Unmarshal
  by (rule json_object_by_members [OF CloudDbSyncConfig_Marshal_def cloud_db_sync_config_read]) (simp_all add: CloudDbSyncConfig_members_def)

definition CloudDbSyncConfig_GetKey :: "u32 \<Rightarrow> string \<Rightarrow> string" where
  "CloudDbSyncConfig_GetKey userId bundleName = Join ''CLOUD_DB_SYNC_CONFIG'' KEY_SEPARATOR [to_string (sint userId), bundleName]"

record CloudLastSyncInfo =
  cls_id :: "string"
  cls_storeId :: "string"
  cls_startTime :: "u64"
  cls_finishTime :: "u64"
  cls_code :: "u32"
  cls_syncStatus :: "u32"
  cls_instanceId :: "u32"

definition CloudLastSyncInfo_new :: CloudLastSyncInfo where
  "CloudLastSyncInfo_new = \<lparr>cls_id = [], cls_storeId = [], cls_startTime = 0, cls_finishTime = 0, cls_code = - 1, cls_syncStatus = 0, cls_instanceId = 0\<rparr>"

definition CloudLastSyncInfo_members :: "CloudLastSyncInfo \<Rightarrow> (string \<times> json) list" where
  "CloudLastSyncInfo_members m = [
     (''id'', SetValue_string (cls_id m)),
     (''storeId'', SetValue_string (cls_storeId m)),
     (''startTime'', SetValue_i64 (cls_startTime m)),
     (''finishTime'', SetValue_i64 (cls_finishTime m)),
     (''code'', SetValue_i32 (cls_code m)),
     (''syncStatus'', SetValue_i32 (cls_syncStatus m)),
     (''instanceId'', SetValue_i32 (cls_instanceId m))]"

definition CloudLastSyncInfo_Marshal :: "CloudLastSyncInfo \<Rightarrow> json \<Rightarrow> json" where
  "CloudLastSyncInfo_Marshal m node = json_puts (CloudLastSyncInfo_members m) node"

definition CloudLastSyncInfo_Unmarshal :: "json \<Rightarrow> CloudLastSyncInfo \<Rightarrow> bool \<times> CloudLastSyncInfo" where
  "CloudLastSyncInfo_Unmarshal node m =
     (True,
      m\<lparr>cls_id := snd (GetValue_string node ''id'' (cls_id m)),
        cls_storeId := snd (GetValue_string node ''storeId'' (cls_storeId m)),
        cls_startTime := snd (GetValue_i64 node ''startTime'' (cls_startTime m)),
        cls_finishTime := snd (GetValue_i64 node ''finishTime'' (cls_finishTime m)),
        cls_code := snd (GetValue_i32 node ''code'' (cls_code m)),
        cls_syncStatus := snd (GetValue_i32 node ''syncStatus'' (cls_syncStatus m)),
        cls_instanceId := snd (GetValue_i32 node ''instanceId'' (cls_instanceId m))\<rparr>)"

lemma cloud_last_sync_read:
  assumes "holds_members node (CloudLastSyncInfo_members m)"
  shows "CloudLastSyncInfo_Unmarshal node old = (True, m)"
proof -
  have
    "GetValue_string node ''id'' (cls_id old) = (True, cls_id m)" and
    "GetValue_string node ''storeId'' (cls_storeId old) = (True, cls_storeId m)" and
    "GetValue_i64 node ''startTime'' (cls_startTime old) = (True, cls_startTime m)" and
    "GetValue_i64 node ''finishTime'' (cls_finishTime old) = (True, cls_finishTime m)" and
    "GetValue_i32 node ''code'' (cls_code old) = (True, cls_code m)" and
    "GetValue_i32 node ''syncStatus'' (cls_syncStatus old) = (True, cls_syncStatus m)" and
    "GetValue_i32 node ''instanceId'' (cls_instanceId old) = (True, cls_instanceId m)"
    by (rule reads, rule assms, simp, simp add: CloudLastSyncInfo_members_def)+
  then show ?thesis by (simp add: CloudLastSyncInfo_Unmarshal_def)
qed

interpretation cloud_last_sync: json_object CloudLastSyncInfo_Marshal CloudLastSyncInfo_Unmarshal
  by (rule json_object_by_members [OF CloudLastSyncInfo_Marshal_def cloud_last_sync_read]) (simp_all add: CloudLastSyncInfo_members_def)

definition CloudLastSyncInfo_GetKey_fields :: "string \<Rightarrow> string list \<Rightarrow> string" where
  "CloudLastSyncInfo_GetKey_fields pfx flds = Join pfx KEY_SEPARATOR flds"

definition CloudLastSyncInfo_GetKey :: "u32 \<Rightarrow> string \<Rightarrow> string \<Rightarrow> u32 \<Rightarrow> string" where
  "CloudLastSyncInfo_GetKey user bundleName storeId instanceId =
     CloudLastSyncInfo_GetKey_fields ''CLOUD_LAST_SYNC_INFO'' [to_string (sint user), bundleName, to_string (sint instanceId), storeId]"

definition CloudLastSyncInfo_GetPrefix :: "u32 \<Rightarrow> string \<Rightarrow> string" where
  "CloudLastSyncInfo_GetPrefix user bundleName =
     CloudLastSyncInfo_GetKey_fields ''CLOUD_LAST_SYNC_INFO'' [to_string (sint user), bundleName]"

record CloudMark =
  cmk_isClearWaterMark :: "bool"
  cmk_bundleName :: "string"
  cmk_deviceId :: "string"
  cmk_storeId :: "string"
  cmk_userId :: "u32"
  cmk_index :: "u32"

definition CloudMark_new :: CloudMark where
  "CloudMark_new = \<lparr>cmk_isClearWaterMark = False, cmk_bundleName = [], cmk_deviceId = [], cmk_storeId = [], cmk_userId = 0, cmk_index = 0\<rparr>"

definition CloudMark_members :: "CloudMark \<Rightarrow> (string \<times> json) list" where
  "CloudMark_members m = [
     (''isClearWaterMark'', SetValue_bool (cmk_isClearWaterMark m))]"

definition CloudMark_Marshal :: "CloudMark \<Rightarrow> json \<Rightarrow> json" where
  "CloudMark_Marshal m node = json_puts (CloudMark_members m) node"

definition CloudMark_Unmarshal :: "json \<Rightarrow> CloudMark \<Rightarrow> bool \<times> CloudMark" where
  "CloudMark_Unmarshal node m =
     (True,
      m\<lparr>cmk_isClearWaterMark := snd (GetValue_bool node ''isClearWaterMark'' (cmk_isClearWaterMark m))\<rparr>)"

lemma cloud_mark_read:
  assumes "holds_members node (CloudMark_members m)"
  shows "CloudMark_Unmarshal node old = (True, m\<lparr>cmk_bundleName := cmk_bundleName old, cmk_deviceId := cmk_deviceId old, cmk_storeId := cmk_storeId old, cmk_userId := cmk_userId old, cmk_index := cmk_index old\<rparr>)"
proof -
  have
    "GetValue_bool node ''isClearWaterMark'' (cmk_isClearWaterMark old) = (True, cmk_isClearWaterMark m)"
    by (rule reads, rule assms, simp, simp add: CloudMark_members_def)+
  then show ?thesis by (simp add: CloudMark_Unmarshal_def)
qed

definition CloudMark_eq :: "CloudMark \<Rightarrow> CloudMark \<Rightarrow> bool" where
  "CloudMark_eq a b \<longleftrightarrow> cmk_bundleName a = cmk_bundleName b \<and> cmk_deviceId a = cmk_deviceId b \<and> cmk_index a = cmk_index b \<and>
     cmk_isClearWaterMark a = cmk_isClearWaterMark b \<and> cmk_storeId a = cmk_storeId b \<and> cmk_userId a = cmk_userId b"

definition CloudMark_neq :: "CloudMark \<Rightarrow> CloudMark \<Rightarrow> bool" where
  "CloudMark_neq a b \<longleftrightarrow> \<not> CloudMark_eq a b"

definition CloudMark_of_meta :: "StoreMetaData \<Rightarrow> CloudMark" where
  "CloudMark_of_meta meta = CloudMark_new\<lparr>cmk_bundleName := sm_bundleName meta, cmk_deviceId := sm_deviceId meta,
     cmk_storeId := sm_storeId meta, cmk_userId := word_of_int (atoi (sm_user meta)), cmk_index := sm_instanceId meta\<rparr>"

definition CloudMark_GetKey_fields :: "string list \<Rightarrow> string" where
  "CloudMark_GetKey_fields flds = fold (\<lambda>field pfx. pfx @ KEY_SEPARATOR @ field) flds ''CloudMark''"

definition CloudMark_GetKey :: "CloudMark \<Rightarrow> string" where
  "CloudMark_GetKey m = CloudMark_GetKey_fields [cmk_deviceId m, to_string (sint (cmk_userId m)), ''default'', cmk_bundleName m,
     cmk_storeId m, to_string (sint (cmk_index m))]"

section \<open>Bundle names and notifications\<close>

record CloudConfigManager =
  toLocalMapper :: "(string \<times> string) list"
  toCloudMapper :: "(string \<times> string) list"

fun CloudConfig_Initialize :: "(string \<times> string) list \<Rightarrow> CloudConfigManager \<Rightarrow> CloudConfigManager" where
  "CloudConfig_Initialize [] m = m"
| "CloudConfig_Initialize ((localBundle, cloudBundle) # mapper) m =
     CloudConfig_Initialize mapper (m\<lparr>toLocalMapper := map_put cloudBundle localBundle (toLocalMapper m),
       toCloudMapper := map_put localBundle cloudBundle (toCloudMapper m)\<rparr>)"

definition ToLocal :: "CloudConfigManager \<Rightarrow> string \<Rightarrow> string" where
  "ToLocal m bundleName = (case map_of (toLocalMapper m) bundleName of None \<Rightarrow> bundleName | Some b \<Rightarrow> b)"

definition ToCloud :: "CloudConfigManager \<Rightarrow> string \<Rightarrow> string" where
  "ToCloud m bundleName = (case map_of (toCloudMapper m) bundleName of None \<Rightarrow> bundleName | Some b \<Rightarrow> b)"

record Context =
  ctx_traceId :: "string"
  ctx_prepareTraceId :: "string"

definition Context_new :: Context where
  "Context_new = \<lparr>ctx_traceId = [], ctx_prepareTraceId = []\<rparr>"

definition Context_members :: "Context \<Rightarrow> (string \<times> json) list" where
  "Context_members m = [
     (''traceId'', SetValue_string (ctx_traceId m)),
     (''prepareTraceId'', SetValue_string (ctx_prepareTraceId m))]"

definition Context_Marshal :: "Context \<Rightarrow> json \<Rightarrow> json" where
  "Context_Marshal m node = json_puts (Context_members m) node"

definition Context_Unmarshal :: "json \<Rightarrow> Context \<Rightarrow> bool \<times> Context" where
  "Context_Unmarshal node m =
     (True,
      m\<lparr>ctx_traceId := snd (GetValue_string node ''traceId'' (ctx_traceId m)),
        ctx_prepareTraceId := snd (GetValue_string node ''prepareTraceId'' (ctx_prepareTraceId m))\<rparr>)"

lemma context_info_read:
  assumes "holds_members node (Context_members m)"
  shows "Context_Unmarshal node old = (True, m)"
proof -
  have
    "GetValue_string node ''traceId'' (ctx_traceId old) = (True, ctx_traceId m)" and
    "GetValue_string node ''prepareTraceId'' (ctx_prepareTraceId old) = (True, ctx_prepareTraceId m)"
    by (rule reads, rule assms, simp, simp add: Context_members_def)+
  then show ?thesis by (simp add: Context_Unmarshal_def)
qed

interpretation context_info: json_object Context_Marshal Context_Unmarshal
  by (rule json_object_by_members [OF Context_Marshal_def context_info_read]) (simp_all add: Context_members_def)

record ExtensionInfo =
  exi_accountId :: string
  exi_bundleName :: string
  exi_containerName :: string
  exi_databaseScopes :: string
  exi_scopes :: "string list"
  exi_recordTypes :: string
  exi_tables :: "string list"
  exi_context :: Context

definition ExtensionInfo_new :: ExtensionInfo where
  "ExtensionInfo_new = \<lparr>exi_accountId = [], exi_bundleName = [], exi_containerName = [], exi_databaseScopes = [],
     exi_scopes = [], exi_recordTypes = [], exi_tables = [], exi_context = Context_new\<rparr>"

definition ExtensionInfo_Marshal :: "ExtensionInfo \<Rightarrow> json \<Rightarrow> json" where
  "ExtensionInfo_Marshal m node = json_puts [
     (''accountId'', SetValue_string (exi_accountId m)),
     (''bundleName'', SetValue_string (exi_bundleName m)),
     (''containerName'', SetValue_string (exi_containerName m)),
     (''databaseScopes'', SetValue_string (exi_databaseScopes m)),
     (''recordTypes'', SetValue_string (exi_recordTypes m))] node"

text \<open>The texts inside the notification are documents of their own; \<^verbatim>\<open>parse\<close> is the JSON library's parser.\<close>

definition Unmarshall_strings :: "(string \<Rightarrow> json) \<Rightarrow> string \<Rightarrow> string list \<Rightarrow> bool \<times> string list" where
  "Unmarshall_strings parse body values = GetValue_vector GetValue_string [] (ToJson parse body) [] values"

definition ExtensionInfo_Unmarshal ::
  "(string \<Rightarrow> json) \<Rightarrow> CloudConfigManager \<Rightarrow> json \<Rightarrow> ExtensionInfo \<Rightarrow> bool \<times> ExtensionInfo" where
  "ExtensionInfo_Unmarshal parse mapper node m =
     (let m = m\<lparr>exi_accountId := snd (GetValue_string node ''accountId'' (exi_accountId m)),
                exi_bundleName := ToLocal mapper (snd (GetValue_string node ''bundleName'' (exi_bundleName m))),
                exi_containerName := snd (GetValue_string node ''containerName'' (exi_containerName m)),
                exi_databaseScopes := snd (GetValue_string node ''databaseScopes'' (exi_databaseScopes m))\<rparr>
      in case Unmarshall_strings parse (exi_databaseScopes m) (exi_scopes m) of (ok, scopes) \<Rightarrow>
           let m = m\<lparr>exi_scopes := scopes\<rparr>
           in if \<not> ok then (False, m)
              else let m = m\<lparr>exi_recordTypes := snd (GetValue_string node ''recordTypes'' (exi_recordTypes m))\<rparr>
                   in case Unmarshall_strings parse (exi_recordTypes m) (exi_tables m) of (ok, tables) \<Rightarrow>
                        let m = m\<lparr>exi_tables := tables\<rparr>
                        in if \<not> ok then (False, m)
                           else let data = snd (GetValue_string node ''context'' [])
                                in if data = [] then (True, m)
                                   else case Unmarshall_text parse Context_Unmarshal data (exi_context m) of (ok, c) \<Rightarrow>
                                          (ok, m\<lparr>exi_context := c\<rparr>))"

record ExtraData =
  exd_header :: string
  exd_data :: string
  exd_info :: ExtensionInfo

definition ExtraData_Marshal :: "ExtraData \<Rightarrow> json \<Rightarrow> json" where
  "ExtraData_Marshal m node = json_puts [(''header'', SetValue_string (exd_header m)), (''data'', SetValue_string (exd_data m))] node"

definition ExtraData_Unmarshal :: "(string \<Rightarrow> json) \<Rightarrow> CloudConfigManager \<Rightarrow> json \<Rightarrow> ExtraData \<Rightarrow> bool \<times> ExtraData" where
  "ExtraData_Unmarshal parse mapper node m =
     (let m = m\<lparr>exd_header := snd (GetValue_string node ''header'' (exd_header m)),
                exd_data := snd (GetValue_string node ''data'' (exd_data m))\<rparr>
      in case Unmarshall_text parse (ExtensionInfo_Unmarshal parse mapper) (exd_data m) (exd_info m) of (ok, info) \<Rightarrow>
           (ok, m\<lparr>exd_info := info\<rparr>))"

definition isPrivate :: "ExtraData \<Rightarrow> bool" where
  "isPrivate m \<longleftrightarrow> List.member (exi_scopes (exd_info m)) ''private''"

definition isShared :: "ExtraData \<Rightarrow> bool" where
  "isShared m \<longleftrightarrow> List.member (exi_scopes (exd_info m)) ''shared''"

section \<open>Results\<close>

lemma CloudInfo_read:
  assumes "holds_members node (CloudInfo_members m)" "map_sorted (ci_apps m)"
  shows "CloudInfo_Unmarshal node CloudInfo_new =
    (True, m\<lparr>ci_maxNumber := (if ci_maxNumber m = 0 then DEFAULT_BATCH_NUMBER else ci_maxNumber m),
             ci_maxSize := (if ci_maxSize m = 0 then DEFAULT_BATCH_SIZE else ci_maxSize m)\<rparr>)"
proof -
  have "GetValue_map (GetValue_object AppInfo_Unmarshal) AppInfo_new node ''apps'' [] = (True, ci_apps m)"
    by (rule map_of_members [OF app_info.as_field.json_field_axioms assms(1) _ _ assms(2)]) (simp_all add: CloudInfo_members_def)
  moreover have "GetValue_i32 node ''user'' u = (True, ci_user m)" "GetValue_string node ''id'' s = (True, ci_id m)"
    "GetValue_u64 node ''totalSpace'' t = (True, ci_totalSpace m)" "GetValue_u64 node ''remainSpace'' t = (True, ci_remainSpace m)"
    "GetValue_bool node ''enableCloud'' b = (True, ci_enableCloud m)" "GetValue_i32 node ''maxNumber'' u = (True, ci_maxNumber m)"
    "GetValue_i32 node ''maxSize'' u = (True, ci_maxSize m)" for u s t b
    by (rule reads, rule assms(1), simp, simp add: CloudInfo_members_def)+
  ultimately show ?thesis by (simp add: CloudInfo_Unmarshal_def CloudInfo_new_def read_or_default_def)
qed

lemma Relation_read:
  assumes "holds_members node (Relation_members m)" "map_sorted (rel_relations m)"
  shows "Relation_Unmarshal node Relation_new = (True, m)"
proof -
  have "GetValue_map GetValue_string [] node ''relations'' [] = (True, rel_relations m)"
    by (rule map_of_members [OF string_field.json_field_axioms assms(1) _ _ assms(2)]) (simp_all add: Relation_members_def)
  moreover have "GetValue_string node ''id'' s = (True, rel_id m)" "GetValue_string node ''bundleName'' s = (True, rel_bundleName m)" for s
    by (rule reads, rule assms(1), simp, simp add: Relation_members_def)+
  ultimately show ?thesis by (simp add: Relation_Unmarshal_def Relation_new_def)
qed

lemma Subscription_read:
  assumes "holds_members node (Subscription_members m)" "map_sorted (sub_expiresTime m)"
  shows "Subscription_Unmarshal node Subscription_new = (True, m)"
proof -
  have "GetValue_map GetValue_u64 0 node ''expiresTime'' [] = (True, sub_expiresTime m)"
    by (rule map_of_members [OF u64_field.json_field_axioms assms(1) _ _ assms(2)]) (simp_all add: Subscription_members_def)
  moreover have "GetValue_i32 node ''userId'' u = (True, sub_userId m)" "GetValue_string node ''id'' s = (True, sub_id m)" for u s
    by (rule reads, rule assms(1), simp, simp add: Subscription_members_def)+
  ultimately show ?thesis by (simp add: Subscription_Unmarshal_def Subscription_new_def)
qed



text \<open>
  The earliest expiry: entries of zero are passed over, except that a zero in the first entry makes the
  result zero whatever the others are.
\<close>

lemma min_expire_le: "min_expire es e \<le> e"
  by (induction es arbitrary: e) (auto intro: order_trans less_imp_le)

lemma min_expire_lower: "x \<in> set es \<Longrightarrow> snd x \<noteq> 0 \<Longrightarrow> min_expire es e \<le> snd x"
  by (induction es arbitrary: e) (auto intro: order_trans [OF min_expire_le])

lemma min_expire_in: "min_expire es e = e \<or> (\<exists>x \<in> set es. snd x \<noteq> 0 \<and> min_expire es e = snd x)"
proof (induction es arbitrary: e)
  case (Cons x es)
  show ?case using Cons [of e] Cons [of "snd x"] by auto
qed simp

lemma GetMinExpireTime_first_zero: "sub_expiresTime m = (k, 0) # es \<Longrightarrow> GetMinExpireTime m = 0"
  using min_expire_le [of es 0] by (simp add: GetMinExpireTime_def word_le_0_iff)

lemma GetMinExpireTime_least:
  assumes "sub_expiresTime m = (k, t) # es" "t \<noteq> 0"
  shows "GetMinExpireTime m \<in> snd ` set (sub_expiresTime m)" "x \<in> set (sub_expiresTime m) \<Longrightarrow> snd x \<noteq> 0 \<Longrightarrow> GetMinExpireTime m \<le> snd x"
  using assms min_expire_in [of es t] min_expire_le [of es t] by (auto simp: GetMinExpireTime_def intro: min_expire_lower)

text \<open>The comparison of two accounts looks at the applications in order and not at the keys they are stored under.\<close>

lemma IsAppsEqual_iff: "IsAppsEqual a b \<longleftrightarrow> map snd a = map snd b"
proof -
  have "\<not> AppInfo_neq x y \<longleftrightarrow> x = y" for x y by (auto simp: AppInfo_neq_def AppInfo_eq_def)
  moreover have "length a = length b \<and> list_all (\<lambda>(x, y). snd x = snd y) (zip a b) \<longleftrightarrow> map snd a = map snd b"
    by (induction a b rule: list_induct2') auto
  ultimately show ?thesis by (simp add: IsAppsEqual_def)
qed

text \<open>
  The prefix under which the schemas of a bundle are looked up does not end with a separator: it also
  finds the schemas of every bundle whose name continues this one, and with an empty name those of
  every user whose number continues this one.
\<close>

lemma GetSchemaPrefix_longer: "b \<noteq> [] \<Longrightarrow> prefix (GetSchemaPrefix m b) (GetSchemaKey m (b @ rest) i)"
  by (simp add: GetSchemaPrefix_def GetSchemaKey_def SchemaKey_def CloudInfo_GetKey_fields_def prefix_def)

text \<open>Applications that are switched on are not hidden by the summary.\<close>

lemma IsAllSwitchOff_sound: "IsAllSwitchOff m \<Longrightarrow> \<not> CloudInfo_IsOn m b i"
  by (auto simp: IsAllSwitchOff_def CloudInfo_IsOn_def list_all_iff split: option.splits dest!: map_of_SomeD)

text \<open>Mapping bundle names: without two local bundles for one cloud bundle, the two directions are inverse.\<close>

lemma CloudConfig_Initialize_maps:
  "map_of (toLocalMapper (CloudConfig_Initialize ps m)) = map_of (toLocalMapper m) ++ map_of (rev (map (\<lambda>(l, c). (c, l)) ps)) \<and>
   map_of (toCloudMapper (CloudConfig_Initialize ps m)) = map_of (toCloudMapper m) ++ map_of (rev ps)"
  by (induction ps m rule: CloudConfig_Initialize.induct) (auto simp: map_add_upd_left fun_eq_iff map_add_def split: option.splits)

text \<open>
  The result of the last synchronisation is saved under user, bundle, instance and store; the key made
  from user and bundle alone, which is passed to the exact deletion when an account or a bundle is
  cleaned, is never one of these.
\<close>

lemma CloudLastSyncInfo_prefix_is_no_key: "CloudLastSyncInfo_GetPrefix u b \<noteq> CloudLastSyncInfo_GetKey u b s i"
  by (simp add: CloudLastSyncInfo_GetPrefix_def CloudLastSyncInfo_GetKey_def CloudLastSyncInfo_GetKey_fields_def KEY_SEPARATOR_def)

end
