(* ===== verification/Config_Managers.thy ===== *)
theory Config_Managers
  imports Serializable_Maps Config_Records Cloud_Info
begin

text \<open>
  The managers that hold parts of the configuration: the mapping of application identifiers
  (\<^verbatim>\<open>framework/app_id_mapping\<close>), the applications trusted for access (\<^verbatim>\<open>framework/access_check\<close>), the
  applications that synchronise on their own (\<^verbatim>\<open>framework/sync_mgr\<close>) and the thread numbers
  (\<^verbatim>\<open>framework/thread\<close>).  Their maps are lists of entries in the order of the keys.  The access token
  service is a parameter.
\<close>

section \<open>Application identifiers\<close>

record AppMappingInfo =
  ami_srcAppId :: string
  ami_dstAppId :: string
  ami_isSystemApp :: bool

type_synonym app_id_manager = "(string \<times> AppMappingInfo) list"

fun AppIdMapping_Initialize :: "AppMappingInfo list \<Rightarrow> app_id_manager \<Rightarrow> app_id_manager" where
  "AppIdMapping_Initialize [] m = m"
| "AppIdMapping_Initialize (i # is) m = AppIdMapping_Initialize is (map_put (ami_srcAppId i) i m)"

definition AppIdMapping_Convert_account :: "app_id_manager \<Rightarrow> string \<Rightarrow> string \<Rightarrow> string \<times> string" where
  "AppIdMapping_Convert_account m appId accountId =
     (case map_of m appId of
        None \<Rightarrow> (appId, accountId)
      | Some i \<Rightarrow> if \<not> ami_isSystemApp i then (ami_dstAppId i, ''default'') else (ami_dstAppId i, accountId))"

definition AppIdMapping_Convert :: "app_id_manager \<Rightarrow> string \<Rightarrow> string" where
  "AppIdMapping_Convert m appId = (case map_of m appId of None \<Rightarrow> appId | Some i \<Rightarrow> ami_dstAppId i)"

section \<open>Trusted applications\<close>

type_synonym access_manager = "(string \<times> string) list"

record AccessMappingInfo =
  acm_appId :: string
  acm_bundleName :: string

fun AppAccess_Initialize :: "AccessMappingInfo list \<Rightarrow> access_manager \<Rightarrow> access_manager" where
  "AppAccess_Initialize [] m = m"
| "AppAccess_Initialize (i # is) m = AppAccess_Initialize is (map_put (acm_bundleName i) (acm_appId i) m)"

definition IsTrust :: "access_manager \<Rightarrow> string \<Rightarrow> bool" where
  "IsTrust m appId \<longleftrightarrow> (case map_of m appId of None \<Rightarrow> False | Some a \<Rightarrow> a = appId)"

section \<open>Applications that synchronise on their own\<close>

record AutoSyncInfo =
  asi_version :: u32
  asi_appId :: string
  asi_bundleName :: string
  asi_storeIds :: "string list"

record DoubleSyncInfo =
  dsi_tokenId :: u32
  dsi_appId :: string
  dsi_bundleName :: string

record sync_apps =
  autoSyncApps :: "(string \<times> AutoSyncInfo) list"
  doubleSyncApps :: "(string \<times> DoubleSyncInfo) list"

definition SetAutoSyncAppInfo :: "AutoSyncInfo \<Rightarrow> sync_apps \<Rightarrow> sync_apps" where
  "SetAutoSyncAppInfo i s = s\<lparr>autoSyncApps := map_put (asi_bundleName i) i (autoSyncApps s)\<rparr>"

fun SyncMgr_Initialize :: "AutoSyncInfo list \<Rightarrow> sync_apps \<Rightarrow> sync_apps" where
  "SyncMgr_Initialize [] s = s"
| "SyncMgr_Initialize (i # is) s = SyncMgr_Initialize is (SetAutoSyncAppInfo i s)"

definition IsAutoSyncApp :: "sync_apps \<Rightarrow> string \<Rightarrow> string \<Rightarrow> bool" where
  "IsAutoSyncApp s bundleName appId \<longleftrightarrow>
     (case map_of (autoSyncApps s) bundleName of None \<Rightarrow> False | Some i \<Rightarrow> asi_appId i = appId)"

definition IsAutoSyncStore :: "sync_apps \<Rightarrow> string \<Rightarrow> string \<Rightarrow> string \<Rightarrow> bool" where
  "IsAutoSyncStore s bundleName appId store \<longleftrightarrow>
     (case map_of (autoSyncApps s) bundleName of
        None \<Rightarrow> False
      | Some i \<Rightarrow> if asi_appId i \<noteq> appId then False else List.member (asi_storeIds i) store)"

definition NeedForceReplaceSchema :: "sync_apps \<Rightarrow> AutoSyncInfo \<Rightarrow> bool" where
  "NeedForceReplaceSchema s app \<longleftrightarrow>
     (case map_of (autoSyncApps s) (asi_bundleName app) of
        None \<Rightarrow> False
      | Some i \<Rightarrow> asi_version i = asi_version app \<and> asi_appId i = asi_appId app)"

definition SetDoubleSyncInfo :: "DoubleSyncInfo \<Rightarrow> sync_apps \<Rightarrow> sync_apps" where
  "SetDoubleSyncInfo i s = s\<lparr>doubleSyncApps := map_put (dsi_bundleName i) i (doubleSyncApps s)\<rparr>"

text \<open>The access token service: the type of a token, and the bundle of an application's token if it can be read.\<close>

datatype TokenType = TOKEN_INVALID | TOKEN_HAP | TOKEN_NATIVE | TOKEN_SHELL

record token_kit =
  tk_GetTokenTypeFlag :: "u32 \<Rightarrow> TokenType"
  tk_GetHapTokenInfo :: "u32 \<Rightarrow> string option"

definition IsAccessRestricted :: "token_kit \<Rightarrow> sync_apps \<Rightarrow> DoubleSyncInfo \<Rightarrow> bool" where
  "IsAccessRestricted K s info =
     (let tokenType = tk_GetTokenTypeFlag K (dsi_tokenId info)
      in if tokenType = TOKEN_HAP
         then case tk_GetHapTokenInfo K (dsi_tokenId info) of
                None \<Rightarrow> True
              | Some bundleName \<Rightarrow>
                  \<not> list_ex (\<lambda>e. fst e = bundleName \<and> dsi_appId (snd e) = dsi_appId info) (doubleSyncApps s)
         else if tokenType = TOKEN_NATIVE \<or> tokenType = TOKEN_SHELL
              then \<not> list_ex (\<lambda>e. fst e = dsi_bundleName info) (doubleSyncApps s)
              else True)"

section \<open>Threads\<close>

record ThreadManager =
  minThreadNum :: u32
  maxThreadNum :: u32
  ipcThreadNum :: u32

definition ThreadManager_Initialize :: "u32 \<Rightarrow> u32 \<Rightarrow> u32 \<Rightarrow> ThreadManager" where
  "ThreadManager_Initialize mn mx ipc = \<lparr>minThreadNum = mn, maxThreadNum = mx, ipcThreadNum = ipc\<rparr>"

section \<open>What the managers answer\<close>

text \<open>Initialising a map from a list: the last entry of a key wins.\<close>

lemma AppIdMapping_Initialize_map:
  "map_of (AppIdMapping_Initialize is m) = map_of m ++ map_of (rev (map (\<lambda>i. (ami_srcAppId i, i)) is))"
  by (induction "is" m rule: AppIdMapping_Initialize.induct) (auto simp: fun_eq_iff map_add_def split: option.splits)

lemma AppAccess_Initialize_map:
  "map_of (AppAccess_Initialize is m) = map_of m ++ map_of (rev (map (\<lambda>i. (acm_bundleName i, acm_appId i)) is))"
  by (induction "is" m rule: AppAccess_Initialize.induct) (auto simp: fun_eq_iff map_add_def split: option.splits)

lemma SyncMgr_Initialize_map:
  "map_of (autoSyncApps (SyncMgr_Initialize is s)) = map_of (autoSyncApps s) ++ map_of (rev (map (\<lambda>i. (asi_bundleName i, i)) is))"
  by (induction "is" s rule: SyncMgr_Initialize.induct)
    (auto simp: SetAutoSyncAppInfo_def fun_eq_iff map_add_def split: option.splits)

text \<open>
  The trusted applications are stored by bundle name but looked up by application identifier: an
  entry takes effect only where the two are the same.
\<close>

lemma IsTrust_iff:
  "IsTrust (AppAccess_Initialize is []) a \<longleftrightarrow> map_of (rev (map (\<lambda>i. (acm_bundleName i, acm_appId i)) is)) a = Some a"
  by (auto simp: IsTrust_def AppAccess_Initialize_map split: option.splits)

lemma IsTrust_needs_equal: "IsTrust (AppAccess_Initialize is []) a \<Longrightarrow> \<exists>i \<in> set is. acm_bundleName i = a \<and> acm_appId i = a"
  by (auto simp: IsTrust_iff dest!: map_of_SomeD) metis

lemma Convert_agree: "AppIdMapping_Convert m a = fst (AppIdMapping_Convert_account m a acc)"
  by (simp add: AppIdMapping_Convert_def AppIdMapping_Convert_account_def split: option.splits)

lemma IsAutoSyncStore_app: "IsAutoSyncStore s b a x \<Longrightarrow> IsAutoSyncApp s b a"
  by (auto simp: IsAutoSyncStore_def IsAutoSyncApp_def split: option.splits if_splits)

end
