(* ===== verification/Checkers.thy ===== *)
theory Checkers
  imports Config_Managers Concurrent_Map
begin

text \<open>
  Who an application is: \<^verbatim>\<open>app/src/checker/bundle_checker.cpp\<close> for installed applications,
  \<^verbatim>\<open>app/src/checker/system_checker.cpp\<close> for system services, and \<^verbatim>\<open>framework/checker/checker_manager.cpp\<close>,
  which asks the loaded checkers in the order of their names.  The access token service, the bundle
  manager, the hash function and the LRU bucket are parameters.  The results: the answers of the two
  checkers together, with the bundle checker's cache, are those of a specification without a cache;
  and where the list of stores and the test for a store disagree.
\<close>

section \<open>The bundle checker\<close>

record CheckerStoreInfo =
  csi_uid :: u32
  csi_tokenId :: u32
  csi_bundleName :: string
  csi_storeId :: string

record checker_env =
  ce_token :: token_kit
  ce_GetAppIdByBundleName :: "string \<Rightarrow> int \<Rightarrow> string"
  ce_Sha256 :: "string \<Rightarrow> string"

record 'c BundleChecker =
  bc_trusts :: "(string \<times> string) list"
  bc_distrusts :: "(string \<times> string) list"
  bc_switches :: "(string \<times> string) list"
  bc_dynamicStores :: "CheckerStoreInfo list"
  bc_staticStores :: "CheckerStoreInfo list"
  bc_appIds :: 'c

definition BundleChecker_new :: "'c \<Rightarrow> 'c BundleChecker" where
  "BundleChecker_new c = \<lparr>bc_trusts = [], bc_distrusts = [], bc_switches = [], bc_dynamicStores = [], bc_staticStores = [], bc_appIds = c\<rparr>"

abbreviation (input) BASE_USER_RANGE :: int where "BASE_USER_RANGE \<equiv> 200000"

text \<open>The user of a process: division of signed integers towards zero.\<close>

definition user_of_uid :: "u32 \<Rightarrow> int" where
  "user_of_uid uid = (let i = sint uid in if 0 \<le> i then i div BASE_USER_RANGE else - (- i div BASE_USER_RANGE))"

definition BundleChecker_GetKey :: "string \<Rightarrow> int \<Rightarrow> string" where
  "BundleChecker_GetKey bundleName userId = bundleName @ ''###'' @ to_string userId"

definition GetAppidFromCache :: "(string, string, 'c) lru_ops \<Rightarrow> string \<Rightarrow> int \<Rightarrow> 'c BundleChecker \<Rightarrow> string \<times> 'c BundleChecker" where
  "GetAppidFromCache L bundleName userId b =
     (case lru_Get L (bc_appIds b) (BundleChecker_GetKey bundleName userId) of (r, c) \<Rightarrow>
        (case r of None \<Rightarrow> [] | Some appId \<Rightarrow> appId, b\<lparr>bc_appIds := c\<rparr>))"

definition GetBundleAppId ::
  "(string, string, 'c) lru_ops \<Rightarrow> checker_env \<Rightarrow> CheckerStoreInfo \<Rightarrow> 'c BundleChecker \<Rightarrow> string \<times> 'c BundleChecker" where
  "GetBundleAppId L E info b =
     (let userId = user_of_uid (csi_uid info)
      in case GetAppidFromCache L (csi_bundleName info) userId b of (appId, b) \<Rightarrow>
           if appId \<noteq> [] then (appId, b)
           else let appId = ce_GetAppIdByBundleName E (csi_bundleName info) userId
                in if appId = [] then (appId, b)
                   else (appId, b\<lparr>bc_appIds := lru_Set L (bc_appIds b) (BundleChecker_GetKey (csi_bundleName info) userId) appId\<rparr>))"

definition BundleChecker_DeleteCache :: "(string, string, 'c) lru_ops \<Rightarrow> string \<Rightarrow> int \<Rightarrow> int \<Rightarrow> 'c BundleChecker \<Rightarrow> 'c BundleChecker" where
  "BundleChecker_DeleteCache L bundleName user index b =
     b\<lparr>bc_appIds := lru_Delete L (bc_appIds b) (BundleChecker_GetKey bundleName user)\<rparr>"

definition BundleChecker_ClearCache :: "(string, string, 'c) lru_ops \<Rightarrow> 'c BundleChecker \<Rightarrow> 'c BundleChecker" where
  "BundleChecker_ClearCache L b = b\<lparr>bc_appIds := lru_ResetCapacity L (lru_ResetCapacity L (bc_appIds b) 0) 32\<rparr>"

definition BundleChecker_GetAppId ::
  "(string, string, 'c) lru_ops \<Rightarrow> checker_env \<Rightarrow> CheckerStoreInfo \<Rightarrow> 'c BundleChecker \<Rightarrow> string \<times> 'c BundleChecker" where
  "BundleChecker_GetAppId L E info b =
     (if tk_GetTokenTypeFlag (ce_token E) (csi_tokenId info) \<noteq> TOKEN_HAP then ([], b)
      else case GetBundleAppId L E info b of (appId, b) \<Rightarrow>
             if appId = [] then ([], b)
             else if map_of (bc_trusts b) (csi_bundleName info) = Some appId then (csi_bundleName info, b)
             else (ce_Sha256 E appId, b))"

definition BundleChecker_IsValid :: "checker_env \<Rightarrow> CheckerStoreInfo \<Rightarrow> bool" where
  "BundleChecker_IsValid E info \<longleftrightarrow>
     (if tk_GetTokenTypeFlag (ce_token E) (csi_tokenId info) \<noteq> TOKEN_HAP then False
      else case tk_GetHapTokenInfo (ce_token E) (csi_tokenId info) of
             None \<Rightarrow> False
           | Some bundleName \<Rightarrow> bundleName = csi_bundleName info)"

definition BundleChecker_IsDistrust ::
  "(string, string, 'c) lru_ops \<Rightarrow> checker_env \<Rightarrow> CheckerStoreInfo \<Rightarrow> 'c BundleChecker \<Rightarrow> bool \<times> 'c BundleChecker" where
  "BundleChecker_IsDistrust L E info b =
     (if tk_GetTokenTypeFlag (ce_token E) (csi_tokenId info) \<noteq> TOKEN_HAP then (False, b)
      else case GetBundleAppId L E info b of (appId, b) \<Rightarrow>
             if appId = [] then (False, b)
             else (map_of (bc_distrusts b) (csi_bundleName info) = Some appId, b))"

section \<open>The system checker\<close>

record SystemChecker =
  sc_trusts :: "(string \<times> string) list"
  sc_distrusts :: "(string \<times> string) list"
  sc_switches :: "(string \<times> string) list"
  sc_dynamicStores :: "CheckerStoreInfo list"
  sc_staticStores :: "CheckerStoreInfo list"

definition SystemChecker_new :: SystemChecker where
  "SystemChecker_new = \<lparr>sc_trusts = [], sc_distrusts = [], sc_switches = [], sc_dynamicStores = [], sc_staticStores = []\<rparr>"

definition SystemChecker_IsValid :: "checker_env \<Rightarrow> CheckerStoreInfo \<Rightarrow> bool" where
  "SystemChecker_IsValid E info \<longleftrightarrow>
     (let type = tk_GetTokenTypeFlag (ce_token E) (csi_tokenId info) in type = TOKEN_NATIVE \<or> type = TOKEN_SHELL)"

definition SystemChecker_GetAppId :: "checker_env \<Rightarrow> CheckerStoreInfo \<Rightarrow> SystemChecker \<Rightarrow> string" where
  "SystemChecker_GetAppId E info s =
     (if \<not> SystemChecker_IsValid E info then []
      else case map_of (sc_trusts s) (csi_bundleName info) of Some appId \<Rightarrow> appId | None \<Rightarrow> csi_bundleName info)"

definition SystemChecker_IsDistrust :: "checker_env \<Rightarrow> CheckerStoreInfo \<Rightarrow> SystemChecker \<Rightarrow> bool" where
  "SystemChecker_IsDistrust E info s \<longleftrightarrow>
     (if \<not> SystemChecker_IsValid E info then False else map_of (sc_distrusts s) (csi_bundleName info) \<noteq> None)"

definition SystemChecker_IsSwitches :: "checker_env \<Rightarrow> CheckerStoreInfo \<Rightarrow> SystemChecker \<Rightarrow> bool" where
  "SystemChecker_IsSwitches E info s \<longleftrightarrow>
     (if \<not> SystemChecker_IsValid E info then False else map_of (sc_switches s) (csi_bundleName info) \<noteq> None)"

section \<open>One interface for both\<close>

datatype 'c checker = Bundle_Checker "'c BundleChecker" | System_Checker SystemChecker

fun ck_SetTrustInfo :: "Trust \<Rightarrow> 'c checker \<Rightarrow> 'c checker" where
  "ck_SetTrustInfo t (Bundle_Checker b) = Bundle_Checker (b\<lparr>bc_trusts := map_put (tru_bundleName t) (tru_appId t) (bc_trusts b)\<rparr>)"
| "ck_SetTrustInfo t (System_Checker s) = System_Checker (s\<lparr>sc_trusts := map_put (tru_bundleName t) (tru_appId t) (sc_trusts s)\<rparr>)"

fun ck_SetDistrustInfo :: "Trust \<Rightarrow> 'c checker \<Rightarrow> 'c checker" where
  "ck_SetDistrustInfo t (Bundle_Checker b) = Bundle_Checker (b\<lparr>bc_distrusts := map_put (tru_bundleName t) (tru_appId t) (bc_distrusts b)\<rparr>)"
| "ck_SetDistrustInfo t (System_Checker s) = System_Checker (s\<lparr>sc_distrusts := map_put (tru_bundleName t) (tru_appId t) (sc_distrusts s)\<rparr>)"

fun ck_SetSwitchesInfo :: "Trust \<Rightarrow> 'c checker \<Rightarrow> 'c checker" where
  "ck_SetSwitchesInfo t (Bundle_Checker b) = Bundle_Checker (b\<lparr>bc_switches := map_put (tru_bundleName t) (tru_appId t) (bc_switches b)\<rparr>)"
| "ck_SetSwitchesInfo t (System_Checker s) = System_Checker (s\<lparr>sc_switches := map_put (tru_bundleName t) (tru_appId t) (sc_switches s)\<rparr>)"

fun ck_AddDynamicStore :: "CheckerStoreInfo \<Rightarrow> 'c checker \<Rightarrow> 'c checker" where
  "ck_AddDynamicStore i (Bundle_Checker b) = Bundle_Checker (b\<lparr>bc_dynamicStores := bc_dynamicStores b @ [i]\<rparr>)"
| "ck_AddDynamicStore i (System_Checker s) = System_Checker (s\<lparr>sc_dynamicStores := sc_dynamicStores s @ [i]\<rparr>)"

fun ck_AddStaticStore :: "CheckerStoreInfo \<Rightarrow> 'c checker \<Rightarrow> 'c checker" where
  "ck_AddStaticStore i (Bundle_Checker b) = Bundle_Checker (b\<lparr>bc_staticStores := bc_staticStores b @ [i]\<rparr>)"
| "ck_AddStaticStore i (System_Checker s) = System_Checker (s\<lparr>sc_staticStores := sc_staticStores s @ [i]\<rparr>)"

fun ck_GetDynamicStores :: "'c checker \<Rightarrow> CheckerStoreInfo list" where
  "ck_GetDynamicStores (Bundle_Checker b) = bc_dynamicStores b"
| "ck_GetDynamicStores (System_Checker s) = sc_dynamicStores s"

fun ck_GetStaticStores :: "'c checker \<Rightarrow> CheckerStoreInfo list" where
  "ck_GetStaticStores (Bundle_Checker b) = bc_staticStores b"
| "ck_GetStaticStores (System_Checker s) = sc_staticStores s"

definition store_listed :: "CheckerStoreInfo \<Rightarrow> CheckerStoreInfo list \<Rightarrow> bool" where
  "store_listed info stores \<longleftrightarrow> list_ex (\<lambda>s. csi_bundleName info = csi_bundleName s \<and> csi_storeId info = csi_storeId s) stores"

definition ck_IsDynamic :: "CheckerStoreInfo \<Rightarrow> 'c checker \<Rightarrow> bool" where
  "ck_IsDynamic info ck \<longleftrightarrow> store_listed info (ck_GetDynamicStores ck)"

definition ck_IsStatic :: "CheckerStoreInfo \<Rightarrow> 'c checker \<Rightarrow> bool" where
  "ck_IsStatic info ck \<longleftrightarrow> store_listed info (ck_GetStaticStores ck)"

fun ck_GetAppId :: "(string, string, 'c) lru_ops \<Rightarrow> checker_env \<Rightarrow> CheckerStoreInfo \<Rightarrow> 'c checker \<Rightarrow> string \<times> 'c checker" where
  "ck_GetAppId L E info (Bundle_Checker b) = (case BundleChecker_GetAppId L E info b of (r, b) \<Rightarrow> (r, Bundle_Checker b))"
| "ck_GetAppId L E info (System_Checker s) = (SystemChecker_GetAppId E info s, System_Checker s)"

fun ck_IsValid :: "checker_env \<Rightarrow> CheckerStoreInfo \<Rightarrow> 'c checker \<Rightarrow> bool" where
  "ck_IsValid E info (Bundle_Checker b) = BundleChecker_IsValid E info"
| "ck_IsValid E info (System_Checker s) = SystemChecker_IsValid E info"

fun ck_IsDistrust :: "(string, string, 'c) lru_ops \<Rightarrow> checker_env \<Rightarrow> CheckerStoreInfo \<Rightarrow> 'c checker \<Rightarrow> bool \<times> 'c checker" where
  "ck_IsDistrust L E info (Bundle_Checker b) = (case BundleChecker_IsDistrust L E info b of (r, b) \<Rightarrow> (r, Bundle_Checker b))"
| "ck_IsDistrust L E info (System_Checker s) = (SystemChecker_IsDistrust E info s, System_Checker s)"

fun ck_IsSwitches :: "checker_env \<Rightarrow> CheckerStoreInfo \<Rightarrow> 'c checker \<Rightarrow> bool" where
  "ck_IsSwitches E info (Bundle_Checker b) = False"
| "ck_IsSwitches E info (System_Checker s) = SystemChecker_IsSwitches E info s"

fun ck_DeleteCache :: "(string, string, 'c) lru_ops \<Rightarrow> string \<Rightarrow> int \<Rightarrow> int \<Rightarrow> 'c checker \<Rightarrow> 'c checker" where
  "ck_DeleteCache L bundleName user index (Bundle_Checker b) = Bundle_Checker (BundleChecker_DeleteCache L bundleName user index b)"
| "ck_DeleteCache L bundleName user index (System_Checker s) = System_Checker s"

fun ck_ClearCache :: "(string, string, 'c) lru_ops \<Rightarrow> 'c checker \<Rightarrow> 'c checker" where
  "ck_ClearCache L (Bundle_Checker b) = Bundle_Checker (BundleChecker_ClearCache L b)"
| "ck_ClearCache L (System_Checker s) = System_Checker s"

section \<open>The manager\<close>

text \<open>
  A registered plug-in is the checker its getter returns; \<^verbatim>\<open>None\<close> stands for a getter that is empty or
  returns a null pointer.
\<close>

record ('c, 'g) CheckerManager =
  cm_checkers :: "(string \<times> 'c checker) list"
  cm_getters :: 'g

definition CheckerManager_RegisterPlugin ::
  "(string, 'c checker option, 'g) cmap_ops \<Rightarrow> string \<Rightarrow> 'c checker option \<Rightarrow> ('c, 'g) CheckerManager \<Rightarrow> ('c, 'g) CheckerManager" where
  "CheckerManager_RegisterPlugin M name getter m = m\<lparr>cm_getters := snd (cm_ComputeIfAbsent M (cm_getters m) name getter)\<rparr>"

fun LoadCheckers ::
  "(string, 'c checker option, 'g) cmap_ops \<Rightarrow> string list \<Rightarrow> ('c, 'g) CheckerManager \<Rightarrow> ('c, 'g) CheckerManager" where
  "LoadCheckers M [] m = m"
| "LoadCheckers M (name # names) m =
     (if map_of (cm_checkers m) name \<noteq> None then LoadCheckers M names m
      else case cm_Find M (cm_getters m) name of
             Some (Some ck) \<Rightarrow> LoadCheckers M names (m\<lparr>cm_checkers := map_put name ck (cm_checkers m)\<rparr>)
           | _ \<Rightarrow> LoadCheckers M names m)"

definition CheckerManager_DeleteCache ::
  "(string, string, 'c) lru_ops \<Rightarrow> string \<Rightarrow> int \<Rightarrow> int \<Rightarrow> ('c, 'g) CheckerManager \<Rightarrow> ('c, 'g) CheckerManager" where
  "CheckerManager_DeleteCache L bundleName user index m =
     m\<lparr>cm_checkers := map (\<lambda>(name, ck). (name, ck_DeleteCache L bundleName user index ck)) (cm_checkers m)\<rparr>"

definition CheckerManager_ClearCache :: "(string, string, 'c) lru_ops \<Rightarrow> ('c, 'g) CheckerManager \<Rightarrow> ('c, 'g) CheckerManager" where
  "CheckerManager_ClearCache L m = m\<lparr>cm_checkers := map (\<lambda>(name, ck). (name, ck_ClearCache L ck)) (cm_checkers m)\<rparr>"

fun first_appId ::
  "(string, string, 'c) lru_ops \<Rightarrow> checker_env \<Rightarrow> CheckerStoreInfo \<Rightarrow> (string \<times> 'c checker) list \<Rightarrow> string \<times> (string \<times> 'c checker) list" where
  "first_appId L E info [] = ([], [])"
| "first_appId L E info ((name, ck) # cks) =
     (case ck_GetAppId L E info ck of (appId, ck) \<Rightarrow>
        if appId = [] then (case first_appId L E info cks of (r, cks) \<Rightarrow> (r, (name, ck) # cks)) else (appId, (name, ck) # cks))"

definition CheckerManager_GetAppId ::
  "(string, string, 'c) lru_ops \<Rightarrow> checker_env \<Rightarrow> CheckerStoreInfo \<Rightarrow> ('c, 'g) CheckerManager \<Rightarrow> string \<times> ('c, 'g) CheckerManager" where
  "CheckerManager_GetAppId L E info m =
     (case first_appId L E info (cm_checkers m) of (r, cks) \<Rightarrow> (r, m\<lparr>cm_checkers := cks\<rparr>))"

definition CheckerManager_IsValid :: "checker_env \<Rightarrow> CheckerStoreInfo \<Rightarrow> ('c, 'g) CheckerManager \<Rightarrow> bool" where
  "CheckerManager_IsValid E info m \<longleftrightarrow> list_ex (\<lambda>e. ck_IsValid E info (snd e)) (cm_checkers m)"

fun first_distrust ::
  "(string, string, 'c) lru_ops \<Rightarrow> checker_env \<Rightarrow> CheckerStoreInfo \<Rightarrow> (string \<times> 'c checker) list \<Rightarrow> bool \<times> (string \<times> 'c checker) list" where
  "first_distrust L E info [] = (False, [])"
| "first_distrust L E info ((name, ck) # cks) =
     (case ck_IsDistrust L E info ck of (d, ck) \<Rightarrow>
        if \<not> d then (case first_distrust L E info cks of (r, cks) \<Rightarrow> (r, (name, ck) # cks)) else (True, (name, ck) # cks))"

definition CheckerManager_IsDistrust ::
  "(string, string, 'c) lru_ops \<Rightarrow> checker_env \<Rightarrow> CheckerStoreInfo \<Rightarrow> ('c, 'g) CheckerManager \<Rightarrow> bool \<times> ('c, 'g) CheckerManager" where
  "CheckerManager_IsDistrust L E info m =
     (case first_distrust L E info (cm_checkers m) of (r, cks) \<Rightarrow> (r, m\<lparr>cm_checkers := cks\<rparr>))"

definition CheckerManager_IsSwitches :: "checker_env \<Rightarrow> CheckerStoreInfo \<Rightarrow> ('c, 'g) CheckerManager \<Rightarrow> bool" where
  "CheckerManager_IsSwitches E info m \<longleftrightarrow> list_ex (\<lambda>e. ck_IsSwitches E info (snd e)) (cm_checkers m)"

definition GetChecker :: "string \<Rightarrow> ('c, 'g) CheckerManager \<Rightarrow> 'c checker option" where
  "GetChecker name m = map_of (cm_checkers m) name"

text \<open>The callers of \<^verbatim>\<open>GetChecker\<close> change the object behind the pointer.\<close>

definition change_checker :: "string \<Rightarrow> ('c checker \<Rightarrow> 'c checker) \<Rightarrow> ('c, 'g) CheckerManager \<Rightarrow> ('c, 'g) CheckerManager" where
  "change_checker name f m =
     (case GetChecker name m of None \<Rightarrow> m | Some ck \<Rightarrow> m\<lparr>cm_checkers := map_put name (f ck) (cm_checkers m)\<rparr>)"

fun first_stores :: "('c checker \<Rightarrow> CheckerStoreInfo list) \<Rightarrow> (string \<times> 'c checker) list \<Rightarrow> CheckerStoreInfo list" where
  "first_stores stores [] = []"
| "first_stores stores (e # es) = (if stores (snd e) \<noteq> [] then stores (snd e) else first_stores stores es)"

definition CheckerManager_GetDynamicStores :: "('c, 'g) CheckerManager \<Rightarrow> CheckerStoreInfo list" where
  "CheckerManager_GetDynamicStores m = first_stores ck_GetDynamicStores (cm_checkers m)"

definition CheckerManager_GetStaticStores :: "('c, 'g) CheckerManager \<Rightarrow> CheckerStoreInfo list" where
  "CheckerManager_GetStaticStores m = first_stores ck_GetStaticStores (cm_checkers m)"

definition CheckerManager_IsDynamic :: "CheckerStoreInfo \<Rightarrow> ('c, 'g) CheckerManager \<Rightarrow> bool" where
  "CheckerManager_IsDynamic info m \<longleftrightarrow> list_ex (\<lambda>e. ck_IsDynamic info (snd e)) (cm_checkers m)"

definition CheckerManager_IsStatic :: "CheckerStoreInfo \<Rightarrow> ('c, 'g) CheckerManager \<Rightarrow> bool" where
  "CheckerManager_IsStatic info m \<longleftrightarrow> list_ex (\<lambda>e. ck_IsStatic info (snd e)) (cm_checkers m)"

section \<open>The cache is not visible\<close>

text \<open>
  What the two checkers should answer, without a cache: an installed application is known by the hash
  of its identifier, or by its bundle name if the configuration trusts that identifier; a system
  service by the configured identifier or its own name; anyone else is unknown.
\<close>

definition app_id_spec :: "checker_env \<Rightarrow> (string \<rightharpoonup> string) \<Rightarrow> (string \<rightharpoonup> string) \<Rightarrow> CheckerStoreInfo \<Rightarrow> string" where
  "app_id_spec E bundleTrusts systemTrusts info =
     (case tk_GetTokenTypeFlag (ce_token E) (csi_tokenId info) of
        TOKEN_HAP \<Rightarrow>
          (let appId = ce_GetAppIdByBundleName E (csi_bundleName info) (user_of_uid (csi_uid info))
           in if appId = [] then []
              else if bundleTrusts (csi_bundleName info) = Some appId then csi_bundleName info
              else ce_Sha256 E appId)
      | TOKEN_NATIVE \<Rightarrow> (case systemTrusts (csi_bundleName info) of Some appId \<Rightarrow> appId | None \<Rightarrow> csi_bundleName info)
      | TOKEN_SHELL \<Rightarrow> (case systemTrusts (csi_bundleName info) of Some appId \<Rightarrow> appId | None \<Rightarrow> csi_bundleName info)
      | TOKEN_INVALID \<Rightarrow> [])"

text \<open>The cached identifiers are those the bundle manager would give.\<close>

definition cache_current :: "('c \<Rightarrow> (string \<rightharpoonup> string)) \<Rightarrow> checker_env \<Rightarrow> 'c BundleChecker \<Rightarrow> bool" where
  "cache_current view E b \<longleftrightarrow>
     (\<forall>name user appId. view (bc_appIds b) (BundleChecker_GetKey name user) = Some appId \<longrightarrow>
        appId = ce_GetAppIdByBundleName E name user)"

lemma hash_split_unique:
  assumes "x @ c # y = x' @ c # y'" "c \<notin> set y" "c \<notin> set y'"
  shows "x = x' \<and> y = y'"
  using assms
proof (induction y arbitrary: y' rule: rev_induct)
  case Nil
  thus ?case by (cases y' rule: rev_cases) auto
next
  case (snoc a y)
  thus ?case by (cases y' rule: rev_cases) auto
qed

lemma BundleChecker_GetKey_inj: "BundleChecker_GetKey n u = BundleChecker_GetKey n' u' \<longleftrightarrow> n = n' \<and> u = u'"
proof -
  have "BundleChecker_GetKey n u = BundleChecker_GetKey n' u' \<Longrightarrow> n @ ''##'' = n' @ ''##'' \<and> to_string u = to_string u'"
    using hash_split_unique [of "n @ ''##''" "CHR ''#''" "to_string u" "n' @ ''##''" "to_string u'"] by (simp add: BundleChecker_GetKey_def)
  thus ?thesis by (auto simp: to_string_inj)
qed

lemma GetBundleAppId_current:
  assumes "lru_ok L view" "cache_current view E b" "GetBundleAppId L E info b = (r, b')"
  shows "r = ce_GetAppIdByBundleName E (csi_bundleName info) (user_of_uid (csi_uid info))" "cache_current view E b'"
    "bc_trusts b' = bc_trusts b" "bc_distrusts b' = bc_distrusts b"
proof -
  let ?n = "csi_bundleName info" and ?u = "user_of_uid (csi_uid info)"
  let ?k = "BundleChecker_GetKey ?n ?u" and ?a = "ce_GetAppIdByBundleName E ?n ?u"
  obtain g c where g: "lru_Get L (bc_appIds b) ?k = (g, c)" by force
  have v: "g = view (bc_appIds b) ?k" "view c = view (bc_appIds b)" using lru_ok_Get_fst [OF assms(1) g] by auto
  have k: "g = Some x \<Longrightarrow> x = ?a" for x using assms(2) v(1) by (auto simp: cache_current_def)
  have set: "view (lru_Set L c ?k ?a) \<subseteq>\<^sub>m (view (bc_appIds b))(?k \<mapsto> ?a)" using lru_ok_Set [OF assms(1), of c] v(2) by simp
  have "cache_current view E (b\<lparr>bc_appIds := lru_Set L c ?k ?a\<rparr>)"
    unfolding cache_current_def
  proof (intro allI impI)
    fix name user appId
    assume "view (bc_appIds (b\<lparr>bc_appIds := lru_Set L c ?k ?a\<rparr>)) (BundleChecker_GetKey name user) = Some appId"
    hence "((view (bc_appIds b))(?k \<mapsto> ?a)) (BundleChecker_GetKey name user) = Some appId" using map_le_SomeD [OF set] by simp
    thus "appId = ce_GetAppIdByBundleName E name user"
      using assms(2) by (auto simp: cache_current_def BundleChecker_GetKey_inj split: if_splits)
  qed
  moreover have "cache_current view E (b\<lparr>bc_appIds := c\<rparr>)" using assms(2) v(2) by (simp add: cache_current_def)
  ultimately show "r = ?a" "cache_current view E b'" "bc_trusts b' = bc_trusts b" "bc_distrusts b' = bc_distrusts b"
    using assms(3) k by (auto simp: GetBundleAppId_def GetAppidFromCache_def g Let_def split: option.splits if_splits)
qed

abbreviation both_checkers :: "'c BundleChecker \<Rightarrow> SystemChecker \<Rightarrow> (string \<times> 'c checker) list" where
  "both_checkers b s \<equiv> [(''BundleChecker'', Bundle_Checker b), (''SystemChecker'', System_Checker s)]"

lemma first_appId_spec:
  assumes "lru_ok L view" "cache_current view E b"
  obtains b' where "first_appId L E info (both_checkers b s) = (app_id_spec E (map_of (bc_trusts b)) (map_of (sc_trusts s)) info, both_checkers b' s)"
    "cache_current view E b'" "bc_trusts b' = bc_trusts b"
proof (cases "tk_GetTokenTypeFlag (ce_token E) (csi_tokenId info) = TOKEN_HAP")
  case True
  obtain r b' where g: "GetBundleAppId L E info b = (r, b')" by force
  note f = GetBundleAppId_current [OF assms g]
  show ?thesis using that [of b'] f True
    by (auto simp: BundleChecker_GetAppId_def g app_id_spec_def SystemChecker_GetAppId_def SystemChecker_IsValid_def Let_def)
next
  case False
  thus ?thesis using that [of b] assms(2)
    by (auto simp: BundleChecker_GetAppId_def app_id_spec_def SystemChecker_GetAppId_def SystemChecker_IsValid_def Let_def
        split: TokenType.splits option.splits)
qed

text \<open>
  Requests over time: someone asks for an identifier, an application is installed again and its cached
  identifier deleted, or the whole cache is cleared.
\<close>

datatype check_event = Ask CheckerStoreInfo | Reinstalled string int int string | Cleared

definition reinstall :: "string \<Rightarrow> int \<Rightarrow> string \<Rightarrow> checker_env \<Rightarrow> checker_env" where
  "reinstall name user appId E =
     E\<lparr>ce_GetAppIdByBundleName := (\<lambda>n u. if n = name \<and> u = user then appId else ce_GetAppIdByBundleName E n u)\<rparr>"

fun check_run :: "(string, string, 'c) lru_ops \<Rightarrow> checker_env \<Rightarrow> ('c, 'g) CheckerManager \<Rightarrow> check_event list \<Rightarrow> string list" where
  "check_run L E m [] = []"
| "check_run L E m (Ask info # es) = (case CheckerManager_GetAppId L E info m of (r, m) \<Rightarrow> r # check_run L E m es)"
| "check_run L E m (Reinstalled name user index appId # es) =
     check_run L (reinstall name user appId E) (CheckerManager_DeleteCache L name user index m) es"
| "check_run L E m (Cleared # es) = check_run L E (CheckerManager_ClearCache L m) es"

fun spec_run :: "checker_env \<Rightarrow> (string \<rightharpoonup> string) \<Rightarrow> (string \<rightharpoonup> string) \<Rightarrow> check_event list \<Rightarrow> string list" where
  "spec_run E bt st [] = []"
| "spec_run E bt st (Ask info # es) = app_id_spec E bt st info # spec_run E bt st es"
| "spec_run E bt st (Reinstalled name user index appId # es) = spec_run (reinstall name user appId E) bt st es"
| "spec_run E bt st (Cleared # es) = spec_run E bt st es"

lemma DeleteCache_current:
  assumes "lru_ok L view" "cache_current view E b"
  shows "cache_current view (reinstall name user appId E) (BundleChecker_DeleteCache L name user index b)"
  using assms(2) by (auto simp: cache_current_def BundleChecker_DeleteCache_def lru_ok_Delete [OF assms(1)]
      BundleChecker_GetKey_inj reinstall_def split: if_splits)

lemma ClearCache_current:
  assumes "lru_ok L view"
  shows "cache_current view E (BundleChecker_ClearCache L b)"
proof -
  have "view (lru_ResetCapacity L (lru_ResetCapacity L (bc_appIds b) 0) 32) \<subseteq>\<^sub>m Map.empty"
    using lru_ok_Reset [OF assms, of "lru_ResetCapacity L (bc_appIds b) 0" 32] by (simp add: lru_ok_Reset0 [OF assms])
  thus ?thesis by (auto simp: cache_current_def BundleChecker_ClearCache_def dest: map_le_SomeD)
qed

lemma check_run_spec:
  assumes "lru_ok L view" and "cm_checkers m = both_checkers b s" and "cache_current view E b"
  shows "check_run L E m es = spec_run E (map_of (bc_trusts b)) (map_of (sc_trusts s)) es"
  using assms(2,3)
proof (induction es arbitrary: E m b)
  case (Cons e es)
  show ?case
  proof (cases e)
    case (Ask info)
    obtain b' where f: "first_appId L E info (both_checkers b s) = (app_id_spec E (map_of (bc_trusts b)) (map_of (sc_trusts s)) info, both_checkers b' s)"
      and c: "cache_current view E b'" and t: "bc_trusts b' = bc_trusts b" using first_appId_spec [OF assms(1) Cons.prems(2)] by blast
    show ?thesis using Cons.IH [of "m\<lparr>cm_checkers := both_checkers b' s\<rparr>" b' E] c t f Cons.prems(1)
      by (simp add: Ask CheckerManager_GetAppId_def)
  next
    case (Reinstalled name user index appId)
    let ?b = "BundleChecker_DeleteCache L name user index b"
    have "bc_trusts ?b = bc_trusts b" by (simp add: BundleChecker_DeleteCache_def)
    thus ?thesis using Cons.IH [of "CheckerManager_DeleteCache L name user index m" ?b "reinstall name user appId E"]
        DeleteCache_current [OF assms(1) Cons.prems(2), of name user appId index] Cons.prems(1)
      by (simp add: Reinstalled CheckerManager_DeleteCache_def)
  next
    case Cleared
    let ?b = "BundleChecker_ClearCache L b"
    have "bc_trusts ?b = bc_trusts b" by (simp add: BundleChecker_ClearCache_def)
    thus ?thesis using Cons.IH [of "CheckerManager_ClearCache L m" ?b E] ClearCache_current [OF assms(1), of E b] Cons.prems(1)
      by (simp add: Cleared CheckerManager_ClearCache_def)
  qed
qed simp

text \<open>
  The list of dynamic stores is that of the first checker that has any, while the test for one store
  asks all of them: a store can be dynamic without being listed.
\<close>

lemma dynamic_store_not_listed:
  "let store = (\<lambda>b. \<lparr>csi_uid = 0, csi_tokenId = 0, csi_bundleName = b, csi_storeId = ''s''\<rparr>);
       m = \<lparr>cm_checkers = both_checkers ((BundleChecker_new c)\<lparr>bc_dynamicStores := [store ''a'']\<rparr>)
              (SystemChecker_new\<lparr>sc_dynamicStores := [store ''b'']\<rparr>), cm_getters = g\<rparr>
   in CheckerManager_IsDynamic (store ''b'') m \<and> store ''b'' \<notin> set (CheckerManager_GetDynamicStores m)"
  by (simp add: CheckerManager_IsDynamic_def ck_IsDynamic_def store_listed_def CheckerManager_GetDynamicStores_def)

end
