(* ===== verification/Directory_Manager.thy ===== *)
theory Directory_Manager
  imports Config_Managers Store_Meta
begin

text \<open>
  Where the databases lie: \<^verbatim>\<open>framework/directory/directory_manager.cpp\<close>.  A strategy is a path pattern
  with place holders, chosen by version; the path of a store replaces each place holder by what the
  store's metadata gives and leaves empty sections out.  The calls \<^verbatim>\<open>access\<close> and \<^verbatim>\<open>mkdir\<close> of the
  operating system are the record \<open>fs_ops\<close>, the token service is \<open>token_kit\<close>, and the numbers of
  the security levels, which the key-value interface defines, are \<open>security_levels\<close>.  A range without
  numbers makes \<^verbatim>\<open>GetStore\<close> read the first element of an empty vector, which is \<open>None\<close>.
  The results: which strategy is used, that directories are created, and that two stores share a path
  only if they share its sections.
\<close>

section \<open>The model\<close>

record security_levels =
  sl_NO_LABEL :: u32
  sl_S0 :: u32
  sl_S1 :: u32

record dir_env =
  de_token :: token_kit
  de_levels :: security_levels

record Strategy =
  str_autoCreate :: bool
  str_version :: u32
  str_pattern :: string
  str_metaPath :: string
  str_clonePath :: string

record DirStoreType =
  dst_range :: "u32 list"
  dst_type :: string

datatype Action = GetSecurity | GetStore | GetType | GetArea | GetUserId | GetBundleName | GetHapName | GetCustomDir

record StrategyImpl =
  sti_autoCreate :: bool
  sti_version :: u32
  sti_metaPath :: string
  sti_clonePath :: string
  sti_path :: "string list"
  sti_pipes :: "Action option list"

record DirectoryManager =
  dir_strategies :: "StrategyImpl list"
  dir_storeTypes :: "DirStoreType list"

definition DirectoryManager_new :: DirectoryManager where
  "DirectoryManager_new = \<lparr>dir_strategies = [], dir_storeTypes = []\<rparr>"

definition actions :: "(string \<times> Action) list" where
  "actions = [
     (''{security}'', GetSecurity), (''{store}'', GetStore),
     (''{type}'', GetType), (''{area}'', GetArea),
     (''{userId}'', GetUserId), (''{bundleName}'', GetBundleName),
     (''{hapName}'', GetHapName), (''{customDir}'', GetCustomDir)]"

text \<open>
  The loop of \<^verbatim>\<open>Split\<close>: a part that starts with the delimiter is skipped, and the rest after the last
  delimiter is a part of its own, even if empty.
\<close>

partial_function (option) dir_Split_loop :: "string \<Rightarrow> string \<Rightarrow> nat \<Rightarrow> string list \<Rightarrow> string list option" where
  "dir_Split_loop source pattern pos values =
     (case str_find source pattern pos of
        None \<Rightarrow> Some (values @ [drop pos source])
      | Some nextPos \<Rightarrow>
          if nextPos = pos then dir_Split_loop source pattern (pos + length pattern) values
          else dir_Split_loop source pattern (nextPos + length pattern) (values @ [substr source pos (nextPos - pos)]))"

definition dir_Split :: "string \<Rightarrow> string \<Rightarrow> string list option" where
  "dir_Split source pattern = dir_Split_loop source pattern 0 []"

text \<open>\<^verbatim>\<open>std::sort\<close> by falling version; strategies of one version may come in any order, here in that of the file.\<close>

definition sort_strategies :: "StrategyImpl list \<Rightarrow> StrategyImpl list" where
  "sort_strategies ss = sort_key (\<lambda>s. - uint (sti_version s)) ss"

definition to_impl :: "Strategy \<Rightarrow> StrategyImpl option" where
  "to_impl strategy =
     (case dir_Split (str_pattern strategy) ''/'' of
        None \<Rightarrow> None
      | Some path \<Rightarrow>
          Some \<lparr>sti_autoCreate = str_autoCreate strategy,
                sti_version = str_version strategy,
                sti_metaPath = str_metaPath strategy,
                sti_clonePath = str_clonePath strategy,
                sti_path = path,
                sti_pipes = map (map_of actions) path\<rparr>)"

definition Directory_Initialize :: "Strategy list \<Rightarrow> DirStoreType list \<Rightarrow> DirectoryManager \<Rightarrow> DirectoryManager option" where
  "Directory_Initialize strategies storeTypes m =
     (case those (map to_impl strategies) of
        None \<Rightarrow> None
      | Some impls \<Rightarrow> Some (m\<lparr>dir_strategies := sort_strategies impls, dir_storeTypes := storeTypes\<rparr>))"

definition dir_GetType :: "token_kit \<Rightarrow> StoreMetaData \<Rightarrow> string" where
  "dir_GetType K metaData =
     (let type = tk_GetTokenTypeFlag K (sm_tokenId metaData)
      in if type = TOKEN_NATIVE \<or> type = TOKEN_SHELL then ''service'' else ''app'')"

fun dir_GetStore :: "DirStoreType list \<Rightarrow> StoreMetaData \<Rightarrow> string option" where
  "dir_GetStore [] metaData = Some ''other''"
| "dir_GetStore (storeType # storeTypes) metaData =
     (case dst_range storeType of
        [] \<Rightarrow> None
      | front # _ \<Rightarrow>
          if sint front \<le> sint (sm_storeType metaData) \<and> sint (sm_storeType metaData) \<le> sint (List.last (dst_range storeType))
          then Some (dst_type storeType)
          else dir_GetStore storeTypes metaData)"

definition dir_GetSecurity :: "security_levels \<Rightarrow> StoreMetaData \<Rightarrow> string" where
  "dir_GetSecurity L metaData =
     (if sm_securityLevel metaData = sl_NO_LABEL L
      then if sm_bundleName metaData \<noteq> sm_appId metaData \<or> sm_appType metaData \<noteq> ''harmony'' then ''misc_ce'' else ''misc_de''
      else if sm_securityLevel metaData = sl_S0 L \<or> sm_securityLevel metaData = sl_S1 L then ''misc_de''
      else ''misc_ce'')"

definition dir_GetArea :: "StoreMetaData \<Rightarrow> string" where
  "dir_GetArea metaData = ''el'' @ to_string (sint (sm_area metaData))"

abbreviation ROOT_USER :: string where "ROOT_USER \<equiv> ''0''"

definition dir_GetUserId :: "token_kit \<Rightarrow> StoreMetaData \<Rightarrow> string" where
  "dir_GetUserId K metaData =
     (let type = tk_GetTokenTypeFlag K (sm_tokenId metaData)
      in if (type = TOKEN_NATIVE \<or> type = TOKEN_SHELL) \<and> sm_user metaData = ROOT_USER then ''public'' else sm_user metaData)"

definition dir_GetBundleName :: "StoreMetaData \<Rightarrow> string" where
  "dir_GetBundleName metaData =
     (if sm_instanceId metaData = 0 then sm_bundleName metaData
      else ''+clone-'' @ to_string (sint (sm_instanceId metaData)) @ ''+'' @ sm_bundleName metaData)"

fun run_action :: "dir_env \<Rightarrow> DirStoreType list \<Rightarrow> Action \<Rightarrow> StoreMetaData \<Rightarrow> string option" where
  "run_action E types GetSecurity metaData = Some (dir_GetSecurity (de_levels E) metaData)"
| "run_action E types GetStore metaData = dir_GetStore types metaData"
| "run_action E types GetType metaData = Some (dir_GetType (de_token E) metaData)"
| "run_action E types GetArea metaData = Some (dir_GetArea metaData)"
| "run_action E types GetUserId metaData = Some (dir_GetUserId (de_token E) metaData)"
| "run_action E types GetBundleName metaData = Some (dir_GetBundleName metaData)"
| "run_action E types GetHapName metaData = Some (sm_hapName metaData)"
| "run_action E types GetCustomDir metaData = Some (sm_customDir metaData)"

text \<open>The first strategy whose version is not above the requested one, or the last; none if there is no strategy.\<close>

fun GetVersionIndex_from :: "nat \<Rightarrow> u32 \<Rightarrow> StrategyImpl list \<Rightarrow> int" where
  "GetVersionIndex_from i version [] = int i - 1"
| "GetVersionIndex_from i version (s # ss) = (if sti_version s \<le> version then int i else GetVersionIndex_from (i + 1) version ss)"

definition GetVersionIndex :: "DirectoryManager \<Rightarrow> u32 \<Rightarrow> int" where
  "GetVersionIndex m version = GetVersionIndex_from 0 version (dir_strategies m)"

section \<open>Creating directories\<close>

record 'f fs_ops =
  fs_access :: "'f \<Rightarrow> string \<Rightarrow> bool"
  fs_mkdir :: "'f \<Rightarrow> string \<Rightarrow> bool \<times> 'f"

function CreateDirectory_loop :: "'f fs_ops \<Rightarrow> string \<Rightarrow> nat \<Rightarrow> 'f \<Rightarrow> bool \<times> 'f" where
  "CreateDirectory_loop F path index f =
     (case str_find path ''/'' (index + 1) of
        None \<Rightarrow>
          if fs_access F f path then (True, f) else fs_mkdir F f path
      | Some index' \<Rightarrow>
          let subPath = substr path 0 index'
          in if fs_access F f subPath then CreateDirectory_loop F path index' f
             else case fs_mkdir F f subPath of (made, f) \<Rightarrow>
                    if made then CreateDirectory_loop F path index' f else (False, f))"
  by pat_completeness auto
termination
  by (relation "measure (\<lambda>(F, path, index, f). length path - index)") (auto simp: str_find_Some occurs_at_iff)

definition CreateDirectory :: "'f fs_ops \<Rightarrow> string \<Rightarrow> 'f \<Rightarrow> bool \<times> 'f" where
  "CreateDirectory F path f =
     (if fs_access F f path then (True, f)
      else case CreateDirectory_loop F path 0 f of (made, f) \<Rightarrow>
             if \<not> made then (False, f) else (fs_access F f path, f))"

section \<open>Paths\<close>

fun join_sections :: "dir_env \<Rightarrow> DirStoreType list \<Rightarrow> StoreMetaData \<Rightarrow> string list \<Rightarrow> Action option list \<Rightarrow> string \<Rightarrow> string option" where
  "join_sections E types metaData (name # names) (pipe # pipes) path =
     (case (case pipe of None \<Rightarrow> Some name | Some action \<Rightarrow> run_action E types action metaData) of
        None \<Rightarrow> None
      | Some section_ \<Rightarrow>
          join_sections E types metaData names pipes (if section_ = [] then path else path @ ''/'' @ section_))"
| "join_sections E types metaData _ _ path = Some path"

definition GenPath ::
  "dir_env \<Rightarrow> 'f fs_ops \<Rightarrow> DirectoryManager \<Rightarrow> StoreMetaData \<Rightarrow> u32 \<Rightarrow> string \<Rightarrow> 'f \<Rightarrow> (string \<times> 'f) option" where
  "GenPath E F m metaData version exPath f =
     (let index = GetVersionIndex m version
      in if index < 0 then Some ([], f)
         else let strategy = dir_strategies m ! nat index
              in case join_sections E (dir_storeTypes m) metaData (sti_path strategy) (sti_pipes strategy) [] of
                   None \<Rightarrow> None
                 | Some path \<Rightarrow>
                     let path = (if exPath \<noteq> [] then path @ ''/'' @ exPath else path)
                     in Some (path, if sti_autoCreate strategy then snd (CreateDirectory F path f) else f))"

definition GetStorePath :: "dir_env \<Rightarrow> 'f fs_ops \<Rightarrow> DirectoryManager \<Rightarrow> StoreMetaData \<Rightarrow> u32 \<Rightarrow> 'f \<Rightarrow> (string \<times> 'f) option" where
  "GetStorePath E F m metaData version f = GenPath E F m metaData version [] f"

definition GetStoreBackupPath :: "dir_env \<Rightarrow> 'f fs_ops \<Rightarrow> DirectoryManager \<Rightarrow> StoreMetaData \<Rightarrow> u32 \<Rightarrow> 'f \<Rightarrow> (string \<times> 'f) option" where
  "GetStoreBackupPath E F m metaData version f =
     (case GenPath E F m metaData version ''backup'' f of
        None \<Rightarrow> None
      | Some (rootBackupPath, f) \<Rightarrow> Some (rootBackupPath @ ''/'' @ sm_storeId metaData, f))"

definition GetMetaStorePath :: "'f fs_ops \<Rightarrow> DirectoryManager \<Rightarrow> u32 \<Rightarrow> 'f \<Rightarrow> string \<times> 'f" where
  "GetMetaStorePath F m version f =
     (let index = GetVersionIndex m version
      in if index < 0 then ([], f)
         else let strategy = dir_strategies m ! nat index
              in (sti_metaPath strategy, if sti_autoCreate strategy then snd (CreateDirectory F (sti_metaPath strategy) f) else f))"

definition GetMetaBackupPath :: "'f fs_ops \<Rightarrow> DirectoryManager \<Rightarrow> u32 \<Rightarrow> 'f \<Rightarrow> string \<times> 'f" where
  "GetMetaBackupPath F m version f =
     (let index = GetVersionIndex m version
      in if index < 0 then ([], f)
         else let strategy = dir_strategies m ! nat index;
                  path = sti_metaPath strategy @ ''/backup''
              in (path, if sti_autoCreate strategy then snd (CreateDirectory F path f) else f))"

definition GetClonePath :: "'f fs_ops \<Rightarrow> DirectoryManager \<Rightarrow> string \<Rightarrow> u32 \<Rightarrow> 'f \<Rightarrow> string \<times> 'f" where
  "GetClonePath F m userId version f =
     (let index = GetVersionIndex m version
      in if index < 0 then ([], f)
         else let path = sti_clonePath (dir_strategies m ! nat index)
              in case str_find path ''{userId}'' 0 of
                   None \<Rightarrow> ([], f)
                 | Some pos \<Rightarrow>
                     let path = str_replace path pos (length ''{userId}'') userId
                     in case CreateDirectory F (case str_rfind path ''/'' of None \<Rightarrow> path | Some i \<Rightarrow> substr path 0 i) f of
                          (made, f) \<Rightarrow> if made then (path, f) else ([], f))"

section \<open>Splitting\<close>

fun pieces :: "string \<Rightarrow> string list" where
  "pieces [] = [[]]"
| "pieces (c # cs) = (if c = CHR ''/'' then [] # pieces cs else (c # hd (pieces cs)) # tl (pieces cs))"

lemma pieces_not_Nil [simp]: "pieces s \<noteq> []"
  by (cases s) auto

lemma pieces_clean: "CHR ''/'' \<notin> set w \<Longrightarrow> pieces w = [w]"
  by (induction w) auto

lemma pieces_step: "CHR ''/'' \<notin> set w \<Longrightarrow> pieces (w @ CHR ''/'' # r) = w # pieces r"
  by (induction w) auto

lemma pieces_no_slash: "p \<in> set (pieces s) \<Longrightarrow> CHR ''/'' \<notin> set p"
proof (induction s arbitrary: p)
  case (Cons c cs)
  have "hd (pieces cs) \<in> set (pieces cs)" by simp
  hence "CHR ''/'' \<notin> set (hd (pieces cs))" by (rule Cons.IH)
  thus ?case using Cons.prems Cons.IH by (auto split: if_splits dest: list.set_sel(2) [OF pieces_not_Nil])
qed simp

lemma occurs_slash: "occurs_at ''/'' s i \<longleftrightarrow> i < length s \<and> s ! i = CHR ''/''"
  by (auto simp: occurs_at_iff take_Suc hd_drop_conv_nth drop_eq_Nil split: if_splits)

lemma slash_found:
  assumes "str_find s ''/'' pos = Some i"
  shows "drop pos s = substr s pos (i - pos) @ CHR ''/'' # drop (i + 1) s" "CHR ''/'' \<notin> set (substr s pos (i - pos))"
    "pos \<le> i" "i < length s"
proof -
  have i: "pos \<le> i" "i < length s" "s ! i = CHR ''/''" and b: "\<And>j. pos \<le> j \<Longrightarrow> j < i \<Longrightarrow> s ! j \<noteq> CHR ''/''"
    using assms by (auto simp: str_find_Some occurs_slash)
  show "pos \<le> i" "i < length s" by fact+
  have "drop i s = CHR ''/'' # drop (i + 1) s" using Cons_nth_drop_Suc [OF i(2)] i(3) by simp
  hence "drop (i - pos) (drop pos s) = CHR ''/'' # drop (i + 1) s" using i(1) by simp
  thus "drop pos s = substr s pos (i - pos) @ CHR ''/'' # drop (i + 1) s"
    by (metis append_take_drop_id substr_def)
  show "CHR ''/'' \<notin> set (substr s pos (i - pos))"
  proof
    assume "CHR ''/'' \<in> set (substr s pos (i - pos))"
    then obtain k where "k < i - pos" "k < length s - pos" "drop pos s ! k = CHR ''/''" by (auto simp: substr_def in_set_conv_nth)
    thus False using b [of "pos + k"] i by simp
  qed
qed

lemma slash_missing: "str_find s ''/'' pos = None \<Longrightarrow> CHR ''/'' \<notin> set (drop pos s)"
  by (auto simp: str_find_None occurs_slash in_set_conv_nth)

definition kept_pieces :: "string \<Rightarrow> string list" where
  "kept_pieces s = [p \<leftarrow> butlast (pieces s). p \<noteq> []] @ [List.last (pieces s)]"

lemma dir_Split_loop_pieces: "pos \<le> length s \<Longrightarrow> dir_Split_loop s ''/'' pos vs = Some (vs @ kept_pieces (drop pos s))"
proof (induction "length s - pos" arbitrary: pos vs rule: less_induct)
  case less
  show ?case
  proof (cases "str_find s ''/'' pos")
    case None
    thus ?thesis using slash_missing [OF None] by (subst dir_Split_loop.simps) (simp add: kept_pieces_def pieces_clean)
  next
    case (Some i)
    note f = slash_found [OF Some]
    have p: "pieces (drop pos s) = substr s pos (i - pos) # pieces (drop (i + 1) s)" by (subst f(1)) (rule pieces_step [OF f(2)])
    have e: "substr s pos (i - pos) = [] \<longleftrightarrow> i = pos" using f(3,4) by (auto simp: substr_def)
    show ?thesis using less.hyps [of "i + 1"] f(3,4) by (subst dir_Split_loop.simps) (auto simp: Some kept_pieces_def p e)
  qed
qed

lemma dir_Split_pieces: "dir_Split s ''/'' = Some (kept_pieces s)"
  by (simp add: dir_Split_def dir_Split_loop_pieces)

section \<open>Sections of a path\<close>

definition path_of :: "string list \<Rightarrow> string" where
  "path_of ss = concat (map (\<lambda>s. CHR ''/'' # s) ss)"

lemma path_of_simps [simp]: "path_of [] = []" "path_of (s # ss) = CHR ''/'' # s @ path_of ss" "path_of (ss @ ts) = path_of ss @ path_of ts"
  by (simp_all add: path_of_def)

definition plain_section :: "string \<Rightarrow> bool" where
  "plain_section s \<longleftrightarrow> s \<noteq> [] \<and> CHR ''/'' \<notin> set s"

definition section_of :: "dir_env \<Rightarrow> DirStoreType list \<Rightarrow> StoreMetaData \<Rightarrow> string \<times> Action option \<Rightarrow> string option" where
  "section_of E types metaData e = (case snd e of None \<Rightarrow> Some (fst e) | Some action \<Rightarrow> run_action E types action metaData)"

definition sections_of :: "dir_env \<Rightarrow> DirStoreType list \<Rightarrow> StoreMetaData \<Rightarrow> StrategyImpl \<Rightarrow> string list option" where
  "sections_of E types metaData s = those (map (section_of E types metaData) (zip (sti_path s) (sti_pipes s)))"

lemma join_sections_those:
  "join_sections E types md names pipes path =
     map_option (\<lambda>ss. path @ path_of [s \<leftarrow> ss. s \<noteq> []]) (those (map (section_of E types md) (zip names pipes)))"
proof (induction names arbitrary: pipes path)
  case (Cons name names)
  show ?case
  proof (cases pipes)
    case (Cons pipe ps)
    thus ?thesis by (auto simp: Cons.IH section_of_def option.map_comp comp_def split: option.splits)
  qed simp
qed simp

lemma section_cut:
  assumes "CHR ''/'' \<notin> set x" "CHR ''/'' \<notin> set y" "r = [] \<or> hd r = CHR ''/''" "q = [] \<or> hd q = CHR ''/''" "x @ r = y @ q"
  shows "x = y \<and> r = q"
proof -
  have t: "takeWhile (\<lambda>c. c \<noteq> CHR ''/'') (z @ p) = z" if "CHR ''/'' \<notin> set z" "p = [] \<or> hd p = CHR ''/''" for z p
    using that by (induction z) (cases p, auto)
  have "x = y" using t [OF assms(1,3)] t [OF assms(2,4)] assms(5) by simp
  thus ?thesis using assms(5) by simp
qed

lemma path_of_append_hd: "r = [] \<or> hd r = CHR ''/'' \<Longrightarrow> path_of ss @ r = [] \<or> hd (path_of ss @ r) = CHR ''/''"
  by (cases ss) auto

lemma path_prefix_unique:
  assumes "path_of as @ r = path_of bs @ q" "length as = length bs" "list_all plain_section as" "list_all plain_section bs"
    "r = [] \<or> hd r = CHR ''/''" "q = [] \<or> hd q = CHR ''/''"
  shows "as = bs"
  using assms(1-4)
proof (induction as arbitrary: bs)
  case (Cons a as)
  obtain b bs' where b: "bs = b # bs'" using Cons.prems(2) by (cases bs) auto
  have "a @ path_of as @ r = b @ path_of bs' @ q" using Cons.prems(1) b by simp
  moreover have "CHR ''/'' \<notin> set a" "CHR ''/'' \<notin> set b" using Cons.prems(3,4) b by (simp_all add: plain_section_def)
  ultimately have "a = b \<and> path_of as @ r = path_of bs' @ q"
    by (intro section_cut path_of_append_hd assms(5,6))
  thus ?case using Cons.IH [of bs'] Cons.prems b by simp
qed simp

text \<open>The path of a store begins with its first sections, as long as these are not empty and hold no slash.\<close>

lemma GenPath_starts:
  assumes "GenPath E F m md version ex f = Some (path, f')" "0 \<le> GetVersionIndex m version"
    "sections_of E (dir_storeTypes m) md (dir_strategies m ! nat (GetVersionIndex m version)) = Some ss"
    "list_all plain_section (take n ss)"
  obtains r where "path = path_of (take n ss) @ r" "r = [] \<or> hd r = CHR ''/''"
proof -
  let ?e = "if ex = [] then [] else CHR ''/'' # ex"
  have "path = path_of [x \<leftarrow> ss. x \<noteq> []] @ ?e"
    using assms(1-3) by (simp add: GenPath_def Let_def join_sections_those sections_of_def not_less split: if_splits)
  moreover have "[x \<leftarrow> ss. x \<noteq> []] = [x \<leftarrow> take n ss. x \<noteq> []] @ [x \<leftarrow> drop n ss. x \<noteq> []]"
    by (simp only: filter_append [symmetric] append_take_drop_id)
  moreover have "[x \<leftarrow> take n ss. x \<noteq> []] = take n ss"
    using assms(4) by (auto simp: filter_id_conv list_all_iff plain_section_def)
  ultimately have "path = path_of (take n ss) @ (path_of [x \<leftarrow> drop n ss. x \<noteq> []] @ ?e)" by simp
  thus thesis by (rule that) (rule path_of_append_hd, simp)
qed

lemma pieces_path_of: "list_all (\<lambda>s. CHR ''/'' \<notin> set s) ss \<Longrightarrow> CHR ''/'' \<notin> set s \<Longrightarrow> pieces (s @ path_of ss) = s # ss"
  by (induction ss arbitrary: s) (simp_all add: pieces_clean pieces_step)

lemma kept_pieces_path_of:
  assumes "list_all plain_section ss" "ss \<noteq> []"
  shows "kept_pieces (path_of ss) = ss"
proof -
  have "list_all (\<lambda>s. CHR ''/'' \<notin> set s) ss" using assms(1) by (simp add: list_all_iff plain_section_def)
  hence p: "pieces (path_of ss) = [] # ss" using pieces_path_of [of ss "[]"] by simp
  have "list_all plain_section (butlast ss)" using assms(1) by (auto simp: list_all_iff dest: in_set_butlastD)
  hence "[x \<leftarrow> butlast ss. x \<noteq> []] = butlast ss" by (auto simp: filter_id_conv list_all_iff plain_section_def)
  thus ?thesis using assms(2) by (simp add: kept_pieces_def p)
qed

text \<open>Two paths of one strategy agree in every section up to the first that may be empty or hold a slash.\<close>

lemma GenPath_same_sections:
  assumes a: "GenPath E F m a version ex f = Some (path, f1)" and b: "GenPath E F m b version ex' g = Some (path, g1)"
    and i: "0 \<le> GetVersionIndex m version" and s: "s = dir_strategies m ! nat (GetVersionIndex m version)"
    and sa: "sections_of E (dir_storeTypes m) a s = Some sa" "list_all plain_section (take n sa)"
    and sb: "sections_of E (dir_storeTypes m) b s = Some sb" "list_all plain_section (take n sb)"
    and n: "n \<le> length sa" "n \<le> length sb"
  shows "take n sa = take n sb"
proof -
  obtain ra where ra: "path = path_of (take n sa) @ ra" "ra = [] \<or> hd ra = CHR ''/''"
    by (rule GenPath_starts [OF a i sa(1) [unfolded s] sa(2)])
  obtain rb where rb: "path = path_of (take n sb) @ rb" "rb = [] \<or> hd rb = CHR ''/''"
    by (rule GenPath_starts [OF b i sb(1) [unfolded s] sb(2)])
  have "path_of (take n sa) @ ra = path_of (take n sb) @ rb" "length (take n sa) = length (take n sb)" using ra(1) rb(1) n by simp_all
  thus ?thesis by (rule path_prefix_unique) (fact sa(2) sb(2) ra(2) rb(2))+
qed

section \<open>Which strategy is used\<close>

lemma GetVersionIndex_from_cases:
  assumes "ss \<noteq> []"
  obtains k where "GetVersionIndex_from i version ss = int i + int k" "k < length ss"
    "\<And>j. j < k \<Longrightarrow> version < sti_version (ss ! j)" "sti_version (ss ! k) \<le> version \<or> k = length ss - 1"
  using assms
proof (induction ss arbitrary: i thesis)
  case (Cons s ss)
  show ?case
  proof (cases "sti_version s \<le> version \<or> ss = []")
    case True
    thus ?thesis using Cons.prems(1) [of 0] by auto
  next
    case False
    obtain k where k: "GetVersionIndex_from (i + 1) version ss = int (i + 1) + int k" "k < length ss"
      "\<And>j. j < k \<Longrightarrow> version < sti_version (ss ! j)" "sti_version (ss ! k) \<le> version \<or> k = length ss - 1"
      using Cons.IH [of "i + 1"] False by blast
    show ?thesis
    proof (rule Cons.prems(1) [of "Suc k"])
      show "version < sti_version ((s # ss) ! j)" if "j < Suc k" for j using that k(3) False by (cases j) auto
    qed (use k False in auto)
  qed
qed simp

lemma to_impl_pieces: "to_impl t = Some \<lparr>sti_autoCreate = str_autoCreate t, sti_version = str_version t, sti_metaPath = str_metaPath t,
    sti_clonePath = str_clonePath t, sti_path = kept_pieces (str_pattern t), sti_pipes = map (map_of actions) (kept_pieces (str_pattern t))\<rparr>"
  by (simp add: to_impl_def dir_Split_pieces)

definition impl_of :: "Strategy \<Rightarrow> StrategyImpl" where
  "impl_of t = the (to_impl t)"

lemma Directory_Initialize_total:
  "Directory_Initialize strategies types m = Some (m\<lparr>dir_strategies := sort_strategies (map impl_of strategies), dir_storeTypes := types\<rparr>)"
proof -
  have "to_impl t = Some (impl_of t)" for t by (simp add: impl_of_def to_impl_pieces)
  hence "those (map to_impl strategies) = Some (map impl_of strategies)" by (induction strategies) auto
  thus ?thesis by (simp add: Directory_Initialize_def)
qed

lemma sort_strategies_sorted: "i \<le> j \<Longrightarrow> j < length ss \<Longrightarrow> sti_version (sort_strategies ss ! j) \<le> sti_version (sort_strategies ss ! i)"
  using sorted_nth_mono [of "map (\<lambda>s. - uint (sti_version s)) (sort_strategies ss)" i j]
  by (simp add: sort_strategies_def word_le_def)

text \<open>
  C37: The strategy used for a version is, of those configured, the one with the greatest version
  that is not above it; if all are above, the one with the lowest.  Configuring the strategies always
  succeeds.
\<close>

theorem strategy_choice:
  assumes "strategies \<noteq> []"
  shows "\<exists>m t. Directory_Initialize strategies types m0 = Some m \<and> t \<in> set strategies \<and>
     0 \<le> GetVersionIndex m version \<and> GetVersionIndex m version < int (length strategies) \<and>
     dir_strategies m ! nat (GetVersionIndex m version) = impl_of t \<and>
     (if \<exists>u\<in>set strategies. str_version u \<le> version
      then str_version t \<le> version \<and> (\<forall>u\<in>set strategies. str_version u \<le> version \<longrightarrow> str_version u \<le> str_version t)
      else \<forall>u\<in>set strategies. str_version t \<le> str_version u)"
proof -
  let ?ss = "sort_strategies (map impl_of strategies)"
  define m where "m = m0\<lparr>dir_strategies := ?ss, dir_storeTypes := types\<rparr>"
  have set: "set ?ss = impl_of ` set strategies" and len: "length ?ss = length strategies" by (simp_all add: sort_strategies_def)
  have v: "sti_version (impl_of t) = str_version t" for t by (simp add: impl_of_def to_impl_pieces)
  have "?ss \<noteq> []" using assms len by auto
  then obtain k where k: "GetVersionIndex_from 0 version ?ss = int 0 + int k" "k < length ?ss"
    "\<And>j. j < k \<Longrightarrow> version < sti_version (?ss ! j)" "sti_version (?ss ! k) \<le> version \<or> k = length ?ss - 1"
    by (rule GetVersionIndex_from_cases) blast
  obtain t where t: "t \<in> set strategies" "?ss ! k = impl_of t" using nth_mem [OF k(2)] set by auto
  have other: "\<exists>j<length strategies. ?ss ! j = impl_of u" if "u \<in> set strategies" for u
    using that set len by (metis (no_types, lifting) image_eqI in_set_conv_nth)
  have up: "str_version u \<le> str_version t" if u: "u \<in> set strategies" "str_version u \<le> version" for u
  proof -
    obtain j where j: "j < length strategies" "?ss ! j = impl_of u" using other [OF u(1)] by blast
    have "k \<le> j" using k(3) [of j] j(2) u(2) v by (metis not_le)
    thus ?thesis using sort_strategies_sorted [of k j "map impl_of strategies"] j t(2) v by simp
  qed
  have low: "str_version t \<le> str_version u" if l: "k = length ?ss - 1" "u \<in> set strategies" for u
  proof -
    obtain j where j: "j < length strategies" "?ss ! j = impl_of u" using other [OF l(2)] by blast
    thus ?thesis using sort_strategies_sorted [of j k "map impl_of strategies"] l(1) k(2) len t(2) v by simp
  qed
  have "if \<exists>u\<in>set strategies. str_version u \<le> version
      then str_version t \<le> version \<and> (\<forall>u\<in>set strategies. str_version u \<le> version \<longrightarrow> str_version u \<le> str_version t)
      else \<forall>u\<in>set strategies. str_version t \<le> str_version u"
    using k(4) t v up low by (auto intro: order_trans)
  thus ?thesis using k(1,2) t len
    by (intro exI [of _ m] exI [of _ t]) (simp add: m_def Directory_Initialize_total GetVersionIndex_def)
qed

theorem strategy_choice_witness:
  "let s = (\<lambda>v. \<lparr>str_autoCreate = False, str_version = v, str_pattern = ''/data'', str_metaPath = [], str_clonePath = []\<rparr>);
       m = the (Directory_Initialize [s 0, s 5, s 9] [] DirectoryManager_new)
   in 0 \<le> GetVersionIndex m 7 \<and> GetVersionIndex m 7 < 3"
  using strategy_choice [of "map (\<lambda>v. \<lparr>str_autoCreate = False, str_version = v, str_pattern = ''/data'', str_metaPath = [], str_clonePath = []\<rparr>) [0, 5, 9]"
      "[]" DirectoryManager_new 7]
  by (auto simp: Let_def)

section \<open>Directories are created\<close>

definition parent_dir :: "string \<Rightarrow> string" where
  "parent_dir p = (case str_rfind p ''/'' of None \<Rightarrow> ''.'' | Some i \<Rightarrow> if i = 0 then ''/'' else take i p)"

text \<open>What the operating system promises: a directory that is not there is made if its parent is there.\<close>

definition fs_ok :: "'f fs_ops \<Rightarrow> ('f \<Rightarrow> string set) \<Rightarrow> bool" where
  "fs_ok F view \<longleftrightarrow>
     (\<forall>f p. fs_access F f p \<longleftrightarrow> p \<in> view f) \<and>
     (\<forall>f p. p \<notin> view f \<longrightarrow> parent_dir p \<in> view f \<longrightarrow> (\<exists>f'. fs_mkdir F f p = (True, f') \<and> view f' = insert p (view f)))"

lemma slash_after_section:
  assumes "plain_section s" "r = [] \<or> hd r = CHR ''/''"
  shows "str_find (p @ CHR ''/'' # s @ r) ''/'' (length p + 1) = (if r = [] then None else Some (length p + 1 + length s))"
proof -
  have c: "CHR ''/'' \<notin> set s" using assms(1) by (simp add: plain_section_def)
  have "find0 ''/'' (s @ r) = (if r = [] then None else Some (length s))" using c
  proof (induction s)
    case Nil
    thus ?case using assms(2) by (cases r) auto
  next
    case (Cons a s)
    thus ?case by auto
  qed
  thus ?thesis by (simp add: str_find_def)
qed

lemma parent_of_section: "CHR ''/'' \<notin> set s \<Longrightarrow> parent_dir (p @ CHR ''/'' # s) = (if p = [] then ''/'' else p)"
proof -
  assume s: "CHR ''/'' \<notin> set s"
  have "rfind0 ''/'' s = None" using s by (induction s) auto
  hence "rfind0 ''/'' (CHR ''/'' # s) = Some 0" by simp
  hence "rfind0 ''/'' (p @ CHR ''/'' # s) = Some (length p)" by (induction p) auto
  thus ?thesis by (simp add: parent_dir_def str_rfind_def)
qed

lemma CreateDirectory_loop_makes:
  assumes "fs_ok F view" "list_all plain_section bs" "bs \<noteq> []" "(if as = [] then ''/'' else path_of as) \<in> view f"
  shows "\<exists>f'. CreateDirectory_loop F (path_of (as @ bs)) (length (path_of as)) f = (True, f') \<and>
     view f' = view f \<union> {path_of (as @ take n bs) | n. 0 < n \<and> n \<le> length bs}"
  using assms(2-4)
proof (induction bs arbitrary: as f)
  case (Cons b bs)
  let ?p = "path_of (as @ [b])" and ?path = "path_of (as @ b # bs)"
  have b: "plain_section b" and c: "CHR ''/'' \<notin> set b" using Cons.prems(1) by (simp_all add: plain_section_def)
  obtain f1 where f1: "(if fs_access F f ?p then (True, f) else fs_mkdir F f ?p) = (True, f1)" "view f1 = insert ?p (view f)"
  proof (cases "?p \<in> view f")
    case True
    thus thesis using that [of f] assms(1) by (auto simp: fs_ok_def)
  next
    case False
    have "parent_dir ?p \<in> view f" using parent_of_section [OF c, of "path_of as"] Cons.prems(3) by (cases as) auto
    hence "\<exists>f'. fs_mkdir F f ?p = (True, f') \<and> view f' = insert ?p (view f)" using False assms(1) unfolding fs_ok_def by blast
    moreover have "\<not> fs_access F f ?p" using False assms(1) by (simp add: fs_ok_def)
    ultimately show thesis using that by auto
  qed
  have find: "str_find ?path ''/'' (length (path_of as) + 1) = (if bs = [] then None else Some (length ?p))"
    using slash_after_section [OF b, of "path_of bs" "path_of as"] by (cases bs) auto
  have steps: "{path_of (as @ take n (b # bs)) | n. 0 < n \<and> n \<le> length (b # bs)} =
      insert ?p {path_of ((as @ [b]) @ take n bs) | n. 0 < n \<and> n \<le> length bs}" (is "?l = ?r")
  proof (intro equalityI subsetI)
    fix x assume "x \<in> ?l"
    then obtain n where "x = path_of (as @ take n (b # bs))" "0 < n" "n \<le> length (b # bs)" by auto
    thus "x \<in> ?r" by (cases "n = 1"; cases n) (auto intro!: exI [of _ "n - 1"])
  next
    fix x assume "x \<in> ?r"
    thus "x \<in> ?l" by (auto intro: exI [of _ "1"] exI [of _ "Suc _"])
  qed
  show ?case
  proof (cases "bs = []")
    case True
    thus ?thesis using f1 find steps by (subst CreateDirectory_loop.simps) auto
  next
    case False
    have sub: "substr ?path 0 (length ?p) = ?p" by (simp add: substr_def)
    obtain f2 where "CreateDirectory_loop F (path_of ((as @ [b]) @ bs)) (length ?p) f1 = (True, f2)"
      "view f2 = view f1 \<union> {path_of ((as @ [b]) @ take n bs) | n. 0 < n \<and> n \<le> length bs}"
      using Cons.IH [of "as @ [b]" f1] Cons.prems(1) False f1(2) by auto
    thus ?thesis using f1 find sub steps False
      by (subst CreateDirectory_loop.simps) (auto split: if_splits)
  qed
qed simp

text \<open>
  Creating a directory succeeds whenever the operating system makes a directory whose parent is
  there: afterwards the path and all directories above it are there, nothing else was made, and
  nothing was made at all if the path was there before.
\<close>

theorem CreateDirectory_makes:
  assumes "fs_ok F view" and "''/'' \<in> view f" and "ss \<noteq> []" and "list_all plain_section ss"
  shows "\<exists>f'. CreateDirectory F (path_of ss) f = (True, f') \<and>
     view f' = (if path_of ss \<in> view f then view f else view f \<union> {path_of (take n ss) | n. 0 < n \<and> n \<le> length ss})"
proof (cases "path_of ss \<in> view f")
  case True
  thus ?thesis using assms(1) by (simp add: CreateDirectory_def fs_ok_def)
next
  case False
  obtain f' where f': "CreateDirectory_loop F (path_of ss) 0 f = (True, f')"
    "view f' = view f \<union> {path_of (take n ss) | n. 0 < n \<and> n \<le> length ss}"
    using CreateDirectory_loop_makes [OF assms(1,4,3), of "[]" f] assms(2) by auto
  have "path_of ss \<in> view f'" using f'(2) assms(3) by (auto intro!: exI [of _ "length ss"])
  thus ?thesis using False f' assms(1) by (auto simp: CreateDirectory_def fs_ok_def)
qed

definition list_fs :: "string list fs_ops" where
  "list_fs = \<lparr>fs_access = (\<lambda>f p. p \<in> set f),
     fs_mkdir = (\<lambda>f p. if p \<notin> set f \<and> parent_dir p \<in> set f then (True, p # f) else (False, f))\<rparr>"

lemma list_fs_ok: "fs_ok list_fs set"
  by (simp add: fs_ok_def list_fs_def)

theorem CreateDirectory_makes_witness:
  "\<exists>f'. CreateDirectory list_fs ''/data/el1/db'' [''/'', ''/data''] = (True, f') \<and>
     set f' = {''/'', ''/data''} \<union> {path_of (take n [''data'', ''el1'', ''db'']) | n. 0 < n \<and> n \<le> 3}"
  using CreateDirectory_makes [OF list_fs_ok, of "[''/'', ''/data'']" "[''data'', ''el1'', ''db'']"]
  by (simp add: plain_section_def numeral_3_eq_3)

end
