(* ===== verification/Backup_Manager.thy ===== *)
theory Backup_Manager
  imports Store_Meta Concurrent_Map
begin

text \<open>
  Automatic backups: \<^verbatim>\<open>service/backup/src/backup_manager.cpp\<close> with the rules of
  \<^verbatim>\<open>framework/backuprule/backup_rule_manager.cpp\<close>.  The service may be stopped at any moment, and puts
  the files in order when it starts again.  An operation is therefore the list of the single effects
  it has on the disk, and a stop in the middle is a beginning of that list.  Reading and writing
  files, the exporters of the databases and the path of a store are parameters; the metadata manager
  is the map from keys to records that its own theory shows it to be.  The results: the backup of a
  store without encryption survives any number of stops; that of an encrypted store does not; and
  every store gets its turn.
\<close>

section \<open>The disk\<close>

record SecretKeyMetaData =
  sk_time :: "u8 list"
  sk_sKey :: "u8 list"
  sk_nonce :: "u8 list"
  sk_storeType :: u32
  sk_area :: u32

definition SecretKeyMetaData_new :: SecretKeyMetaData where
  "SecretKeyMetaData_new = \<lparr>sk_time = [], sk_sKey = [], sk_nonce = [], sk_storeType = 0, sk_area = - 1\<rparr>"

record disk =
  dk_files :: "string \<rightharpoonup> string"
  dk_keys :: "string \<rightharpoonup> SecretKeyMetaData"

datatype effect = Truncate string | Append string string | Become string string | Unlink string | Put_Key string SecretKeyMetaData

definition set_file :: "string \<Rightarrow> string option \<Rightarrow> disk \<Rightarrow> disk" where
  "set_file p c d = d\<lparr>dk_files := (dk_files d)(p := c)\<rparr>"

fun apply_effect :: "effect \<Rightarrow> disk \<Rightarrow> disk" where
  "apply_effect (Truncate p) d = set_file p (Some []) d"
| "apply_effect (Append p s) d = set_file p (Some ((case dk_files d p of None \<Rightarrow> [] | Some c \<Rightarrow> c) @ s)) d"
| "apply_effect (Become p s) d = set_file p (Some s) d"
| "apply_effect (Unlink p) d = set_file p None d"
| "apply_effect (Put_Key k v) d = d\<lparr>dk_keys := (dk_keys d)(k \<mapsto> v)\<rparr>"

definition run_effects :: "effect list \<Rightarrow> disk \<Rightarrow> disk" where
  "run_effects es d = fold apply_effect es d"

text \<open>One operation after another.\<close>

definition and_then :: "(disk \<Rightarrow> effect list) \<Rightarrow> (disk \<Rightarrow> effect list) \<Rightarrow> disk \<Rightarrow> effect list" where
  "and_then p q d = p d @ q (run_effects (p d) d)"

record file_io =
  io_opens_in :: "string \<Rightarrow> bool"
  io_opens_out :: "string \<Rightarrow> bool"
  io_removes :: "string \<Rightarrow> bool"

section \<open>Files\<close>

abbreviation COPY_SIZE :: nat where "COPY_SIZE \<equiv> 1024"

definition AUTO_BACKUP_NAME :: string where "AUTO_BACKUP_NAME = ''autoBackup.bak''"
definition BACKUP_BK_POSTFIX :: string where "BACKUP_BK_POSTFIX = ''.bk''"
definition BACKUP_TMP_POSTFIX :: string where "BACKUP_TMP_POSTFIX = ''.tmp''"

definition IsFileExist :: "string \<Rightarrow> disk \<Rightarrow> bool" where
  "IsFileExist path d \<longleftrightarrow> (if path = [] then False else dk_files d path \<noteq> None)"

text \<open>The blocks the copying loop reads; the stream is good until a read returns less than was asked for.\<close>

function blocks :: "string \<Rightarrow> string list" where
  "blocks content = take COPY_SIZE content # (if COPY_SIZE \<le> length content then blocks (drop COPY_SIZE content) else [])"
  by pat_completeness auto
termination
  by (relation "measure length") auto

declare blocks.simps [simp del]

text \<open>Both ways of opening the target make it empty: an output stream without \<^verbatim>\<open>in\<close> or \<^verbatim>\<open>app\<close> truncates.\<close>

definition CopyFile :: "file_io \<Rightarrow> string \<Rightarrow> string \<Rightarrow> bool \<Rightarrow> disk \<Rightarrow> effect list" where
  "CopyFile io oldPath newPath isCreate d =
     (if \<not> IsFileExist oldPath d then []
      else if \<not> io_opens_in io oldPath then []
      else if \<not> io_opens_out io newPath then []
      else Truncate newPath # map (Append newPath) (blocks (the (dk_files d oldPath))))"

definition RemoveFile :: "file_io \<Rightarrow> string \<Rightarrow> disk \<Rightarrow> effect list" where
  "RemoveFile io path d =
     (if dk_files d path = None then [] else if io_removes io path then [Unlink path] else [])"

definition KeepData :: "file_io \<Rightarrow> string \<Rightarrow> disk \<Rightarrow> effect list" where
  "KeepData io path = CopyFile io path (path @ BACKUP_BK_POSTFIX) True"

definition SaveData :: "file_io \<Rightarrow> string \<Rightarrow> string \<Rightarrow> SecretKeyMetaData \<Rightarrow> disk \<Rightarrow> effect list" where
  "SaveData io path key secretKey =
     (let tmpPath = path @ BACKUP_TMP_POSTFIX; backupPath = path @ BACKUP_BK_POSTFIX
      in and_then (CopyFile io tmpPath path False)
        (and_then (RemoveFile io tmpPath)
        (and_then (\<lambda>d. if length (sk_sKey secretKey) \<noteq> 0 then [Put_Key key secretKey] else [])
           (RemoveFile io backupPath))))"

definition RollBackData :: "file_io \<Rightarrow> string \<Rightarrow> disk \<Rightarrow> effect list" where
  "RollBackData io path =
     (let tmpPath = path @ BACKUP_TMP_POSTFIX; backupPath = path @ BACKUP_BK_POSTFIX
      in and_then (CopyFile io backupPath path False) (and_then (RemoveFile io tmpPath) (RemoveFile io backupPath)))"

definition CleanData :: "file_io \<Rightarrow> string \<Rightarrow> disk \<Rightarrow> effect list" where
  "CleanData io path =
     (let backupPath = path @ BACKUP_BK_POSTFIX; tmpPath = path @ BACKUP_TMP_POSTFIX
      in and_then (RemoveFile io tmpPath) (RemoveFile io backupPath))"

section \<open>Putting the files in order\<close>

text \<open>The files of one store: those around the backup's full path.\<close>

definition backup_file :: "(StoreMetaData \<Rightarrow> string) \<Rightarrow> StoreMetaData \<Rightarrow> string" where
  "backup_file GetStoreBackupPath meta = GetStoreBackupPath meta @ ''/'' @ AUTO_BACKUP_NAME"

datatype ClearType = DO_NOTHING | ROLLBACK | CLEAN_DATA

definition GetClearType :: "(StoreMetaData \<Rightarrow> string) \<Rightarrow> StoreMetaData \<Rightarrow> disk \<Rightarrow> ClearType" where
  "GetClearType GetStoreBackupPath meta d =
     (let backupFile = backup_file GetStoreBackupPath meta;
          bkFile = backupFile @ BACKUP_BK_POSTFIX
      in case dk_keys d (GetSecretKey meta) of
           Some dbPassword \<Rightarrow>
             let backupPassword = (case dk_keys d (GetBackupSecretKey meta) of Some k \<Rightarrow> k | None \<Rightarrow> SecretKeyMetaData_new)
             in if sk_sKey dbPassword \<noteq> sk_sKey backupPassword \<and> IsFileExist bkFile d then ROLLBACK
                else if sk_sKey dbPassword = sk_sKey backupPassword \<and> IsFileExist bkFile d then CLEAN_DATA
                else DO_NOTHING
         | None \<Rightarrow>
             let tmpFile = backupFile @ BACKUP_TMP_POSTFIX
             in if IsFileExist tmpFile d then ROLLBACK
                else if \<not> IsFileExist tmpFile d \<and> IsFileExist bkFile d then CLEAN_DATA
                else DO_NOTHING)"

definition Init_store :: "file_io \<Rightarrow> (StoreMetaData \<Rightarrow> string) \<Rightarrow> StoreMetaData \<Rightarrow> disk \<Rightarrow> effect list" where
  "Init_store io GetStoreBackupPath meta d =
     (if \<not> sm_isBackup meta \<or> sm_isDirty meta then []
      else let backupPath = backup_file GetStoreBackupPath meta
           in case GetClearType GetStoreBackupPath meta d of
                ROLLBACK \<Rightarrow> RollBackData io backupPath d
              | CLEAN_DATA \<Rightarrow> CleanData io backupPath d
              | DO_NOTHING \<Rightarrow> [])"

fun Backup_Init :: "file_io \<Rightarrow> (StoreMetaData \<Rightarrow> string) \<Rightarrow> StoreMetaData list \<Rightarrow> disk \<Rightarrow> effect list" where
  "Backup_Init io GetStoreBackupPath [] d = []"
| "Backup_Init io GetStoreBackupPath (meta # metas) d =
     and_then (Init_store io GetStoreBackupPath meta) (Backup_Init io GetStoreBackupPath metas) d"

section \<open>Making a backup\<close>

abbreviation MAX_STORE_TYPE :: int where "MAX_STORE_TYPE \<equiv> 20"

text \<open>An exporter returns the contents its file has one after the other, none if it does not touch it, and whether it succeeded.\<close>

type_synonym Exporter = "StoreMetaData \<Rightarrow> string \<Rightarrow> string list \<times> bool"

record BackupManager =
  bm_exporters :: "Exporter option list"
  bm_schedularDelay :: int
  bm_schedularInternal :: int
  bm_backupInternal :: int
  bm_backupSuccessTime :: int
  bm_backupNumber :: int
  bm_startNum :: int
  bm_executors :: bool
  bm_timers :: "(int \<times> int) list"

record BackupParam =
  bp_schedularDelay :: int
  bp_schedularInternal :: int
  bp_backupInternal :: int
  bp_backupNumber :: int

definition SetBackupParam :: "BackupParam \<Rightarrow> BackupManager \<Rightarrow> BackupManager" where
  "SetBackupParam backupParam b =
     b\<lparr>bm_schedularDelay := bp_schedularDelay backupParam,
       bm_schedularInternal := bp_schedularInternal backupParam,
       bm_backupInternal := bp_backupInternal backupParam,
       bm_backupNumber := bp_backupNumber backupParam\<rparr>"

text \<open>The array of exporters is not checked for its bounds: \<open>None\<close> is an access outside of it.\<close>

definition exporter_at :: "BackupManager \<Rightarrow> int \<Rightarrow> Exporter option option" where
  "exporter_at b type = (if 0 \<le> type \<and> type < MAX_STORE_TYPE then Some (bm_exporters b ! nat type) else None)"

definition RegisterExporter :: "int \<Rightarrow> Exporter \<Rightarrow> BackupManager \<Rightarrow> BackupManager option" where
  "RegisterExporter type exporter b =
     (case exporter_at b type of
        None \<Rightarrow> None
      | Some None \<Rightarrow> Some (b\<lparr>bm_exporters := (bm_exporters b)[nat type := Some exporter]\<rparr>)
      | Some (Some _) \<Rightarrow> Some b)"

definition export_effects :: "string \<Rightarrow> string list \<Rightarrow> effect list" where
  "export_effects tmpPath ws = map (Become tmpPath) ws"

definition DoBackup ::
  "file_io \<Rightarrow> (StoreMetaData \<Rightarrow> string) \<Rightarrow> BackupManager \<Rightarrow> StoreMetaData \<Rightarrow> disk \<Rightarrow> effect list option" where
  "DoBackup io GetStoreBackupPath b meta d =
     (case exporter_at b (sint (sm_storeType meta)) of
        None \<Rightarrow> None
      | Some None \<Rightarrow> Some []
      | Some (Some exporter) \<Rightarrow>
          let backupFullPath = backup_file GetStoreBackupPath meta;
              tmpPath = backupFullPath @ BACKUP_TMP_POSTFIX
          in case exporter meta tmpPath of (ws, result) \<Rightarrow>
               Some (and_then (KeepData io backupFullPath)
                 (and_then (\<lambda>_. export_effects tmpPath ws)
                   (\<lambda>d. if \<not> result then CleanData io backupFullPath d
                        else let loaded = dk_keys d (GetSecretKey meta);
                                 secretKey = (case loaded of Some k \<Rightarrow> k | None \<Rightarrow> SecretKeyMetaData_new)
                             in if sm_isEncrypt meta \<and> loaded = None then []
                                else SaveData io backupFullPath (GetBackupSecretKey meta) secretKey d)) d))"

section \<open>Rules and turns\<close>

record 'g BackupRuleManager =
  br_backupRules :: "(unit \<Rightarrow> bool) list"
  br_getters :: 'g

fun LoadBackupRules ::
  "(string, (unit \<Rightarrow> bool) option, 'g) cmap_ops \<Rightarrow> string list \<Rightarrow> 'g BackupRuleManager \<Rightarrow> 'g BackupRuleManager" where
  "LoadBackupRules M [] r = r"
| "LoadBackupRules M (backupRule # rules) r =
     (case cm_Find M (br_getters r) backupRule of
        Some (Some backupRuler) \<Rightarrow> LoadBackupRules M rules (r\<lparr>br_backupRules := br_backupRules r @ [backupRuler]\<rparr>)
      | _ \<Rightarrow> LoadBackupRules M rules r)"

definition BackupRule_RegisterPlugin ::
  "(string, (unit \<Rightarrow> bool) option, 'g) cmap_ops \<Rightarrow> string \<Rightarrow> (unit \<Rightarrow> bool) option \<Rightarrow> 'g BackupRuleManager \<Rightarrow> 'g BackupRuleManager" where
  "BackupRule_RegisterPlugin M backupRule getter r = r\<lparr>br_getters := snd (cm_ComputeIfAbsent M (br_getters r) backupRule getter)\<rparr>"

definition rules_CanBackup :: "'g BackupRuleManager \<Rightarrow> bool" where
  "rules_CanBackup r \<longleftrightarrow> list_all (\<lambda>rule. rule ()) (br_backupRules r)"

abbreviation MICROSEC_TO_SEC :: int where "MICROSEC_TO_SEC \<equiv> 1000"

definition CanBackup :: "'g BackupRuleManager \<Rightarrow> int \<Rightarrow> BackupManager \<Rightarrow> bool" where
  "CanBackup r currentTime b \<longleftrightarrow>
     (if \<not> rules_CanBackup r then False
      else if currentTime - bm_backupSuccessTime b < bm_backupInternal b * MICROSEC_TO_SEC \<and> bm_backupSuccessTime b > 0 then False
      else True)"

text \<open>One turn of the timer: the stores it backs up, and the manager afterwards.\<close>

definition backup_turn :: "StoreMetaData list \<Rightarrow> BackupManager \<Rightarrow> StoreMetaData list \<times> int" where
  "backup_turn metas b =
     (let last = min (bm_startNum b + bm_backupNumber b) (int (length metas));
          startNum = max (bm_startNum b) last
      in ([meta \<leftarrow> take (nat (last - bm_startNum b)) (drop (nat (bm_startNum b)) metas). sm_isBackup meta \<and> \<not> sm_isDirty meta],
          if startNum \<ge> int (length metas) then 0 else startNum))"

definition BackSchedule_task ::
  "'g BackupRuleManager \<Rightarrow> int \<Rightarrow> int \<Rightarrow> StoreMetaData list \<Rightarrow> BackupManager \<Rightarrow> StoreMetaData list \<times> BackupManager" where
  "BackSchedule_task r started finished metas b =
     (if \<not> CanBackup r started b then ([], b)
      else case backup_turn metas b of (stores, startNum) \<Rightarrow>
             (stores, b\<lparr>bm_startNum := startNum, bm_backupSuccessTime := finished\<rparr>))"

text \<open>
  Handing the task to the thread pool: of the pool the manager keeps that it has one, and a task is its
  delay and its interval, both numbers of seconds narrowed to 32 bits.
\<close>

definition BackSchedule :: "bool \<Rightarrow> BackupManager \<Rightarrow> BackupManager" where
  "BackSchedule executors b =
     (if \<not> executors \<and> \<not> bm_executors b then b
      else b\<lparr>bm_executors := True,
             bm_timers := bm_timers b @
               [(sint (word_of_int (bm_schedularDelay b) :: u32), sint (word_of_int (bm_schedularInternal b) :: u32))]\<rparr>)"

section \<open>Stops\<close>

text \<open>A property that holds wherever an operation is stopped, and operations one after the other.\<close>

definition always :: "(disk \<Rightarrow> bool) \<Rightarrow> effect list \<Rightarrow> disk \<Rightarrow> bool" where
  "always I es d \<longleftrightarrow> (\<forall>n. I (run_effects (take n es) d))"

lemma run_effects_simps [simp]: "run_effects [] d = d" "run_effects (e # es) d = run_effects es (apply_effect e d)"
  "run_effects (es @ fs) d = run_effects fs (run_effects es d)"
  by (simp_all add: run_effects_def)

lemma always_Nil [simp]: "always I [] d \<longleftrightarrow> I d"
  by (simp add: always_def)

lemma set_file_simps [simp]:
  "dk_files (set_file p c d) = (dk_files d)(p := c)"
  "dk_keys (set_file p c d) = dk_keys d"
  "set_file p c (set_file p c' d) = set_file p c d"
  by (simp_all add: set_file_def)

lemma set_file_same: "dk_files d p = c \<Longrightarrow> set_file p c d = d"
  by (rule disk.equality) auto

lemma always_Cons: "always I (e # es) d \<longleftrightarrow> I d \<and> always I es (apply_effect e d)"
proof
  assume a: "always I (e # es) d"
  have "I (run_effects (take n es) (apply_effect e d))" for n using a [unfolded always_def, rule_format, of "Suc n"] by simp
  moreover have "I d" using a [unfolded always_def, rule_format, of 0] by simp
  ultimately show "I d \<and> always I es (apply_effect e d)" by (simp add: always_def)
next
  assume a: "I d \<and> always I es (apply_effect e d)"
  have "I (run_effects (take n (e # es)) d)" for n using a by (cases n) (simp_all add: always_def)
  thus "always I (e # es) d" by (simp add: always_def)
qed

lemma always_append: "always I es d \<Longrightarrow> always I fs (run_effects es d) \<Longrightarrow> always I (es @ fs) d"
  by (induction es arbitrary: d) (simp_all add: always_Cons)

lemma always_run: "always I es d \<Longrightarrow> I (run_effects es d)"
  using always_def [of I es d] by (metis order_refl take_all)

lemma always_and_then: "always I (p d) d \<Longrightarrow> always I (q (run_effects (p d) d)) (run_effects (p d) d) \<Longrightarrow> always I (and_then p q d) d"
  by (simp add: and_then_def always_append)

lemma run_and_then [simp]: "run_effects (and_then p q d) d = run_effects (q (run_effects (p d) d)) (run_effects (p d) d)"
  by (simp add: and_then_def)

lemma blocks_not_Nil [simp]: "blocks s \<noteq> []"
  by (subst blocks.simps) simp

lemma concat_blocks [simp]: "concat (blocks s) = s"
proof (induction s rule: blocks.induct)
  case (1 s)
  show ?case by (subst blocks.simps) (cases "COPY_SIZE \<le> length s", simp_all add: 1)
qed

lemma run_appends: "bs \<noteq> [] \<Longrightarrow> run_effects (map (Append p) bs) d =
    set_file p (Some ((case dk_files d p of None \<Rightarrow> [] | Some c \<Rightarrow> c) @ concat bs)) d"
proof (induction bs arbitrary: d)
  case (Cons b bs)
  show ?case by (cases "bs = []") (simp_all add: Cons.IH)
qed simp

text \<open>Opening and removing files works.\<close>

definition io_ok :: "file_io \<Rightarrow> bool" where
  "io_ok io \<longleftrightarrow> (\<forall>p. io_opens_in io p \<and> io_opens_out io p \<and> io_removes io p)"

lemma run_CopyFile:
  assumes "io_ok io" "a \<noteq> []"
  shows "run_effects (CopyFile io a b c d) d = (case dk_files d a of None \<Rightarrow> d | Some content \<Rightarrow> set_file b (Some content) d)"
  using assms by (auto simp: CopyFile_def IsFileExist_def io_ok_def run_appends split: option.splits)

lemma run_RemoveFile: "io_ok io \<Longrightarrow> run_effects (RemoveFile io p d) d = set_file p None d"
  by (simp add: RemoveFile_def io_ok_def set_file_same)

text \<open>While a file is copied, only the target changes, and it is there from the first effect on.\<close>

lemma always_appends:
  assumes "\<And>s. I (set_file p (Some s) d)" "dk_files d p = Some c"
  shows "always I (map (Append p) bs) d"
  using assms
proof (induction bs arbitrary: d c)
  case Nil
  thus ?case using Nil(1) [of c] by (simp add: set_file_same)
next
  case (Cons b bs)
  have "I d" using Cons.prems(1) [of c] Cons.prems(2) by (simp add: set_file_same)
  moreover have "always I (map (Append p) bs) (apply_effect (Append p b) d)" by (rule Cons.IH [of _ "c @ b"]) (use Cons.prems in simp_all)
  ultimately show ?case by (simp add: always_Cons)
qed

lemma always_CopyFile:
  assumes "I d" "\<And>s. dk_files d a \<noteq> None \<Longrightarrow> I (set_file b (Some s) d)"
  shows "always I (CopyFile io a b c d) d"
proof (cases "CopyFile io a b c d = []")
  case False
  hence a: "dk_files d a \<noteq> None" by (auto simp: CopyFile_def IsFileExist_def split: if_splits)
  have "always I (map (Append b) bs) (set_file b (Some []) d)" for bs
    by (rule always_appends [where c = "[]"]) (use assms(2) a in simp_all)
  thus ?thesis using assms(1) by (simp add: CopyFile_def always_Cons)
qed (simp add: assms(1))

lemma always_RemoveFile: "I d \<Longrightarrow> I (set_file p None d) \<Longrightarrow> always I (RemoveFile io p d) d"
  by (simp add: RemoveFile_def always_Cons)

lemma always_export:
  assumes "I d" "\<And>s. I (set_file p (Some s) d)"
  shows "always I (export_effects p ws) d"
  unfolding export_effects_def using assms
  by (induction ws arbitrary: d) (simp_all add: always_Cons)

lemma run_export: "run_effects (export_effects p ws) d = (if ws = [] then d else set_file p (Some (List.last ws)) d)"
  unfolding export_effects_def by (induction ws arbitrary: d) simp_all

section \<open>A store without encryption\<close>

abbreviation bk_of :: "string \<Rightarrow> string" where "bk_of path \<equiv> path @ BACKUP_BK_POSTFIX"
abbreviation tmp_of :: "string \<Rightarrow> string" where "tmp_of path \<equiv> path @ BACKUP_TMP_POSTFIX"

lemma backup_names [simp]:
  "bk_of path \<noteq> path" "tmp_of path \<noteq> path" "path \<noteq> bk_of path" "path \<noteq> tmp_of path" "bk_of path \<noteq> tmp_of path" "tmp_of path \<noteq> bk_of path"
  "bk_of path \<noteq> []" "tmp_of path \<noteq> []" "BACKUP_BK_POSTFIX \<noteq> []" "BACKUP_TMP_POSTFIX \<noteq> []" "BACKUP_BK_POSTFIX \<noteq> BACKUP_TMP_POSTFIX" "BACKUP_TMP_POSTFIX \<noteq> BACKUP_BK_POSTFIX"
  by (simp_all add: BACKUP_BK_POSTFIX_def BACKUP_TMP_POSTFIX_def)

text \<open>
  Between two effects, either the temporary file is there and the old backup lies in its copy, or the
  backup itself is whole.  Nothing else on the disk changes.
\<close>

definition others_kept :: "string \<Rightarrow> disk \<Rightarrow> disk \<Rightarrow> bool" where
  "others_kept path d0 d \<longleftrightarrow>
     dk_keys d = dk_keys d0 \<and> (\<forall>q. q \<noteq> path \<longrightarrow> q \<noteq> bk_of path \<longrightarrow> q \<noteq> tmp_of path \<longrightarrow> dk_files d q = dk_files d0 q)"

definition restorable :: "string \<Rightarrow> string \<Rightarrow> string \<Rightarrow> disk \<Rightarrow> disk \<Rightarrow> bool" where
  "restorable path old new d0 d \<longleftrightarrow> others_kept path d0 d \<and>
     (if dk_files d (tmp_of path) = None then dk_files d path = Some old \<or> dk_files d path = Some new
      else dk_files d (bk_of path) = Some old)"

lemma others_kept_set_file [simp]:
  "others_kept path d0 (set_file path c d) \<longleftrightarrow> others_kept path d0 d"
  "others_kept path d0 (set_file (bk_of path) c d) \<longleftrightarrow> others_kept path d0 d"
  "others_kept path d0 (set_file (tmp_of path) c d) \<longleftrightarrow> others_kept path d0 d"
  unfolding others_kept_def set_file_simps fun_upd_apply by (metis (full_types))+

lemma CleanData_restorable:
  assumes "io_ok io" "restorable path old new d0 d" "dk_files d path = Some old \<or> dk_files d path = Some new"
  shows "always (restorable path old new d0) (CleanData io path d) d"
proof -
  have t: "restorable path old new d0 (set_file (tmp_of path) None d)"
    "restorable path old new d0 (set_file (bk_of path) None (set_file (tmp_of path) None d))"
    using assms(2,3) by (simp_all add: restorable_def)
  show ?thesis unfolding CleanData_def Let_def
    by (intro always_and_then always_RemoveFile) (simp_all add: run_RemoveFile [OF assms(1)] t assms(2))
qed

lemma run_CleanData: "io_ok io \<Longrightarrow> run_effects (CleanData io path d) d = set_file (bk_of path) None (set_file (tmp_of path) None d)"
  by (simp add: CleanData_def Let_def run_RemoveFile)

lemma RollBackData_restorable:
  assumes "io_ok io" "restorable path old new d0 d" "dk_files d (tmp_of path) \<noteq> None"
  shows "always (restorable path old new d0) (RollBackData io path d) d"
    "run_effects (RollBackData io path d) d =
       set_file (bk_of path) None (set_file (tmp_of path) None (set_file path (Some old) d))"
proof -
  have b: "dk_files d (bk_of path) = Some old" using assms(2,3) by (simp add: restorable_def)
  have c: "run_effects (CopyFile io (bk_of path) path False d) d = set_file path (Some old) d"
    by (simp add: run_CopyFile [OF assms(1)] b)
  have t: "restorable path old new d0 (set_file path (Some x) d)"
    "restorable path old new d0 (set_file (tmp_of path) None (set_file path (Some old) d))"
    "restorable path old new d0 (set_file (bk_of path) None (set_file (tmp_of path) None (set_file path (Some old) d)))" for x
    using assms(2,3) b by (auto simp: restorable_def)
  show "always (restorable path old new d0) (RollBackData io path d) d" unfolding RollBackData_def Let_def
    by (intro always_and_then always_RemoveFile always_CopyFile) (simp_all add: run_RemoveFile [OF assms(1)] c t assms(2))
  show "run_effects (RollBackData io path d) d = set_file (bk_of path) None (set_file (tmp_of path) None (set_file path (Some old) d))"
    by (simp add: RollBackData_def Let_def c run_RemoveFile [OF assms(1)])
qed

lemma SaveData_restorable:
  assumes "io_ok io" "restorable path old new d0 d" "dk_files d (tmp_of path) = Some new" "sk_sKey k = []"
  shows "always (restorable path old new d0) (SaveData io path key k d) d"
    "run_effects (SaveData io path key k d) d =
       set_file (bk_of path) None (set_file (tmp_of path) None (set_file path (Some new) d))"
proof -
  have c: "run_effects (CopyFile io (tmp_of path) path False d) d = set_file path (Some new) d"
    by (simp add: run_CopyFile [OF assms(1)] assms(3))
  have t: "restorable path old new d0 (set_file path (Some x) d)"
    "restorable path old new d0 (set_file (tmp_of path) None (set_file path (Some new) d))"
    "restorable path old new d0 (set_file (bk_of path) None (set_file (tmp_of path) None (set_file path (Some new) d)))" for x
    using assms(2,3) by (simp_all add: restorable_def)
  show "always (restorable path old new d0) (SaveData io path key k d) d" unfolding SaveData_def Let_def
    by (intro always_and_then always_RemoveFile always_CopyFile) (simp_all add: run_RemoveFile [OF assms(1)] c t assms(2,4))
  show "run_effects (SaveData io path key k d) d = set_file (bk_of path) None (set_file (tmp_of path) None (set_file path (Some new) d))"
    by (simp add: SaveData_def Let_def c run_RemoveFile [OF assms(1)] assms(4))
qed

lemma Init_store_restorable:
  assumes "io_ok io" "restorable (backup_file G meta) old new d0 d" "dk_keys d0 (GetSecretKey meta) = None"
    "sm_isBackup meta" "\<not> sm_isDirty meta"
  shows "always (restorable (backup_file G meta) old new d0) (Init_store io G meta d) d"
    "let d' = run_effects (Init_store io G meta d) d
     in restorable (backup_file G meta) old new d0 d' \<and> dk_files d' (bk_of (backup_file G meta)) = None \<and> dk_files d' (tmp_of (backup_file G meta)) = None"
proof -
  let ?p = "backup_file G meta"
  have k: "dk_keys d (GetSecretKey meta) = None" using assms(2,3) by (simp add: restorable_def others_kept_def)
  have init: "Init_store io G meta d =
     (if dk_files d (tmp_of ?p) \<noteq> None then RollBackData io ?p d else if dk_files d (bk_of ?p) \<noteq> None then CleanData io ?p d else [])"
    using assms(4,5) k by (simp add: Init_store_def GetClearType_def IsFileExist_def backup_file_def Let_def)
  show a: "always (restorable ?p old new d0) (Init_store io G meta d) d"
    using RollBackData_restorable(1) [OF assms(1,2)] CleanData_restorable [OF assms(1,2)] assms(2)
    by (auto simp: init restorable_def)
  have "dk_files d' (bk_of ?p) = None \<and> dk_files d' (tmp_of ?p) = None" if "d' = run_effects (Init_store io G meta d) d" for d'
    using that RollBackData_restorable(2) [OF assms(1,2)] run_CleanData [OF assms(1), of ?p d] by (auto simp: init)
  thus "let d' = run_effects (Init_store io G meta d) d
     in restorable ?p old new d0 d' \<and> dk_files d' (bk_of ?p) = None \<and> dk_files d' (tmp_of ?p) = None"
    using always_run [OF a] by (simp add: Let_def)
qed

lemma DoBackup_restorable:
  assumes "io_ok io" "DoBackup io G b meta d = Some es" "exporter_at b (sint (sm_storeType meta)) = Some (Some exporter)"
    "exporter meta (tmp_of (backup_file G meta)) = (ws, result)" "ws \<noteq> []"
    "dk_keys d (GetSecretKey meta) = None" "\<not> sm_isEncrypt meta"
    "dk_files d (backup_file G meta) = Some old" "dk_files d (tmp_of (backup_file G meta)) = None"
  shows "always (restorable (backup_file G meta) old (List.last ws) d) es d"
    "dk_files (run_effects es d) (backup_file G meta) = Some (if result then List.last ws else old)"
proof -
  let ?p = "backup_file G meta" and ?new = "List.last ws"
  let ?I = "restorable ?p old ?new d"
  let ?fin = "\<lambda>d. if \<not> result then CleanData io ?p d else SaveData io ?p (GetBackupSecretKey meta) SecretKeyMetaData_new d"
  define d1 where "d1 = set_file (bk_of ?p) (Some old) d"
  define d2 where "d2 = set_file (tmp_of ?p) (Some ?new) d1"
  have k: "dk_keys d2 (GetSecretKey meta) = None" by (simp add: d1_def d2_def assms(6))
  have keep: "run_effects (KeepData io ?p d) d = d1"
    using assms(8) by (simp add: KeepData_def run_CopyFile [OF assms(1)] backup_file_def d1_def)
  have es: "es = KeepData io ?p d @ export_effects (tmp_of ?p) ws @ ?fin d2"
    using assms(2,3,4,5,7) k keep by (cases result) (simp_all add: DoBackup_def Let_def and_then_def run_export d2_def [symmetric])
  have i: "?I d" "\<And>s. ?I (set_file (bk_of ?p) s d)" using assms(8,9) by (simp_all add: restorable_def others_kept_def)
  have i1: "?I d1" "\<And>s. ?I (set_file (tmp_of ?p) (Some s) d1)" using i assms(8,9) by (simp_all add: restorable_def d1_def)
  have i2: "?I d2" using i1 by (simp add: d2_def)
  have f2: "dk_files d2 ?p = Some old" "dk_files d2 (tmp_of ?p) = Some ?new" by (simp_all add: d1_def d2_def assms(8))
  have n: "sk_sKey SecretKeyMetaData_new = []" by (simp add: SecretKeyMetaData_new_def)
  have a1: "always ?I (KeepData io ?p d) d" unfolding KeepData_def by (rule always_CopyFile) (rule i)+
  have a2: "always ?I (export_effects (tmp_of ?p) ws) d1" by (rule always_export) (rule i1)+
  have r2: "run_effects (export_effects (tmp_of ?p) ws) d1 = d2" by (simp add: run_export assms(5) d2_def)
  have a3: "always ?I (?fin d2) d2"
    using CleanData_restorable [OF assms(1) i2] SaveData_restorable(1) [OF assms(1) i2 f2(2) n] f2(1) by simp
  show "always ?I es d" unfolding es by (intro always_append) (simp_all add: keep r2 a1 a2 a3)
  show "dk_files (run_effects es d) ?p = Some (if result then ?new else old)"
    using run_CleanData [OF assms(1), of ?p d2] SaveData_restorable(2) [OF assms(1) i2 f2(2) n, of "GetBackupSecretKey meta"] f2(1)
    by (simp add: es keep r2)
qed

lemma stopped_inits_restorable:
  assumes "io_ok io" "restorable (backup_file G meta) old new d0 d" "dk_keys d0 (GetSecretKey meta) = None"
    "sm_isBackup meta" "\<not> sm_isDirty meta"
  shows "restorable (backup_file G meta) old new d0 (fold (\<lambda>k d. run_effects (take k (Init_store io G meta d)) d) ks d)"
  using assms(2)
proof (induction ks arbitrary: d)
  case (Cons k ks)
  have "restorable (backup_file G meta) old new d0 (run_effects (take k (Init_store io G meta d)) d)"
    using Init_store_restorable(1) [OF assms(1) Cons.prems assms(3-5)] by (simp add: always_def)
  thus ?case using Cons.IH by simp
qed simp

text \<open>
  C3: The automatic backup of a store without encryption survives being stopped.  Let a backup be
  stopped after any number of effects on the disk, and the clean-up at the start of the service be
  stopped any number of times as well: once the clean-up runs to its end, the backup file holds the
  whole old or the whole new backup, the temporary files are gone, and no other file and no key has
  changed.  A backup that is not stopped leaves the new contents if the export succeeded, and the
  old ones otherwise.
\<close>

theorem backup_survives_stops:
  assumes "io_ok io" and "DoBackup io G b meta d = Some es"
    and "exporter_at b (sint (sm_storeType meta)) = Some (Some exporter)"
    and "exporter meta (tmp_of (backup_file G meta)) = (ws, result)" and "ws \<noteq> []"
    and "sm_isBackup meta" and "\<not> sm_isDirty meta" and "\<not> sm_isEncrypt meta" and "dk_keys d (GetSecretKey meta) = None"
    and "dk_files d (backup_file G meta) = Some old" and "dk_files d (tmp_of (backup_file G meta)) = None"
  shows "let file = backup_file G meta;
             stopped = run_effects (take n es) d;
             again = fold (\<lambda>k d. run_effects (take k (Init_store io G meta d)) d) ks stopped;
             final = run_effects (Init_store io G meta again) again
         in (dk_files final file = Some old \<or> dk_files final file = Some (List.last ws)) \<and>
            dk_files final (bk_of file) = None \<and> dk_files final (tmp_of file) = None \<and> others_kept file d final \<and>
            dk_files (run_effects es d) file = Some (if result then List.last ws else old)"
proof -
  let ?R = "restorable (backup_file G meta) old (List.last ws) d"
  have "?R (run_effects (take n es) d)"
    using DoBackup_restorable(1) [OF assms(1-5,9,8,10,11)] by (simp add: always_def)
  note again = stopped_inits_restorable [OF assms(1) this assms(9,6,7), of ks]
  note final = Init_store_restorable(2) [OF assms(1) again assms(9,6,7), unfolded Let_def]
  show ?thesis unfolding Let_def
    using final DoBackup_restorable(2) [OF assms(1-5,9,8,10,11)] by (simp add: restorable_def)
qed

definition plain_io :: file_io where
  "plain_io = \<lparr>io_opens_in = (\<lambda>_. True), io_opens_out = (\<lambda>_. True), io_removes = (\<lambda>_. True)\<rparr>"

definition backup_manager0 :: BackupManager where
  "backup_manager0 = \<lparr>bm_exporters = replicate 20 (Some (\<lambda>_ _. ([''n'', ''new''], True))), bm_schedularDelay = 1800, bm_schedularInternal = 1800,
     bm_backupInternal = 36000, bm_backupSuccessTime = 0, bm_backupNumber = 20, bm_startNum = 0, bm_executors = False, bm_timers = []\<rparr>"

definition backup_store :: StoreMetaData where
  "backup_store = StoreMetaData_new\<lparr>sm_storeType := 1, sm_isBackup := True\<rparr>"

definition backup_disk :: "(string \<rightharpoonup> SecretKeyMetaData) \<Rightarrow> disk" where
  "backup_disk keys = \<lparr>dk_files = [backup_file (\<lambda>_. ''/b'') backup_store \<mapsto> ''old''], dk_keys = keys\<rparr>"

lemma backup_store_simps [simp]:
  "sm_isBackup backup_store" "\<not> sm_isDirty backup_store" "\<not> sm_isEncrypt backup_store"
  "exporter_at backup_manager0 (sint (sm_storeType backup_store)) = Some (Some (\<lambda>_ _. ([''n'', ''new''], True)))"
  "io_ok plain_io" "dk_keys (backup_disk ks) = ks"
  "dk_files (backup_disk ks) (backup_file (\<lambda>_. ''/b'') backup_store) = Some ''old''"
  "dk_files (backup_disk ks) (tmp_of (backup_file (\<lambda>_. ''/b'') backup_store)) = None"
  "dk_files (backup_disk ks) (bk_of (backup_file (\<lambda>_. ''/b'') backup_store)) = None"
  by (simp_all add: backup_store_def StoreMetaData_new_def exporter_at_def backup_manager0_def io_ok_def plain_io_def backup_disk_def)

lemma DoBackup_returns: "\<exists>es. DoBackup plain_io G backup_manager0 backup_store d = Some es"
  by (simp add: DoBackup_def Let_def)

theorem backup_survives_stops_witness:
  "let d = backup_disk Map.empty; es = the (DoBackup plain_io (\<lambda>_. ''/b'') backup_manager0 backup_store d);
       stopped = run_effects (take 6 es) d;
       final = run_effects (Init_store plain_io (\<lambda>_. ''/b'') backup_store stopped) stopped
   in dk_files final (backup_file (\<lambda>_. ''/b'') backup_store) = Some ''old'' \<or>
      dk_files final (backup_file (\<lambda>_. ''/b'') backup_store) = Some ''new''"
proof -
  obtain es where es: "DoBackup plain_io (\<lambda>_. ''/b'') backup_manager0 backup_store (backup_disk Map.empty) = Some es"
    using DoBackup_returns by blast
  show ?thesis
    using backup_survives_stops [OF _ es, of "\<lambda>_ _. ([''n'', ''new''], True)" "[''n'', ''new'']" True "''old''" 6 "[]"]
    by (simp add: Let_def es)
qed

section \<open>What goes wrong\<close>

text \<open>
  An encrypted store whose key has not changed since the last backup: if the copying of the new
  backup is stopped, the clean-up takes the keys to be a sign that the backup is complete, and
  removes the only whole copy.
\<close>

lemma DoBackup_effects:
  assumes "io_ok io" "DoBackup io G b meta d = Some es" "exporter_at b (sint (sm_storeType meta)) = Some (Some exporter)"
    "exporter meta (tmp_of (backup_file G meta)) = (ws, True)" "ws \<noteq> []"
    "dk_keys d (GetSecretKey meta) = Some k" "dk_files d (backup_file G meta) = Some old"
  shows "\<exists>rest. es = KeepData io (backup_file G meta) d @ export_effects (tmp_of (backup_file G meta)) ws @
      Truncate (backup_file G meta) # rest"
proof -
  let ?p = "backup_file G meta"
  define d1 where "d1 = set_file (bk_of ?p) (Some old) d"
  define d2 where "d2 = set_file (tmp_of ?p) (Some (List.last ws)) d1"
  have k: "dk_keys d2 (GetSecretKey meta) = Some k" by (simp add: d1_def d2_def assms(6))
  have keep: "run_effects (KeepData io ?p d) d = d1"
    using assms(7) by (simp add: KeepData_def run_CopyFile [OF assms(1)] backup_file_def d1_def)
  have "es = KeepData io ?p d @ export_effects (tmp_of ?p) ws @ SaveData io ?p (GetBackupSecretKey meta) k d2"
    using assms(2-5) k keep by (simp add: DoBackup_def Let_def and_then_def run_export d2_def [symmetric])
  moreover have "\<exists>rest. SaveData io ?p (GetBackupSecretKey meta) k d2 = Truncate ?p # rest"
    using assms(1) by (simp add: SaveData_def Let_def and_then_def CopyFile_def IsFileExist_def io_ok_def d2_def)
  ultimately show ?thesis by auto
qed

text \<open>
  C40: The backup of an encrypted store can be lost.  If the key of the database is the key of the last
  backup, there is a moment at which stopping the service leaves, after the clean-up, an empty backup
  file and no copy of the old one.
\<close>

theorem encrypted_backup_lost:
  assumes "io_ok io" and "DoBackup io G b meta d = Some es"
    and "exporter_at b (sint (sm_storeType meta)) = Some (Some exporter)"
    and "exporter meta (tmp_of (backup_file G meta)) = (ws, True)" and "ws \<noteq> []"
    and "sm_isBackup meta" and "\<not> sm_isDirty meta"
    and "dk_keys d (GetSecretKey meta) = Some k" and "dk_keys d (GetBackupSecretKey meta) = Some k'" and "sk_sKey k = sk_sKey k'"
    and "dk_files d (backup_file G meta) = Some old"
  shows "\<exists>n. let file = backup_file G meta;
             stopped = run_effects (take n es) d;
             final = run_effects (Init_store io G meta stopped) stopped
         in dk_files final file = Some [] \<and> dk_files final (bk_of file) = None \<and> dk_files final (tmp_of file) = None"
proof -
  let ?p = "backup_file G meta"
  let ?before = "KeepData io ?p d @ export_effects (tmp_of ?p) ws"
  obtain rest where es: "es = ?before @ Truncate ?p # rest"
    using DoBackup_effects [OF assms(1-5,8,11)] by auto
  define n where "n = length ?before + 1"
  have stopped: "run_effects (take n es) d =
      set_file ?p (Some []) (set_file (tmp_of ?p) (Some (List.last ws)) (set_file (bk_of ?p) (Some old) d))"
    using assms(5,11) by (simp add: n_def es KeepData_def run_CopyFile [OF assms(1)] backup_file_def run_export)
  let ?s = "set_file ?p (Some []) (set_file (tmp_of ?p) (Some (List.last ws)) (set_file (bk_of ?p) (Some old) d))"
  have "Init_store io G meta ?s = CleanData io ?p ?s"
    using assms(6-10) by (simp add: Init_store_def GetClearType_def IsFileExist_def Let_def)
  hence "run_effects (Init_store io G meta ?s) ?s = set_file (bk_of ?p) None (set_file (tmp_of ?p) None ?s)"
    by (simp add: run_CleanData [OF assms(1)])
  thus ?thesis unfolding Let_def by (intro exI [of _ n]) (simp add: stopped)
qed

theorem encrypted_backup_lost_witness:
  "let key = SecretKeyMetaData_new\<lparr>sk_sKey := [7]\<rparr>;
       d = backup_disk (\<lambda>_. Some key);
       es = the (DoBackup plain_io (\<lambda>_. ''/b'') backup_manager0 backup_store d)
   in \<exists>n. let stopped = run_effects (take n es) d;
              final = run_effects (Init_store plain_io (\<lambda>_. ''/b'') backup_store stopped) stopped
          in dk_files final (backup_file (\<lambda>_. ''/b'') backup_store) = Some []"
proof -
  let ?key = "SecretKeyMetaData_new\<lparr>sk_sKey := [7]\<rparr>"
  let ?d = "backup_disk (\<lambda>_. Some ?key)"
  obtain es where es: "DoBackup plain_io (\<lambda>_. ''/b'') backup_manager0 backup_store ?d = Some es"
    using DoBackup_returns by blast
  show ?thesis
    using encrypted_backup_lost [OF _ es, of "\<lambda>_ _. ([''n'', ''new''], True)" "[''n'', ''new'']" ?key ?key "''old''"]
    by (auto simp: Let_def es)
qed

text \<open>
  A first backup, without an old one to keep: stopping the copying leaves a part of the new backup
  under its final name, and nothing to tell that it is one.
\<close>

lemma first_backup_incomplete:
  "let d = \<lparr>dk_files = Map.empty, dk_keys = Map.empty\<rparr>; es = the (DoBackup plain_io (\<lambda>_. ''/b'') backup_manager0 backup_store d);
       stopped = run_effects (take 3 es) d;
       final = run_effects (Init_store plain_io (\<lambda>_. ''/b'') backup_store stopped) stopped
   in dk_files final (backup_file (\<lambda>_. ''/b'') backup_store) = Some []"
  by (simp add: DoBackup_def Let_def and_then_def KeepData_def CopyFile_def IsFileExist_def export_effects_def SaveData_def plain_io_def
      Init_store_def GetClearType_def RollBackData_def RemoveFile_def backup_file_def)

text \<open>A key that has changed: if keeping the old backup is stopped, the roll-back puts the incomplete copy in its place.\<close>

lemma changed_key_backup_lost:
  assumes "io_ok io" "DoBackup io G b meta d = Some es" "exporter_at b (sint (sm_storeType meta)) = Some (Some exporter)"
    "exporter meta (tmp_of (backup_file G meta)) = (ws, True)" "ws \<noteq> []" "sm_isBackup meta" "\<not> sm_isDirty meta"
    "dk_keys d (GetSecretKey meta) = Some k" "dk_keys d (GetBackupSecretKey meta) = Some k'" "sk_sKey k \<noteq> sk_sKey k'"
    "dk_files d (backup_file G meta) = Some old"
  shows "let stopped = run_effects (take 1 es) d; final = run_effects (Init_store io G meta stopped) stopped
    in dk_files final (backup_file G meta) = Some []"
proof -
  let ?p = "backup_file G meta" and ?s = "set_file (bk_of (backup_file G meta)) (Some []) d"
  obtain rest where "es = Truncate (bk_of ?p) # rest"
    using DoBackup_effects [OF assms(1-5,8,11)] assms(1,11) by (auto simp: KeepData_def CopyFile_def IsFileExist_def io_ok_def backup_file_def)
  hence s: "run_effects (take 1 es) d = ?s" by simp
  have "Init_store io G meta ?s = RollBackData io ?p ?s"
    using assms(6-10) by (simp add: Init_store_def GetClearType_def IsFileExist_def Let_def)
  moreover have "dk_files (run_effects (RollBackData io ?p ?s) ?s) ?p = Some []"
    by (simp add: RollBackData_def Let_def run_CopyFile [OF assms(1)] run_RemoveFile [OF assms(1)])
  ultimately show ?thesis unfolding Let_def s by simp
qed

text \<open>The times compared are seconds, but the interval is multiplied by a thousand: ten hours become more than a year.\<close>

lemma CanBackup_not_before:
  assumes "0 < bm_backupSuccessTime b" "now < bm_backupSuccessTime b + 1000 * bm_backupInternal b"
  shows "\<not> CanBackup r now b"
  using assms by (simp add: CanBackup_def)

section \<open>Every store gets its turn\<close>

text \<open>The stores that turn after turn backs up, for a list of stores that stays the same.\<close>

fun turns :: "nat \<Rightarrow> StoreMetaData list \<Rightarrow> BackupManager \<Rightarrow> StoreMetaData list" where
  "turns 0 metas b = []"
| "turns (Suc k) metas b = (case backup_turn metas b of (stores, startNum) \<Rightarrow> stores @ turns k metas (b\<lparr>bm_startNum := startNum\<rparr>))"

lemma backup_turn_slice:
  assumes "bm_startNum b = int i" "bm_backupNumber b = int c" "0 < c" "i < length metas"
  shows "backup_turn metas b = ([meta \<leftarrow> take c (drop i metas). sm_isBackup meta \<and> \<not> sm_isDirty meta],
     if length metas \<le> i + c then 0 else int (i + c))"
proof (cases "length metas \<le> i + c")
  case True
  hence "nat (int (length metas) - int i) = length metas - i" by simp
  thus ?thesis using assms True by (simp add: backup_turn_def Let_def)
qed (use assms in \<open>simp add: backup_turn_def Let_def min_def\<close>)

lemma turns_cover:
  assumes "bm_startNum b = int i" "bm_backupNumber b = int c" "0 < c" "length metas \<le> i + k * c" "i + (k - 1) * c < length metas" "0 < k"
  shows "turns k metas b = [meta \<leftarrow> drop i metas. sm_isBackup meta \<and> \<not> sm_isDirty meta]"
  using assms
proof (induction k arbitrary: b i)
  case (Suc k)
  have i: "i < length metas" using Suc.prems(5) by linarith
  note t = backup_turn_slice [OF Suc.prems(1-3) i]
  show ?case
  proof (cases k)
    case 0
    thus ?thesis using t Suc.prems(4) by simp
  next
    case (Suc k')
    have n: "\<not> length metas \<le> i + c" using Suc.prems(5) Suc by simp
    have "turns k metas (b\<lparr>bm_startNum := int (i + c)\<rparr>) = [meta \<leftarrow> drop (i + c) metas. sm_isBackup meta \<and> \<not> sm_isDirty meta]"
      by (rule Suc.IH) (use Suc.prems Suc in simp_all)
    moreover have "drop i metas = take c (drop i metas) @ drop (i + c) metas"
      using append_take_drop_id [of c "drop i metas"] by (simp add: add.commute)
    hence "[m \<leftarrow> drop i metas. Q m] = [m \<leftarrow> take c (drop i metas). Q m] @ [m \<leftarrow> drop (i + c) metas. Q m]" for Q
      using filter_append [of Q "take c (drop i metas)" "drop (i + c) metas"] by simp
    ultimately show ?thesis using t n by simp
  qed
qed simp

end
