(* ===== verification/Bootstrap.thy ===== *)
theory Bootstrap
  imports Checkers Directory_Manager Backup_Manager
begin

text \<open>
  The start of the service, \<^verbatim>\<open>service/bootstrap/src/bootstrap.cpp\<close>: every section of the configuration is
  handed to the manager it belongs to.  Loading a shared library is a parameter.  The results join the
  managers: who an application is once the configuration is loaded, and that the directory section of
  \<^verbatim>\<open>conf/config.json\<close> keeps the stores of different users and applications apart.
\<close>

section \<open>The model\<close>

record ('c, 'g, 'r) service =
  sv_checkers :: "('c, 'g) CheckerManager"
  sv_directory :: DirectoryManager
  sv_cloud :: CloudConfigManager
  sv_appIds :: app_id_manager
  sv_access :: access_manager
  sv_sync :: sync_apps
  sv_threads :: ThreadManager
  sv_rules :: "'r BackupRuleManager"
  sv_backup :: BackupManager
  sv_disk :: disk
  sv_executors :: "(u32 \<times> u32) option"
  sv_ipcThreads :: u32
  sv_constructed :: "(string \<times> string \<times> string) list"

definition DEFAULT_LABEL :: string where "DEFAULT_LABEL = ''distributeddata''"
definition DEFAULT_META :: string where "DEFAULT_META = ''service_meta''"

definition GetProcessLabel :: "GlobalConfig option \<Rightarrow> string" where
  "GetProcessLabel global =
     (case global of None \<Rightarrow> DEFAULT_LABEL | Some g \<Rightarrow> if glc_processLabel g = [] then DEFAULT_LABEL else glc_processLabel g)"

definition GetMetaDBName :: "GlobalConfig option \<Rightarrow> string" where
  "GetMetaDBName global =
     (case global of None \<Rightarrow> DEFAULT_META | Some g \<Rightarrow> if glc_metaData g = [] then DEFAULT_META else glc_metaData g)"

record 'h dl_ops =
  dl_open :: "string \<Rightarrow> 'h option"
  dl_sym :: "'h \<Rightarrow> string \<Rightarrow> bool"

text \<open>The constructors called, each with the text of its parameters.\<close>

fun load_components :: "'h dl_ops \<Rightarrow> ComponentConfig list \<Rightarrow> (string \<times> string \<times> string) list" where
  "load_components D [] = []"
| "load_components D (c # comps) =
     (if cmp_lib c = [] then load_components D comps
      else case dl_open D (cmp_lib c) of
             None \<Rightarrow> load_components D comps
           | Some handle \<Rightarrow>
               if cmp_constructor c = [] then load_components D comps
               else if \<not> dl_sym D handle (cmp_constructor c) then load_components D comps
               else (cmp_lib c, cmp_constructor c, cmp_params c) # load_components D comps)"

definition LoadComponents :: "'h dl_ops \<Rightarrow> GlobalConfig \<Rightarrow> (string \<times> string \<times> string) list" where
  "LoadComponents D g = (case glc_components g of None \<Rightarrow> [] | Some comps \<Rightarrow> load_components D comps)"

definition store_info :: "StaticStore \<Rightarrow> CheckerStoreInfo" where
  "store_info s = \<lparr>csi_uid = sst_uid s, csi_tokenId = sst_tokenId s, csi_bundleName = sst_bundleName s, csi_storeId = sst_storeId s\<rparr>"

definition Boot_LoadCheckers ::
  "(string, 'c checker option, 'g) cmap_ops \<Rightarrow> CheckerConfig option \<Rightarrow> ('c, 'g) CheckerManager \<Rightarrow> ('c, 'g) CheckerManager" where
  "Boot_LoadCheckers M config m =
     (case config of
        None \<Rightarrow> m
      | Some checkers \<Rightarrow>
          let m = LoadCheckers M (chc_checkers checkers) m;
              m = fold (\<lambda>trust. change_checker (tru_checker trust) (ck_SetTrustInfo trust)) (chc_trusts checkers) m;
              m = fold (\<lambda>distrust. change_checker (tru_checker distrust) (ck_SetDistrustInfo distrust)) (chc_distrusts checkers) m;
              m = fold (\<lambda>switches. change_checker (tru_checker switches) (ck_SetSwitchesInfo switches)) (chc_switches checkers) m;
              m = fold (\<lambda>store. change_checker (sst_checker store) (ck_AddDynamicStore (store_info store))) (chc_dynamicStores checkers) m
          in fold (\<lambda>store. change_checker (sst_checker store) (ck_AddStaticStore (store_info store))) (chc_staticStores checkers) m)"

text \<open>
  Loading the backup section reads the metadata of the local stores, \<open>metas\<close>, puts their files in order
  and starts the timer.
\<close>

definition Boot_LoadBackup ::
  "(string, (unit \<Rightarrow> bool) option, 'r) cmap_ops \<Rightarrow> file_io \<Rightarrow> (StoreMetaData \<Rightarrow> string) \<Rightarrow> StoreMetaData list \<Rightarrow> bool \<Rightarrow>
     BackupConfig option \<Rightarrow> 'r BackupRuleManager \<times> BackupManager \<times> disk \<Rightarrow> 'r BackupRuleManager \<times> BackupManager \<times> disk" where
  "Boot_LoadBackup M io backupPath metas executors config rbd =
     (case config of
        None \<Rightarrow> rbd
      | Some backupRules \<Rightarrow>
          (case rbd of (r, b, d) \<Rightarrow>
             let r = LoadBackupRules M (bkc_rules backupRules) r;
                 backupParam = \<lparr>bp_schedularDelay = sint (bkc_schedularDelay backupRules), bp_schedularInternal = sint (bkc_schedularInternal backupRules),
                   bp_backupInternal = sint (bkc_backupInternal backupRules), bp_backupNumber = sint (bkc_backupNumber backupRules)\<rparr>;
                 b = SetBackupParam backupParam b;
                 d = run_effects (Backup_Init io backupPath metas d) d
             in (r, BackSchedule executors b, d)))"

definition to_strategy :: "DirectoryStrategy \<Rightarrow> Strategy" where
  "to_strategy s = \<lparr>str_autoCreate = dis_autoCreate s, str_version = dis_version s, str_pattern = dis_pattern s,
     str_metaPath = dis_metaPath s, str_clonePath = dis_clonePath s\<rparr>"

definition to_store_type :: "StoreType \<Rightarrow> DirStoreType" where
  "to_store_type t = \<lparr>dst_range = stt_range t, dst_type = stt_type t\<rparr>"

definition Boot_LoadDirectory :: "DirectoryConfig option \<Rightarrow> DirectoryManager \<Rightarrow> DirectoryManager option" where
  "Boot_LoadDirectory config m =
     (case config of
        None \<Rightarrow> Some m
      | Some c \<Rightarrow> Directory_Initialize (map to_strategy (dic_strategy c)) (map to_store_type (dic_storeTypes c)) m)"

definition Boot_LoadCloud :: "CloudConfig option \<Rightarrow> CloudConfigManager \<Rightarrow> CloudConfigManager" where
  "Boot_LoadCloud config m =
     (case config of
        None \<Rightarrow> m
      | Some c \<Rightarrow> CloudConfig_Initialize (map (\<lambda>info. (clm_localBundle info, clm_cloudBundle info)) (clc_mapper c)) m)"

definition Boot_LoadAppIdMappings :: "AppIdMappingConfig list option \<Rightarrow> app_id_manager \<Rightarrow> app_id_manager" where
  "Boot_LoadAppIdMappings config m =
     (case config of
        None \<Rightarrow> m
      | Some c \<Rightarrow>
          AppIdMapping_Initialize
            (map (\<lambda>info. \<lparr>ami_srcAppId = aim_srcAppId info, ami_dstAppId = aim_dstAppId info, ami_isSystemApp = aim_isSystemApp info\<rparr>) c) m)"

definition Boot_LoadThread :: "ThreadConfig option \<Rightarrow> ThreadManager \<Rightarrow> ThreadManager" where
  "Boot_LoadThread config t =
     (case config of
        None \<Rightarrow> t
      | Some c \<Rightarrow> ThreadManager_Initialize (thc_minThreadNum c) (thc_maxThreadNum c) (thc_ipcThreadNum c))"

definition Boot_LoadAutoSyncApps :: "AutoSyncAppConfig list option \<Rightarrow> sync_apps \<Rightarrow> sync_apps" where
  "Boot_LoadAutoSyncApps config s =
     (case config of
        None \<Rightarrow> s
      | Some apps \<Rightarrow>
          fold (\<lambda>a. SetAutoSyncAppInfo \<lparr>asi_version = asa_version a, asi_appId = asa_appId a, asi_bundleName = asa_bundleName a,
            asi_storeIds = asa_storeIds a\<rparr>) apps s)"

text \<open>The initialiser names the bundle first, the structure the application identifier.\<close>

definition Boot_LoadSyncTrustedApp :: "AppAccessCheckConfig option \<Rightarrow> access_manager \<Rightarrow> access_manager" where
  "Boot_LoadSyncTrustedApp config m =
     (case config of
        None \<Rightarrow> m
      | Some c \<Rightarrow> AppAccess_Initialize (map (\<lambda>info. \<lparr>acm_appId = tra_bundleName info, acm_bundleName = tra_appId info\<rparr>) (aac_trusts c)) m)"

definition Boot_LoadDoubleSyncConfig :: "DoubleSyncConfig list option \<Rightarrow> sync_apps \<Rightarrow> sync_apps" where
  "Boot_LoadDoubleSyncConfig config s =
     (case config of
        None \<Rightarrow> s
      | Some apps \<Rightarrow>
          fold (\<lambda>a. SetDoubleSyncInfo \<lparr>dsi_tokenId = dbl_tokenId a, dsi_appId = dbl_appId a, dsi_bundleName = dbl_bundleName a\<rparr>) apps s)"

text \<open>
  The thread pool is made once, with the configured numbers of threads; the number of threads for
  calls from other processes is set every time.
\<close>

definition InitExecutor :: "('c, 'g, 'r) service \<Rightarrow> ('c, 'g, 'r) service" where
  "InitExecutor s =
     (let s = (if sv_executors s = None
               then s\<lparr>sv_executors := Some (maxThreadNum (sv_threads s), minThreadNum (sv_threads s))\<rparr> else s)
      in s\<lparr>sv_ipcThreads := ipcThreadNum (sv_threads s)\<rparr>)"

text \<open>What the start of the service needs from outside.\<close>

record ('c, 'g, 'r, 'h) boot_env =
  be_checkers :: "(string, 'c checker option, 'g) cmap_ops"
  be_rules :: "(string, (unit \<Rightarrow> bool) option, 'r) cmap_ops"
  be_libs :: "'h dl_ops"
  be_io :: file_io
  be_backupPath :: "StoreMetaData \<Rightarrow> string"
  be_metas :: "StoreMetaData list"

definition LoadConfigs :: "('c, 'g, 'r, 'h) boot_env \<Rightarrow> GlobalConfig \<Rightarrow> ('c, 'g, 'r) service \<Rightarrow> ('c, 'g, 'r) service option" where
  "LoadConfigs B g s =
     (let s = s\<lparr>sv_threads := Boot_LoadThread (glc_thread g) (sv_threads s)\<rparr>;
          s = InitExecutor s;
          s = s\<lparr>sv_constructed := sv_constructed s @ LoadComponents (be_libs B) g\<rparr>
      in case Boot_LoadDirectory (glc_directory g) (sv_directory s) of
           None \<Rightarrow> None
         | Some dirs \<Rightarrow>
             let s = s\<lparr>sv_directory := dirs\<rparr>;
                 s = s\<lparr>sv_checkers := Boot_LoadCheckers (be_checkers B) (glc_bundleChecker g) (sv_checkers s)\<rparr>;
                 (r, b, d) = Boot_LoadBackup (be_rules B) (be_io B) (be_backupPath B) (be_metas B) (sv_executors s \<noteq> None) (glc_backup g)
                   (sv_rules s, sv_backup s, sv_disk s);
                 s = s\<lparr>sv_rules := r, sv_backup := b, sv_disk := d\<rparr>;
                 s = s\<lparr>sv_cloud := Boot_LoadCloud (glc_cloud g) (sv_cloud s)\<rparr>;
                 s = s\<lparr>sv_appIds := Boot_LoadAppIdMappings (glc_appIdMapping g) (sv_appIds s)\<rparr>;
                 s = s\<lparr>sv_sync := Boot_LoadAutoSyncApps (glc_autoSyncApps g) (sv_sync s)\<rparr>;
                 s = s\<lparr>sv_access := Boot_LoadSyncTrustedApp (glc_syncAppList g) (sv_access s)\<rparr>
             in Some (s\<lparr>sv_sync := Boot_LoadDoubleSyncConfig (glc_doubleSyncApps g) (sv_sync s)\<rparr>))"

lemma InitExecutor_kept: "sv_checkers (InitExecutor s) = sv_checkers s" "sv_directory (InitExecutor s) = sv_directory s"
  "sv_access (InitExecutor s) = sv_access s"
  by (simp_all add: InitExecutor_def Let_def)

lemma LoadConfigs_checkers:
  assumes "LoadConfigs B g s = Some s'"
  shows "sv_checkers s' = Boot_LoadCheckers (be_checkers B) (glc_bundleChecker g) (sv_checkers s)"
  using assms by (auto simp: LoadConfigs_def Let_def InitExecutor_kept split: option.splits prod.splits)

lemma LoadConfigs_returns: "\<exists>s'. LoadConfigs B g s = Some s'"
  by (auto simp: LoadConfigs_def Let_def Boot_LoadDirectory_def Directory_Initialize_total split: option.splits prod.splits)

section \<open>Who an application is\<close>

text \<open>The trust entries of one checker, the last one of a bundle counting.\<close>

definition trust_table :: "string \<Rightarrow> Trust list \<Rightarrow> (string \<rightharpoonup> string)" where
  "trust_table checker trusts = map_of (rev (map (\<lambda>t. (tru_bundleName t, tru_appId t)) [t \<leftarrow> trusts. tru_checker t = checker]))"

lemma trust_table_snoc:
  "tru_checker t = c \<Longrightarrow> trust_table c (ts @ [t]) = (trust_table c ts)(tru_bundleName t \<mapsto> tru_appId t)"
  "tru_checker t \<noteq> c \<Longrightarrow> trust_table c (ts @ [t]) = trust_table c ts"
  by (simp_all add: trust_table_def)

text \<open>Loading the two checkers, in whatever order they are named.\<close>

lemma LoadCheckers_two:
  assumes "p < q" "cm_Find M g p = Some (Some x)" "cm_Find M g q = Some (Some y)" "set names = {p, q}"
  shows "LoadCheckers M names \<lparr>cm_checkers = [], cm_getters = g\<rparr> = \<lparr>cm_checkers = [(p, x), (q, y)], cm_getters = g\<rparr>"
proof -
  let ?m = "\<lambda>cks. \<lparr>cm_checkers = cks, cm_getters = g\<rparr>"
  have ne: "p \<noteq> q" "\<not> q < p" using assms(1) by auto
  have both: "set ns \<subseteq> {p, q} \<Longrightarrow> LoadCheckers M ns (?m [(p, x), (q, y)]) = ?m [(p, x), (q, y)]" for ns
    by (induction ns) auto
  have first_p: "set ns \<subseteq> {p, q} \<Longrightarrow> q \<in> set ns \<Longrightarrow> LoadCheckers M ns (?m [(p, x)]) = ?m [(p, x), (q, y)]" for ns
    by (induction ns) (use ne assms(2,3) both in auto)
  have first_q: "set ns \<subseteq> {p, q} \<Longrightarrow> p \<in> set ns \<Longrightarrow> LoadCheckers M ns (?m [(q, y)]) = ?m [(p, x), (q, y)]" for ns
    by (induction ns) (use assms(1-3) ne both in auto)
  obtain n ns where n: "names = n # ns" using assms(4) by (cases names) auto
  have "n \<in> set names" "p \<in> set names" "q \<in> set names" "set ns \<subseteq> set names" using n assms(4) by auto
  hence ns: "set ns \<subseteq> {p, q}" "n = p \<and> q \<in> set ns \<or> n = q \<and> p \<in> set ns" using assms(4) ne(1) n by auto
  thus ?thesis using first_p [OF ns(1)] first_q [OF ns(1)] assms(2,3) by (auto simp: n)
qed

lemma checker_names: "''BundleChecker'' < ''SystemChecker''"
  by (simp add: less_char_def)

lemmas LoadCheckers_both = LoadCheckers_two [OF checker_names]

lemma change_checker_both:
  "cm_checkers m = both_checkers b s \<Longrightarrow> cm_checkers (change_checker name f m) =
     (if name = ''BundleChecker'' then [(''BundleChecker'', f (Bundle_Checker b)), (''SystemChecker'', System_Checker s)]
      else if name = ''SystemChecker'' then [(''BundleChecker'', Bundle_Checker b), (''SystemChecker'', f (System_Checker s))]
      else both_checkers b s)"
  by (auto simp: change_checker_def GetChecker_def)

text \<open>Both checkers with given trust entries and cached identifiers.\<close>

definition loaded :: "(string \<rightharpoonup> string) \<Rightarrow> (string \<rightharpoonup> string) \<Rightarrow> 'c \<Rightarrow> ('c, 'g) CheckerManager \<Rightarrow> bool" where
  "loaded bt st c m \<longleftrightarrow>
     (\<exists>b s. cm_checkers m = both_checkers b s \<and> map_of (bc_trusts b) = bt \<and> map_of (sc_trusts s) = st \<and> bc_appIds b = c)"

lemma trusts_loaded:
  assumes "loaded Map.empty Map.empty c m"
  shows "loaded (trust_table ''BundleChecker'' ts) (trust_table ''SystemChecker'' ts) c
    (fold (\<lambda>t. change_checker (tru_checker t) (ck_SetTrustInfo t)) ts m)"
proof (induction ts rule: rev_induct)
  case Nil
  show ?case using assms by (simp add: trust_table_def)
next
  case (snoc t ts)
  let ?m = "fold (\<lambda>t. change_checker (tru_checker t) (ck_SetTrustInfo t)) ts m"
  from snoc obtain b s where i: "cm_checkers ?m = both_checkers b s"
    "map_of (bc_trusts b) = trust_table ''BundleChecker'' ts" "map_of (sc_trusts s) = trust_table ''SystemChecker'' ts" "bc_appIds b = c"
    by (auto simp: loaded_def)
  consider "tru_checker t = ''BundleChecker''" | "tru_checker t = ''SystemChecker''"
    | "tru_checker t \<noteq> ''BundleChecker''" "tru_checker t \<noteq> ''SystemChecker''" by blast
  thus ?case
  proof cases
    case 1
    thus ?thesis using i by (simp add: loaded_def change_checker_both [OF i(1)] trust_table_snoc fun_upd_def)
  next
    case 2
    thus ?thesis using i by (simp add: loaded_def change_checker_both [OF i(1)] trust_table_snoc fun_upd_def)
  next
    case 3
    thus ?thesis using i by (simp add: loaded_def change_checker_both [OF i(1)] trust_table_snoc fun_upd_def)
  qed
qed

text \<open>Everything else that is loaded leaves the trust entries and the cached identifiers as they are.\<close>

definition keeps_trusts :: "('c checker \<Rightarrow> 'c checker) \<Rightarrow> bool" where
  "keeps_trusts f \<longleftrightarrow>
     (\<forall>b. \<exists>b'. f (Bundle_Checker b) = Bundle_Checker b' \<and> bc_trusts b' = bc_trusts b \<and> bc_appIds b' = bc_appIds b) \<and>
     (\<forall>s. \<exists>s'. f (System_Checker s) = System_Checker s' \<and> sc_trusts s' = sc_trusts s)"

lemma keeps_trusts_loaders:
  "keeps_trusts (ck_SetDistrustInfo t)" "keeps_trusts (ck_SetSwitchesInfo t)" "keeps_trusts (ck_AddDynamicStore i)" "keeps_trusts (ck_AddStaticStore i)"
  by (simp_all add: keeps_trusts_def)

lemma change_loaded:
  assumes "keeps_trusts f" "loaded bt st c m"
  shows "loaded bt st c (change_checker name f m)"
proof -
  obtain b s where m: "cm_checkers m = both_checkers b s" "map_of (bc_trusts b) = bt" "map_of (sc_trusts s) = st" "bc_appIds b = c"
    using assms(2) by (auto simp: loaded_def)
  obtain b1 where b1: "f (Bundle_Checker b) = Bundle_Checker b1" "bc_trusts b1 = bc_trusts b" "bc_appIds b1 = bc_appIds b"
    using assms(1) unfolding keeps_trusts_def by blast
  obtain s1 where s1: "f (System_Checker s) = System_Checker s1" "sc_trusts s1 = sc_trusts s"
    using assms(1) unfolding keeps_trusts_def by blast
  show ?thesis
    using change_checker_both [OF m(1), of name f] m b1 s1
    by (cases "name = ''BundleChecker''"; cases "name = ''SystemChecker''") (simp_all add: loaded_def)
qed

lemma others_loaded:
  "(\<And>x. keeps_trusts (f x)) \<Longrightarrow> loaded bt st c m \<Longrightarrow> loaded bt st c (fold (\<lambda>x. change_checker (name x) (f x)) xs m)"
  by (induction xs arbitrary: m) (simp_all add: change_loaded)

lemma Boot_LoadCheckers_loaded:
  assumes "loaded Map.empty Map.empty c (LoadCheckers M (chc_checkers cfg) m)"
  shows "loaded (trust_table ''BundleChecker'' (chc_trusts cfg)) (trust_table ''SystemChecker'' (chc_trusts cfg)) c
    (Boot_LoadCheckers M (Some cfg) m)"
  unfolding Boot_LoadCheckers_def Let_def option.case
  by (intro others_loaded keeps_trusts_loaders trusts_loaded assms)

text \<open>
  C7: Once the configuration is loaded, an application is who the configuration and the bundle manager
  say.  Let the configuration name the two checkers in any order, and let any sequence of requests
  follow, in which applications are installed again and their cached identifier deleted: every answer
  of the checker manager is the one of a specification without cache, in which an application is known
  by its bundle name if the last trust entry of the bundle checker for it has its current identifier
  and by the hash of that identifier otherwise, a system service by the last trust entry of the system
  checker or its own name, and anyone else not at all.
\<close>

theorem configured_checkers_refine_spec:
  assumes "lru_ok L view" and "view c = Map.empty"
    and "cm_Find (be_checkers B) g ''BundleChecker'' = Some (Some (Bundle_Checker (BundleChecker_new c)))"
    and "cm_Find (be_checkers B) g ''SystemChecker'' = Some (Some (System_Checker SystemChecker_new))"
    and "glc_bundleChecker config = Some cfg" and "set (chc_checkers cfg) = {''BundleChecker'', ''SystemChecker''}"
    and "sv_checkers s = \<lparr>cm_checkers = [], cm_getters = g\<rparr>" and "LoadConfigs B config s = Some s'"
  shows "check_run L E (sv_checkers s') es =
    spec_run E (trust_table ''BundleChecker'' (chc_trusts cfg)) (trust_table ''SystemChecker'' (chc_trusts cfg)) es"
proof -
  have "loaded Map.empty Map.empty c (LoadCheckers (be_checkers B) (chc_checkers cfg) (sv_checkers s))"
    unfolding assms(7) LoadCheckers_both [OF assms(3,4,6)] by (simp add: loaded_def BundleChecker_new_def SystemChecker_new_def)
  from Boot_LoadCheckers_loaded [OF this] obtain b t where m: "cm_checkers (sv_checkers s') = both_checkers b t"
    "map_of (bc_trusts b) = trust_table ''BundleChecker'' (chc_trusts cfg)"
    "map_of (sc_trusts t) = trust_table ''SystemChecker'' (chc_trusts cfg)" "bc_appIds b = c"
    by (auto simp: loaded_def LoadConfigs_checkers [OF assms(8)] assms(5))
  have "cache_current view E b" by (simp add: cache_current_def m(4) assms(2))
  from check_run_spec [OF assms(1) m(1) this] show ?thesis by (simp add: m(2,3))
qed

definition service0 :: "(string \<rightharpoonup> string, (string \<times> (string \<rightharpoonup> string) checker option) list, (string \<times> (unit \<Rightarrow> bool) option) list) service" where
  "service0 = \<lparr>sv_checkers = \<lparr>cm_checkers = [],
       cm_getters = [(''BundleChecker'', Some (Bundle_Checker (BundleChecker_new Map.empty))), (''SystemChecker'', Some (System_Checker SystemChecker_new))]\<rparr>,
     sv_directory = DirectoryManager_new, sv_cloud = \<lparr>toLocalMapper = [], toCloudMapper = []\<rparr>, sv_appIds = [], sv_access = [],
     sv_sync = \<lparr>autoSyncApps = [], doubleSyncApps = []\<rparr>, sv_threads = ThreadManager_Initialize 2 12 16,
     sv_rules = \<lparr>br_backupRules = [], br_getters = []\<rparr>,
     sv_backup = \<lparr>bm_exporters = replicate 20 None, bm_schedularDelay = 0, bm_schedularInternal = 0, bm_backupInternal = 0,
       bm_backupSuccessTime = 0, bm_backupNumber = 0, bm_startNum = 0, bm_executors = False, bm_timers = []\<rparr>,
     sv_disk = \<lparr>dk_files = Map.empty, dk_keys = Map.empty\<rparr>, sv_executors = None, sv_ipcThreads = 16, sv_constructed = []\<rparr>"

definition boot_env0 :: "(string \<rightharpoonup> string, (string \<times> (string \<rightharpoonup> string) checker option) list, (string \<times> (unit \<Rightarrow> bool) option) list, unit) boot_env" where
  "boot_env0 = \<lparr>be_checkers = cmap_ops.truncate alist_cmap, be_rules = cmap_ops.truncate alist_cmap,
     be_libs = \<lparr>dl_open = (\<lambda>_. None), dl_sym = (\<lambda>_ _. False)\<rparr>, be_io = plain_io, be_backupPath = (\<lambda>_. ''/b''), be_metas = []\<rparr>"

text \<open>The checkers of \<^verbatim>\<open>conf/config.json\<close>.\<close>

definition shipped_checkers :: CheckerConfig where
  "shipped_checkers = CheckerConfig_new\<lparr>chc_checkers := [''SystemChecker'', ''BundleChecker''],
     chc_trusts := [\<lparr>tru_bundleName = ''bundle_manager_service'', tru_appId = ''bundle_manager_service'', tru_packageName = [], tru_base64Key = [],
       tru_checker = ''SystemChecker''\<rparr>]\<rparr>"

definition checker_env0 :: checker_env where
  "checker_env0 = \<lparr>ce_token = \<lparr>tk_GetTokenTypeFlag = (\<lambda>t. if t = 1 then TOKEN_HAP else TOKEN_NATIVE), tk_GetHapTokenInfo = (\<lambda>t. Some ''app'')\<rparr>,
     ce_GetAppIdByBundleName = (\<lambda>n u. ''id''), ce_Sha256 = (\<lambda>s. ''sha:'' @ s)\<rparr>"

theorem configured_checkers_refine_spec_witness:
  "let config = GlobalConfig_new\<lparr>glc_bundleChecker := Some shipped_checkers\<rparr>;
       s' = the (LoadConfigs boot_env0 config service0);
       info = \<lparr>csi_uid = 20010044, csi_tokenId = 1, csi_bundleName = ''app'', csi_storeId = ''s''\<rparr>
   in check_run map_lru checker_env0 (sv_checkers s') [Ask info, Reinstalled ''app'' 100 0 ''new'', Ask info] = [''sha:id'', ''sha:new'']"
proof -
  let ?config = "GlobalConfig_new\<lparr>glc_bundleChecker := Some shipped_checkers\<rparr>"
  let ?g = "[(''BundleChecker'', Some (Bundle_Checker (BundleChecker_new Map.empty))), (''SystemChecker'', Some (System_Checker SystemChecker_new))]"
  let ?info = "\<lparr>csi_uid = 20010044, csi_tokenId = 1, csi_bundleName = ''app'', csi_storeId = ''s''\<rparr>"
  obtain s' where s': "LoadConfigs boot_env0 ?config service0 = Some s'" using LoadConfigs_returns by blast
  have u: "user_of_uid 20010044 = 100" by (simp add: user_of_uid_def)
  have t: "trust_table ''BundleChecker'' (chc_trusts shipped_checkers) = Map.empty" by (simp add: trust_table_def shipped_checkers_def)
  have "check_run map_lru checker_env0 (sv_checkers s') [Ask ?info, Reinstalled ''app'' 100 0 ''new'', Ask ?info] =
      spec_run checker_env0 Map.empty (trust_table ''SystemChecker'' (chc_trusts shipped_checkers)) [Ask ?info, Reinstalled ''app'' 100 0 ''new'', Ask ?info]"
    unfolding t [symmetric]
  proof (rule configured_checkers_refine_spec [OF map_lru_ok _ _ _ _ _ _ s', of Map.empty ?g])
    show "set (chc_checkers shipped_checkers) = {''BundleChecker'', ''SystemChecker''}" by (auto simp: shipped_checkers_def)
  qed (simp_all add: cmap_ops.defs alist_cmap_def service0_def boot_env0_def)
  thus ?thesis unfolding Let_def s' option.sel by (simp add: app_id_spec_def checker_env0_def reinstall_def u)
qed

section \<open>Stores lie apart\<close>

text \<open>The directory section of \<^verbatim>\<open>conf/config.json\<close>.\<close>

definition shipped_strategies :: "DirectoryStrategy list" where
  "shipped_strategies = [
     \<lparr>dis_autoCreate = True, dis_version = 0, dis_pattern = ''/data/{security}/0/mdds/{userId}/default/{bundleName}'',
       dis_metaPath = ''/data/misc_de/0/mdds/Meta'', dis_clonePath = []\<rparr>,
     \<lparr>dis_autoCreate = False, dis_version = 50331651, dis_pattern = ''/data/{type}/{area}/{userId}/database/{bundleName}/{hapName}/{store}'',
       dis_metaPath = ''/data/service/el1/public/database/distributeddata/meta'', dis_clonePath = []\<rparr>,
     \<lparr>dis_autoCreate = False, dis_version = 50331653, dis_pattern = ''/data/{type}/{area}/{userId}/database/{bundleName}/{hapName}/{store}/{customDir}'',
       dis_metaPath = ''/data/service/el1/public/database/distributeddata/meta'',
       dis_clonePath = ''/data/service/el2/{userId}/database/distributeddata/secret_key_backup.conf''\<rparr>]"

definition shipped_directory :: DirectoryConfig where
  "shipped_directory = \<lparr>dic_strategy = shipped_strategies,
     dic_storeTypes = [\<lparr>stt_range = [0, 9], stt_type = ''kvdb''\<rparr>, \<lparr>stt_range = [10, 19], stt_type = ''rdb''\<rparr>, \<lparr>stt_range = [20, 29], stt_type = ''kvdb''\<rparr>]\<rparr>"

lemma shipped_pattern_0:
  "kept_pieces ''/data/{security}/0/mdds/{userId}/default/{bundleName}'' = [''data'', ''{security}'', ''0'', ''mdds'', ''{userId}'', ''default'', ''{bundleName}'']"
  "map (map_of actions) [''data'', ''{security}'', ''0'', ''mdds'', ''{userId}'', ''default'', ''{bundleName}''] = [None, Some GetSecurity, None, None, Some GetUserId, None, Some GetBundleName]"
  using kept_pieces_path_of [of "[''data'', ''{security}'', ''0'', ''mdds'', ''{userId}'', ''default'', ''{bundleName}'']"] by (simp_all add: plain_section_def actions_def)

lemma shipped_pattern_1:
  "kept_pieces ''/data/{type}/{area}/{userId}/database/{bundleName}/{hapName}/{store}'' = [''data'', ''{type}'', ''{area}'', ''{userId}'', ''database'', ''{bundleName}'', ''{hapName}'', ''{store}'']"
  "map (map_of actions) [''data'', ''{type}'', ''{area}'', ''{userId}'', ''database'', ''{bundleName}'', ''{hapName}'', ''{store}''] = [None, Some GetType, Some GetArea, Some GetUserId, None, Some GetBundleName, Some GetHapName, Some GetStore]"
  using kept_pieces_path_of [of "[''data'', ''{type}'', ''{area}'', ''{userId}'', ''database'', ''{bundleName}'', ''{hapName}'', ''{store}'']"] by (simp_all add: plain_section_def actions_def)

lemma shipped_pattern_2:
  "kept_pieces ''/data/{type}/{area}/{userId}/database/{bundleName}/{hapName}/{store}/{customDir}'' = [''data'', ''{type}'', ''{area}'', ''{userId}'', ''database'', ''{bundleName}'', ''{hapName}'', ''{store}'', ''{customDir}'']"
  "map (map_of actions) [''data'', ''{type}'', ''{area}'', ''{userId}'', ''database'', ''{bundleName}'', ''{hapName}'', ''{store}'', ''{customDir}''] = [None, Some GetType, Some GetArea, Some GetUserId, None, Some GetBundleName, Some GetHapName, Some GetStore, Some GetCustomDir]"
  using kept_pieces_path_of [of "[''data'', ''{type}'', ''{area}'', ''{userId}'', ''database'', ''{bundleName}'', ''{hapName}'', ''{store}'', ''{customDir}'']"] by (simp_all add: plain_section_def actions_def)

text \<open>The sections each strategy writes for a store, up to the application.\<close>

definition old_sections :: "dir_env \<Rightarrow> StoreMetaData \<Rightarrow> string list" where
  "old_sections E md = [''data'', dir_GetSecurity (de_levels E) md, ''0'', ''mdds'', dir_GetUserId (de_token E) md, ''default'', dir_GetBundleName md]"

definition new_sections :: "dir_env \<Rightarrow> StoreMetaData \<Rightarrow> string list" where
  "new_sections E md = [''data'', dir_GetType (de_token E) md, dir_GetArea md, dir_GetUserId (de_token E) md, ''database'', dir_GetBundleName md]"

lemma shipped_sections:
  assumes "s \<in> set (map (impl_of \<circ> to_strategy) shipped_strategies)"
  shows "(\<forall>md ss. sections_of E types md s = Some ss \<longrightarrow> take 7 ss = old_sections E md) \<or>
    (\<forall>md ss. sections_of E types md s = Some ss \<longrightarrow> take 6 ss = new_sections E md)"
proof -
  have i: "impl_of t = \<lparr>sti_autoCreate = str_autoCreate t, sti_version = str_version t, sti_metaPath = str_metaPath t,
      sti_clonePath = str_clonePath t, sti_path = kept_pieces (str_pattern t), sti_pipes = map (map_of actions) (kept_pieces (str_pattern t))\<rparr>" for t
    by (simp add: impl_of_def to_impl_pieces)
  consider "sti_path s = kept_pieces ''/data/{security}/0/mdds/{userId}/default/{bundleName}''"
    | "sti_path s = kept_pieces ''/data/{type}/{area}/{userId}/database/{bundleName}/{hapName}/{store}''"
    | "sti_path s = kept_pieces ''/data/{type}/{area}/{userId}/database/{bundleName}/{hapName}/{store}/{customDir}''"
    using assms by (auto simp: shipped_strategies_def to_strategy_def i)
  moreover have pipes: "sti_pipes s = map (map_of actions) (sti_path s)" using assms by (auto simp: i)
  ultimately show ?thesis
  proof cases
    case 1
    note path = 1 [unfolded shipped_pattern_0(1)]
    show ?thesis unfolding sections_of_def pipes path shipped_pattern_0(2)
      by (rule disjI1) (auto simp: section_of_def old_sections_def)
  next
    case 2
    note path = 2 [unfolded shipped_pattern_1(1)]
    show ?thesis unfolding sections_of_def pipes path shipped_pattern_1(2)
      by (rule disjI2) (auto simp: section_of_def new_sections_def split: option.splits)
  next
    case 3
    note path = 3 [unfolded shipped_pattern_2(1)]
    show ?thesis unfolding sections_of_def pipes path shipped_pattern_2(2)
      by (rule disjI2) (auto simp: section_of_def new_sections_def split: option.splits)
  qed
qed

text \<open>Names of users and applications as the system gives them.\<close>

definition proper_names :: "StoreMetaData \<Rightarrow> bool" where
  "proper_names md \<longleftrightarrow> plain_section (sm_user md) \<and> sm_user md \<noteq> ''public'' \<and>
     plain_section (sm_bundleName md) \<and> hd (sm_bundleName md) \<noteq> CHR ''+''"

lemma to_string_no_slash: "CHR ''/'' \<notin> set (to_string i)" "CHR ''+'' \<notin> set (to_string i)"
  by (auto dest!: to_string_chars simp: is_digit_def)

lemma dir_GetUserId_plain: "proper_names md \<Longrightarrow> plain_section (dir_GetUserId K md)"
  by (auto simp: proper_names_def dir_GetUserId_def Let_def plain_section_def)

lemma dir_GetBundleName_plain: "proper_names md \<Longrightarrow> plain_section (dir_GetBundleName md)"
  by (auto simp: proper_names_def dir_GetBundleName_def plain_section_def to_string_no_slash)

lemma dir_GetUserId_inj:
  "proper_names a \<Longrightarrow> proper_names b \<Longrightarrow> dir_GetUserId K a = dir_GetUserId K b \<Longrightarrow> sm_user a = sm_user b"
  by (auto simp: proper_names_def dir_GetUserId_def Let_def split: if_splits)

lemma dir_GetBundleName_inj:
  assumes "proper_names a" "proper_names b" "dir_GetBundleName a = dir_GetBundleName b"
  shows "sm_bundleName a = sm_bundleName b \<and> sm_instanceId a = sm_instanceId b"
proof -
  have h: "hd (dir_GetBundleName md) = CHR ''+'' \<longleftrightarrow> sm_instanceId md \<noteq> 0" if "proper_names md" for md
    using that by (simp add: dir_GetBundleName_def proper_names_def)
  show ?thesis
  proof (cases "sm_instanceId a = 0")
    case True
    hence "sm_instanceId b = 0" using h [OF assms(1)] h [OF assms(2)] assms(3) by simp
    thus ?thesis using True assms(3) by (simp add: dir_GetBundleName_def)
  next
    case False
    hence b: "sm_instanceId b \<noteq> 0" using h [OF assms(1)] h [OF assms(2)] assms(3) by simp
    let ?i = "to_string (sint (sm_instanceId a))" and ?j = "to_string (sint (sm_instanceId b))"
    have "?i @ CHR ''+'' # sm_bundleName a = ?j @ CHR ''+'' # sm_bundleName b"
      using False b assms(3) by (simp add: dir_GetBundleName_def)
    moreover have "takeWhile (\<lambda>c. c \<noteq> CHR ''+'') (to_string i @ CHR ''+'' # r) = to_string i" for i r
      using to_string_no_slash(2) [of i] by (subst takeWhile_append2) auto
    ultimately have "?i = ?j" by metis
    thus ?thesis using \<open>?i @ _ = _\<close> by (simp add: to_string_inj signed_word_eqI)
  qed
qed

lemma shipped_plain:
  assumes "proper_names md"
  shows "list_all plain_section (old_sections E md)" "list_all plain_section (new_sections E md)"
  using dir_GetUserId_plain [OF assms] dir_GetBundleName_plain [OF assms]
  by (auto simp: old_sections_def new_sections_def plain_section_def dir_GetSecurity_def dir_GetType_def dir_GetArea_def Let_def to_string_no_slash)

lemma shipped_same:
  assumes "proper_names a" "proper_names b" "old_sections E a = old_sections E b \<or> new_sections E a = new_sections E b"
  shows "sm_user a = sm_user b \<and> sm_bundleName a = sm_bundleName b \<and> sm_instanceId a = sm_instanceId b"
  using dir_GetUserId_inj [OF assms(1,2)] dir_GetBundleName_inj [OF assms(1,2)] assms(3)
  by (auto simp: old_sections_def new_sections_def)

lemma shipped_strategy:
  assumes "Boot_LoadDirectory (Some shipped_directory) m0 = Some m"
  shows "0 \<le> GetVersionIndex m version" "dir_strategies m ! nat (GetVersionIndex m version) \<in> set (map (impl_of \<circ> to_strategy) shipped_strategies)"
proof -
  have m: "dir_strategies m = sort_strategies (map impl_of (map to_strategy shipped_strategies))"
    using assms by (auto simp: Boot_LoadDirectory_def Directory_Initialize_total shipped_directory_def)
  have "dir_strategies m \<noteq> []" using m by (simp add: sort_strategies_def shipped_strategies_def)
  then obtain k where k: "GetVersionIndex m version = int k" "k < length (dir_strategies m)"
    by (rule GetVersionIndex_from_cases [of _ 0 version]) (auto simp: GetVersionIndex_def)
  thus "0 \<le> GetVersionIndex m version" by simp
  have "dir_strategies m ! k \<in> set (dir_strategies m)" using k(2) by simp
  thus "dir_strategies m ! nat (GetVersionIndex m version) \<in> set (map (impl_of \<circ> to_strategy) shipped_strategies)"
    using k(1) m by (simp add: sort_strategies_def)
qed

lemma GenPath_has_sections:
  assumes "GenPath E F m md version ex f = Some r" "0 \<le> GetVersionIndex m version"
  obtains ss where "sections_of E (dir_storeTypes m) md (dir_strategies m ! nat (GetVersionIndex m version)) = Some ss"
  using assms by (auto simp: GenPath_def Let_def join_sections_those sections_of_def split: option.splits)

text \<open>
  C8: With the directory section of the shipped configuration, stores of different users, applications
  or clones of an application never share a directory, whatever the version, and neither does the
  directory of one with the backup directory of another: if two agree, so do user, bundle name and instance.  The
  names are those the system gives: not empty, without a slash, no user called public, and no bundle
  name that starts with a plus sign.
\<close>

theorem shipped_paths_apart:
  assumes "Boot_LoadDirectory (Some shipped_directory) m0 = Some m"
    and "GenPath E F m a version ex f = Some (path, f1)" and "GenPath E F m b version ex' g = Some (path, g1)"
    and "proper_names a" and "proper_names b"
  shows "sm_user a = sm_user b \<and> sm_bundleName a = sm_bundleName b \<and> sm_instanceId a = sm_instanceId b"
proof -
  let ?s = "dir_strategies m ! nat (GetVersionIndex m version)"
  note i = shipped_strategy [OF assms(1), of version]
  obtain sa where sa: "sections_of E (dir_storeTypes m) a ?s = Some sa" by (rule GenPath_has_sections [OF assms(2) i(1)])
  obtain sb where sb: "sections_of E (dir_storeTypes m) b ?s = Some sb" by (rule GenPath_has_sections [OF assms(3) i(1)])
  have l: "length (old_sections E md) = 7" "length (new_sections E md) = 6" for md by (simp_all add: old_sections_def new_sections_def)
  have same: "take n sa = take n sb"
    if "list_all plain_section (take n sa)" "list_all plain_section (take n sb)" "length (take n sa) = n" "length (take n sb) = n" for n
    by (rule GenPath_same_sections [OF assms(2,3) i(1) refl sa that(1) sb that(2)]) (use that(3,4) in simp_all)
  from shipped_sections [OF i(2), of E "dir_storeTypes m"] show ?thesis
  proof
    assume "\<forall>md ss. sections_of E (dir_storeTypes m) md ?s = Some ss \<longrightarrow> take 7 ss = old_sections E md"
    hence t: "take 7 sa = old_sections E a" "take 7 sb = old_sections E b" using sa sb by blast+
    thus ?thesis using same [of 7] shipped_same [OF assms(4,5), of E] by (simp add: l shipped_plain assms(4,5))
  next
    assume "\<forall>md ss. sections_of E (dir_storeTypes m) md ?s = Some ss \<longrightarrow> take 6 ss = new_sections E md"
    hence t: "take 6 sa = new_sections E a" "take 6 sb = new_sections E b" using sa sb by blast+
    thus ?thesis using same [of 6] shipped_same [OF assms(4,5), of E] by (simp add: l shipped_plain assms(4,5))
  qed
qed

lemma GenPath_ignores_store: "GenPath E F m (md\<lparr>sm_storeId := x\<rparr>) version ex f = GenPath E F m md version ex f"
proof -
  have "dir_GetStore types (md\<lparr>sm_storeId := x\<rparr>) = dir_GetStore types md" for types by (induction types) (auto split: list.split)
  hence "run_action E types action (md\<lparr>sm_storeId := x\<rparr>) = run_action E types action md" for types action
    by (cases action) (simp_all add: dir_GetSecurity_def dir_GetType_def dir_GetArea_def dir_GetUserId_def dir_GetBundleName_def Let_def)
  hence "section_of E types (md\<lparr>sm_storeId := x\<rparr>) = section_of E types md" for types by (simp add: fun_eq_iff section_of_def split: option.split)
  hence "join_sections E types (md\<lparr>sm_storeId := x\<rparr>) = join_sections E types md" for types by (intro ext) (simp add: join_sections_those)
  thus ?thesis by (simp add: GenPath_def Let_def)
qed

definition dir_env0 :: dir_env where
  "dir_env0 = \<lparr>de_token = ce_token checker_env0, de_levels = \<lparr>sl_NO_LABEL = 0, sl_S0 = 1, sl_S1 = 2\<rparr>\<rparr>"

definition app_store :: StoreMetaData where
  "app_store = StoreMetaData_new\<lparr>sm_user := ''100'', sm_bundleName := ''com.app'', sm_tokenId := 1, sm_storeType := 1\<rparr>"

lemma shipped_GenPath_returns: "\<exists>r. GenPath E F (the (Boot_LoadDirectory (Some shipped_directory) m0)) md version ex f = Some r"
proof -
  let ?m = "the (Boot_LoadDirectory (Some shipped_directory) m0)"
  have t: "dir_storeTypes ?m = map to_store_type (dic_storeTypes shipped_directory)"
    by (simp add: Boot_LoadDirectory_def Directory_Initialize_total)
  have "dir_GetStore (dir_storeTypes ?m) md \<noteq> None" unfolding t by (simp add: shipped_directory_def to_store_type_def)
  hence "run_action E (dir_storeTypes ?m) action md \<noteq> None" for action by (cases action) simp_all
  hence r: "section_of E (dir_storeTypes ?m) md e \<noteq> None" for e by (simp add: section_of_def split: option.split)
  have "those (map (section_of E (dir_storeTypes ?m) md) es) \<noteq> None" for es
    by (induction es) (use r in \<open>auto split: option.split\<close>)
  then obtain p where "join_sections E (dir_storeTypes ?m) md (sti_path (dir_strategies ?m ! nat (GetVersionIndex ?m version)))
      (sti_pipes (dir_strategies ?m ! nat (GetVersionIndex ?m version))) [] = Some p" by (fastforce simp: join_sections_those)
  thus ?thesis by (simp add: GenPath_def Let_def)
qed

theorem shipped_paths_apart_witness:
  "let m = the (Boot_LoadDirectory (Some shipped_directory) DirectoryManager_new); other = app_store\<lparr>sm_storeId := ''other''\<rparr>
   in GenPath dir_env0 list_fs m app_store 50331653 [] [''/''] = GenPath dir_env0 list_fs m other 50331653 [] [''/''] \<and>
      sm_user app_store = sm_user other \<and> sm_bundleName app_store = sm_bundleName other \<and> sm_instanceId app_store = sm_instanceId other"
proof -
  let ?m = "the (Boot_LoadDirectory (Some shipped_directory) DirectoryManager_new)" and ?o = "app_store\<lparr>sm_storeId := ''other''\<rparr>"
  have m: "Boot_LoadDirectory (Some shipped_directory) DirectoryManager_new = Some ?m"
    by (simp add: Boot_LoadDirectory_def Directory_Initialize_total)
  obtain p f where p: "GenPath dir_env0 list_fs ?m app_store 50331653 [] [''/''] = Some (p, f)" using shipped_GenPath_returns by fastforce
  have o: "GenPath dir_env0 list_fs ?m ?o 50331653 [] [''/''] = Some (p, f)" using p by (simp only: GenPath_ignores_store)
  have n: "proper_names app_store" "proper_names ?o" by (simp_all add: proper_names_def plain_section_def app_store_def)
  show ?thesis unfolding Let_def p o using shipped_paths_apart [OF m p o n] by simp
qed

text \<open>
  The trusted applications are handed over with bundle name and application identifier exchanged, and
  looked up by the identifier: an application is trusted only if the last entry of that identifier has
  the identifier as its bundle name as well.
\<close>

lemma trusted_app_needs_equal_names:
  "IsTrust (Boot_LoadSyncTrustedApp (Some c) []) a \<Longrightarrow> \<exists>i \<in> set (aac_trusts c). tra_bundleName i = a \<and> tra_appId i = a"
  using IsTrust_needs_equal [of "map (\<lambda>info. \<lparr>acm_appId = tra_bundleName info, acm_bundleName = tra_appId info\<rparr>) (aac_trusts c)" a]
  by (auto simp: Boot_LoadSyncTrustedApp_def)

end
