(* ===== verification/Value_Proxy.thy ===== *)
theory Value_Proxy
  imports General_Value Serializable_Maps
begin

text \<open>
  Values between libraries: \<^verbatim>\<open>service/common/value_proxy.cpp\<close> with the conversion of variants in
  \<^verbatim>\<open>framework/include/store/general_value.h\<close>.  The service has its own variant of values, and so have
  the relational store, the common types and the distributed database.  A variant of another library
  is the record \<open>foreign\<close>: what can be read from it as which alternative, which alternatives it has,
  and how a value is put into it.  The numbers of the database's asset states are \<open>db_states\<close>, and of
  the structures of other libraries the records below hold the fields the conversions name.  The
  results: a row that passes through another library keeps its columns and, where the library has the
  type, the type and value of each column; and what a passage does to an asset.
\<close>

section \<open>Assets\<close>

record AssetValue =
  av_version :: u32
  av_status :: u32
  av_expiresTime :: u64
  av_id :: string
  av_name :: string
  av_uri :: string
  av_createTime :: string
  av_modifyTime :: string
  av_size :: string
  av_hash :: string
  av_path :: string
  av_extension :: string

record DBAsset =
  da_version :: u32
  da_name :: string
  da_assetId :: string
  da_subpath :: string
  da_uri :: string
  da_modifyTime :: string
  da_createTime :: string
  da_size :: string
  da_hash :: string
  da_extension :: string
  da_status :: u32

definition Asset_of_value :: "AssetValue \<Rightarrow> Asset" where
  "Asset_of_value asset = \<lparr>as_version = av_version asset,
     as_status = av_status asset,
     as_expiresTime = av_expiresTime asset,
     as_id = av_id asset,
     as_name = av_name asset,
     as_uri = av_uri asset,
     as_createTime = av_createTime asset,
     as_modifyTime = av_modifyTime asset,
     as_size = av_size asset,
     as_hash = av_hash asset,
     as_path = av_path asset,
     as_extension = av_extension asset\<rparr>"

definition value_of_Asset :: "Asset \<Rightarrow> AssetValue" where
  "value_of_Asset asset = \<lparr>av_version = as_version asset,
     av_status = as_status asset,
     av_expiresTime = as_expiresTime asset,
     av_id = as_id asset,
     av_name = as_name asset,
     av_uri = as_uri asset,
     av_createTime = as_createTime asset,
     av_modifyTime = as_modifyTime asset,
     av_size = as_size asset,
     av_hash = as_hash asset,
     av_path = as_path asset,
     av_extension = as_extension asset\<rparr>"

text \<open>The states of the database's assets, and those of the service.\<close>

record db_states =
  ds_NORMAL :: u32
  ds_DOWNLOADING :: u32
  ds_TO_DOWNLOAD :: u32
  ds_ABNORMAL :: u32
  ds_INSERT :: u32
  ds_UPDATE :: u32
  ds_DELETE :: u32

abbreviation (input) STATUS_UNKNOWN :: u32 where "STATUS_UNKNOWN \<equiv> 0"
abbreviation (input) STATUS_NORMAL :: u32 where "STATUS_NORMAL \<equiv> 1"
abbreviation (input) STATUS_INSERT :: u32 where "STATUS_INSERT \<equiv> 2"
abbreviation (input) STATUS_UPDATE :: u32 where "STATUS_UPDATE \<equiv> 3"
abbreviation (input) STATUS_DELETE :: u32 where "STATUS_DELETE \<equiv> 4"
abbreviation (input) STATUS_ABNORMAL :: u32 where "STATUS_ABNORMAL \<equiv> 5"
abbreviation (input) STATUS_DOWNLOADING :: u32 where "STATUS_DOWNLOADING \<equiv> 6"
abbreviation (input) STATUS_TO_DOWNLOAD :: u32 where "STATUS_TO_DOWNLOAD \<equiv> 7"
abbreviation (input) STATUS_SKIP_ASSET :: u32 where "STATUS_SKIP_ASSET \<equiv> 8"
abbreviation (input) STATUS_NOT_FOUND :: u32 where "STATUS_NOT_FOUND \<equiv> 9"

unbundle bit_operations_syntax

definition GetHighStatus :: "u32 \<Rightarrow> u32" where
  "GetHighStatus status = status AND 0xF0000000"

definition GetLowStatus :: "u32 \<Rightarrow> u32" where
  "GetLowStatus status = status AND NOT 0xF0000000"

definition ConvertToDataStatus :: "db_states \<Rightarrow> u32 \<Rightarrow> u32" where
  "ConvertToDataStatus D status =
     (let highStatus = GetHighStatus status;
          lowStatus = GetLowStatus status;
          lowStatus =
            (if lowStatus = ds_NORMAL D then STATUS_NORMAL
             else if lowStatus = ds_DOWNLOADING D then STATUS_DOWNLOADING
             else if lowStatus = ds_TO_DOWNLOAD D then STATUS_TO_DOWNLOAD
             else if lowStatus = ds_ABNORMAL D then STATUS_ABNORMAL
             else if lowStatus = ds_INSERT D then STATUS_INSERT
             else if lowStatus = ds_UPDATE D then STATUS_UPDATE
             else if lowStatus = ds_DELETE D then STATUS_DELETE
             else STATUS_NORMAL)
      in lowStatus OR highStatus)"

definition ConvertToDBStatus :: "db_states \<Rightarrow> u32 \<Rightarrow> u32" where
  "ConvertToDBStatus D status =
     (let highStatus = GetHighStatus status;
          lowStatus = GetLowStatus status;
          lowStatus =
            (if lowStatus = STATUS_NORMAL then ds_NORMAL D
             else if lowStatus = STATUS_ABNORMAL \<or> lowStatus = STATUS_SKIP_ASSET \<or> lowStatus = STATUS_NOT_FOUND then ds_ABNORMAL D
             else if lowStatus = STATUS_INSERT then ds_INSERT D
             else if lowStatus = STATUS_UPDATE then ds_UPDATE D
             else if lowStatus = STATUS_DELETE then ds_DELETE D
             else if lowStatus = STATUS_DOWNLOADING then ds_DOWNLOADING D
             else if lowStatus = STATUS_TO_DOWNLOAD then ds_TO_DOWNLOAD D
             else ds_NORMAL D)
      in lowStatus OR highStatus)"

definition TempAsset_ConvertToDataStatus :: "db_states \<Rightarrow> u32 \<Rightarrow> u32" where
  "TempAsset_ConvertToDataStatus D status =
     (let highStatus = GetHighStatus status;
          lowStatus = GetLowStatus status;
          lowStatus =
            (if lowStatus = ds_NORMAL D then STATUS_NORMAL
             else if lowStatus = ds_ABNORMAL D then STATUS_ABNORMAL
             else if lowStatus = ds_INSERT D then STATUS_INSERT
             else if lowStatus = ds_UPDATE D then STATUS_UPDATE
             else if lowStatus = ds_DELETE D then STATUS_DELETE
             else if lowStatus = ds_DOWNLOADING D then STATUS_DOWNLOADING
             else if lowStatus = ds_TO_DOWNLOAD D then STATUS_TO_DOWNLOAD
             else STATUS_NORMAL)
      in lowStatus OR highStatus)"

definition Asset_of_db :: "db_states \<Rightarrow> DBAsset \<Rightarrow> Asset" where
  "Asset_of_db D asset = \<lparr>as_version = da_version asset,
     as_status = ConvertToDataStatus D (da_status asset),
     as_expiresTime = 0,
     as_id = da_assetId asset,
     as_name = da_name asset,
     as_uri = da_uri asset,
     as_createTime = da_createTime asset,
     as_modifyTime = da_modifyTime asset,
     as_size = da_size asset,
     as_hash = da_hash asset,
     as_path = da_subpath asset,
     as_extension = da_extension asset\<rparr>"

definition db_of_Asset :: "db_states \<Rightarrow> Asset \<Rightarrow> DBAsset" where
  "db_of_Asset D asset = \<lparr>da_version = as_version asset,
     da_name = as_name asset,
     da_assetId = as_id asset,
     da_subpath = as_path asset,
     da_uri = as_uri asset,
     da_modifyTime = as_modifyTime asset,
     da_createTime = as_createTime asset,
     da_size = as_size asset,
     da_hash = as_hash asset,
     da_extension = as_extension asset,
     da_status = ConvertToDBStatus D (as_status asset)\<rparr>"

definition TempAsset_of_db :: "db_states \<Rightarrow> DBAsset \<Rightarrow> Asset" where
  "TempAsset_of_db D asset = \<lparr>as_version = da_version asset,
     as_status = TempAsset_ConvertToDataStatus D (da_status asset),
     as_expiresTime = 0,
     as_id = da_assetId asset,
     as_name = da_name asset,
     as_uri = da_uri asset,
     as_createTime = da_createTime asset,
     as_modifyTime = da_modifyTime asset,
     as_size = da_size asset,
     as_hash = da_hash asset,
     as_path = da_subpath asset,
     as_extension = da_extension asset\<rparr>"

text \<open>A list of assets is converted one by one.\<close>

fun convert_assets :: "('a \<Rightarrow> 'b) \<Rightarrow> 'a list \<Rightarrow> 'b list" where
  "convert_assets f [] = []"
| "convert_assets f (asset # assets) = f asset # convert_assets f assets"

section \<open>Variants\<close>

text \<open>
  The conversion of one variant to another tries the alternatives of the target in order; the first
  that can be read from the source is taken, and if there is none the target stays as it is.
\<close>

fun GetItem :: "('i \<Rightarrow> 'o option) list \<Rightarrow> 'i \<Rightarrow> 'o \<Rightarrow> bool \<times> 'o" where
  "GetItem [] input out = (False, out)"
| "GetItem (First # Rest) input out =
     (case First input of Some val \<Rightarrow> (True, val) | None \<Rightarrow> GetItem Rest input out)"

datatype kind = KNull | KInt | KDouble | KString | KBool | KBytes | KAsset | KAssets | KRelations

definition proxy_kinds :: "kind list" where
  "proxy_kinds = [KNull, KInt, KDouble, KString, KBool, KBytes, KAsset, KAssets, KRelations]"

fun kind_of :: "Value \<Rightarrow> kind" where
  "kind_of VNull = KNull"
| "kind_of (VInt _) = KInt"
| "kind_of (VDouble _) = KDouble"
| "kind_of (VString _) = KString"
| "kind_of (VBool _) = KBool"
| "kind_of (VBytes _) = KBytes"
| "kind_of (VAsset _) = KAsset"
| "kind_of (VAssets _) = KAssets"
| "kind_of (VRelations _) = KRelations"

datatype 'a payload =
    PNull
  | PInt u64
  | PDouble u64
  | PString string
  | PBool bool
  | PBytes "u8 list"
  | PAsset 'a
  | PAssets "'a list"
  | PRelations "(string \<times> string) list"

fun of_payload :: "('a \<Rightarrow> Asset) \<Rightarrow> 'a payload \<Rightarrow> Value" where
  "of_payload f PNull = VNull"
| "of_payload f (PInt i) = VInt i"
| "of_payload f (PDouble d) = VDouble d"
| "of_payload f (PString s) = VString s"
| "of_payload f (PBool b) = VBool b"
| "of_payload f (PBytes b) = VBytes b"
| "of_payload f (PAsset a) = VAsset (f a)"
| "of_payload f (PAssets as) = VAssets (convert_assets f as)"
| "of_payload f (PRelations r) = VRelations r"

fun to_payload :: "(Asset \<Rightarrow> 'a) \<Rightarrow> Value \<Rightarrow> 'a payload" where
  "to_payload f VNull = PNull"
| "to_payload f (VInt i) = PInt i"
| "to_payload f (VDouble d) = PDouble d"
| "to_payload f (VString s) = PString s"
| "to_payload f (VBool b) = PBool b"
| "to_payload f (VBytes b) = PBytes b"
| "to_payload f (VAsset a) = PAsset (f a)"
| "to_payload f (VAssets as) = PAssets (convert_assets f as)"
| "to_payload f (VRelations r) = PRelations r"

text \<open>
  A variant of another library: what \<^verbatim>\<open>Traits::get_if\<close> reads from it as an alternative of the proxy,
  the alternatives it has among those of the proxy in its own order, how a value is assigned to it,
  and what it holds when it is new.
\<close>

record ('x, 'a) foreign =
  fo_get_if :: "kind \<Rightarrow> 'x \<Rightarrow> 'a payload option"
  fo_alts :: "kind list"
  fo_assign :: "'a payload \<Rightarrow> 'x"
  fo_new :: 'x

definition Convert_value :: "('a \<Rightarrow> Asset) \<Rightarrow> ('x, 'a) foreign \<Rightarrow> 'x \<Rightarrow> Value" where
  "Convert_value f F x = snd (GetItem (map (\<lambda>k x. map_option (of_payload f) (fo_get_if F k x)) proxy_kinds) x VNull)"

definition value_to_foreign :: "(Asset \<Rightarrow> 'a) \<Rightarrow> ('x, 'a) foreign \<Rightarrow> Value \<Rightarrow> 'x" where
  "value_to_foreign f F v =
     snd (GetItem (map (\<lambda>k v. if kind_of v = k then Some (fo_assign F (to_payload f v)) else None) (fo_alts F)) v (fo_new F))"

fun Convert_values :: "('a \<Rightarrow> Asset) \<Rightarrow> ('x, 'a) foreign \<Rightarrow> 'x list \<Rightarrow> Value list" where
  "Convert_values f F [] = []"
| "Convert_values f F (x # xs) = Convert_value f F x # Convert_values f F xs"

fun values_to_foreign :: "(Asset \<Rightarrow> 'a) \<Rightarrow> ('x, 'a) foreign \<Rightarrow> Value list \<Rightarrow> 'x list" where
  "values_to_foreign f F [] = []"
| "values_to_foreign f F (v # vs) = value_to_foreign f F v # values_to_foreign f F vs"

section \<open>Rows\<close>

text \<open>Rows are maps from column names, and a row is converted column by column with \<^verbatim>\<open>insert_or_assign\<close>.\<close>

definition Convert_bucket :: "('a \<Rightarrow> Asset) \<Rightarrow> ('x, 'a) foreign \<Rightarrow> (string \<times> 'x) list \<Rightarrow> VBucket" where
  "Convert_bucket f F bucket = fold (\<lambda>(key, value) proxy. map_put key (Convert_value f F value) proxy) bucket []"

definition bucket_to_foreign :: "(Asset \<Rightarrow> 'a) \<Rightarrow> ('x, 'a) foreign \<Rightarrow> VBucket \<Rightarrow> (string \<times> 'x) list \<times> VBucket" where
  "bucket_to_foreign f F proxy = (fold (\<lambda>(key, value) bucket. map_put key (value_to_foreign f F value) bucket) proxy [], [])"

fun Convert_buckets :: "('a \<Rightarrow> Asset) \<Rightarrow> ('x, 'a) foreign \<Rightarrow> (string \<times> 'x) list list \<Rightarrow> VBucket list" where
  "Convert_buckets f F [] = []"
| "Convert_buckets f F (b # bs) = Convert_bucket f F b # Convert_buckets f F bs"

definition buckets_to_foreign :: "(Asset \<Rightarrow> 'a) \<Rightarrow> ('x, 'a) foreign \<Rightarrow> VBucket list \<Rightarrow> (string \<times> 'x) list list \<times> VBucket list" where
  "buckets_to_foreign f F proxy = (map (\<lambda>b. fst (bucket_to_foreign f F b)) proxy, [])"

section \<open>One passage\<close>

text \<open>
  What the other libraries promise: reading as an alternative gives a value of that alternative, a value
  assigned is read back as its own alternative only, and a new variant holds nothing that can be read
  as anything but null.
\<close>

fun payload_kind :: "'a payload \<Rightarrow> kind" where
  "payload_kind PNull = KNull"
| "payload_kind (PInt _) = KInt"
| "payload_kind (PDouble _) = KDouble"
| "payload_kind (PString _) = KString"
| "payload_kind (PBool _) = KBool"
| "payload_kind (PBytes _) = KBytes"
| "payload_kind (PAsset _) = KAsset"
| "payload_kind (PAssets _) = KAssets"
| "payload_kind (PRelations _) = KRelations"

definition foreign_ok :: "('x, 'a) foreign \<Rightarrow> bool" where
  "foreign_ok F \<longleftrightarrow>
     (\<forall>k x p. fo_get_if F k x = Some p \<longrightarrow> payload_kind p = k) \<and>
     (\<forall>p k. payload_kind p \<in> set (fo_alts F) \<longrightarrow> fo_get_if F k (fo_assign F p) = (if k = payload_kind p then Some p else None)) \<and>
     (\<forall>k. k \<noteq> KNull \<longrightarrow> fo_get_if F k (fo_new F) = None)"

text \<open>A value with its assets changed.\<close>

fun map_assets :: "(Asset \<Rightarrow> Asset) \<Rightarrow> Value \<Rightarrow> Value" where
  "map_assets f (VAsset a) = VAsset (f a)"
| "map_assets f (VAssets as) = VAssets (map f as)"
| "map_assets f v = v"

lemma convert_assets_map [simp]: "convert_assets f as = map f as"
  by (induction "as") simp_all

lemma kind_of_payload [simp]: "kind_of (of_payload f p) = payload_kind p" "payload_kind (to_payload g v) = kind_of v"
  by (cases p; simp) (cases v; simp)

lemma of_to_payload: "of_payload f (to_payload g v) = map_assets (f \<circ> g) v"
  by (cases v) simp_all

lemma GetItem_first:
  assumes "First \<in> set alts" "First input = Some out" "list_all (\<lambda>g. g input = None \<or> g input = Some out) alts"
  shows "GetItem alts input old = (True, out)"
  using assms by (induction alts) (auto split: option.split)

lemma GetItem_none: "list_all (\<lambda>g. g input = None) alts \<Longrightarrow> GetItem alts input old = (False, old)"
  by (induction alts) auto

lemma proxy_kinds_all: "k \<in> set proxy_kinds"
  by (cases k) (simp_all add: proxy_kinds_def)

lemma Convert_value_assigned:
  assumes "foreign_ok F" "kind_of v \<in> set (fo_alts F)"
  shows "Convert_value f F (fo_assign F (to_payload g v)) = map_assets (f \<circ> g) v"
proof -
  let ?x = "fo_assign F (to_payload g v)"
  have r: "fo_get_if F k ?x = (if k = kind_of v then Some (to_payload g v) else None)" for k
    using assms by (simp add: foreign_ok_def)
  have "GetItem (map (\<lambda>k x. map_option (of_payload f) (fo_get_if F k x)) proxy_kinds) ?x VNull = (True, of_payload f (to_payload g v))"
    by (rule GetItem_first [of "\<lambda>x. map_option (of_payload f) (fo_get_if F (kind_of v) x)"])
      (use proxy_kinds_all in \<open>auto simp: r list_all_iff\<close>)
  thus ?thesis by (simp add: Convert_value_def of_to_payload)
qed

lemma Convert_value_new:
  assumes "foreign_ok F"
  shows "Convert_value f F (fo_new F) = VNull"
proof -
  have "snd (GetItem (map (\<lambda>k x. map_option (of_payload f) (fo_get_if F k x)) ks) (fo_new F) VNull) = VNull" for ks
  proof (induction ks)
    case (Cons k ks)
    have "p = PNull" if p: "fo_get_if F k (fo_new F) = Some p" for p
    proof -
      have "payload_kind p = k" "k = KNull" using assms p unfolding foreign_ok_def by (blast, metis option.distinct(1))
      thus ?thesis by (cases p) simp_all
    qed
    thus ?case using Cons by (auto split: option.split)
  qed simp
  thus ?thesis by (simp add: Convert_value_def)
qed

lemma value_to_foreign_cases:
  "value_to_foreign g F v = (if kind_of v \<in> set (fo_alts F) then fo_assign F (to_payload g v) else fo_new F)"
proof (cases "kind_of v \<in> set (fo_alts F)")
  case True
  let ?h = "\<lambda>k v. if kind_of v = k then Some (fo_assign F (to_payload g v)) else None"
  have "GetItem (map ?h (fo_alts F)) v (fo_new F) = (True, fo_assign F (to_payload g v))"
    by (rule GetItem_first [of "?h (kind_of v)"]) (use True in \<open>auto simp: list_all_iff\<close>)
  thus ?thesis using True by (simp add: value_to_foreign_def)
next
  case False
  hence "GetItem (map (\<lambda>k v. if kind_of v = k then Some (fo_assign F (to_payload g v)) else None) (fo_alts F)) v (fo_new F) = (False, fo_new F)"
    by (intro GetItem_none) (auto simp: list_all_iff)
  thus ?thesis using False by (simp add: value_to_foreign_def)
qed

lemma value_passage:
  "foreign_ok F \<Longrightarrow> Convert_value f F (value_to_foreign g F v) = (if kind_of v \<in> set (fo_alts F) then map_assets (f \<circ> g) v else VNull)"
  by (simp add: value_to_foreign_cases Convert_value_assigned Convert_value_new)

lemma map_put_fold:
  assumes "map_sorted (m @ b)"
  shows "fold (\<lambda>(key, value) row. map_put key (h value) row) b (map (\<lambda>(k, v). (k, h v)) m) = map (\<lambda>(k, v). (k, h v)) (m @ b)"
  using assms
proof (induction b arbitrary: m)
  case (Cons e b)
  obtain k v where e: "e = (k, v)" by force
  have "list_all (\<lambda>x. fst x < k) m" using Cons.prems e by (induction m) auto
  hence "map_put k (h v) (map (\<lambda>(k, v). (k, h v)) m) = map (\<lambda>(k, v). (k, h v)) (m @ [(k, v)])"
    by (subst map_put_last) (auto simp: list_all_iff case_prod_unfold)
  thus ?case using Cons.IH [of "m @ [e]"] Cons.prems e by simp
qed simp

lemma Convert_bucket_sorted: "map_sorted b \<Longrightarrow> Convert_bucket f F b = map (\<lambda>(k, x). (k, Convert_value f F x)) b"
  using map_put_fold [of "[]" b "Convert_value f F"] by (simp add: Convert_bucket_def)

lemma bucket_to_foreign_sorted: "map_sorted b \<Longrightarrow> fst (bucket_to_foreign g F b) = map (\<lambda>(k, v). (k, value_to_foreign g F v)) b"
  using map_put_fold [of "[]" b "value_to_foreign g F"] by (simp add: bucket_to_foreign_def)

lemma map_assets_kind: "kind_of (map_assets f v) = kind_of v"
  by (cases v) simp_all

text \<open>
  C11: A row keeps its columns and types when it passes through the variant of another library and back.
  The columns are the same, and each value has the type it had, or is null if the other library does
  not have that type; and it is the same value, but for what the two conversions of an asset do to it.
\<close>

theorem row_types_kept:
  assumes "foreign_ok F" and "map_sorted row"
  shows "let row' = Convert_bucket f F (fst (bucket_to_foreign g F row))
     in map fst row' = map fst row \<and>
        list_all2 (\<lambda>v v'. kind_of v' = (if kind_of v \<in> set (fo_alts F) then kind_of v else KNull) \<and>
          v' = (if kind_of v \<in> set (fo_alts F) then map_assets (f \<circ> g) v else VNull)) (map snd row) (map snd row')"
proof -
  have "map_sorted (map (\<lambda>(k, v). (k, value_to_foreign g F v)) row)" using assms(2) by (simp add: map_sorted_map)
  hence "Convert_bucket f F (fst (bucket_to_foreign g F row)) =
      map (\<lambda>(k, v). (k, if kind_of v \<in> set (fo_alts F) then map_assets (f \<circ> g) v else VNull)) row"
    by (simp add: bucket_to_foreign_sorted [OF assms(2)] Convert_bucket_sorted case_prod_unfold value_passage [OF assms(1)])
  thus ?thesis by (auto simp: list_all2_map1 list_all2_map2 list_all2_same case_prod_unfold map_assets_kind)
qed

text \<open>A variant with the alternatives a database usually has, as a plain instance.\<close>

definition plain_foreign :: "(DBAsset payload, DBAsset) foreign" where
  "plain_foreign = \<lparr>fo_get_if = (\<lambda>k x. if payload_kind x = k then Some x else None),
     fo_alts = [KNull, KInt, KDouble, KString, KBool, KBytes, KAsset, KAssets], fo_assign = (\<lambda>p. p), fo_new = PNull\<rparr>"

lemma plain_foreign_ok: "foreign_ok plain_foreign"
  by (auto simp: foreign_ok_def plain_foreign_def split: if_splits)

definition plain_states :: db_states where
  "plain_states = \<lparr>ds_NORMAL = 0, ds_DOWNLOADING = 1, ds_TO_DOWNLOAD = 6, ds_ABNORMAL = 2, ds_INSERT = 3, ds_UPDATE = 5, ds_DELETE = 4\<rparr>"

theorem row_types_kept_witness:
  "let row = [(''a'', VInt 7), (''b'', VRelations []), (''c'', VString ''x'')];
       row' = Convert_bucket (Asset_of_db plain_states) plain_foreign (fst (bucket_to_foreign (db_of_Asset plain_states) plain_foreign row))
   in map fst row' = [''a'', ''b'', ''c''] \<and> map (kind_of \<circ> snd) row' = [KInt, KNull, KString]"
proof -
  let ?row = "[(''a'', VInt 7), (''b'', VRelations []), (''c'', VString ''x'')]"
  let ?row' = "Convert_bucket (Asset_of_db plain_states) plain_foreign (fst (bucket_to_foreign (db_of_Asset plain_states) plain_foreign ?row))"
  have "map_sorted ?row" by (simp add: less_char_def)
  from row_types_kept [OF plain_foreign_ok this, of "Asset_of_db plain_states" "db_of_Asset plain_states"]
  have "map fst ?row' = map fst ?row" and
    "list_all2 (\<lambda>v v'. kind_of v' = (if kind_of v \<in> set (fo_alts plain_foreign) then kind_of v else KNull)) (map snd ?row) (map snd ?row')"
    unfolding Let_def by (auto elim: list_all2_mono)
  thus ?thesis unfolding Let_def by (auto simp: list_all2_Cons1 plain_foreign_def)
qed

section \<open>What a passage does to an asset\<close>

lemma status_parts:
  assumes "GetHighStatus x = 0"
  shows "GetLowStatus (x OR GetHighStatus s) = x" "GetHighStatus (x OR GetHighStatus s) = GetHighStatus s"
proof -
  have "x = (x AND 0xF0000000) OR (x AND NOT 0xF0000000)" by (simp add: bit.conj_disj_distrib [symmetric])
  hence "x AND NOT 0xF0000000 = x" using assms by (simp add: GetHighStatus_def)
  thus "GetLowStatus (x OR GetHighStatus s) = x"
    by (simp add: GetLowStatus_def GetHighStatus_def bit.conj_disj_distrib2 and.assoc)
  show "GetHighStatus (x OR GetHighStatus s) = GetHighStatus s"
    using assms by (simp add: GetHighStatus_def bit.conj_disj_distrib2 and.assoc)
qed

definition states_ok :: "db_states \<Rightarrow> bool" where
  "states_ok D \<longleftrightarrow>
     distinct [ds_NORMAL D, ds_DOWNLOADING D, ds_TO_DOWNLOAD D, ds_ABNORMAL D, ds_INSERT D, ds_UPDATE D, ds_DELETE D] \<and>
     (\<forall>x \<in> set [ds_NORMAL D, ds_DOWNLOADING D, ds_TO_DOWNLOAD D, ds_ABNORMAL D, ds_INSERT D, ds_UPDATE D, ds_DELETE D]. GetHighStatus x = 0)"

text \<open>The states the database can tell apart; an unknown one counts as normal.\<close>

definition known_status :: "u32 \<Rightarrow> u32" where
  "known_status low =
     (if low = STATUS_SKIP_ASSET \<or> low = STATUS_NOT_FOUND then STATUS_ABNORMAL
      else if low \<in> {STATUS_NORMAL, STATUS_INSERT, STATUS_UPDATE, STATUS_DELETE, STATUS_ABNORMAL, STATUS_DOWNLOADING, STATUS_TO_DOWNLOAD} then low
      else STATUS_NORMAL)"

lemma data_status_of_state:
  assumes "states_ok D"
  shows "ConvertToDataStatus D (ds_NORMAL D OR GetHighStatus s) = STATUS_NORMAL OR GetHighStatus s" (is ?C1)
    "ConvertToDataStatus D (ds_DOWNLOADING D OR GetHighStatus s) = STATUS_DOWNLOADING OR GetHighStatus s" (is ?C2)
    "ConvertToDataStatus D (ds_TO_DOWNLOAD D OR GetHighStatus s) = STATUS_TO_DOWNLOAD OR GetHighStatus s" (is ?C3)
    "ConvertToDataStatus D (ds_ABNORMAL D OR GetHighStatus s) = STATUS_ABNORMAL OR GetHighStatus s" (is ?C4)
    "ConvertToDataStatus D (ds_INSERT D OR GetHighStatus s) = STATUS_INSERT OR GetHighStatus s" (is ?C5)
    "ConvertToDataStatus D (ds_UPDATE D OR GetHighStatus s) = STATUS_UPDATE OR GetHighStatus s" (is ?C6)
    "ConvertToDataStatus D (ds_DELETE D OR GetHighStatus s) = STATUS_DELETE OR GetHighStatus s" (is ?C7)
proof -
  let ?L = "[ds_NORMAL D, ds_DOWNLOADING D, ds_TO_DOWNLOAD D, ds_ABNORMAL D, ds_INSERT D, ds_UPDATE D, ds_DELETE D]"
  have "distinct (rev ?L)" and h: "\<forall>x \<in> set ?L. GetHighStatus x = 0" using assms unfolding states_ok_def distinct_rev by blast+
  thus ?C1 ?C2 ?C3 ?C4 ?C5 ?C6 ?C7 by (simp_all add: ConvertToDataStatus_def status_parts Let_def)
qed

lemma status_passage:
  assumes "states_ok D"
  shows "ConvertToDataStatus D (ConvertToDBStatus D s) = known_status (GetLowStatus s) OR GetHighStatus s"
proof -
  note d = data_status_of_state [OF assms, of s]
  define l where "l = GetLowStatus s"
  have "ConvertToDataStatus D (ConvertToDBStatus D s) =
      (if l = STATUS_NORMAL then STATUS_NORMAL else if l = STATUS_ABNORMAL \<or> l = STATUS_SKIP_ASSET \<or> l = STATUS_NOT_FOUND then STATUS_ABNORMAL
       else if l = STATUS_INSERT then STATUS_INSERT else if l = STATUS_UPDATE then STATUS_UPDATE else if l = STATUS_DELETE then STATUS_DELETE
       else if l = STATUS_DOWNLOADING then STATUS_DOWNLOADING else if l = STATUS_TO_DOWNLOAD then STATUS_TO_DOWNLOAD else STATUS_NORMAL) OR GetHighStatus s"
    unfolding ConvertToDBStatus_def Let_def l_def [symmetric]
    by (simp only: d if_distrib [of "ConvertToDataStatus D"] if_distrib [of "\<lambda>x. x OR GetHighStatus s"])
  moreover have "known_status l = (if l = STATUS_NORMAL then STATUS_NORMAL
      else if l = STATUS_ABNORMAL \<or> l = STATUS_SKIP_ASSET \<or> l = STATUS_NOT_FOUND then STATUS_ABNORMAL
       else if l = STATUS_INSERT then STATUS_INSERT else if l = STATUS_UPDATE then STATUS_UPDATE else if l = STATUS_DELETE then STATUS_DELETE
       else if l = STATUS_DOWNLOADING then STATUS_DOWNLOADING else if l = STATUS_TO_DOWNLOAD then STATUS_TO_DOWNLOAD else STATUS_NORMAL)"
    by (simp add: known_status_def)
  ultimately show ?thesis by (simp add: l_def)
qed

lemma asset_passage:
  assumes "states_ok D"
  shows "Asset_of_db D (db_of_Asset D a) = a\<lparr>as_status := known_status (GetLowStatus (as_status a)) OR GetHighStatus (as_status a), as_expiresTime := 0\<rparr>"
  by (simp add: Asset_of_db_def db_of_Asset_def status_passage [OF assms])

lemma asset_value_passage: "Asset_of_value (value_of_Asset a) = a" "value_of_Asset (Asset_of_value v) = v"
  by (simp_all add: Asset_of_value_def value_of_Asset_def)

lemma TempAsset_same:
  assumes "states_ok D"
  shows "TempAsset_of_db D a = Asset_of_db D a"
proof -
  have "distinct [ds_NORMAL D, ds_DOWNLOADING D, ds_TO_DOWNLOAD D, ds_ABNORMAL D, ds_INSERT D, ds_UPDATE D, ds_DELETE D]"
    using assms unfolding states_ok_def by blast
  hence "TempAsset_ConvertToDataStatus D s = ConvertToDataStatus D s" for s
    by (simp add: TempAsset_ConvertToDataStatus_def ConvertToDataStatus_def Let_def)
  thus ?thesis by (simp add: TempAsset_of_db_def Asset_of_db_def)
qed

end
