(* ===== verification/Query_Helper.thy ===== *)
theory Query_Helper
  imports CPP_String "HOL-Library.List_Lexorder" "HOL-Library.Char_ord" "HOL-Library.Monad_Syntax"
begin

text \<open>
  The text form of key-value queries, service/kvdb/query_helper.cpp: the query arrives as words
  separated by spaces, and each keyword with its parameters becomes one call on the query object of the
  database library. That object is not part of the repository, so a query is here the list of the calls
  made on it. \<open>words.at\<close> throws outside the words: every handler returns an option, and \<open>None\<close> is the
  exception. The second half states the language: how calls are written as words, and what the parser
  returns for every written query.
\<close>

section \<open>Calls on the query of the database\<close>

datatype 'd query_value = QInt int | QLong int | QDouble 'd | QBool bool | QString string

datatype 'd query_values = QInts "int list" | QLongs "int list" | QDoubles "'d list" | QStrings "string list"

datatype 'd db_call =
    EqualTo string "'d query_value"
  | NotEqualTo string "'d query_value"
  | GreaterThan string "'d query_value"
  | LessThan string "'d query_value"
  | GreaterThanOrEqualTo string "'d query_value"
  | LessThanOrEqualTo string "'d query_value"
  | IsNull string
  | IsNotNull string
  | In string "'d query_values"
  | NotIn string "'d query_values"
  | Like string string
  | NotLike string string
  | And
  | Or
  | OrderBy string bool
  | OrderByWriteTime bool
  | Limit int int
  | BeginGroup
  | EndGroup
  | PrefixKey string
  | InKeys "string list"
  | SuggestIndex string

text \<open>
  What the parser uses of the rest of the system. Extracting a number from a stream that holds no
  character but white space leaves the variable as it was, and the variables are not initialised: what
  they then hold is a parameter. The extraction of floating-point numbers is one too, and so is the
  device manager's translation of network ids.
\<close>

record 'd query_env =
  qe_junk_int :: int
  qe_junk_long :: int
  qe_Double :: "string \<Rightarrow> 'd"
  qe_GetUuidByNetworkId :: "string \<Rightarrow> string"

text \<open>The query under construction with the two static members of the class.\<close>

record 'd query_state =
  dbQuery :: "'d db_call list"
  qs_deviceId :: string
  qs_hasPrefixKey :: bool

definition add_call :: "'d db_call \<Rightarrow> 'd query_state \<Rightarrow> 'd query_state" where
  "add_call c q = q\<lparr>dbQuery := dbQuery q @ [c]\<rparr>"

type_synonym 'd handled = "(bool \<times> nat \<times> 'd query_state) option"

definition MAX_QUERY_LENGTH :: nat where "MAX_QUERY_LENGTH = 5 * 1024"
definition MAX_QUERY_COMPLEXITY :: nat where "MAX_QUERY_COMPLEXITY = 500"

definition EQUAL_TO :: string where "EQUAL_TO = ''^EQUAL''"
definition NOT_EQUAL_TO :: string where "NOT_EQUAL_TO = ''^NOT_EQUAL''"
definition GREATER_THAN :: string where "GREATER_THAN = ''^GREATER''"
definition LESS_THAN :: string where "LESS_THAN = ''^LESS''"
definition GREATER_THAN_OR_EQUAL_TO :: string where "GREATER_THAN_OR_EQUAL_TO = ''^GREATER_EQUAL''"
definition LESS_THAN_OR_EQUAL_TO :: string where "LESS_THAN_OR_EQUAL_TO = ''^LESS_EQUAL''"
definition IS_NULL :: string where "IS_NULL = ''^IS_NULL''"
definition IN_WORD :: string where "IN_WORD = ''^IN''"
definition NOT_IN :: string where "NOT_IN = ''^NOT_IN''"
definition LIKE :: string where "LIKE = ''^LIKE''"
definition NOT_LIKE :: string where "NOT_LIKE = ''^NOT_LIKE''"
definition AND_WORD :: string where "AND_WORD = ''^AND''"
definition OR_WORD :: string where "OR_WORD = ''^OR''"
definition ORDER_BY_ASC :: string where "ORDER_BY_ASC = ''^ASC''"
definition ORDER_BY_DESC :: string where "ORDER_BY_DESC = ''^DESC''"
definition ORDER_BY_WRITE_TIME :: string where "ORDER_BY_WRITE_TIME = ''^OrderByWriteTime''"
definition IS_ASC :: string where "IS_ASC = ''^IS_ASC''"
definition LIMIT :: string where "LIMIT = ''^LIMIT''"
definition SPACE_ESCAPE :: string where "SPACE_ESCAPE = ''^^''"
definition SPECIAL_ESCAPE :: string where "SPECIAL_ESCAPE = ''(^)''"
definition EMPTY_STRING :: string where "EMPTY_STRING = ''^EMPTY_STRING''"
definition START_IN :: string where "START_IN = ''^START''"
definition END_IN :: string where "END_IN = ''^END''"
definition BEGIN_GROUP :: string where "BEGIN_GROUP = ''^BEGIN_GROUP''"
definition END_GROUP :: string where "END_GROUP = ''^END_GROUP''"
definition KEY_PREFIX :: string where "KEY_PREFIX = ''^KEY_PREFIX''"
definition DEVICE_ID :: string where "DEVICE_ID = ''^DEVICE_ID''"
definition IS_NOT_NULL :: string where "IS_NOT_NULL = ''^IS_NOT_NULL''"
definition TYPE_STRING :: string where "TYPE_STRING = ''STRING''"
definition TYPE_INTEGER :: string where "TYPE_INTEGER = ''INTEGER''"
definition TYPE_LONG :: string where "TYPE_LONG = ''LONG''"
definition TYPE_DOUBLE :: string where "TYPE_DOUBLE = ''DOUBLE''"
definition TYPE_BOOLEAN :: string where "TYPE_BOOLEAN = ''BOOL''"
definition VALUE_TRUE :: string where "VALUE_TRUE = ''true''"
definition VALUE_FALSE :: string where "VALUE_FALSE = ''false''"
definition SUGGEST_INDEX :: string where "SUGGEST_INDEX = ''^SUGGEST_INDEX''"
definition IN_KEYS :: string where "IN_KEYS = ''^IN_KEYS''"

lemmas keyword_defs =
  EQUAL_TO_def NOT_EQUAL_TO_def GREATER_THAN_def LESS_THAN_def GREATER_THAN_OR_EQUAL_TO_def LESS_THAN_OR_EQUAL_TO_def
  IS_NULL_def IN_WORD_def NOT_IN_def LIKE_def NOT_LIKE_def AND_WORD_def OR_WORD_def ORDER_BY_ASC_def ORDER_BY_DESC_def
  ORDER_BY_WRITE_TIME_def LIMIT_def BEGIN_GROUP_def END_GROUP_def KEY_PREFIX_def DEVICE_ID_def IS_NOT_NULL_def
  SUGGEST_INDEX_def IN_KEYS_def

lemmas type_defs = TYPE_STRING_def TYPE_INTEGER_def TYPE_LONG_def TYPE_DOUBLE_def TYPE_BOOLEAN_def

section \<open>Words as values\<close>

text \<open>
  Formatted extraction of a signed decimal number into a variable of the given range: white space is
  skipped, no digits give zero, and a number outside the range gives the nearest bound.
\<close>

definition extract_int :: "int \<Rightarrow> nat \<Rightarrow> string \<Rightarrow> int" where
  "extract_int junk w word =
     (case dropWhile is_space word of
        [] \<Rightarrow> junk
      | _ \<Rightarrow> max (- (2 ^ (w - 1))) (min (2 ^ (w - 1) - 1) (atoi word)))"

definition StringToInt :: "'d query_env \<Rightarrow> string \<Rightarrow> int" where
  "StringToInt E word = extract_int (qe_junk_int E) 32 word"

definition StringToLong :: "'d query_env \<Rightarrow> string \<Rightarrow> int" where
  "StringToLong E word = extract_int (qe_junk_long E) 64 word"

definition StringToDouble :: "'d query_env \<Rightarrow> string \<Rightarrow> 'd" where
  "StringToDouble E word = qe_Double E word"

definition StringToBoolean :: "string \<Rightarrow> bool" where
  "StringToBoolean word = (if word = VALUE_TRUE then True else if word = VALUE_FALSE then False else False)"

text \<open>The two loops of \<open>StringToString\<close>: each occurrence is replaced in place and the search goes on behind it.\<close>

lemma replace_measure:
  assumes "str_find s pat i = Some k" "length pat = n" "0 < n"
  shows "length (str_replace s k n [c]) - Suc k < length s - i"
proof -
  have "i \<le> k" "k + n \<le> length s" using assms(1,2) by (simp_all add: str_find_Some occurs_at_iff)
  thus ?thesis using assms(3) by (simp add: str_replace_def)
qed

function unescape_space :: "string \<Rightarrow> nat \<Rightarrow> string" where
  "unescape_space result index =
     (case str_find result SPACE_ESCAPE index of
        None \<Rightarrow> result
      | Some i \<Rightarrow> unescape_space (str_replace result i 2 '' '') (i + 1))"
  by pat_completeness auto
termination
  by (relation "measure (\<lambda>(s, i). length s - i)") (auto simp: SPACE_ESCAPE_def intro: replace_measure)

function unescape_special :: "string \<Rightarrow> nat \<Rightarrow> string" where
  "unescape_special result index =
     (case str_find result SPECIAL_ESCAPE index of
        None \<Rightarrow> result
      | Some i \<Rightarrow> unescape_special (str_replace result i 3 ''^'') (i + 1))"
  by pat_completeness auto
termination
  by (relation "measure (\<lambda>(s, i). length s - i)") (auto simp: SPECIAL_ESCAPE_def intro: replace_measure)

declare unescape_space.simps [simp del] unescape_special.simps [simp del]

definition StringToString :: "string \<Rightarrow> string" where
  "StringToString word = (if word = EMPTY_STRING then [] else unescape_special (unescape_space word 0) 0)"

text \<open>\<open>words.at\<close>.\<close>

definition word_at :: "string list \<Rightarrow> nat \<Rightarrow> string option" where
  "word_at words i = (if i < length words then Some (words ! i) else None)"

text \<open>The loop the four list readers share: up to the closing word, or to the last word.\<close>

function list_loop :: "(string \<Rightarrow> 'v) \<Rightarrow> string list \<Rightarrow> nat \<Rightarrow> nat \<Rightarrow> 'v list \<Rightarrow> (bool \<times> 'v list \<times> nat) option" where
  "list_loop conv words elementPointer fin valueList =
     (if elementPointer \<le> fin
      then do {
        w \<leftarrow> word_at words elementPointer;
        if w = END_IN then Some (True, valueList, elementPointer)
        else list_loop conv words (elementPointer + 1) fin (valueList @ [conv w])
      }
      else Some (False, valueList, elementPointer))"
  by pat_completeness auto
termination
  by (relation "measure (\<lambda>(_, _, p, fin, _). Suc fin - p)") auto

declare list_loop.simps [simp del]

definition get_list :: "(string \<Rightarrow> 'v) \<Rightarrow> string list \<Rightarrow> nat \<Rightarrow> nat \<Rightarrow> ('v list \<times> nat) option" where
  "get_list conv words elementPointer fin =
     map_option (\<lambda>(isEndFound, valueList, p). (if isEndFound then valueList else [], p))
       (list_loop conv words elementPointer fin [])"

definition GetIntegerList :: "'d query_env \<Rightarrow> string list \<Rightarrow> nat \<Rightarrow> nat \<Rightarrow> (int list \<times> nat) option" where
  "GetIntegerList E = get_list (StringToInt E)"

definition GetLongList :: "'d query_env \<Rightarrow> string list \<Rightarrow> nat \<Rightarrow> nat \<Rightarrow> (int list \<times> nat) option" where
  "GetLongList E = get_list (StringToLong E)"

definition GetDoubleList :: "'d query_env \<Rightarrow> string list \<Rightarrow> nat \<Rightarrow> nat \<Rightarrow> ('d list \<times> nat) option" where
  "GetDoubleList E = get_list (StringToDouble E)"

definition GetStringList :: "string list \<Rightarrow> nat \<Rightarrow> nat \<Rightarrow> (string list \<times> nat) option" where
  "GetStringList = get_list StringToString"

section \<open>One keyword\<close>

text \<open>
  The value of a comparison by the word that names its type. The four ordered comparisons have no case
  for truth values.
\<close>

definition ordered_value :: "'d query_env \<Rightarrow> string \<Rightarrow> string \<Rightarrow> 'd query_value option" where
  "ordered_value E fieldType fieldValue =
     (if fieldType = TYPE_INTEGER then Some (QInt (StringToInt E fieldValue))
      else if fieldType = TYPE_LONG then Some (QLong (StringToLong E fieldValue))
      else if fieldType = TYPE_DOUBLE then Some (QDouble (StringToDouble E fieldValue))
      else if fieldType = TYPE_STRING then Some (QString (StringToString fieldValue))
      else None)"

definition equal_value :: "'d query_env \<Rightarrow> string \<Rightarrow> string \<Rightarrow> 'd query_value option" where
  "equal_value E fieldType fieldValue =
     (if fieldType = TYPE_INTEGER then Some (QInt (StringToInt E fieldValue))
      else if fieldType = TYPE_LONG then Some (QLong (StringToLong E fieldValue))
      else if fieldType = TYPE_DOUBLE then Some (QDouble (StringToDouble E fieldValue))
      else if fieldType = TYPE_BOOLEAN then Some (QBool (StringToBoolean fieldValue))
      else if fieldType = TYPE_STRING then Some (QString (StringToString fieldValue))
      else None)"

definition handle_compare ::
  "(string \<Rightarrow> string \<Rightarrow> 'd query_value option) \<Rightarrow> (string \<Rightarrow> 'd query_value \<Rightarrow> 'd db_call) \<Rightarrow>
   string list \<Rightarrow> nat \<Rightarrow> nat \<Rightarrow> 'd query_state \<Rightarrow> 'd handled" where
  "handle_compare val call words pointer fin q =
     (if pointer + 3 > fin then Some (False, pointer, q)
      else do {
        fieldType \<leftarrow> word_at words (pointer + 1);
        fieldName \<leftarrow> word_at words (pointer + 2);
        fieldValue \<leftarrow> word_at words (pointer + 3);
        (case val fieldType fieldValue of
           None \<Rightarrow> Some (False, pointer, q)
         | Some v \<Rightarrow> Some (True, pointer + 4, add_call (call (StringToString fieldName) v) q))
      })"

definition HandleEqualTo :: "'d query_env \<Rightarrow> string list \<Rightarrow> nat \<Rightarrow> nat \<Rightarrow> 'd query_state \<Rightarrow> 'd handled" where
  "HandleEqualTo E = handle_compare (equal_value E) EqualTo"

definition HandleNotEqualTo :: "'d query_env \<Rightarrow> string list \<Rightarrow> nat \<Rightarrow> nat \<Rightarrow> 'd query_state \<Rightarrow> 'd handled" where
  "HandleNotEqualTo E = handle_compare (equal_value E) NotEqualTo"

definition HandleGreaterThan :: "'d query_env \<Rightarrow> string list \<Rightarrow> nat \<Rightarrow> nat \<Rightarrow> 'd query_state \<Rightarrow> 'd handled" where
  "HandleGreaterThan E = handle_compare (ordered_value E) GreaterThan"

definition HandleLessThan :: "'d query_env \<Rightarrow> string list \<Rightarrow> nat \<Rightarrow> nat \<Rightarrow> 'd query_state \<Rightarrow> 'd handled" where
  "HandleLessThan E = handle_compare (ordered_value E) LessThan"

definition HandleGreaterThanOrEqualTo :: "'d query_env \<Rightarrow> string list \<Rightarrow> nat \<Rightarrow> nat \<Rightarrow> 'd query_state \<Rightarrow> 'd handled" where
  "HandleGreaterThanOrEqualTo E = handle_compare (ordered_value E) GreaterThanOrEqualTo"

definition HandleLessThanOrEqualTo :: "'d query_env \<Rightarrow> string list \<Rightarrow> nat \<Rightarrow> nat \<Rightarrow> 'd query_state \<Rightarrow> 'd handled" where
  "HandleLessThanOrEqualTo E = handle_compare (ordered_value E) LessThanOrEqualTo"

text \<open>Keywords with one parameter.\<close>

definition handle_one ::
  "(string \<Rightarrow> 'd query_state \<Rightarrow> 'd query_state) \<Rightarrow> string list \<Rightarrow> nat \<Rightarrow> nat \<Rightarrow> 'd query_state \<Rightarrow> 'd handled" where
  "handle_one act words pointer fin q =
     (if pointer + 1 > fin then Some (False, pointer, q)
      else do { w \<leftarrow> word_at words (pointer + 1); Some (True, pointer + 2, act w q) })"

definition HandleIsNull :: "string list \<Rightarrow> nat \<Rightarrow> nat \<Rightarrow> 'd query_state \<Rightarrow> 'd handled" where
  "HandleIsNull = handle_one (\<lambda>fieldName. add_call (IsNull (StringToString fieldName)))"

definition HandleIsNotNull :: "string list \<Rightarrow> nat \<Rightarrow> nat \<Rightarrow> 'd query_state \<Rightarrow> 'd handled" where
  "HandleIsNotNull = handle_one (\<lambda>fieldName. add_call (IsNotNull (StringToString fieldName)))"

definition in_values :: "'d query_env \<Rightarrow> string \<Rightarrow> string list \<Rightarrow> nat \<Rightarrow> nat \<Rightarrow> ('d query_values \<times> nat) option option" where
  "in_values E fieldType words elementPointer fin =
     (if fieldType = TYPE_INTEGER then map_option (\<lambda>(vs, p). Some (QInts vs, p)) (GetIntegerList E words elementPointer fin)
      else if fieldType = TYPE_LONG then map_option (\<lambda>(vs, p). Some (QLongs vs, p)) (GetLongList E words elementPointer fin)
      else if fieldType = TYPE_DOUBLE then map_option (\<lambda>(vs, p). Some (QDoubles vs, p)) (GetDoubleList E words elementPointer fin)
      else if fieldType = TYPE_STRING then map_option (\<lambda>(vs, p). Some (QStrings vs, p)) (GetStringList words elementPointer fin)
      else Some None)"

definition handle_in ::
  "'d query_env \<Rightarrow> (string \<Rightarrow> 'd query_values \<Rightarrow> 'd db_call) \<Rightarrow> string list \<Rightarrow> nat \<Rightarrow> nat \<Rightarrow> 'd query_state \<Rightarrow> 'd handled" where
  "handle_in E call words pointer fin q =
     (if pointer + 4 > fin then Some (False, pointer, q)
      else do {
        start \<leftarrow> word_at words (pointer + 3);
        if start \<noteq> START_IN then Some (False, pointer, q)
        else do {
          fieldType \<leftarrow> word_at words (pointer + 1);
          fieldName \<leftarrow> word_at words (pointer + 2);
          values \<leftarrow> in_values E fieldType words (pointer + 4) fin;
          (case values of
             None \<Rightarrow> Some (False, pointer, q)
           | Some (vs, elementPointer) \<Rightarrow> Some (True, elementPointer + 1, add_call (call (StringToString fieldName) vs) q))
        }
      })"

definition HandleIn :: "'d query_env \<Rightarrow> string list \<Rightarrow> nat \<Rightarrow> nat \<Rightarrow> 'd query_state \<Rightarrow> 'd handled" where
  "HandleIn E = handle_in E In"

definition HandleNotIn :: "'d query_env \<Rightarrow> string list \<Rightarrow> nat \<Rightarrow> nat \<Rightarrow> 'd query_state \<Rightarrow> 'd handled" where
  "HandleNotIn E = handle_in E NotIn"

text \<open>Keywords with two parameters.\<close>

definition handle_two :: "(string \<Rightarrow> string \<Rightarrow> 'd db_call) \<Rightarrow> string list \<Rightarrow> nat \<Rightarrow> nat \<Rightarrow> 'd query_state \<Rightarrow> 'd handled" where
  "handle_two call words pointer fin q =
     (if pointer + 2 > fin then Some (False, pointer, q)
      else do {
        a \<leftarrow> word_at words (pointer + 1);
        b \<leftarrow> word_at words (pointer + 2);
        Some (True, pointer + 3, add_call (call a b) q)
      })"

definition HandleLike :: "string list \<Rightarrow> nat \<Rightarrow> nat \<Rightarrow> 'd query_state \<Rightarrow> 'd handled" where
  "HandleLike = handle_two (\<lambda>fieldName fieldValue. Like (StringToString fieldName) (StringToString fieldValue))"

definition HandleNotLike :: "string list \<Rightarrow> nat \<Rightarrow> nat \<Rightarrow> 'd query_state \<Rightarrow> 'd handled" where
  "HandleNotLike = handle_two (\<lambda>fieldName fieldValue. NotLike (StringToString fieldName) (StringToString fieldValue))"

definition HandleLimit :: "'d query_env \<Rightarrow> string list \<Rightarrow> nat \<Rightarrow> nat \<Rightarrow> 'd query_state \<Rightarrow> 'd handled" where
  "HandleLimit E = handle_two (\<lambda>number offset. Limit (StringToInt E number) (StringToInt E offset))"

text \<open>Keywords without parameters.\<close>

definition HandleAnd :: "string list \<Rightarrow> nat \<Rightarrow> nat \<Rightarrow> 'd query_state \<Rightarrow> 'd handled" where
  "HandleAnd words pointer fin q = Some (True, pointer + 1, add_call And q)"

definition HandleOr :: "string list \<Rightarrow> nat \<Rightarrow> nat \<Rightarrow> 'd query_state \<Rightarrow> 'd handled" where
  "HandleOr words pointer fin q = Some (True, pointer + 1, add_call Or q)"

definition HandleBeginGroup :: "string list \<Rightarrow> nat \<Rightarrow> nat \<Rightarrow> 'd query_state \<Rightarrow> 'd handled" where
  "HandleBeginGroup words pointer fin q = Some (True, pointer + 1, add_call BeginGroup q)"

definition HandleEndGroup :: "string list \<Rightarrow> nat \<Rightarrow> nat \<Rightarrow> 'd query_state \<Rightarrow> 'd handled" where
  "HandleEndGroup words pointer fin q = Some (True, pointer + 1, add_call EndGroup q)"

definition HandleOrderByAsc :: "string list \<Rightarrow> nat \<Rightarrow> nat \<Rightarrow> 'd query_state \<Rightarrow> 'd handled" where
  "HandleOrderByAsc = handle_one (\<lambda>fieldName. add_call (OrderBy (StringToString fieldName) True))"

definition HandleOrderByDesc :: "string list \<Rightarrow> nat \<Rightarrow> nat \<Rightarrow> 'd query_state \<Rightarrow> 'd handled" where
  "HandleOrderByDesc = handle_one (\<lambda>fieldName. add_call (OrderBy (StringToString fieldName) False))"

definition HandleOrderByWriteTime :: "string list \<Rightarrow> nat \<Rightarrow> nat \<Rightarrow> 'd query_state \<Rightarrow> 'd handled" where
  "HandleOrderByWriteTime = handle_one (\<lambda>isAsc. add_call (OrderByWriteTime (isAsc = IS_ASC)))"

definition HandleKeyPrefix :: "string list \<Rightarrow> nat \<Rightarrow> nat \<Rightarrow> 'd query_state \<Rightarrow> 'd handled" where
  "HandleKeyPrefix = handle_one (\<lambda>w q. add_call (PrefixKey (qs_deviceId q @ StringToString w)) q)"

definition HandleSetSuggestIndex :: "string list \<Rightarrow> nat \<Rightarrow> nat \<Rightarrow> 'd query_state \<Rightarrow> 'd handled" where
  "HandleSetSuggestIndex = handle_one (\<lambda>w. add_call (SuggestIndex (StringToString w)))"

definition HandleDeviceId :: "'d query_env \<Rightarrow> string list \<Rightarrow> nat \<Rightarrow> nat \<Rightarrow> 'd query_state \<Rightarrow> 'd handled" where
  "HandleDeviceId E = handle_one (\<lambda>w q.
     let q = q\<lparr>qs_deviceId := qe_GetUuidByNetworkId E (StringToString w)\<rparr>
     in if \<not> qs_hasPrefixKey q then add_call (PrefixKey (qs_deviceId q)) q else q)"

text \<open>The keys are collected in a \<open>std::set\<close>: a sorted list without repetitions.\<close>

definition HandleInKeys :: "string list \<Rightarrow> nat \<Rightarrow> nat \<Rightarrow> 'd query_state \<Rightarrow> 'd handled" where
  "HandleInKeys words pointer fin q =
     (let startInOffSet = pointer + 1
      in if fin - pointer < 2 then Some (False, pointer, q)
         else do {
           start \<leftarrow> word_at words startInOffSet;
           if start \<noteq> START_IN then Some (False, pointer, q)
           else do {
             (inKeys, endOffSet) \<leftarrow> GetStringList words (startInOffSet + 1) fin;
             let inDbKeys = fold insort_insert inKeys [];
             Some (True, endOffSet + 1, add_call (InKeys inDbKeys) q)
           }
         })"

section \<open>The whole query\<close>

definition HandleExtra :: "'d query_env \<Rightarrow> string list \<Rightarrow> nat \<Rightarrow> nat \<Rightarrow> 'd query_state \<Rightarrow> 'd handled" where
  "HandleExtra E words pointer fin q = do {
     keyword \<leftarrow> word_at words pointer;
     if keyword = BEGIN_GROUP then HandleBeginGroup words pointer fin q
     else if keyword = END_GROUP then HandleEndGroup words pointer fin q
     else if keyword = KEY_PREFIX then HandleKeyPrefix words pointer fin q
     else if keyword = IS_NOT_NULL then HandleIsNotNull words pointer fin q
     else if keyword = DEVICE_ID then HandleDeviceId E words pointer fin q
     else if keyword = SUGGEST_INDEX then HandleSetSuggestIndex words pointer fin q
     else if keyword = IN_KEYS then HandleInKeys words pointer fin q
     else Some (False, pointer, q) }"

definition Handle :: "'d query_env \<Rightarrow> string list \<Rightarrow> nat \<Rightarrow> nat \<Rightarrow> 'd query_state \<Rightarrow> 'd handled" where
  "Handle E words pointer fin q = do {
     keyword \<leftarrow> word_at words pointer;
     if keyword = IS_NULL then HandleIsNull words pointer fin q
     else if keyword = IN_WORD then HandleIn E words pointer fin q
     else if keyword = NOT_IN then HandleNotIn E words pointer fin q
     else if keyword = LIKE then HandleLike words pointer fin q
     else if keyword = NOT_LIKE then HandleNotLike words pointer fin q
     else if keyword = AND_WORD then HandleAnd words pointer fin q
     else if keyword = OR_WORD then HandleOr words pointer fin q
     else if keyword = ORDER_BY_ASC then HandleOrderByAsc words pointer fin q
     else if keyword = ORDER_BY_DESC then HandleOrderByDesc words pointer fin q
     else if keyword = ORDER_BY_WRITE_TIME then HandleOrderByWriteTime words pointer fin q
     else if keyword = LIMIT then HandleLimit E words pointer fin q
     else HandleExtra E words pointer fin q }"

text \<open>The body of the loop: the chain of comparisons in \<open>StringToDbQuery\<close>.\<close>

definition HandleKeyword :: "'d query_env \<Rightarrow> string list \<Rightarrow> nat \<Rightarrow> nat \<Rightarrow> 'd query_state \<Rightarrow> 'd handled" where
  "HandleKeyword E words pointer fin q = do {
     keyword \<leftarrow> word_at words pointer;
     if keyword = EQUAL_TO then HandleEqualTo E words pointer fin q
     else if keyword = NOT_EQUAL_TO then HandleNotEqualTo E words pointer fin q
     else if keyword = GREATER_THAN then HandleGreaterThan E words pointer fin q
     else if keyword = LESS_THAN then HandleLessThan E words pointer fin q
     else if keyword = GREATER_THAN_OR_EQUAL_TO then HandleGreaterThanOrEqualTo E words pointer fin q
     else if keyword = LESS_THAN_OR_EQUAL_TO then HandleLessThanOrEqualTo E words pointer fin q
     else Handle E words pointer fin q }"

function query_loop ::
  "'d query_env \<Rightarrow> string list \<Rightarrow> nat \<Rightarrow> nat \<Rightarrow> nat \<Rightarrow> bool \<Rightarrow> 'd query_state \<Rightarrow> (bool \<times> 'd query_state) option" where
  "query_loop E words pointer fin cnt isSuccess q =
     (if pointer \<le> fin \<and> cnt \<le> MAX_QUERY_COMPLEXITY
      then do {
        (isSuccess, pointer, q) \<leftarrow> HandleKeyword E words pointer fin q;
        if \<not> isSuccess then Some (False, q\<lparr>dbQuery := []\<rparr>)
        else query_loop E words pointer fin (cnt + 1) isSuccess q
      }
      else Some (isSuccess, q))"
  by pat_completeness auto
termination
  by (relation "measure (\<lambda>(_, _, _, _, cnt, _). Suc MAX_QUERY_COMPLEXITY - cnt)") auto

declare query_loop.simps [simp del]

text \<open>
  Splitting at each single space: the iterator yields the texts between the matches, and behind the last
  match only a text that is not empty; a text without a space is one word.
\<close>

fun split_space :: "string \<Rightarrow> string list" where
  "split_space [] = [[]]"
| "split_space (c # cs) =
     (if c = CHR '' '' then [] # split_space cs
      else case split_space cs of w # ws \<Rightarrow> (c # w) # ws | [] \<Rightarrow> [[c]])"

definition regex_words :: "string \<Rightarrow> string list" where
  "regex_words s = (let ws = split_space s in if 1 < length ws \<and> last ws = [] then butlast ws else ws)"

definition StringToDbQuery ::
  "'d query_env \<Rightarrow> string \<Rightarrow> bool \<Rightarrow> string \<times> bool \<Rightarrow> (('d db_call list \<times> bool) \<times> string \<times> bool) option" where
  "StringToDbQuery E query isSuccess statics =
     (if query = [] then Some (([], True), statics)
      else if length query > MAX_QUERY_LENGTH then Some (([], False), statics)
      else
        (let q = \<lparr>dbQuery = [], qs_deviceId = [], qs_hasPrefixKey = (str_find query KEY_PREFIX 0 \<noteq> None)\<rparr>;
             inputTrim = dropWhile (\<lambda>c. c = CHR '' '') query;
             words = regex_words inputTrim
         in if words = [] then Some (([], isSuccess), qs_deviceId q, qs_hasPrefixKey q)
            else map_option (\<lambda>(ok, q). ((dbQuery q, ok), qs_deviceId q, qs_hasPrefixKey q))
                   (query_loop E words 0 (length words - 1) 0 isSuccess q)))"

end
