(* ===== verification/Query_Results.thy ===== *)
theory Query_Results
  imports Query_Helper
begin

text \<open>
  What the query parser does: it answers every text without leaving the words, its in-place replacement
  loops are one-pass scanners that undo the escaping of names and values, and for every query written in
  its language it makes exactly the calls that were written, up to the limit on the number of keywords.
\<close>

section \<open>Escapes\<close>

text \<open>The reference for the two loops: one pass from left to right.\<close>

fun scan :: "'a list \<Rightarrow> 'a \<Rightarrow> 'a list \<Rightarrow> 'a list" where
  "scan pat r [] = []"
| "scan pat r (c # cs) = (if prefix pat (c # cs) then r # scan pat r (drop (length pat - 1) cs) else c # scan pat r cs)"

lemma scan_find0_None: "pat \<noteq> [] \<Longrightarrow> find0 pat s = None \<Longrightarrow> scan pat r s = s"
  by (induction s) (auto split: if_splits)

lemma scan_find0_Some:
  "pat \<noteq> [] \<Longrightarrow> find0 pat s = Some k \<Longrightarrow> scan pat r s = take k s @ r # scan pat r (drop (k + length pat) s)"
proof (induction s arbitrary: k)
  case (Cons c cs)
  show ?case
  proof (cases "prefix pat (c # cs)")
    case True
    have "drop (length pat) (c # cs) = drop (length pat - 1) cs" using Cons.prems(1) by (cases pat) auto
    with True Cons.prems show ?thesis by simp
  next
    case False
    with Cons show ?thesis by auto
  qed
qed simp

text \<open>One step of a replacement loop, seen from the scanner.\<close>

lemma scan_step:
  assumes "pat \<noteq> []" "str_find s pat i = Some k" "i \<le> length s"
  shows "take i s @ scan pat r (drop i s) =
    (let t = str_replace s k (length pat) [r] in take (k + 1) t @ scan pat r (drop (k + 1) t)) \<and> i \<le> k \<and>
    k + 1 \<le> length (str_replace s k (length pat) [r])"
proof -
  obtain j where j: "find0 pat (drop i s) = Some j" "k = i + j" using assms(2,3) by (auto simp: str_find_def)
  have len: "k + length pat \<le> length s" using assms(2) by (simp add: str_find_Some occurs_at_iff)
  have "k \<le> length s - length pat" using len by simp
  moreover have "take k s = take i s @ take j (drop i s)" using j(2) by (simp add: take_add)
  ultimately show ?thesis
    using scan_find0_Some [OF assms(1) j(1), of r] j(2) len by (simp add: str_replace_def Let_def add_ac)
qed

lemma scan_stop:
  assumes "pat \<noteq> []" "str_find s pat i = None" "i \<le> length s"
  shows "take i s @ scan pat r (drop i s) = s"
proof -
  have "find0 pat (drop i s) = None" using assms(2,3) by (auto simp: str_find_def split: option.splits)
  thus ?thesis using scan_find0_None [OF assms(1)] by (metis append_take_drop_id)
qed

lemma unescape_space_scan: "i \<le> length s \<Longrightarrow> unescape_space s i = take i s @ scan SPACE_ESCAPE (CHR '' '') (drop i s)"
proof (induction s i rule: unescape_space.induct)
  case (1 s i)
  show ?case
  proof (cases "str_find s SPACE_ESCAPE i")
    case None
    thus ?thesis using scan_stop [of SPACE_ESCAPE s i] 1(2) by (simp add: unescape_space.simps [of s i] SPACE_ESCAPE_def)
  next
    case (Some k)
    thus ?thesis using 1 scan_step [of SPACE_ESCAPE s i k "CHR '' ''"]
      by (simp add: unescape_space.simps [of s i] Let_def) (simp add: SPACE_ESCAPE_def numeral_2_eq_2)
  qed
qed

lemma unescape_special_scan: "i \<le> length s \<Longrightarrow> unescape_special s i = take i s @ scan SPECIAL_ESCAPE (CHR ''^'') (drop i s)"
proof (induction s i rule: unescape_special.induct)
  case (1 s i)
  show ?case
  proof (cases "str_find s SPECIAL_ESCAPE i")
    case None
    thus ?thesis using scan_stop [of SPECIAL_ESCAPE s i] 1(2) by (simp add: unescape_special.simps [of s i] SPECIAL_ESCAPE_def)
  next
    case (Some k)
    thus ?thesis using 1 scan_step [of SPECIAL_ESCAPE s i k "CHR ''^''"]
      by (simp add: unescape_special.simps [of s i] Let_def) (simp add: SPECIAL_ESCAPE_def numeral_3_eq_3)
  qed
qed

lemma StringToString_scan:
  "StringToString w = (if w = EMPTY_STRING then [] else scan SPECIAL_ESCAPE (CHR ''^'') (scan SPACE_ESCAPE (CHR '' '') w))"
  by (simp add: StringToString_def unescape_space_scan unescape_special_scan)

text \<open>How a name or value is written: the reserved sign in brackets, a space as two reserved signs.\<close>

definition escape_special :: "string \<Rightarrow> string" where
  "escape_special s = concat (map (\<lambda>c. if c = CHR ''^'' then SPECIAL_ESCAPE else [c]) s)"

definition escape :: "string \<Rightarrow> string" where
  "escape s = (if s = [] then EMPTY_STRING else
     concat (map (\<lambda>c. if c = CHR ''^'' then SPECIAL_ESCAPE else if c = CHR '' '' then SPACE_ESCAPE else [c]) s))"

lemma scan_space_escape: "scan SPACE_ESCAPE (CHR '' '')
    (concat (map (\<lambda>c. if c = CHR ''^'' then SPECIAL_ESCAPE else if c = CHR '' '' then SPACE_ESCAPE else [c]) s)) = escape_special s"
  by (induction s) (auto simp: escape_special_def SPACE_ESCAPE_def SPECIAL_ESCAPE_def)

lemma escape_special_first: "prefix [CHR ''^''] (escape_special s) \<longleftrightarrow> False"
  by (cases s) (auto simp: escape_special_def SPECIAL_ESCAPE_def)

lemma scan_special_escape: "scan SPECIAL_ESCAPE (CHR ''^'') (escape_special s) = s"
proof (induction s)
  case Nil thus ?case by (simp add: escape_special_def)
next
  case (Cons c s)
  show ?case
  proof (cases "c = CHR ''^''")
    case True
    have "escape_special (c # s) = SPECIAL_ESCAPE @ escape_special s" using True by (simp add: escape_special_def)
    thus ?thesis using Cons True by (simp add: SPECIAL_ESCAPE_def)
  next
    case False
    have e: "escape_special (c # s) = c # escape_special s" using False by (simp add: escape_special_def)
    have "\<not> prefix SPECIAL_ESCAPE (c # escape_special s)"
      using escape_special_first [of s] by (cases "escape_special s") (auto simp: SPECIAL_ESCAPE_def)
    thus ?thesis using Cons e by simp
  qed
qed


lemma escape_first: "s \<noteq> [] \<Longrightarrow> escape s \<noteq> [] \<and> (hd (escape s) = CHR ''^'' \<longrightarrow> (\<exists>t. escape s = CHR ''^'' # CHR ''^'' # t))"
  by (cases s) (auto simp: escape_def SPECIAL_ESCAPE_def SPACE_ESCAPE_def)

text \<open>A written name is no keyword, apart from the word for the empty one.\<close>

lemma escape_no_keyword: "x \<noteq> CHR ''^'' \<Longrightarrow> CHR ''^'' # x # w \<noteq> EMPTY_STRING \<Longrightarrow> escape s \<noteq> CHR ''^'' # x # w"
  using escape_first [of s] by (cases "s = []") (auto simp: escape_def)

lemma escape_END_IN [simp]: "escape s \<noteq> END_IN"
  unfolding END_IN_def by (rule escape_no_keyword) (simp_all add: EMPTY_STRING_def)

lemma StringToString_escape [simp]: "StringToString (escape s) = s"
proof (cases "s = []")
  case True thus ?thesis by (simp add: escape_def StringToString_def)
next
  case False
  have "escape s \<noteq> EMPTY_STRING"
    using escape_first [OF False] by (auto simp: EMPTY_STRING_def)
  thus ?thesis using False scan_space_escape [of s] scan_special_escape [of s]
    by (simp add: StringToString_scan escape_def)
qed

lemma escape_not_Nil [simp]: "escape s \<noteq> []"
  using escape_first [of s] by (cases "s = []") (auto simp: escape_def EMPTY_STRING_def)

lemma escape_no_space [simp]: "CHR '' '' \<notin> set (escape s)"
  by (auto simp: escape_def EMPTY_STRING_def SPECIAL_ESCAPE_def SPACE_ESCAPE_def split: if_splits)

section \<open>Splitting into words\<close>

fun unwords :: "string list \<Rightarrow> string" where
  "unwords [] = []"
| "unwords [w] = w"
| "unwords (w # ws) = w @ CHR '' '' # unwords ws"

definition plain_word :: "string \<Rightarrow> bool" where
  "plain_word w \<longleftrightarrow> w \<noteq> [] \<and> CHR '' '' \<notin> set w"

lemma split_space_word: "CHR '' '' \<notin> set w \<Longrightarrow> split_space w = [w]"
  by (induction w) auto

lemma split_space_append: "CHR '' '' \<notin> set w \<Longrightarrow> split_space (w @ CHR '' '' # s) = w # split_space s"
  by (induction w) auto

lemma split_space_unwords: "ws \<noteq> [] \<Longrightarrow> list_all plain_word ws \<Longrightarrow> split_space (unwords ws) = ws"
  by (induction ws rule: unwords.induct) (simp_all add: plain_word_def split_space_word split_space_append)

lemma regex_words_unwords:
  assumes "ws \<noteq> []" "list_all plain_word ws"
  shows "regex_words (unwords ws) = ws"
proof -
  have "last ws \<noteq> []" using assms by (auto simp: list_all_iff plain_word_def)
  thus ?thesis using split_space_unwords [OF assms] by (simp add: regex_words_def)
qed

lemma unwords_trim: "ws \<noteq> [] \<Longrightarrow> list_all plain_word ws \<Longrightarrow>
    unwords ws \<noteq> [] \<and> dropWhile (\<lambda>c. c = CHR '' '') (unwords ws) = unwords ws"
proof (induction ws rule: unwords.induct)
  case (2 w) thus ?case by (cases w) (auto simp: plain_word_def)
next
  case (3 w v vs) thus ?case by (cases w) (auto simp: plain_word_def)
qed simp

section \<open>The language\<close>

text \<open>
  A written query is a list of items: calls, and the choice of a device. The words of a call are its
  keyword and its parameters. Floating-point numbers are written by a parameter of which only reading
  back is asked.
\<close>

datatype 'd item = Call "'d db_call" | Device string

fun value_words :: "('d \<Rightarrow> string) \<Rightarrow> 'd query_value \<Rightarrow> string \<times> string" where
  "value_words sd (QInt i) = (TYPE_INTEGER, to_string i)"
| "value_words sd (QLong i) = (TYPE_LONG, to_string i)"
| "value_words sd (QDouble d) = (TYPE_DOUBLE, sd d)"
| "value_words sd (QBool b) = (TYPE_BOOLEAN, if b then VALUE_TRUE else VALUE_FALSE)"
| "value_words sd (QString s) = (TYPE_STRING, escape s)"

fun values_words :: "('d \<Rightarrow> string) \<Rightarrow> 'd query_values \<Rightarrow> string \<times> string list" where
  "values_words sd (QInts is) = (TYPE_INTEGER, map to_string is)"
| "values_words sd (QLongs is) = (TYPE_LONG, map to_string is)"
| "values_words sd (QDoubles ds) = (TYPE_DOUBLE, map sd ds)"
| "values_words sd (QStrings ss) = (TYPE_STRING, map escape ss)"

definition compare_words :: "('d \<Rightarrow> string) \<Rightarrow> string \<Rightarrow> string \<Rightarrow> 'd query_value \<Rightarrow> string list" where
  "compare_words sd kw n v = [kw, fst (value_words sd v), escape n, snd (value_words sd v)]"

definition in_words :: "('d \<Rightarrow> string) \<Rightarrow> string \<Rightarrow> string \<Rightarrow> 'd query_values \<Rightarrow> string list" where
  "in_words sd kw n vs = [kw, fst (values_words sd vs), escape n, START_IN] @ snd (values_words sd vs) @ [END_IN]"

fun call_words :: "('d \<Rightarrow> string) \<Rightarrow> 'd db_call \<Rightarrow> string list" where
  "call_words sd (EqualTo n v) = compare_words sd EQUAL_TO n v"
| "call_words sd (NotEqualTo n v) = compare_words sd NOT_EQUAL_TO n v"
| "call_words sd (GreaterThan n v) = compare_words sd GREATER_THAN n v"
| "call_words sd (LessThan n v) = compare_words sd LESS_THAN n v"
| "call_words sd (GreaterThanOrEqualTo n v) = compare_words sd GREATER_THAN_OR_EQUAL_TO n v"
| "call_words sd (LessThanOrEqualTo n v) = compare_words sd LESS_THAN_OR_EQUAL_TO n v"
| "call_words sd (IsNull n) = [IS_NULL, escape n]"
| "call_words sd (IsNotNull n) = [IS_NOT_NULL, escape n]"
| "call_words sd (In n vs) = in_words sd IN_WORD n vs"
| "call_words sd (NotIn n vs) = in_words sd NOT_IN n vs"
| "call_words sd (Like n v) = [LIKE, escape n, escape v]"
| "call_words sd (NotLike n v) = [NOT_LIKE, escape n, escape v]"
| "call_words sd And = [AND_WORD]"
| "call_words sd Or = [OR_WORD]"
| "call_words sd (OrderBy n asc) = [if asc then ORDER_BY_ASC else ORDER_BY_DESC, escape n]"
| "call_words sd (OrderByWriteTime asc) = [ORDER_BY_WRITE_TIME, if asc then IS_ASC else ''^IS_DESC'']"
| "call_words sd (Limit n off) = [LIMIT, to_string n, to_string off]"
| "call_words sd BeginGroup = [BEGIN_GROUP]"
| "call_words sd EndGroup = [END_GROUP]"
| "call_words sd (PrefixKey p) = [KEY_PREFIX, escape p]"
| "call_words sd (InKeys ks) = [IN_KEYS, START_IN] @ map escape ks @ [END_IN]"
| "call_words sd (SuggestIndex i) = [SUGGEST_INDEX, escape i]"

fun item_words :: "('d \<Rightarrow> string) \<Rightarrow> 'd item \<Rightarrow> string list" where
  "item_words sd (Call c) = call_words sd c"
| "item_words sd (Device d) = [DEVICE_ID, escape d]"

definition query_text :: "('d \<Rightarrow> string) \<Rightarrow> 'd item list \<Rightarrow> string" where
  "query_text sd items = unwords (concat (map (item_words sd) items))"

text \<open>
  Numbers must fit the type they are written with, keys of a set are written in its order, and the four
  ordered comparisons take no truth values.
\<close>

definition fits :: "nat \<Rightarrow> int \<Rightarrow> bool" where
  "fits w i \<longleftrightarrow> - (2 ^ (w - 1)) \<le> i \<and> i < 2 ^ (w - 1)"

fun value_ok :: "'d query_value \<Rightarrow> bool" where
  "value_ok (QInt i) = fits 32 i"
| "value_ok (QLong i) = fits 64 i"
| "value_ok v = True"

fun is_bool :: "'d query_value \<Rightarrow> bool" where
  "is_bool (QBool b) = True"
| "is_bool v = False"

fun values_ok :: "'d query_values \<Rightarrow> bool" where
  "values_ok (QInts is) = list_all (fits 32) is"
| "values_ok (QLongs is) = list_all (fits 64) is"
| "values_ok vs = True"

fun call_ok :: "'d db_call \<Rightarrow> bool" where
  "call_ok (EqualTo n v) = value_ok v"
| "call_ok (NotEqualTo n v) = value_ok v"
| "call_ok (GreaterThan n v) = (value_ok v \<and> \<not> is_bool v)"
| "call_ok (LessThan n v) = (value_ok v \<and> \<not> is_bool v)"
| "call_ok (GreaterThanOrEqualTo n v) = (value_ok v \<and> \<not> is_bool v)"
| "call_ok (LessThanOrEqualTo n v) = (value_ok v \<and> \<not> is_bool v)"
| "call_ok (In n vs) = values_ok vs"
| "call_ok (NotIn n vs) = values_ok vs"
| "call_ok (Limit n off) = (fits 32 n \<and> fits 32 off)"
| "call_ok (InKeys ks) = (sorted ks \<and> distinct ks)"
| "call_ok c = True"

fun item_ok :: "'d item \<Rightarrow> bool" where
  "item_ok (Call c) = call_ok c"
| "item_ok (Device d) = True"

definition double_text :: "'d query_env \<Rightarrow> ('d \<Rightarrow> string) \<Rightarrow> bool" where
  "double_text E sd \<longleftrightarrow> (\<forall>d. qe_Double E (sd d) = d \<and> plain_word (sd d) \<and> sd d \<noteq> END_IN)"

text \<open>
  What a written query means: a key prefix is put behind the device chosen before it, and the device
  alone is a prefix when the text has no key prefix at all.
\<close>

fun item_calls :: "'d query_env \<Rightarrow> bool \<Rightarrow> string \<Rightarrow> 'd item list \<Rightarrow> 'd db_call list \<times> string" where
  "item_calls E has dev [] = ([], dev)"
| "item_calls E has dev (Call c # its) =
     (let (cs, d) = item_calls E has dev its
      in ((case c of PrefixKey p \<Rightarrow> PrefixKey (dev @ p) | _ \<Rightarrow> c) # cs, d))"
| "item_calls E has dev (Device n # its) =
     (let dev = qe_GetUuidByNetworkId E n; (cs, d) = item_calls E has dev its
      in (if has then cs else PrefixKey dev # cs, d))"

section \<open>Reading back one item\<close>

lemma word_at_append [simp]: "word_at (pre @ xs) (length pre + k) = word_at xs k"
  by (simp add: word_at_def nth_append)

lemma word_at_append_Suc [simp]:
  "word_at (pre @ xs) (Suc (length pre)) = word_at xs 1" "word_at (pre @ xs) (Suc (Suc (length pre))) = word_at xs 2"
  using word_at_append [of pre xs 1] word_at_append [of pre xs 2] by simp_all

lemma word_at_append_0 [simp]: "word_at (pre @ xs) (length pre) = word_at xs 0"
  using word_at_append [of pre xs 0] by simp

lemma word_at_Cons [simp]: "word_at (x # xs) 0 = Some x" "word_at (x # xs) (Suc k) = word_at xs k"
  "word_at (x # xs) (numeral m) = word_at xs (pred_numeral m)"
  by (simp_all add: word_at_def numeral_eq_Suc)

lemma extract_int_to_string: "fits w i \<Longrightarrow> extract_int junk w (to_string i) = i"
proof -
  have "\<exists>c cs. dropWhile is_space (to_string i) = c # cs"
  proof -
    obtain c cs where c: "to_string i = c # cs" by (cases "to_string i") (auto simp: to_string_def split: if_splits)
    have "\<not> is_space c" using to_string_chars [of c i] c is_digit_not_sign [of c] by (auto simp: is_space_def)
    thus ?thesis using c by simp
  qed
  moreover assume "fits w i"
  ultimately show ?thesis by (auto simp: extract_int_def fits_def)
qed

lemma StringToInt_to_string [simp]: "fits 32 i \<Longrightarrow> StringToInt E (to_string i) = i"
  by (simp add: StringToInt_def extract_int_to_string)

lemma StringToLong_to_string [simp]: "fits 64 i \<Longrightarrow> StringToLong E (to_string i) = i"
  by (simp add: StringToLong_def extract_int_to_string)

lemma value_words_read:
  assumes "double_text E sd" "value_ok v"
  shows "equal_value E (fst (value_words sd v)) (snd (value_words sd v)) = Some v"
    and "\<not> is_bool v \<Longrightarrow> ordered_value E (fst (value_words sd v)) (snd (value_words sd v)) = Some v"
  using assms by (cases v; simp add: equal_value_def ordered_value_def type_defs double_text_def StringToDouble_def
      StringToBoolean_def VALUE_TRUE_def VALUE_FALSE_def)+

lemma list_loop_words:
  assumes "END_IN \<notin> set (map sv vs)" "\<And>v. v \<in> set vs \<Longrightarrow> conv (sv v) = v"
  shows "list_loop conv (pre @ map sv vs @ END_IN # rest) (length pre) (length pre + length vs + length rest) acc =
    Some (True, acc @ vs, length pre + length vs)"
  using assms
proof (induction vs arbitrary: pre acc)
  case Nil
  thus ?case by (simp add: list_loop.simps)
next
  case (Cons v vs)
  have "list_loop conv ((pre @ [sv v]) @ map sv vs @ END_IN # rest) (length (pre @ [sv v]))
      (length (pre @ [sv v]) + length vs + length rest) (acc @ [v]) =
    Some (True, (acc @ [v]) @ vs, length (pre @ [sv v]) + length vs)"
    using Cons.prems by (intro Cons.IH) auto
  thus ?case using Cons.prems by (subst list_loop.simps) (auto simp: add_ac)
qed

lemma get_list_words:
  assumes "END_IN \<notin> set (map sv vs)" "\<And>v. v \<in> set vs \<Longrightarrow> conv (sv v) = v"
    "p = length pre" "fin = length pre + length vs + length rest"
  shows "get_list conv (pre @ map sv vs @ END_IN # rest) p fin = Some (vs, length pre + length vs)"
  using list_loop_words [OF assms(1,2)] assms(3,4) by (simp add: get_list_def)

lemma handle_compare_words:
  assumes "val (fst (value_words sd v)) (snd (value_words sd v)) = Some v"
  shows "handle_compare val call (pre @ compare_words sd kw n v @ rest) (length pre)
      (length (pre @ compare_words sd kw n v @ rest) - 1) q = Some (True, length pre + 4, add_call (call n v) q)"
  using assms by (simp add: handle_compare_def compare_words_def)

lemma handle_one_words:
  "handle_one act (pre @ [kw, w] @ rest) (length pre) (length (pre @ [kw, w] @ rest) - 1) q = Some (True, length pre + 2, act w q)"
  by (simp add: handle_one_def)

lemma handle_two_words:
  "handle_two call (pre @ [kw, a, b] @ rest) (length pre) (length (pre @ [kw, a, b] @ rest) - 1) q =
    Some (True, length pre + 3, add_call (call a b) q)"
  by (simp add: handle_two_def)

lemma in_values_words:
  assumes "double_text E sd" "values_ok vs" "p = length pre"
    "fin = length pre + length (snd (values_words sd vs)) + length rest"
  shows "in_values E (fst (values_words sd vs)) (pre @ snd (values_words sd vs) @ END_IN # rest) p fin =
    Some (Some (vs, length pre + length (snd (values_words sd vs))))"
proof -
  have no_int: "to_string i \<noteq> END_IN" for i
    using to_string_chars [of "CHR ''E''" i] by (auto simp: END_IN_def is_digit_def)
  show ?thesis
  proof (cases vs)
    case (QInts ns)
    have "get_list (StringToInt E) (pre @ map to_string ns @ END_IN # rest) p fin = Some (ns, length pre + length ns)"
      using assms QInts no_int by (intro get_list_words) (auto simp: list_all_iff dest: sym)
    thus ?thesis using QInts by (simp add: in_values_def GetIntegerList_def)
  next
    case (QLongs ns)
    have "get_list (StringToLong E) (pre @ map to_string ns @ END_IN # rest) p fin = Some (ns, length pre + length ns)"
      using assms QLongs no_int by (intro get_list_words) (auto simp: list_all_iff dest: sym)
    thus ?thesis using QLongs by (simp add: in_values_def GetLongList_def type_defs)
  next
    case (QDoubles ds)
    have "get_list (StringToDouble E) (pre @ map sd ds @ END_IN # rest) p fin = Some (ds, length pre + length ds)"
      using assms QDoubles by (intro get_list_words) (auto simp: double_text_def StringToDouble_def dest: sym)
    thus ?thesis using QDoubles by (simp add: in_values_def GetDoubleList_def type_defs)
  next
    case (QStrings ss)
    have "get_list StringToString (pre @ map escape ss @ END_IN # rest) p fin = Some (ss, length pre + length ss)"
      using assms QStrings escape_END_IN by (intro get_list_words) (auto dest: sym)
    thus ?thesis using QStrings by (simp add: in_values_def GetStringList_def type_defs)
  qed
qed

lemma handle_in_words:
  assumes "double_text E sd" "values_ok vs"
  shows "handle_in E call (pre @ in_words sd kw n vs @ rest) (length pre) (length (pre @ in_words sd kw n vs @ rest) - 1) q =
    Some (True, length pre + length (in_words sd kw n vs), add_call (call n vs) q)"
proof -
  define front where "front = pre @ [kw, fst (values_words sd vs), escape n, START_IN]"
  have words: "pre @ in_words sd kw n vs @ rest = front @ snd (values_words sd vs) @ END_IN # rest"
    by (simp add: front_def in_words_def)
  have "in_values E (fst (values_words sd vs)) (pre @ in_words sd kw n vs @ rest) (length pre + 4)
      (length (pre @ in_words sd kw n vs @ rest) - 1) = Some (Some (vs, length front + length (snd (values_words sd vs))))"
    unfolding words using assms by (intro in_values_words) (simp_all add: front_def)
  moreover have "word_at (pre @ in_words sd kw n vs @ rest) (length pre + k) = word_at (in_words sd kw n vs @ rest) k" for k
    by (rule word_at_append)
  ultimately show ?thesis by (simp add: handle_in_def) (simp add: in_words_def front_def)
qed

lemma insort_insert_sorted: "sorted xs \<Longrightarrow> \<forall>y\<in>set xs. y < x \<Longrightarrow> insort_insert x xs = xs @ [x]"
  by (induction xs) (auto simp: insort_insert_key_def insort_is_Cons)

lemma fold_insort_insert: "sorted (acc @ ks) \<Longrightarrow> distinct (acc @ ks) \<Longrightarrow> fold insort_insert ks acc = acc @ ks"
proof (induction ks arbitrary: acc)
  case (Cons k ks)
  have "insort_insert k acc = acc @ [k]"
    using Cons.prems by (intro insort_insert_sorted) (auto simp: sorted_append intro: le_neq_trans)
  thus ?case using Cons.IH [of "acc @ [k]"] Cons.prems by simp
qed simp

lemma HandleInKeys_words:
  assumes "sorted ks" "distinct ks"
  shows "HandleInKeys (pre @ ([IN_KEYS, START_IN] @ map escape ks @ [END_IN]) @ rest) (length pre)
      (length (pre @ ([IN_KEYS, START_IN] @ map escape ks @ [END_IN]) @ rest) - 1) q =
    Some (True, length pre + length ([IN_KEYS, START_IN] @ map escape ks @ [END_IN]), add_call (InKeys ks) q)"
proof -
  define front where "front = pre @ [IN_KEYS, START_IN]"
  have words: "pre @ ([IN_KEYS, START_IN] @ map escape ks @ [END_IN]) @ rest = front @ map escape ks @ END_IN # rest"
    by (simp add: front_def)
  have "get_list StringToString (front @ map escape ks @ END_IN # rest) (length pre + 2) (length front + length ks + length rest) =
      Some (ks, length front + length ks)"
    using escape_END_IN by (intro get_list_words) (auto simp: front_def dest: sym)
  moreover have "word_at (front @ map escape ks @ END_IN # rest) (Suc (length pre)) = Some START_IN"
    by (simp add: front_def word_at_def nth_append)
  moreover have "fold insort_insert ks [] = ks" using fold_insort_insert [of "[]" ks] assms by simp
  ultimately show ?thesis
    unfolding words by (simp add: HandleInKeys_def GetStringList_def Let_def) (simp add: front_def add.assoc)
qed

fun item_step :: "'d query_env \<Rightarrow> 'd item \<Rightarrow> 'd query_state \<Rightarrow> 'd query_state" where
  "item_step E (Call c) q = add_call (case c of PrefixKey p \<Rightarrow> PrefixKey (qs_deviceId q @ p) | _ \<Rightarrow> c) q"
| "item_step E (Device n) q =
     (let q = q\<lparr>qs_deviceId := qe_GetUuidByNetworkId E n\<rparr>
      in if \<not> qs_hasPrefixKey q then add_call (PrefixKey (qs_deviceId q)) q else q)"

lemma first_words [simp]:
  "word_at (compare_words sd kw n v @ rest) 0 = Some kw" "word_at (in_words sd kw n vs @ rest) 0 = Some kw"
  "length (compare_words sd kw n v) = 4"
  by (simp_all add: compare_words_def in_words_def)

lemma HandleKeyword_compare:
  assumes "double_text E sd" "value_ok v"
  shows "HandleKeyword E (pre @ compare_words sd EQUAL_TO n v @ rest) (length pre) (length (pre @ compare_words sd EQUAL_TO n v @ rest) - 1) q =
    Some (True, length pre + 4, add_call (EqualTo n v) q)"
  and "HandleKeyword E (pre @ compare_words sd NOT_EQUAL_TO n v @ rest) (length pre) (length (pre @ compare_words sd NOT_EQUAL_TO n v @ rest) - 1) q =
    Some (True, length pre + 4, add_call (NotEqualTo n v) q)"
  and "\<not> is_bool v \<Longrightarrow>
    HandleKeyword E (pre @ compare_words sd GREATER_THAN n v @ rest) (length pre) (length (pre @ compare_words sd GREATER_THAN n v @ rest) - 1) q =
    Some (True, length pre + 4, add_call (GreaterThan n v) q)"
  and "\<not> is_bool v \<Longrightarrow>
    HandleKeyword E (pre @ compare_words sd LESS_THAN n v @ rest) (length pre) (length (pre @ compare_words sd LESS_THAN n v @ rest) - 1) q =
    Some (True, length pre + 4, add_call (LessThan n v) q)"
  and "\<not> is_bool v \<Longrightarrow>
    HandleKeyword E (pre @ compare_words sd GREATER_THAN_OR_EQUAL_TO n v @ rest) (length pre)
      (length (pre @ compare_words sd GREATER_THAN_OR_EQUAL_TO n v @ rest) - 1) q =
    Some (True, length pre + 4, add_call (GreaterThanOrEqualTo n v) q)"
  and "\<not> is_bool v \<Longrightarrow>
    HandleKeyword E (pre @ compare_words sd LESS_THAN_OR_EQUAL_TO n v @ rest) (length pre)
      (length (pre @ compare_words sd LESS_THAN_OR_EQUAL_TO n v @ rest) - 1) q =
    Some (True, length pre + 4, add_call (LessThanOrEqualTo n v) q)"
  using value_words_read [OF assms]
  by (simp_all add: HandleKeyword_def HandleEqualTo_def HandleNotEqualTo_def HandleGreaterThan_def HandleLessThan_def
      HandleGreaterThanOrEqualTo_def HandleLessThanOrEqualTo_def keyword_defs handle_compare_words [simplified])

lemma HandleKeyword_item:
  assumes "double_text E sd" "item_ok it"
  shows "HandleKeyword E (pre @ item_words sd it @ rest) (length pre) (length (pre @ item_words sd it @ rest) - 1) q =
    Some (True, length pre + length (item_words sd it), item_step E it q)"
proof (cases it)
  case (Device d)
  thus ?thesis using handle_one_words [of _ pre DEVICE_ID "escape d" rest q]
    by (simp add: HandleKeyword_def Handle_def HandleExtra_def keyword_defs HandleDeviceId_def)
next
  case (Call c)
  note dispatch = HandleKeyword_def Handle_def HandleExtra_def keyword_defs
  show ?thesis
  proof (cases c)
    case (EqualTo n v)
    thus ?thesis using Call assms HandleKeyword_compare(1) [of E sd v pre n rest q] by simp
  next
    case (NotEqualTo n v)
    thus ?thesis using Call assms HandleKeyword_compare(2) [of E sd v pre n rest q] by simp
  next
    case (GreaterThan n v)
    thus ?thesis using Call assms HandleKeyword_compare(3) [of E sd v pre n rest q] by simp
  next
    case (LessThan n v)
    thus ?thesis using Call assms HandleKeyword_compare(4) [of E sd v pre n rest q] by simp
  next
    case (GreaterThanOrEqualTo n v)
    thus ?thesis using Call assms HandleKeyword_compare(5) [of E sd v pre n rest q] by simp
  next
    case (LessThanOrEqualTo n v)
    thus ?thesis using Call assms HandleKeyword_compare(6) [of E sd v pre n rest q] by simp
  next
    case (In n vs)
    thus ?thesis using Call assms handle_in_words [of E sd vs In pre IN_WORD n rest q] by (simp add: dispatch HandleIn_def)
  next
    case (NotIn n vs)
    thus ?thesis using Call assms handle_in_words [of E sd vs NotIn pre NOT_IN n rest q] by (simp add: dispatch HandleNotIn_def)
  next
    case (InKeys ks)
    thus ?thesis using Call assms HandleInKeys_words [of ks pre rest q] by (simp add: dispatch)
  qed (use Call assms handle_one_words [of _ pre _ _ rest q] handle_two_words [of _ pre _ _ _ rest q] in
    \<open>simp_all add: dispatch HandleIsNull_def HandleIsNotNull_def HandleLike_def HandleNotLike_def
       HandleAnd_def HandleOr_def HandleOrderByAsc_def HandleOrderByDesc_def HandleOrderByWriteTime_def HandleLimit_def
       HandleBeginGroup_def HandleEndGroup_def HandleKeyPrefix_def HandleSetSuggestIndex_def IS_ASC_def\<close>)
qed

section \<open>Reading back a query\<close>

lemma item_words_not_Nil [simp]: "item_words sd it \<noteq> []"
proof (cases it)
  case (Call c) thus ?thesis by (cases c) (simp_all add: compare_words_def in_words_def)
qed simp

lemma query_loop_flag: "pointer \<le> fin \<Longrightarrow> cnt \<le> MAX_QUERY_COMPLEXITY \<Longrightarrow>
    query_loop E words pointer fin cnt b q = query_loop E words pointer fin cnt True q"
  by (simp add: query_loop.simps)

lemma query_loop_items:
  assumes "double_text E sd" "list_all item_ok items" "words = pre @ concat (map (item_words sd) items)" "words \<noteq> []"
    "cnt \<le> Suc MAX_QUERY_COMPLEXITY"
  shows "query_loop E words (length pre) (length words - 1) cnt True q =
    Some (True, fold (item_step E) (take (Suc MAX_QUERY_COMPLEXITY - cnt) items) q)"
  using assms(2,3,5)
proof (induction items arbitrary: pre cnt q)
  case Nil
  hence "\<not> length pre \<le> length words - 1" using assms(4) by (cases words) auto
  thus ?case by (simp add: query_loop.simps)
next
  case (Cons it items)
  show ?case
  proof (cases "cnt \<le> MAX_QUERY_COMPLEXITY")
    case False
    hence "cnt = Suc MAX_QUERY_COMPLEXITY" using Cons.prems(3) by simp
    thus ?thesis by (simp add: query_loop.simps)
  next
    case True
    have words: "words = pre @ item_words sd it @ concat (map (item_words sd) items)" using Cons.prems(2) by simp
    have "0 < length (item_words sd it)" by simp
    hence fin: "length pre \<le> length words - 1" unfolding words by (simp only: length_append)
    have step: "HandleKeyword E words (length pre) (length words - 1) q =
        Some (True, length pre + length (item_words sd it), item_step E it q)"
      unfolding words using assms(1) Cons.prems(1) by (intro HandleKeyword_item) simp_all
    have "query_loop E words (length (pre @ item_words sd it)) (length words - 1) (cnt + 1) True (item_step E it q) =
        Some (True, fold (item_step E) (take (Suc MAX_QUERY_COMPLEXITY - (cnt + 1)) items) (item_step E it q))"
      using Cons.prems True by (intro Cons.IH) simp_all
    moreover have "Suc MAX_QUERY_COMPLEXITY - cnt = Suc (MAX_QUERY_COMPLEXITY - cnt)" using True by simp
    ultimately show ?thesis using True fin step by (simp add: query_loop.simps [of E words "length pre"])
  qed
qed

lemma fold_item_step:
  "fold (item_step E) items q = q\<lparr>dbQuery := dbQuery q @ fst (item_calls E (qs_hasPrefixKey q) (qs_deviceId q) items),
     qs_deviceId := snd (item_calls E (qs_hasPrefixKey q) (qs_deviceId q) items)\<rparr>"
proof (induction items arbitrary: q)
  case (Cons it items)
  show ?case
  proof (cases it)
    case (Call c) thus ?thesis using Cons by (simp add: add_call_def split_beta)
  next
    case (Device n) thus ?thesis using Cons by (simp add: add_call_def split_beta Let_def)
  qed
qed simp

lemma plain_words [simp]: "plain_word (escape s)" "plain_word (to_string i)"
proof -
  show "plain_word (escape s)" by (simp add: plain_word_def)
  have "to_string i \<noteq> []" by (simp add: to_string_def)
  thus "plain_word (to_string i)" using to_string_chars [of "CHR '' ''" i] is_digit_not_sign [of "CHR '' ''"]
    by (auto simp: plain_word_def is_space_def)
qed

lemma item_words_plain:
  assumes "double_text E sd"
  shows "list_all plain_word (item_words sd it)"
proof -
  have k: "list_all plain_word [EQUAL_TO, NOT_EQUAL_TO, GREATER_THAN, LESS_THAN, GREATER_THAN_OR_EQUAL_TO, LESS_THAN_OR_EQUAL_TO,
    IS_NULL, IN_WORD, NOT_IN, LIKE, NOT_LIKE, AND_WORD, OR_WORD, ORDER_BY_ASC, ORDER_BY_DESC, ORDER_BY_WRITE_TIME, LIMIT,
    BEGIN_GROUP, END_GROUP, KEY_PREFIX, DEVICE_ID, IS_NOT_NULL, SUGGEST_INDEX, IN_KEYS, START_IN, END_IN, IS_ASC, ''^IS_DESC'',
    TYPE_STRING, TYPE_INTEGER, TYPE_LONG, TYPE_DOUBLE, TYPE_BOOLEAN, VALUE_TRUE, VALUE_FALSE]"
    by (simp add: plain_word_def keyword_defs type_defs START_IN_def END_IN_def IS_ASC_def VALUE_TRUE_def VALUE_FALSE_def)
  have v: "plain_word (fst (value_words sd w))" "plain_word (snd (value_words sd w))" for w
    using k assms by (cases w; simp add: double_text_def)+
  have vs: "plain_word (fst (values_words sd w))" "list_all plain_word (snd (values_words sd w))" for w
    using k assms by (cases w; simp add: double_text_def list_all_iff)+
  show ?thesis
  proof (cases it)
    case (Call c) thus ?thesis using k v vs by (cases c) (simp_all add: compare_words_def in_words_def list_all_iff)
  next
    case (Device n) thus ?thesis using k by simp
  qed
qed

lemma StringToDbQuery_text:
  fixes E :: "'a query_env"
  assumes "double_text E sd" "items \<noteq> []" "list_all item_ok items" "length (query_text sd items) \<le> MAX_QUERY_LENGTH"
  shows "StringToDbQuery E (query_text sd items) isSuccess statics =
    (let has = (str_find (query_text sd items) KEY_PREFIX 0 \<noteq> None);
         (calls, dev) = item_calls E has [] (take (Suc MAX_QUERY_COMPLEXITY) items)
     in Some ((calls, True), dev, has))"
proof -
  define words where "words = concat (map (item_words sd) items)"
  have ne: "words \<noteq> []" using assms(2) by (cases items) (simp_all add: words_def)
  have plain: "list_all plain_word words"
    unfolding words_def using item_words_plain [OF assms(1)] by (induction items) simp_all
  define q where "q = \<lparr>dbQuery = [] :: 'a db_call list, qs_deviceId = [], qs_hasPrefixKey = (str_find (unwords words) KEY_PREFIX 0 \<noteq> None)\<rparr>"
  have "query_loop E words 0 (length words - 1) 0 isSuccess q = query_loop E words 0 (length words - 1) 0 True q"
    by (rule query_loop_flag) simp_all
  also have "\<dots> = Some (True, fold (item_step E) (take (Suc MAX_QUERY_COMPLEXITY) items) q)"
    using query_loop_items [OF assms(1,3), of words "[]" 0 q] ne by (simp add: words_def)
  finally have loop: "query_loop E words 0 (length words - 1) 0 isSuccess q =
    Some (True, fold (item_step E) (take (Suc MAX_QUERY_COMPLEXITY) items) q)" .
  have written: "query_text sd items = unwords words" by (simp add: query_text_def words_def)
  have "StringToDbQuery E (unwords words) isSuccess statics =
      map_option (\<lambda>(ok, q). ((dbQuery q, ok), qs_deviceId q, qs_hasPrefixKey q)) (query_loop E words 0 (length words - 1) 0 isSuccess q)"
    using unwords_trim [OF ne plain] regex_words_unwords [OF ne plain] assms(4) ne written
    by (simp add: StringToDbQuery_def Let_def q_def)
  thus ?thesis unfolding written loop fold_item_step by (simp add: q_def split_beta Let_def)
qed

section \<open>Every text is answered\<close>

lemma word_at_in: "i \<le> fin \<Longrightarrow> fin < length words \<Longrightarrow> \<exists>w. word_at words i = Some w"
  by (simp add: word_at_def)

lemma list_loop_answers: "fin < length words \<Longrightarrow> \<exists>r. list_loop conv words p fin acc = Some r"
proof (induction conv words p fin acc rule: list_loop.induct)
  case (1 conv words p fin acc)
  show ?case
  proof (cases "p \<le> fin")
    case True
    then obtain w where "word_at words p = Some w" using word_at_in 1(2) by blast
    thus ?thesis using 1 True by (subst list_loop.simps) auto
  qed (simp add: list_loop.simps ex_bool_eq)
qed

lemma get_list_answers: "fin < length words \<Longrightarrow> \<exists>vs p'. get_list conv words p fin = Some (vs, p')"
  using list_loop_answers [of fin words conv p "[]"] by (auto simp: get_list_def)

text \<open>A handler answers, adds at most one call, and touches nothing when it refuses.\<close>

definition handled_well :: "'d query_state \<Rightarrow> 'd handled \<Rightarrow> bool" where
  "handled_well q r \<longleftrightarrow> (\<exists>ok p q'. r = Some (ok, p, q') \<and> length (dbQuery q') \<le> Suc (length (dbQuery q)))"

lemma handled_refuse [simp]: "handled_well q (Some (False, p, q))"
  by (simp add: handled_well_def ex_bool_eq)

lemma handled_add [simp]: "handled_well q (Some (ok, p, add_call c q))"
  by (simp add: handled_well_def add_call_def ex_bool_eq)

lemma handle_compare_well: "fin < length words \<Longrightarrow> handled_well q (handle_compare val call words p fin q)"
proof (cases "p + 3 > fin")
  case False
  assume "fin < length words"
  with False obtain a b c where "word_at words (p + 1) = Some a" "word_at words (p + 2) = Some b" "word_at words (p + 3) = Some c"
    using word_at_in [of "p + 1" fin words] word_at_in [of "p + 2" fin words] word_at_in [of "p + 3" fin words] by auto
  thus ?thesis using False by (auto simp: handle_compare_def split: option.split)
qed (simp add: handle_compare_def)

lemma handle_one_well: "fin < length words \<Longrightarrow> (\<And>w. length (dbQuery (act w q)) \<le> Suc (length (dbQuery q))) \<Longrightarrow>
    handled_well q (handle_one act words p fin q)"
  using word_at_in [of "p + 1" fin words] by (auto simp: handle_one_def handled_well_def ex_bool_eq)

lemma handle_two_well: "fin < length words \<Longrightarrow> handled_well q (handle_two call words p fin q)"
  using word_at_in [of "p + 1" fin words] word_at_in [of "p + 2" fin words] by (auto simp: handle_two_def)

lemma in_values_answers: "fin < length words \<Longrightarrow> \<exists>r. in_values E t words p fin = Some r"
  using get_list_answers [of fin words "StringToInt E" p] get_list_answers [of fin words "StringToLong E" p]
    get_list_answers [of fin words "StringToDouble E" p] get_list_answers [of fin words StringToString p]
  by (auto simp: in_values_def GetIntegerList_def GetLongList_def GetDoubleList_def GetStringList_def)

lemma handle_in_well: "fin < length words \<Longrightarrow> handled_well q (handle_in E call words p fin q)"
proof (cases "p + 4 > fin")
  case False
  assume f: "fin < length words"
  with False obtain a b c where "word_at words (p + 1) = Some a" "word_at words (p + 2) = Some b" "word_at words (p + 3) = Some c"
    using word_at_in [of "p + 1" fin words] word_at_in [of "p + 2" fin words] word_at_in [of "p + 3" fin words] by auto
  thus ?thesis using False in_values_answers [OF f, of E a "p + 4"] by (auto simp: handle_in_def split: option.split)
qed (simp add: handle_in_def)

lemma HandleInKeys_well: "fin < length words \<Longrightarrow> handled_well q (HandleInKeys words p fin q)"
proof (cases "fin - p < 2")
  case False
  assume f: "fin < length words"
  have "p + 1 \<le> fin" using False by simp
  with f obtain a where "word_at words (p + 1) = Some a" using word_at_in [of "p + 1" fin words] by auto
  thus ?thesis using False get_list_answers [OF f, of StringToString "p + 2"]
    by (auto simp: HandleInKeys_def GetStringList_def Let_def)
qed (simp add: HandleInKeys_def)

lemma HandleKeyword_well:
  assumes "p \<le> fin" "fin < length words"
  shows "handled_well q (HandleKeyword E words p fin q)"
proof -
  obtain k where k: "word_at words p = Some k" using word_at_in [OF assms] by blast
  have extra: "handled_well q (HandleExtra E words p fin q)"
    using k assms(2) by (simp add: HandleExtra_def HandleBeginGroup_def HandleEndGroup_def HandleKeyPrefix_def HandleIsNotNull_def
        HandleDeviceId_def HandleSetSuggestIndex_def HandleInKeys_well)
      (auto intro!: handle_one_well simp: add_call_def Let_def)
  have "handled_well q (Handle E words p fin q)"
    using k assms(2) extra by (simp add: Handle_def HandleIsNull_def HandleIn_def HandleNotIn_def HandleLike_def HandleNotLike_def HandleAnd_def
        HandleOr_def HandleOrderByAsc_def HandleOrderByDesc_def HandleOrderByWriteTime_def HandleLimit_def handle_in_well handle_two_well)
      (auto intro!: handle_one_well simp: add_call_def)
  thus ?thesis using k assms(2) by (simp add: HandleKeyword_def HandleEqualTo_def HandleNotEqualTo_def HandleGreaterThan_def HandleLessThan_def
        HandleGreaterThanOrEqualTo_def HandleLessThanOrEqualTo_def handle_compare_well)
qed

lemma query_loop_answers:
  assumes "fin < length words" "length (dbQuery q) \<le> cnt" "cnt \<le> Suc MAX_QUERY_COMPLEXITY" "ok \<or> dbQuery q = []"
  shows "\<exists>ok' q'. query_loop E words p fin cnt ok q = Some (ok', q') \<and> (ok' \<or> dbQuery q' = []) \<and>
    length (dbQuery q') \<le> Suc MAX_QUERY_COMPLEXITY"
  using assms
proof (induction E words p fin cnt ok q rule: query_loop.induct)
  case (1 E words p fin cnt ok q)
  show ?case
  proof (cases "p \<le> fin \<and> cnt \<le> MAX_QUERY_COMPLEXITY")
    case False
    thus ?thesis using 1(3-5) by (subst query_loop.simps) (auto simp: MAX_QUERY_COMPLEXITY_def)
  next
    case True
    obtain ok' p' q' where h: "HandleKeyword E words p fin q = Some (ok', p', q')" "length (dbQuery q') \<le> Suc (length (dbQuery q))"
      using HandleKeyword_well [of p fin words q E] True 1(2) by (auto simp: handled_well_def)
    show ?thesis
    proof (cases ok')
      case True
      thus ?thesis using 1(1) [OF \<open>p \<le> fin \<and> cnt \<le> MAX_QUERY_COMPLEXITY\<close> h(1)] h 1(2,3) \<open>p \<le> fin \<and> cnt \<le> MAX_QUERY_COMPLEXITY\<close>
        by (subst query_loop.simps) simp
    next
      case False
      thus ?thesis using h(1) True by (subst query_loop.simps) (simp add: ex_bool_eq)
    qed
  qed
qed

section \<open>Results\<close>

text \<open>
  C28: For every text whatsoever the parser returns: no keyword reads behind the last word, the outcome is
  either success or the query without any call, and at most 501 calls are made.
\<close>

theorem StringToDbQuery_answers:
  fixes E :: "'d query_env"
  shows "\<exists>calls ok statics'. StringToDbQuery E query isSuccess statics = Some ((calls, ok), statics') \<and>
     (ok \<or> calls = []) \<and> length calls \<le> 501"
proof (cases "query = [] \<or> length query > MAX_QUERY_LENGTH")
  case True thus ?thesis by (auto simp: StringToDbQuery_def)
next
  case False
  define words where "words = regex_words (dropWhile (\<lambda>c. c = CHR '' '') query)"
  define q where "q = \<lparr>dbQuery = [] :: 'd db_call list, qs_deviceId = [], qs_hasPrefixKey = (str_find query KEY_PREFIX 0 \<noteq> None)\<rparr>"
  have "split_space t \<noteq> []" for t by (cases t) (auto split: list.split)
  hence ne: "words \<noteq> []" by (auto simp: words_def regex_words_def Let_def) (metis One_nat_def length_0_conv length_butlast diff_is_0_eq not_le)
  then obtain ok q' where "query_loop E words 0 (length words - 1) 0 isSuccess q = Some (ok, q')"
      "ok \<or> dbQuery q' = []" "length (dbQuery q') \<le> Suc MAX_QUERY_COMPLEXITY"
    using query_loop_answers [of "length words - 1" words q 0 isSuccess E 0] by (auto simp: q_def)
  thus ?thesis using False ne by (auto simp: StringToDbQuery_def Let_def words_def q_def MAX_QUERY_COMPLEXITY_def)
qed

text \<open>
  C29: The two loops of \<open>StringToString\<close>, which search from the start and replace in place, compute what two
  passes from left to right compute, and together they undo the writing of names and values, whatever
  spaces and reserved signs these contain.
\<close>

theorem StringToString_one_pass:
  "StringToString w = (if w = EMPTY_STRING then [] else scan SPECIAL_ESCAPE (CHR ''^'') (scan SPACE_ESCAPE (CHR '' '') w)) \<and>
   StringToString (escape s) = s"
  by (simp only: StringToString_scan [symmetric] StringToString_escape simp_thms)

text \<open>
  C12: A query written in the language of the parser is read as exactly the calls that were written, with
  every key prefix behind the device chosen before it and a device alone as the prefix when the text has no
  key prefix; what stands behind the first 501 items is left out without an error.
\<close>

theorem StringToDbQuery_reads:
  assumes "double_text E sd" "items \<noteq> []" "list_all item_ok items" "length (query_text sd items) \<le> MAX_QUERY_LENGTH"
  shows "StringToDbQuery E (query_text sd items) isSuccess statics =
    (let has = (str_find (query_text sd items) KEY_PREFIX 0 \<noteq> None);
         (calls, dev) = item_calls E has [] (take 501 items)
     in Some ((calls, True), dev, has))"
  using StringToDbQuery_text [OF assms] by (simp add: MAX_QUERY_COMPLEXITY_def)

definition unit_env :: "unit query_env" where
  "unit_env = \<lparr>qe_junk_int = 7, qe_junk_long = 7, qe_Double = (\<lambda>_. ()), qe_GetUuidByNetworkId = (\<lambda>n. ''uuid-'' @ n)\<rparr>"

lemma unit_double_text: "double_text unit_env (\<lambda>_. ''0.5'')"
  by (simp add: double_text_def plain_word_def END_IN_def)

definition sample_items :: "unit item list" where
  "sample_items = [Device ''n1'', Call (PrefixKey ''a b''), Call And, Call (In ''age'' (QInts [- 3, 12]))]"

lemma sample_text: "query_text (\<lambda>_. ''0.5'') sample_items =
    ''^DEVICE_ID n1 ^KEY_PREFIX a^^b ^AND ^IN INTEGER age ^START -3 12 ^END''"
  by code_simp

theorem StringToDbQuery_reads_witness:
  "StringToDbQuery unit_env ''^DEVICE_ID n1 ^KEY_PREFIX a^^b ^AND ^IN INTEGER age ^START -3 12 ^END'' False ([], False) =
    Some (([PrefixKey ''uuid-n1a b'', And, In ''age'' (QInts [- 3, 12])], True), ''uuid-n1'', True)"
  using StringToDbQuery_reads [OF unit_double_text, of sample_items False "([], False)"]
  by (simp add: sample_text MAX_QUERY_LENGTH_def) (simp add: sample_items_def fits_def unit_env_def KEY_PREFIX_def str_find_def)

lemma str_find_middle: "str_find (a @ pat @ b) pat 0 \<noteq> None"
  by (auto simp: str_find_None occurs_at_def intro!: exI [of _ "length a"])

text \<open>
  C31: Whether the text has a key prefix is decided by searching the keyword anywhere in it, and a value that
  starts with a space followed by the letters of the keyword is written with that text inside: the query
  for one device is then answered for all devices.
\<close>

theorem device_filter_lost:
  assumes "double_text E sd"
    "length (query_text sd [Call (EqualTo n (QString ('' KEY_PREFIX'' @ v))), Device d]) \<le> MAX_QUERY_LENGTH"
  shows "StringToDbQuery E (query_text sd [Call (EqualTo n (QString ('' KEY_PREFIX'' @ v))), Device d]) isSuccess statics =
    Some (([EqualTo n (QString ('' KEY_PREFIX'' @ v))], True), qe_GetUuidByNetworkId E d, True)"
proof -
  let ?items = "[Call (EqualTo n (QString ('' KEY_PREFIX'' @ v))), Device d]"
  have "\<exists>a b. query_text sd ?items = a @ KEY_PREFIX @ b"
    by (rule exI [of _ "EQUAL_TO @ '' '' @ TYPE_STRING @ '' '' @ escape n @ '' ^''"])
      (simp add: query_text_def compare_words_def escape_def [of "CHR '' '' # _"] SPACE_ESCAPE_def KEY_PREFIX_def)
  hence "str_find (query_text sd ?items) KEY_PREFIX 0 \<noteq> None" using str_find_middle by metis
  thus ?thesis using StringToDbQuery_text [OF assms(1) _ _ assms(2), of isSuccess statics]
    by (simp add: MAX_QUERY_COMPLEXITY_def)
qed

theorem device_filter_lost_witness:
  "StringToDbQuery unit_env ''^EQUAL STRING name ^^KEY_PREFIX ^DEVICE_ID n1'' False ([], False) =
    Some (([EqualTo ''name'' (QString '' KEY_PREFIX'')], True), ''uuid-n1'', True)"
  using device_filter_lost [OF unit_double_text, of "''name''" "[]" "''n1''" False "([], False)"]
  by (simp add: query_text_def compare_words_def escape_def SPACE_ESCAPE_def SPECIAL_ESCAPE_def EQUAL_TO_def TYPE_STRING_def DEVICE_ID_def
      MAX_QUERY_LENGTH_def unit_env_def)

end
