(* ===== verification/Auto_Cache.thy ===== *)
theory Auto_Cache
  imports Store_Meta Serializable_Maps Concurrent_Map Timeline
begin

text \<open>
  The cache of open stores, framework/store/auto_cache.cpp. Per application token it keeps the open
  stores by their key; a store that was not asked for during an interval is closed by a timer task. The
  stores themselves are behind the interface of store/general_store.h: what the cache does to them is
  the list of actions each operation returns, and what they answer is part of the environment of the
  operation, as are the clock, the screen and the accounts.
\<close>

section \<open>Stores and their surroundings\<close>

datatype 'g act =
    Created 'g
  | SetExecutor 'g
  | Watch 'g
  | Unwatch 'g
  | CloseStore_of 'g bool
  | AddRef 'g
  | ReleaseBy_cache 'g

record ('g, 'k) cache_env =
  ce_now :: time
  ce_IsLocked :: bool
  ce_IsDeactivating :: "int \<Rightarrow> bool"
  ce_IsVerified :: "int \<Rightarrow> bool"
  ce_Close :: "'g \<Rightarrow> int"
  ce_create :: "'k \<Rightarrow> StoreMetaData \<Rightarrow> bool \<Rightarrow> int \<times> 'g option"

definition E_OK :: int where "E_OK = 0"
definition E_ERROR :: int where "E_ERROR = 1"
definition E_BUSY :: int where "E_BUSY = 9"
definition E_USER_LOCKED :: int where "E_USER_LOCKED = 20"
definition E_SCREEN_LOCKED :: int where "E_SCREEN_LOCKED = 38"
definition E_USER_DEACTIVATING :: int where "E_USER_DEACTIVATING = 39"

lemmas error_codes = E_OK_def E_ERROR_def E_BUSY_def E_USER_LOCKED_def E_SCREEN_LOCKED_def E_USER_DEACTIVATING_def

definition EL1 :: u32 where "EL1 = 1"
definition EL4 :: u32 where "EL4 = 4"
definition MAX_CREATOR_NUM :: int where "MAX_CREATOR_NUM = 30"
definition DEFAULT_INTERVAL :: u32 where "DEFAULT_INTERVAL = 60 * 1000"
definition KEY_SEPARATOR :: string where "KEY_SEPARATOR = ''###''"

section \<open>A delegate\<close>

record ('g, 'w) Delegate =
  dl_time :: time
  dl_store :: "'g option"
  dl_watchers :: "'w option list"
  dl_meta :: StoreMetaData
  dl_garbageInterval :: u32

definition Delegate_new ::
  "('g, 'k) cache_env \<Rightarrow> 'g option \<Rightarrow> 'w option list \<Rightarrow> StoreMetaData \<Rightarrow> u32 \<Rightarrow> ('g, 'w) Delegate \<times> 'g act list" where
  "Delegate_new E delegate watchers meta garbageInterval =
     (\<lparr>dl_time = ce_now E + ms garbageInterval, dl_store = delegate, dl_watchers = watchers, dl_meta = meta,
       dl_garbageInterval = garbageInterval\<rparr>,
      case delegate of Some g \<Rightarrow> [Watch g] | None \<Rightarrow> [])"

definition Delegate_destroy :: "('g, 'w) Delegate \<Rightarrow> 'g act list" where
  "Delegate_destroy d = (case dl_store d of Some g \<Rightarrow> [CloseStore_of g True, Unwatch g, ReleaseBy_cache g] | None \<Rightarrow> [])"

text \<open>The conversion to a shared pointer renews the time; the new pointer holds a reference of its own.\<close>

definition Delegate_Store :: "('g, 'k) cache_env \<Rightarrow> ('g, 'w) Delegate \<Rightarrow> 'g option \<times> ('g, 'w) Delegate \<times> 'g act list" where
  "Delegate_Store E d =
     (dl_store d, d\<lparr>dl_time := ce_now E + ms (dl_garbageInterval d)\<rparr>, case dl_store d of Some g \<Rightarrow> [AddRef g] | None \<Rightarrow> [])"

definition Delegate_less :: "('g, 'w) Delegate \<Rightarrow> time \<Rightarrow> bool" where
  "Delegate_less d t \<longleftrightarrow> dl_time d < t"

definition Delegate_Close :: "('g, 'k) cache_env \<Rightarrow> ('g, 'w) Delegate \<Rightarrow> bool \<times> 'g act list" where
  "Delegate_Close E d =
     (case dl_store d of
        None \<Rightarrow> (True, [])
      | Some g \<Rightarrow> if ce_Close E g = E_BUSY then (False, [CloseStore_of g False]) else (True, [CloseStore_of g False, Unwatch g]))"

definition SetObservers :: "'w option list \<Rightarrow> ('g, 'w) Delegate \<Rightarrow> ('g, 'w) Delegate" where
  "SetObservers watchers d = d\<lparr>dl_watchers := watchers\<rparr>"

definition Delegate_GetArea :: "('g, 'w) Delegate \<Rightarrow> u32" where
  "Delegate_GetArea d = sm_area (dl_meta d)"

text \<open>A change of the store: an event with the changed tables, and the change for every watcher that is set.\<close>

record DataInfo =
  di_userId :: string
  di_storeId :: string
  di_deviceId :: string
  di_bundleName :: string
  di_tables :: "string list"

definition PostDataChange :: "StoreMetaData \<Rightarrow> string list \<Rightarrow> DataInfo" where
  "PostDataChange meta tables =
     \<lparr>di_userId = sm_user meta, di_storeId = sm_storeId meta, di_deviceId = sm_deviceId meta, di_bundleName = sm_bundleName meta,
      di_tables = tables\<rparr>"

fun notify :: "'w option list \<Rightarrow> 'v \<Rightarrow> ('w \<times> 'v) list" where
  "notify [] values = []"
| "notify (None # ws) values = notify ws values"
| "notify (Some w # ws) values = (w, values) # notify ws values"

definition OnChange :: "('g, 'w) Delegate \<Rightarrow> (string \<times> 'v) list \<Rightarrow> DataInfo \<times> ('w \<times> (string \<times> 'v) list) list" where
  "OnChange d values = (PostDataChange (dl_meta d) (map fst values), notify (dl_watchers d) values)"

section \<open>The cache\<close>

type_synonym ('g, 'w) delegates = "(string \<times> ('g, 'w) Delegate) list"

record ('k, 'c, 'd) AutoCache =
  ac_garbageInterval :: u32
  ac_executor :: bool
  ac_taskId :: "time option"
  ac_stores :: 'c
  ac_disables :: 'd
  ac_creators :: "int \<Rightarrow> 'k option"

definition AutoCache_new ::
  "(u32, ('g, 'w) delegates, 'c) cmap \<Rightarrow> (u32, string set, 'd) cmap \<Rightarrow> ('k, 'c, 'd) AutoCache" where
  "AutoCache_new M N =
     \<lparr>ac_garbageInterval = DEFAULT_INTERVAL, ac_executor = False, ac_taskId = None, ac_stores = cm_new M,
      ac_disables = cm_new N, ac_creators = (\<lambda>_. None)\<rparr>"

definition RegCreator :: "int \<Rightarrow> 'k option \<Rightarrow> ('k, 'c, 'd) AutoCache \<Rightarrow> int \<times> ('k, 'c, 'd) AutoCache" where
  "RegCreator type creator s =
     (if type < 0 \<or> type \<ge> MAX_CREATOR_NUM then (E_ERROR, s)
      else (E_OK, s\<lparr>ac_creators := (ac_creators s)(type := creator)\<rparr>))"

definition ac_Bind :: "bool \<Rightarrow> ('k, 'c, 'd) AutoCache \<Rightarrow> ('k, 'c, 'd) AutoCache" where
  "ac_Bind executor s = (if \<not> executor \<or> ac_taskId s \<noteq> None then s else s\<lparr>ac_executor := True\<rparr>)"

definition GenerateKey :: "string \<Rightarrow> string \<Rightarrow> string" where
  "GenerateKey path storeId = (if path = [] then storeId else path @ KEY_SEPARATOR @ storeId)"

definition CheckStatusBeforeOpen :: "('g, 'k) cache_env \<Rightarrow> StoreMetaData \<Rightarrow> int" where
  "CheckStatusBeforeOpen E meta =
     (if sm_area meta = EL4 \<and> ce_IsLocked E then E_SCREEN_LOCKED
      else if atoi (sm_user meta) = 0 \<or> sm_area meta = EL1 then E_OK
      else if ce_IsDeactivating E (atoi (sm_user meta)) then E_USER_DEACTIVATING
      else if \<not> ce_IsVerified E (atoi (sm_user meta)) then E_USER_LOCKED
      else E_OK)"

text \<open>The timer task is one-shot; it is due an interval after it was armed.\<close>

definition StartTimer :: "(u32, ('g, 'w) delegates, 'c) cmap \<Rightarrow> ('g, 'k) cache_env \<Rightarrow> ('k, 'c, 'd) AutoCache \<Rightarrow> ('k, 'c, 'd) AutoCache" where
  "StartTimer M E s =
     (if \<not> ac_executor s then s
      else if ac_taskId s \<noteq> None \<or> cm_entries M (ac_stores s) = [] then s
      else s\<lparr>ac_taskId := Some (ce_now E + ms (ac_garbageInterval s))\<rparr>)"

text \<open>What \<open>Compute\<close> keeps: an entry whose action returned true.\<close>

definition keep_entry :: "('g, 'w) delegates \<Rightarrow> ('g, 'w) delegates option" where
  "keep_entry stores = (if stores \<noteq> [] then Some stores else None)"

text \<open>\<open>GetDBStore\<close> up to the check of the accounts, and from there on.\<close>

definition GetDBStore_refused ::
  "(u32, string set, 'd) cmap \<Rightarrow> ('g, 'k) cache_env \<Rightarrow> StoreMetaData \<Rightarrow> ('k, 'c, 'd) AutoCache \<Rightarrow> int option" where
  "GetDBStore_refused N E meta s =
     (let storeKey = GenerateKey (sm_dataDir meta) (sm_storeId meta); type = sint (sm_storeType meta)
      in if type \<ge> MAX_CREATOR_NUM \<or> type < 0 \<or> ac_creators s type = None \<or>
            (case cm_Find N (ac_disables s) (sm_tokenId meta) of Some keys \<Rightarrow> storeKey \<in> keys | None \<Rightarrow> False)
         then Some E_ERROR
         else if CheckStatusBeforeOpen E meta \<noteq> E_OK then Some (CheckStatusBeforeOpen E meta)
         else None)"

definition GetDBStore_open ::
  "(u32, ('g, 'w) delegates, 'c) cmap \<Rightarrow> ('g, 'k) cache_env \<Rightarrow> StoreMetaData \<Rightarrow> 'w option list \<Rightarrow> bool \<Rightarrow>
   ('k, 'c, 'd) AutoCache \<Rightarrow> (int \<times> 'g option) \<times> ('k, 'c, 'd) AutoCache \<times> 'g act list" where
  "GetDBStore_open M E meta watchers option s =
     (let storeKey = GenerateKey (sm_dataDir meta) (sm_storeId meta);
          stores = (case cm_Find M (ac_stores s) (sm_tokenId meta) of Some m \<Rightarrow> m | None \<Rightarrow> []);
          put = (\<lambda>m. s\<lparr>ac_stores := cm_Compute M (ac_stores s) (sm_tokenId meta) (\<lambda>_. keep_entry m)\<rparr>)
      in case map_of stores storeKey of
           Some d \<Rightarrow>
             (let d = (if watchers \<noteq> [] then SetObservers watchers d else d);
                  (store, d, acts) = Delegate_Store E d
              in ((if store = None then E_ERROR else E_OK, store), put (map_put storeKey d stores), acts))
         | None \<Rightarrow>
             (case ce_create E (the (ac_creators s (sint (sm_storeType meta)))) meta option of
                (ret, None) \<Rightarrow> ((if ret = E_OK then E_ERROR else ret, None), put stores, [])
              | (ret, Some dbStore) \<Rightarrow>
                  (let (d, acts) = Delegate_new E (Some dbStore) watchers meta (ac_garbageInterval s);
                       (store, d, acts') = Delegate_Store E d
                   in ((ret, store), StartTimer M E (put (map_put storeKey d stores)), [Created dbStore, SetExecutor dbStore] @ acts @ acts'))))"

definition GetDBStore ::
  "(u32, ('g, 'w) delegates, 'c) cmap \<Rightarrow> (u32, string set, 'd) cmap \<Rightarrow> ('g, 'k) cache_env \<Rightarrow> StoreMetaData \<Rightarrow> 'w option list \<Rightarrow> bool \<Rightarrow>
   ('k, 'c, 'd) AutoCache \<Rightarrow> (int \<times> 'g option) \<times> ('k, 'c, 'd) AutoCache \<times> 'g act list" where
  "GetDBStore M N E meta watchers option s =
     (case GetDBStore_refused N E meta s of
        Some ret \<Rightarrow> ((ret, None), s, [])
      | None \<Rightarrow> GetDBStore_open M E meta watchers option s)"

definition ac_GetStore ::
  "(u32, ('g, 'w) delegates, 'c) cmap \<Rightarrow> (u32, string set, 'd) cmap \<Rightarrow> ('g, 'k) cache_env \<Rightarrow> StoreMetaData \<Rightarrow> 'w option list \<Rightarrow>
   ('k, 'c, 'd) AutoCache \<Rightarrow> 'g option \<times> ('k, 'c, 'd) AutoCache \<times> 'g act list" where
  "ac_GetStore M N E meta watchers s = (case GetDBStore M N E meta watchers False s of ((_, store), s, acts) \<Rightarrow> (store, s, acts))"

text \<open>Converting every delegate of a map to a pointer.\<close>

definition take_stores :: "('g, 'k) cache_env \<Rightarrow> (string \<Rightarrow> bool) \<Rightarrow> ('g, 'w) delegates \<Rightarrow> 'g option list \<times> ('g, 'w) delegates \<times> 'g act list" where
  "take_stores E P ds =
     (map (\<lambda>(k, d). dl_store d) (filter (\<lambda>(k, d). P k) ds),
      map (\<lambda>(k, d). (k, if P k then fst (snd (Delegate_Store E d)) else d)) ds,
      concat (map (\<lambda>(k, d). snd (snd (Delegate_Store E d))) (filter (\<lambda>(k, d). P k) ds)))"

text \<open>
  The action returns whether the list of stores found is not empty, and an entry whose action returns
  false is erased, its delegates with it.
\<close>

definition GetStoresIfPresent ::
  "(u32, ('g, 'w) delegates, 'c) cmap \<Rightarrow> ('g, 'k) cache_env \<Rightarrow> u32 \<Rightarrow> string \<Rightarrow> string \<Rightarrow>
   ('k, 'c, 'd) AutoCache \<Rightarrow> 'g option list \<times> ('k, 'c, 'd) AutoCache \<times> 'g act list" where
  "GetStoresIfPresent M E tokenId path storeName s =
     (let storeKey = GenerateKey path storeName
      in case cm_Find M (ac_stores s) tokenId of
           None \<Rightarrow> ([], s, [])
         | Some delegates \<Rightarrow>
             (let (stores, delegates', acts) = take_stores E (\<lambda>k. storeKey = [] \<or> k = storeKey) delegates
              in if stores \<noteq> []
                 then (stores, s\<lparr>ac_stores := cm_Compute M (ac_stores s) tokenId (\<lambda>_. Some delegates')\<rparr>, acts)
                 else ([], s\<lparr>ac_stores := cm_Compute M (ac_stores s) tokenId (\<lambda>_. None)\<rparr>,
                       concat (map (\<lambda>(k, d). Delegate_destroy d) delegates))))"

text \<open>Closing the delegates that are chosen, whatever they answer, and erasing them.\<close>

definition close_chosen ::
  "('g, 'k) cache_env \<Rightarrow> (string \<times> ('g, 'w) Delegate \<Rightarrow> bool) \<Rightarrow> ('g, 'w) delegates \<Rightarrow> ('g, 'w) delegates \<times> 'g act list" where
  "close_chosen E P ds =
     (filter (\<lambda>e. \<not> P e) ds, concat (map (\<lambda>(k, d). snd (Delegate_Close E d) @ Delegate_destroy d) (filter P ds)))"

definition CloseStore ::
  "(u32, ('g, 'w) delegates, 'c) cmap \<Rightarrow> ('g, 'k) cache_env \<Rightarrow> u32 \<Rightarrow> string \<Rightarrow> string \<Rightarrow>
   ('k, 'c, 'd) AutoCache \<Rightarrow> ('k, 'c, 'd) AutoCache \<times> 'g act list" where
  "CloseStore M E tokenId path storeId s =
     (let storeKey = GenerateKey path storeId
      in case cm_Find M (ac_stores s) tokenId of
           None \<Rightarrow> (s, [])
         | Some delegates \<Rightarrow>
             (let (rest, acts) = close_chosen E (\<lambda>(k, d). (k = storeKey \<or> storeKey = []) \<and> (\<not> ce_IsLocked E \<or> Delegate_GetArea d \<noteq> EL4)) delegates
              in (s\<lparr>ac_stores := cm_Compute M (ac_stores s) tokenId (\<lambda>_. keep_entry rest)\<rparr>, acts)))"

text \<open>\<open>EraseIf\<close> with an action that first changes the value: all entries are changed, then the empty ones erased.\<close>

definition erase_empty :: "(u32, ('g, 'w) delegates, 'c) cmap \<Rightarrow> (('g, 'w) delegates \<Rightarrow> ('g, 'w) delegates) \<Rightarrow> 'c \<Rightarrow> 'c" where
  "erase_empty M f c =
     fold (\<lambda>k c. cm_Erase M c k) (map fst (filter (\<lambda>(k, ds). f ds = []) (cm_entries M c))) (cm_replace M c (\<lambda>_. f))"

definition CloseStore_filter ::
  "(u32, ('g, 'w) delegates, 'c) cmap \<Rightarrow> ('g, 'k) cache_env \<Rightarrow> (StoreMetaData \<Rightarrow> bool) option \<Rightarrow>
   ('k, 'c, 'd) AutoCache \<Rightarrow> ('k, 'c, 'd) AutoCache \<times> 'g act list" where
  "CloseStore_filter M E flt s =
     (case flt of
        None \<Rightarrow> (s, [])
      | Some f \<Rightarrow>
          (s\<lparr>ac_stores := erase_empty M (\<lambda>ds. fst (close_chosen E (\<lambda>(k, d). f (dl_meta d)) ds)) (ac_stores s)\<rparr>,
           concat (map (\<lambda>(t, ds). snd (close_chosen E (\<lambda>(k, d). f (dl_meta d)) ds)) (cm_entries M (ac_stores s)))))"

definition SetObserver ::
  "(u32, ('g, 'w) delegates, 'c) cmap \<Rightarrow> u32 \<Rightarrow> 'w option list \<Rightarrow> string \<Rightarrow> string \<Rightarrow> ('k, 'c, 'd) AutoCache \<Rightarrow> ('k, 'c, 'd) AutoCache" where
  "SetObserver M tokenId watchers path storeId s =
     (let storeKey = GenerateKey path storeId
      in case cm_Find M (ac_stores s) tokenId of
           None \<Rightarrow> s
         | Some stores \<Rightarrow>
             s\<lparr>ac_stores := cm_Compute M (ac_stores s) tokenId
                 (\<lambda>_. Some (map (\<lambda>(k, d). (k, if k = storeKey then SetObservers watchers d else d)) stores))\<rparr>)"

text \<open>A delegate is collected when the lock of the screen allows it, its time is over, and its store closes.\<close>

definition collectable :: "('g, 'k) cache_env \<Rightarrow> bool \<Rightarrow> ('g, 'w) Delegate \<Rightarrow> bool" where
  "collectable E isForce d \<longleftrightarrow> (\<not> ce_IsLocked E \<or> Delegate_GetArea d \<noteq> EL4) \<and> (isForce \<or> Delegate_less d (ce_now E))"

definition collect ::
  "('g, 'k) cache_env \<Rightarrow> bool \<Rightarrow> ('g, 'w) delegates \<Rightarrow> ('g, 'w) delegates \<times> 'g act list" where
  "collect E isForce ds =
     (filter (\<lambda>(k, d). \<not> (collectable E isForce d \<and> fst (Delegate_Close E d))) ds,
      concat (map (\<lambda>(k, d). if collectable E isForce d
        then snd (Delegate_Close E d) @ (if fst (Delegate_Close E d) then Delegate_destroy d else []) else []) ds))"

definition GarbageCollect ::
  "(u32, ('g, 'w) delegates, 'c) cmap \<Rightarrow> ('g, 'k) cache_env \<Rightarrow> bool \<Rightarrow> ('k, 'c, 'd) AutoCache \<Rightarrow> ('k, 'c, 'd) AutoCache \<times> 'g act list" where
  "GarbageCollect M E isForce s =
     (s\<lparr>ac_stores := erase_empty M (\<lambda>ds. fst (collect E isForce ds)) (ac_stores s)\<rparr>,
      concat (map (\<lambda>(t, ds). snd (collect E isForce ds)) (cm_entries M (ac_stores s))))"

definition timer_task ::
  "(u32, ('g, 'w) delegates, 'c) cmap \<Rightarrow> ('g, 'k) cache_env \<Rightarrow> ('k, 'c, 'd) AutoCache \<Rightarrow> ('k, 'c, 'd) AutoCache \<times> 'g act list" where
  "timer_task M E s = (case GarbageCollect M E False s of (s, acts) \<Rightarrow> (StartTimer M E (s\<lparr>ac_taskId := None\<rparr>), acts))"

definition ac_Enable :: "(u32, string set, 'd) cmap \<Rightarrow> u32 \<Rightarrow> string \<Rightarrow> string \<Rightarrow> ('k, 'c, 'd) AutoCache \<Rightarrow> ('k, 'c, 'd) AutoCache" where
  "ac_Enable N tokenId path storeId s =
     (let storeKey = GenerateKey path storeId
      in case cm_Find N (ac_disables s) tokenId of
           None \<Rightarrow> s
         | Some keys \<Rightarrow>
             (let keys = keys - {storeKey}
              in s\<lparr>ac_disables := cm_Compute N (ac_disables s) tokenId (\<lambda>_. if keys = {} \<or> storeKey = [] then None else Some keys)\<rparr>))"

definition ac_Disable ::
  "(u32, ('g, 'w) delegates, 'c) cmap \<Rightarrow> (u32, string set, 'd) cmap \<Rightarrow> ('g, 'k) cache_env \<Rightarrow> u32 \<Rightarrow> string \<Rightarrow> string \<Rightarrow>
   ('k, 'c, 'd) AutoCache \<Rightarrow> ('k, 'c, 'd) AutoCache \<times> 'g act list" where
  "ac_Disable M N E tokenId path storeId s =
     (let storeKey = GenerateKey path storeId
      in CloseStore M E tokenId path storeId
           (s\<lparr>ac_disables := cm_Compute N (ac_disables s) tokenId
                (\<lambda>keys. Some (insert storeKey (case keys of Some ks \<Rightarrow> ks | None \<Rightarrow> {})))\<rparr>))"

definition Configure :: "('g, 'k) cache_env \<Rightarrow> u32 \<Rightarrow> ('k, 'c, 'd) AutoCache \<Rightarrow> ('k, 'c, 'd) AutoCache" where
  "Configure E garbageInterval s =
     (let s = s\<lparr>ac_garbageInterval := garbageInterval\<rparr>
      in if ac_taskId s \<noteq> None \<and> ac_executor s then s\<lparr>ac_taskId := Some (ce_now E + ms garbageInterval)\<rparr> else s)"

text \<open>The destructor: a forced collection, the removal of the task, and the members' own destruction.\<close>

definition AutoCache_destroy :: "(u32, ('g, 'w) delegates, 'c) cmap \<Rightarrow> ('g, 'k) cache_env \<Rightarrow> ('k, 'c, 'd) AutoCache \<Rightarrow> 'g act list" where
  "AutoCache_destroy M E s =
     (case GarbageCollect M E True s of (s, acts) \<Rightarrow>
        acts @ concat (map (\<lambda>(t, ds). concat (map (\<lambda>(k, d). Delegate_destroy d) ds)) (cm_entries M (ac_stores s))))"

end
