(* ===== verification/Auto_Cache_Results.thy ===== *)
theory Auto_Cache_Results
  imports Auto_Cache
begin

text \<open>
  Runs of the store cache. Each operation returns its actions on the stores; a run collects them. The
  invariant says that every open store is filed under the token and the key of its metadata and that the
  cache's references balance: what was created is either open or was released once.
\<close>

section \<open>Runs\<close>

datatype ('g, 'w, 'k) cache_event =
    GetEv "('g, 'k) cache_env" StoreMetaData "'w option list" bool
  | PresentEv "('g, 'k) cache_env" u32 string string
  | CloseEv "('g, 'k) cache_env" u32 string string
  | CloseByEv "('g, 'k) cache_env" "(StoreMetaData \<Rightarrow> bool) option"
  | ObserveEv u32 "'w option list" string string
  | TimerEv "('g, 'k) cache_env"
  | EnableEv u32 string string
  | DisableEv "('g, 'k) cache_env" u32 string string
  | ConfigureEv "('g, 'k) cache_env" u32
  | BindEv bool
  | RegEv int "'k option"

type_synonym ('g, 'k, 'c, 'd) cache_run = "('k, 'c, 'd) AutoCache \<times> 'g act list"

definition with_acts :: "'g act list \<Rightarrow> ('k, 'c, 'd) AutoCache \<times> 'g act list \<Rightarrow> ('g, 'k, 'c, 'd) cache_run" where
  "with_acts past r = (fst r, past @ snd r)"

fun cache_step ::
  "(u32, ('g, 'w) delegates, 'c) cmap \<Rightarrow> (u32, string set, 'd) cmap \<Rightarrow> ('g, 'k, 'c, 'd) cache_run \<Rightarrow> ('g, 'w, 'k) cache_event \<Rightarrow>
   ('g, 'k, 'c, 'd) cache_run" where
  "cache_step M N (s, past) (GetEv E meta ws opt) = with_acts past (snd (GetDBStore M N E meta ws opt s))"
| "cache_step M N (s, past) (PresentEv E t path name) = with_acts past (snd (GetStoresIfPresent M E t path name s))"
| "cache_step M N (s, past) (CloseEv E t path name) = with_acts past (CloseStore M E t path name s)"
| "cache_step M N (s, past) (CloseByEv E f) = with_acts past (CloseStore_filter M E f s)"
| "cache_step M N (s, past) (ObserveEv t ws path name) = (SetObserver M t ws path name s, past)"
| "cache_step M N (s, past) (TimerEv E) = (if ac_taskId s = None then (s, past) else with_acts past (timer_task M E s))"
| "cache_step M N (s, past) (EnableEv t path name) = (ac_Enable N t path name s, past)"
| "cache_step M N (s, past) (DisableEv E t path name) = with_acts past (ac_Disable M N E t path name s)"
| "cache_step M N (s, past) (ConfigureEv E n) = (Configure E n s, past)"
| "cache_step M N (s, past) (BindEv b) = (ac_Bind b s, past)"
| "cache_step M N (s, past) (RegEv type creator) = (snd (RegCreator type creator s), past)"

section \<open>Delegates of one token\<close>

definition filed :: "u32 \<Rightarrow> ('g, 'w) delegates \<Rightarrow> bool" where
  "filed t ds \<longleftrightarrow> map_sorted ds \<and>
     (\<forall>(k, d) \<in> set ds. k = GenerateKey (sm_dataDir (dl_meta d)) (sm_storeId (dl_meta d)) \<and> t = sm_tokenId (dl_meta d) \<and> dl_store d \<noteq> None)"

definition held :: "'g \<Rightarrow> ('g, 'w) delegates \<Rightarrow> nat" where
  "held g ds = length (filter (\<lambda>(k, d). dl_store d = Some g) ds)"

abbreviation released :: "'g \<Rightarrow> 'g act list \<Rightarrow> nat" where
  "released g acts \<equiv> count_list acts (ReleaseBy_cache g)"

abbreviation created :: "'g \<Rightarrow> 'g act list \<Rightarrow> nat" where
  "created g acts \<equiv> count_list acts (Created g)"

lemma held_simps [simp]: "held g [] = 0" "held g (e # ds) = (if dl_store (snd e) = Some g then 1 else 0) + held g ds"
  "held g (xs @ ds) = held g xs + held g ds"
  by (auto simp: held_def split: prod.split)

lemma map_sorted_filter: "map_sorted ds \<Longrightarrow> map_sorted (filter P ds)"
  by (induction ds) (auto simp: list_all_iff)

lemma map_sorted_notin: "list_all (\<lambda>x. k < fst x) ds \<Longrightarrow> map_of ds k = None" for k :: "'k::linorder"
  by (induction ds) auto

lemma held_put_new: "map_of ds k = None \<Longrightarrow> held g (map_put k d ds) = held g ds + (if dl_store d = Some g then 1 else 0)"
  by (induction ds) (auto split: if_splits)

lemma held_put_same:
  "map_sorted ds \<Longrightarrow> map_of ds k = Some d \<Longrightarrow> dl_store d' = dl_store d \<Longrightarrow> held g (map_put k d' ds) = held g ds"
proof (induction ds)
  case (Cons e ds)
  obtain k' d0 where e: "e = (k', d0)" by force
  show ?case
  proof (cases "k = k'")
    case False
    have "k' < k"
    proof (rule ccontr)
      assume "\<not> k' < k"
      hence "list_all (\<lambda>x. k < fst x) ds" using Cons.prems(1) e False by (auto simp: list_all_iff)
      thus False using map_sorted_notin [of k ds] Cons.prems(2) e False by simp
    qed
    thus ?thesis using Cons e by auto
  qed (use Cons e in auto)
qed simp

lemma set_put: "set (map_put k d ds) \<subseteq> insert (k, d) (set ds)"
  by (induction ds) (auto split: if_splits)

lemma map_put_not_Nil [simp]: "map_put k d ds \<noteq> []"
  by (cases ds) (auto split: if_splits)

lemma filed_put:
  assumes "filed t ds" "k = GenerateKey (sm_dataDir (dl_meta d)) (sm_storeId (dl_meta d))" "t = sm_tokenId (dl_meta d)" "dl_store d \<noteq> None"
  shows "filed t (map_put k d ds)"
  using assms set_put [of k d ds] map_sorted_put [of ds k d] by (auto simp: filed_def)

lemma filed_filter: "filed t ds \<Longrightarrow> filed t (filter P ds)"
  by (auto simp: filed_def map_sorted_filter)

lemma filed_Nil [simp]: "filed t []"
  by (simp add: filed_def)

text \<open>Changing delegates in place, without touching their store or metadata.\<close>

lemma map_sorted_map_keys: "map_sorted (map (\<lambda>(k, d). (k, f k d)) ds) \<longleftrightarrow> map_sorted ds"
  by (induction ds) (auto simp: list_all_iff)

lemma in_place:
  assumes "\<And>k d. dl_store (f k d) = dl_store d \<and> dl_meta (f k d) = dl_meta d"
  shows "filed t (map (\<lambda>(k, d). (k, f k d)) ds) = filed t ds" "held g (map (\<lambda>(k, d). (k, f k d)) ds) = held g ds"
proof -
  show "filed t (map (\<lambda>(k, d). (k, f k d)) ds) = filed t ds"
    using assms by (simp add: filed_def map_sorted_map_keys split_beta)
  show "held g (map (\<lambda>(k, d). (k, f k d)) ds) = held g ds"
    using assms by (induction ds) auto
qed

text \<open>The actions on a delegate that leaves the cache release its store once.\<close>

lemma released_destroy [simp]: "released g (Delegate_destroy d) = (if dl_store d = Some g then 1 else 0)"
  by (auto simp: Delegate_destroy_def split: option.split)

lemma created_destroy [simp]: "created g (Delegate_destroy d) = 0"
  by (auto simp: Delegate_destroy_def split: option.split)

lemma counts_Close [simp]: "released g (snd (Delegate_Close E d)) = 0" "created g (snd (Delegate_Close E d)) = 0"
  by (auto simp: Delegate_Close_def split: option.split)

lemma counts_Store [simp]: "released g (snd (snd (Delegate_Store E d))) = 0" "created g (snd (snd (Delegate_Store E d))) = 0"
  by (auto simp: Delegate_Store_def split: option.split)

lemma close_chosen_balance:
  "held g ds = held g (fst (close_chosen E P ds)) + released g (snd (close_chosen E P ds))" "created g (snd (close_chosen E P ds)) = 0"
  by (induction ds) (auto simp: close_chosen_def)

lemma collect_balance:
  "held g ds = held g (fst (collect E f ds)) + released g (snd (collect E f ds))" "created g (snd (collect E f ds)) = 0"
  by (induction ds) (auto simp: collect_def)

lemma destroy_all_balance:
  "released g (concat (map (\<lambda>(k, d). Delegate_destroy d) ds)) = held g ds" "created g (concat (map (\<lambda>(k, d). Delegate_destroy d) ds)) = 0"
  by (induction ds) auto

lemma take_stores_counts: "released g (snd (snd (take_stores E P ds))) = 0" "created g (snd (snd (take_stores E P ds))) = 0"
  by (induction ds) (auto simp: take_stores_def)

lemma take_stores_in_place:
  "filed t (fst (snd (take_stores E P ds))) = filed t ds" "held g (fst (snd (take_stores E P ds))) = held g ds"
  by (simp_all add: take_stores_def in_place Delegate_Store_def)

section \<open>All tokens\<close>

definition open_total :: "('c \<Rightarrow> (u32 \<rightharpoonup> ('g, 'w) delegates)) \<Rightarrow> 'c \<Rightarrow> 'g \<Rightarrow> nat" where
  "open_total view c g = (\<Sum>t\<in>UNIV. case view c t of None \<Rightarrow> 0 | Some ds \<Rightarrow> held g ds)"

definition all_filed :: "(u32 \<rightharpoonup> ('g, 'w) delegates) \<Rightarrow> bool" where
  "all_filed m \<longleftrightarrow> (\<forall>t ds. m t = Some ds \<longrightarrow> ds \<noteq> [] \<and> filed t ds)"

definition cache_inv ::
  "('c \<Rightarrow> (u32 \<rightharpoonup> ('g, 'w) delegates)) \<Rightarrow> ('g, 'k, 'c, 'd) cache_run \<Rightarrow> bool" where
  "cache_inv view r \<longleftrightarrow> all_filed (view (ac_stores (fst r))) \<and>
     (\<forall>g. created g (snd r) = released g (snd r) + open_total view (ac_stores (fst r)) g)"

definition timer_inv :: "('c \<Rightarrow> (u32 \<rightharpoonup> ('g, 'w) delegates)) \<Rightarrow> ('k, 'c, 'd) AutoCache \<Rightarrow> bool" where
  "timer_inv view s \<longleftrightarrow> ac_executor s \<and> (view (ac_stores s) = Map.empty \<or> ac_taskId s \<noteq> None)"

lemma sum_upd_one:
  fixes h :: "u32 \<Rightarrow> nat"
  assumes "\<And>t. t \<noteq> k \<Longrightarrow> h' t = h t"
  shows "(\<Sum>t\<in>UNIV. h' t) + h k = (\<Sum>t\<in>UNIV. h t) + h' k"
proof -
  have "(\<Sum>t\<in>UNIV - {k}. h' t) = (\<Sum>t\<in>UNIV - {k}. h t)" using assms by (intro sum.cong) auto
  thus ?thesis using sum.remove [of UNIV k h] sum.remove [of UNIV k h'] by simp
qed

lemma open_total_upd:
  assumes "view c' = (view c)(k := x)"
  shows "open_total view c' g + (case view c k of None \<Rightarrow> 0 | Some ds \<Rightarrow> held g ds) =
    open_total view c g + (case x of None \<Rightarrow> 0 | Some ds \<Rightarrow> held g ds)"
  using sum_upd_one [of k "\<lambda>t. case view c' t of None \<Rightarrow> 0 | Some ds \<Rightarrow> held g ds" "\<lambda>t. case view c t of None \<Rightarrow> 0 | Some ds \<Rightarrow> held g ds"] assms
  by (simp add: open_total_def)

lemma entries_sum:
  fixes view :: "'c \<Rightarrow> (u32 \<rightharpoonup> 'v)"
  assumes "concurrent_map M view"
  shows "sum_list (map h (cm_entries M c)) = (\<Sum>t\<in>UNIV. case view c t of None \<Rightarrow> 0 | Some ds \<Rightarrow> (h (t, ds) :: nat))"
proof -
  have d: "distinct (map fst (cm_entries M c))" and s: "set (cm_entries M c) = {(k, v). view c k = Some v}"
    using concurrent_map.distinct_entries [OF assms] concurrent_map.set_entries [OF assms] by blast+
  have "sum_list (map h (cm_entries M c)) = sum h (set (cm_entries M c))"
    using d by (simp add: distinct_map sum_list_distinct_conv_sum_set)
  also have "\<dots> = (\<Sum>t\<in>dom (view c). h (t, the (view c t)))"
    unfolding s by (rule sum.reindex_bij_witness [of _ "\<lambda>t. (t, the (view c t))" fst]) auto
  also have "\<dots> = (\<Sum>t\<in>UNIV. case view c t of None \<Rightarrow> 0 | Some ds \<Rightarrow> h (t, ds))"
    by (rule sum.mono_neutral_cong_left) (auto split: option.split)
  finally show ?thesis .
qed

lemma count_concat: "count_list (concat xss) a = sum_list (map (\<lambda>xs. count_list xs a) xss)"
  by (induction xss) auto

lemma view_erase_empty:
  assumes "concurrent_map M view"
  shows "view (erase_empty M f c) = (\<lambda>t. case view c t of None \<Rightarrow> None | Some ds \<Rightarrow> keep_entry (f ds))"
proof
  fix t
  note s = concurrent_map.set_entries [OF assms, of c]
  have mem: "t \<in> fst ` {x \<in> set (cm_entries M c). case x of (k, ds) \<Rightarrow> f ds = []} \<longleftrightarrow> (\<exists>ds. view c t = Some ds \<and> f ds = [])"
    unfolding s by force
  show "view (erase_empty M f c) t = (case view c t of None \<Rightarrow> None | Some ds \<Rightarrow> keep_entry (f ds))"
    by (simp add: erase_empty_def concurrent_map.view_Erase_all [OF assms] concurrent_map.view_replace [OF assms] forget_all_apply mem
        keep_entry_def split: option.split)
qed

text \<open>An action on the stores of all tokens that releases what it takes out.\<close>

lemma all_balance:
  fixes past :: "'g act list"
  assumes "concurrent_map M view" "cache_inv view (s, past)"
    and f: "\<And>g ds. held g ds = held g (fst (act ds)) + released g (snd (act ds))" "\<And>g ds. created g (snd (act ds)) = 0"
    and P: "\<And>t ds. filed t ds \<Longrightarrow> filed t (fst (act ds))"
  shows "cache_inv view (s\<lparr>ac_stores := erase_empty M (\<lambda>ds. fst (act ds)) (ac_stores s)\<rparr>,
    past @ concat (map (\<lambda>(t, ds). snd (act ds)) (cm_entries M (ac_stores s))))"
proof -
  let ?acts = "concat (map (\<lambda>(t, ds). snd (act ds)) (cm_entries M (ac_stores s)))"
  let ?c' = "erase_empty M (\<lambda>ds. fst (act ds)) (ac_stores s)"
  have cnt: "count_list ?acts a = (\<Sum>t\<in>UNIV. case view (ac_stores s) t of None \<Rightarrow> 0 | Some ds \<Rightarrow> count_list (snd (act ds)) a)" for a
    using entries_sum [OF assms(1), of "\<lambda>e. count_list (snd (act (snd e))) a" "ac_stores s"]
    by (simp add: count_concat comp_def split_beta cong: option.case_cong)
  have "created g ?acts = 0" for g unfolding cnt using f(2) by (intro sum.neutral) (auto split: option.split)
  moreover have "released g ?acts + open_total view ?c' g = open_total view (ac_stores s) g" for g
    unfolding cnt open_total_def sum.distrib [symmetric] view_erase_empty [OF assms(1)]
  proof (intro sum.cong refl)
    fix t
    show "(case view (ac_stores s) t of None \<Rightarrow> 0 | Some ds \<Rightarrow> released g (snd (act ds))) +
      (case case view (ac_stores s) t of None \<Rightarrow> None | Some ds \<Rightarrow> keep_entry (fst (act ds)) of None \<Rightarrow> 0 | Some ds \<Rightarrow> held g ds) =
      (case view (ac_stores s) t of None \<Rightarrow> 0 | Some ds \<Rightarrow> held g ds)"
      using f(1) [of g "the (view (ac_stores s) t)"] by (cases "view (ac_stores s) t") (simp_all add: keep_entry_def)
  qed
  moreover have "all_filed (view ?c')"
    using assms(2) P by (auto simp: cache_inv_def all_filed_def view_erase_empty [OF assms(1)] keep_entry_def split: option.splits if_splits)
  ultimately show ?thesis using assms(2) by (simp add: cache_inv_def)
qed

text \<open>An action on the stores of one token.\<close>

lemma one_balance:
  assumes "cache_inv view (s, past)" "view c' = (view (ac_stores s))(t := x)"
    "\<And>g. created g acts + (case view (ac_stores s) t of None \<Rightarrow> 0 | Some ds \<Rightarrow> held g ds) =
       released g acts + (case x of None \<Rightarrow> 0 | Some ds \<Rightarrow> held g ds)"
    "\<And>ds. x = Some ds \<Longrightarrow> ds \<noteq> [] \<and> filed t ds"
  shows "cache_inv view (s\<lparr>ac_stores := c'\<rparr>, past @ acts)"
proof -
  have "created g (past @ acts) = released g (past @ acts) + open_total view c' g" for g
  proof -
    have "created g past = released g past + open_total view (ac_stores s) g" using assms(1) by (simp add: cache_inv_def)
    thus ?thesis using open_total_upd [OF assms(2), of g] assms(3) [of g] unfolding count_list_append by linarith
  qed
  thus ?thesis using assms(1,2,4) by (auto simp: cache_inv_def all_filed_def)
qed

section \<open>The operations keep the invariant\<close>

lemma StartTimer_stores [simp]: "ac_stores (StartTimer M E s) = ac_stores s" "ac_executor (StartTimer M E s) = ac_executor s"
  by (simp_all add: StartTimer_def)

lemma cache_inv_frame: "ac_stores s' = ac_stores s \<Longrightarrow> cache_inv view (s', acts) = cache_inv view (s, acts)"
  by (simp add: cache_inv_def)

lemma GetDBStore_inv:
  assumes ok: "concurrent_map M view" and inv: "cache_inv view (s, past)"
  shows "cache_inv view (with_acts past (snd (GetDBStore M N E meta ws opt s)))"
proof (cases "GetDBStore_refused N E meta s")
  case (Some r) thus ?thesis using inv by (simp add: GetDBStore_def with_acts_def)
next
  case None
  let ?t = "sm_tokenId meta" and ?key = "GenerateKey (sm_dataDir meta) (sm_storeId meta)"
  define ds where "ds = (case view (ac_stores s) ?t of Some m \<Rightarrow> m | None \<Rightarrow> [])"
  have fd: "filed ?t ds" using inv by (auto simp: ds_def cache_inv_def all_filed_def split: option.split)
  have h: "(case view (ac_stores s) ?t of None \<Rightarrow> 0 | Some m \<Rightarrow> held g m) = held g ds" for g
    by (simp add: ds_def split: option.split)
  have k: "(case keep_entry x of None \<Rightarrow> 0 | Some m \<Rightarrow> held g m) = held g x" for g x by (simp add: keep_entry_def)
  let ?put = "\<lambda>m. s\<lparr>ac_stores := cm_Compute M (ac_stores s) ?t (\<lambda>_. keep_entry m)\<rparr>"
  have put: "cache_inv view (?put m, past @ acts)"
    if "\<And>g. created g acts + held g ds = released g acts + held g m" "filed ?t m" for m acts
    using that by (intro one_balance [OF inv, where t = ?t and x = "keep_entry m"])
      (simp_all add: concurrent_map.view_Compute [OF ok] h k, auto simp: keep_entry_def split: if_splits)
  show ?thesis
  proof (cases "map_of ds ?key")
    case (Some d)
    define d0 where "d0 = (if ws \<noteq> [] then SetObservers ws d else d)"
    define d' where "d' = fst (snd (Delegate_Store E d0))"
    have d: "dl_store d' = dl_store d" "dl_meta d' = dl_meta d" by (simp_all add: d'_def d0_def Delegate_Store_def SetObservers_def)
    have "filed ?t (map_put ?key d' ds)" using fd map_of_SomeD [OF Some] d by (intro filed_put) (auto simp: filed_def)
    moreover have "held g (map_put ?key d' ds) = held g ds" for g using fd Some d(1) by (intro held_put_same) (auto simp: filed_def)
    ultimately have "cache_inv view (?put (map_put ?key d' ds), past @ snd (snd (Delegate_Store E d0)))" by (intro put) simp_all
    thus ?thesis using None Some
      by (simp add: GetDBStore_def GetDBStore_open_def concurrent_map.Find [OF ok] ds_def [symmetric] with_acts_def Let_def split_beta
          d0_def [symmetric] d'_def)
  next
    case absent: None
    obtain ret made where c: "ce_create E (the (ac_creators s (sint (sm_storeType meta)))) meta opt = (ret, made)" by force
    show ?thesis
    proof (cases made)
      case no_store: None
      have "cache_inv view (?put ds, past @ [])" using fd by (intro put) simp_all
      thus ?thesis using None absent c no_store
        by (simp add: GetDBStore_def GetDBStore_open_def concurrent_map.Find [OF ok] ds_def [symmetric] with_acts_def Let_def)
    next
      case (Some db)
      define d where "d = fst (snd (Delegate_Store E (fst (Delegate_new E (Some db) ws meta (ac_garbageInterval s)))))"
      define acts where "acts = [Created db, SetExecutor db] @ snd (Delegate_new E (Some db) ws meta (ac_garbageInterval s)) @
        snd (snd (Delegate_Store E (fst (Delegate_new E (Some db) ws meta (ac_garbageInterval s)))))"
      have d: "dl_store d = Some db" "dl_meta d = meta" by (simp_all add: d_def Delegate_Store_def Delegate_new_def)
      have "filed ?t (map_put ?key d ds)" using fd d by (intro filed_put) simp_all
      moreover have "created g acts + held g ds = released g acts + held g (map_put ?key d ds)" for g
        using held_put_new [OF absent, of g d] d(1) by (simp add: acts_def Delegate_new_def)
      ultimately have "cache_inv view (?put (map_put ?key d ds), past @ acts)" by (intro put)
      thus ?thesis using None absent c Some cache_inv_frame [of "StartTimer M E (?put (map_put ?key d ds))" "?put (map_put ?key d ds)" view "past @ acts"]
        by (simp add: GetDBStore_def GetDBStore_open_def concurrent_map.Find [OF ok] ds_def [symmetric] with_acts_def Let_def split_beta
            d_def [symmetric] acts_def)
    qed
  qed
qed

lemma GetStoresIfPresent_inv:
  assumes ok: "concurrent_map M view" and inv: "cache_inv view (s, past)"
  shows "cache_inv view (with_acts past (snd (GetStoresIfPresent M E t path name s)))"
proof (cases "view (ac_stores s) t")
  case None thus ?thesis using inv by (simp add: GetStoresIfPresent_def with_acts_def concurrent_map.Find [OF ok])
next
  case (Some ds)
  have fd: "ds \<noteq> [] \<and> filed t ds" using inv Some by (auto simp: cache_inv_def all_filed_def)
  define r where "r = take_stores E (\<lambda>k. GenerateKey path name = [] \<or> k = GenerateKey path name) ds"
  have "fst (snd r) \<noteq> []" using fd by (simp add: r_def take_stores_def)
  hence "cache_inv view (s\<lparr>ac_stores := cm_Compute M (ac_stores s) t (\<lambda>_. Some (fst (snd r)))\<rparr>, past @ snd (snd r))"
    using fd by (intro one_balance [OF inv, where t = t and x = "Some (fst (snd r))"])
      (auto simp: concurrent_map.view_Compute [OF ok] Some r_def take_stores_counts take_stores_in_place)
  moreover have "cache_inv view (s\<lparr>ac_stores := cm_Compute M (ac_stores s) t (\<lambda>_. None)\<rparr>, past @ concat (map (\<lambda>(k, d). Delegate_destroy d) ds))"
    by (intro one_balance [OF inv, where t = t and x = None])
      (simp_all add: concurrent_map.view_Compute [OF ok] Some destroy_all_balance)
  ultimately show ?thesis using Some
    by (simp add: GetStoresIfPresent_def with_acts_def concurrent_map.Find [OF ok] Let_def r_def [symmetric] split_beta)
qed

lemma CloseStore_inv:
  assumes ok: "concurrent_map M view" and inv: "cache_inv view (s, past)"
  shows "cache_inv view (with_acts past (CloseStore M E t path name s))"
proof (cases "view (ac_stores s) t")
  case None thus ?thesis using inv by (simp add: CloseStore_def with_acts_def concurrent_map.Find [OF ok])
next
  case (Some ds)
  have fd: "filed t ds" using inv Some by (auto simp: cache_inv_def all_filed_def)
  define r where "r = close_chosen E (\<lambda>(k, d). (k = GenerateKey path name \<or> GenerateKey path name = []) \<and> (\<not> ce_IsLocked E \<or> Delegate_GetArea d \<noteq> EL4)) ds"
  have bal: "held g ds = held g (fst r) + released g (snd r)" "created g (snd r) = 0" for g
    unfolding r_def by (rule close_chosen_balance)+
  have "filed t (fst r)" using fd by (simp add: r_def close_chosen_def filed_filter)
  hence "cache_inv view (s\<lparr>ac_stores := cm_Compute M (ac_stores s) t (\<lambda>_. keep_entry (fst r))\<rparr>, past @ snd r)"
    by (intro one_balance [OF inv, where t = t and x = "keep_entry (fst r)"])
      (auto simp: concurrent_map.view_Compute [OF ok] Some bal keep_entry_def split: if_splits)
  thus ?thesis using Some
    by (simp add: CloseStore_def with_acts_def concurrent_map.Find [OF ok] Let_def r_def split_beta)
qed

lemma cache_inv_other:
  assumes "concurrent_map M view" "cache_inv view (s, past)"
  shows "cache_inv view (SetObserver M t ws path name s, past)"
    "cache_inv view (with_acts past (CloseStore_filter M E f s))"
    "cache_inv view (with_acts past (GarbageCollect M E force s))"
proof -
  show "cache_inv view (SetObserver M t ws path name s, past)"
  proof (cases "view (ac_stores s) t")
    case None thus ?thesis using assms by (simp add: SetObserver_def concurrent_map.Find [OF assms(1)])
  next
    case (Some ds)
    define ds' where "ds' = map (\<lambda>(k, d). (k, if k = GenerateKey path name then SetObservers ws d else d)) ds"
    have same: "filed t ds' = filed t ds" "held g ds' = held g ds" for g
      unfolding ds'_def by (rule in_place; simp add: SetObservers_def)+
    have fd: "ds \<noteq> [] \<and> filed t ds" using assms(2) Some by (auto simp: cache_inv_def all_filed_def)
    hence "ds' \<noteq> []" by (simp add: ds'_def)
    hence "cache_inv view (s\<lparr>ac_stores := cm_Compute M (ac_stores s) t (\<lambda>_. Some ds')\<rparr>, past @ [])"
      using fd same by (intro one_balance [OF assms(2), where t = t and x = "Some ds'"])
        (auto simp: concurrent_map.view_Compute [OF assms(1)] Some)
    thus ?thesis using Some by (simp add: SetObserver_def concurrent_map.Find [OF assms(1)] ds'_def)
  qed
  show "cache_inv view (with_acts past (CloseStore_filter M E f s))"
  proof (cases f)
    case None thus ?thesis using assms(2) by (simp add: CloseStore_filter_def with_acts_def)
  next
    case (Some P)
    have "cache_inv view (s\<lparr>ac_stores := erase_empty M (\<lambda>ds. fst (close_chosen E (\<lambda>(k, d). P (dl_meta d)) ds)) (ac_stores s)\<rparr>,
        past @ concat (map (\<lambda>(t, ds). snd (close_chosen E (\<lambda>(k, d). P (dl_meta d)) ds)) (cm_entries M (ac_stores s))))"
      by (rule all_balance [OF assms close_chosen_balance]) (simp add: close_chosen_def filed_filter)
    thus ?thesis using Some by (simp add: CloseStore_filter_def with_acts_def)
  qed
  have "cache_inv view (s\<lparr>ac_stores := erase_empty M (\<lambda>ds. fst (collect E force ds)) (ac_stores s)\<rparr>,
      past @ concat (map (\<lambda>(t, ds). snd (collect E force ds)) (cm_entries M (ac_stores s))))"
    by (rule all_balance [OF assms collect_balance]) (simp add: collect_def filed_filter)
  thus "cache_inv view (with_acts past (GarbageCollect M E force s))" by (simp add: GarbageCollect_def with_acts_def)
qed

lemma cache_step_inv:
  assumes ok: "concurrent_map M view" and inv: "cache_inv view r"
  shows "cache_inv view (cache_step M N r e)"
proof -
  obtain s past where r: "r = (s, past)" by force
  note inv = inv [unfolded r]
  show ?thesis
  proof (cases e)
    case (TimerEv E)
    obtain s' acts where g: "GarbageCollect M E False s = (s', acts)" by force
    have "cache_inv view (s', past @ acts)" using cache_inv_other(3) [OF ok inv, of E False] g by (simp add: with_acts_def)
    hence "cache_inv view (StartTimer M E (s'\<lparr>ac_taskId := None\<rparr>), past @ acts)"
      by (subst cache_inv_frame [of _ s']) simp_all
    thus ?thesis using TimerEv r inv g by (simp add: timer_task_def with_acts_def)
  next
    case (EnableEv t path name)
    have "cache_inv view (ac_Enable N t path name s, past)"
      using inv by (subst cache_inv_frame [of _ s]) (simp_all add: ac_Enable_def Let_def split: option.split)
    thus ?thesis using EnableEv r by simp
  next
    case (DisableEv E t path name)
    show ?thesis unfolding DisableEv r cache_step.simps ac_Disable_def Let_def
      by (rule CloseStore_inv [OF ok]) (use inv in \<open>simp add: cache_inv_def\<close>)
  next
    case (ConfigureEv E n)
    have "cache_inv view (Configure E n s, past)"
      using inv by (subst cache_inv_frame [of _ s]) (simp_all add: Configure_def Let_def)
    thus ?thesis using ConfigureEv r by simp
  next
    case (BindEv b)
    have "cache_inv view (ac_Bind b s, past)" using inv by (subst cache_inv_frame [of _ s]) (simp_all add: ac_Bind_def)
    thus ?thesis using BindEv r by simp
  next
    case (RegEv ty cr)
    have "cache_inv view (snd (RegCreator ty cr s), past)" using inv by (subst cache_inv_frame [of _ s]) (simp_all add: RegCreator_def)
    thus ?thesis using RegEv r by simp
  qed (use r inv in \<open>simp_all add: GetDBStore_inv [OF ok] GetStoresIfPresent_inv [OF ok] CloseStore_inv [OF ok] cache_inv_other [OF ok]\<close>)
qed

interpretation cache_runs: transition_system "cache_step M N" "\<lambda>r. concurrent_map M view \<longrightarrow> cache_inv view r" for M N view
  by unfold_locales (blast intro: cache_step_inv)

section \<open>The timer\<close>

text \<open>No operation but the timer task disarms the timer, and none opens a store without arming it.\<close>

lemma entries_Nil: "concurrent_map M view \<Longrightarrow> cm_entries M c = [] \<longleftrightarrow> view c = Map.empty"
proof
  assume ok: "concurrent_map M view" and "view c = Map.empty"
  hence "set (cm_entries M c) = {}" using concurrent_map.set_entries [OF ok, of c] by simp
  thus "cm_entries M c = []" by simp
next
  assume ok: "concurrent_map M view" and e: "cm_entries M c = []"
  have "view c k = None" for k
    using concurrent_map.set_entries [OF ok, of c] unfolding e by (cases "view c k") auto
  thus "view c = Map.empty" by blast
qed

lemma StartTimer_timer: "concurrent_map M view \<Longrightarrow> ac_executor s \<Longrightarrow> timer_inv view (StartTimer M E s)"
  by (simp add: timer_inv_def StartTimer_def entries_Nil)

lemma timer_inv_mono:
  "timer_inv view s \<Longrightarrow> ac_executor s' = ac_executor s \<Longrightarrow> ac_taskId s' = ac_taskId s \<or> ac_taskId s' \<noteq> None \<Longrightarrow>
   (view (ac_stores s) = Map.empty \<Longrightarrow> view (ac_stores s') = Map.empty) \<Longrightarrow> timer_inv view s'"
  by (auto simp: timer_inv_def)

lemma CloseStore_timer: "concurrent_map M view \<Longrightarrow> timer_inv view s \<Longrightarrow> timer_inv view (fst (CloseStore M E t path name s))"
  by (erule timer_inv_mono)
    (auto simp: CloseStore_def concurrent_map.Find concurrent_map.view_Compute split_beta Let_def split: option.split)

lemma GetDBStore_timer:
  assumes ok: "concurrent_map M view" and t: "timer_inv view s"
  shows "timer_inv view (fst (snd (GetDBStore M N E meta ws opt s)))"
proof (cases "GetDBStore_refused N E meta s")
  case (Some r) thus ?thesis using t by (simp add: GetDBStore_def)
next
  case None
  let ?stores = "case view (ac_stores s) (sm_tokenId meta) of Some m \<Rightarrow> m | None \<Rightarrow> []"
  have x: "ac_executor s" using t by (simp add: timer_inv_def)
  show ?thesis
  proof (cases "map_of ?stores (GenerateKey (sm_dataDir meta) (sm_storeId meta))")
    case (Some d)
    hence "view (ac_stores s) \<noteq> Map.empty" by (auto split: option.splits)
    hence "ac_taskId s \<noteq> None" using t by (auto simp: timer_inv_def)
    thus ?thesis using None Some x
      by (simp add: GetDBStore_def GetDBStore_open_def concurrent_map.Find [OF ok] Let_def split_beta timer_inv_def)
  next
    case absent: None
    obtain ret made where c: "ce_create E (the (ac_creators s (sint (sm_storeType meta)))) meta opt = (ret, made)" by force
    show ?thesis
    proof (cases made)
      case no_store: None
      have "timer_inv view (s\<lparr>ac_stores := cm_Compute M (ac_stores s) (sm_tokenId meta) (\<lambda>_. keep_entry ?stores)\<rparr>)"
        by (rule timer_inv_mono [OF t]) (simp_all add: concurrent_map.view_Compute [OF ok] keep_entry_def)
      thus ?thesis using None absent c no_store
        by (simp add: GetDBStore_def GetDBStore_open_def concurrent_map.Find [OF ok] Let_def)
    next
      case (Some db)
      thus ?thesis using None absent c x
        by (simp add: GetDBStore_def GetDBStore_open_def concurrent_map.Find [OF ok] Let_def split_beta StartTimer_timer [OF ok])
    qed
  qed
qed

lemma cache_step_timer:
  assumes ok: "concurrent_map M view" and t: "timer_inv view (fst r)"
  shows "timer_inv view (fst (cache_step M N r e))"
proof -
  obtain s past where r: "r = (s, past)" by force
  note t = t [unfolded r, simplified]
  show ?thesis
  proof (cases e)
    case (GetEv E meta ws opt)
    thus ?thesis using GetDBStore_timer [OF ok t] r by (simp add: with_acts_def)
  next
    case (CloseEv E tk path name)
    thus ?thesis using CloseStore_timer [OF ok t] r by (simp add: with_acts_def)
  next
    case (DisableEv E tk path name)
    show ?thesis unfolding DisableEv r cache_step.simps with_acts_def ac_Disable_def Let_def fst_conv
      by (rule CloseStore_timer [OF ok]) (use t in \<open>simp add: timer_inv_def\<close>)
  next
    case (TimerEv E)
    have "ac_executor s" using t by (simp add: timer_inv_def)
    thus ?thesis using TimerEv t r
      by (simp add: with_acts_def timer_task_def GarbageCollect_def StartTimer_timer [OF ok])
  next
    case (PresentEv E tk path name)
    show ?thesis unfolding PresentEv r
      by (rule timer_inv_mono [OF t]) (auto simp: with_acts_def GetStoresIfPresent_def concurrent_map.Find [OF ok]
          concurrent_map.view_Compute [OF ok] Let_def split_beta split: option.split)
  next
    case (CloseByEv E f)
    show ?thesis unfolding CloseByEv r
      by (rule timer_inv_mono [OF t]) (auto simp: with_acts_def CloseStore_filter_def view_erase_empty [OF ok] split: option.split)
  next
    case (ObserveEv tk ws path name)
    show ?thesis unfolding ObserveEv r
      by (rule timer_inv_mono [OF t]) (auto simp: SetObserver_def concurrent_map.Find [OF ok] concurrent_map.view_Compute [OF ok] Let_def
          split: option.split)
  next
    case (EnableEv tk path name)
    show ?thesis unfolding EnableEv r by (rule timer_inv_mono [OF t]) (auto simp: ac_Enable_def Let_def split: option.split)
  next
    case (ConfigureEv E n)
    show ?thesis unfolding ConfigureEv r by (rule timer_inv_mono [OF t]) (auto simp: Configure_def Let_def)
  next
    case (BindEv b)
    have "ac_executor s" using t by (simp add: timer_inv_def)
    thus ?thesis unfolding BindEv r by (intro timer_inv_mono [OF t]) (auto simp: ac_Bind_def)
  next
    case (RegEv ty cr)
    show ?thesis unfolding RegEv r by (rule timer_inv_mono [OF t]) (auto simp: RegCreator_def)
  qed
qed

interpretation timer_runs: transition_system "cache_step M N" "\<lambda>r. concurrent_map M view \<longrightarrow> timer_inv view (fst r)" for M N view
  by unfold_locales (blast intro: cache_step_timer)

text \<open>What the collection leaves.\<close>

lemma GarbageCollect_leaves:
  assumes "concurrent_map M view" "view (ac_stores (fst (GarbageCollect M E force s))) t = Some ds" "(k, d) \<in> set ds"
  shows "\<not> collectable E force d \<or> (\<exists>g. dl_store d = Some g \<and> ce_Close E g = E_BUSY)"
proof -
  have "\<not> (collectable E force d \<and> fst (Delegate_Close E d))"
    using assms(2,3) by (auto simp: GarbageCollect_def view_erase_empty [OF assms(1)] keep_entry_def collect_def split: option.splits if_splits)
  thus ?thesis by (auto simp: Delegate_Close_def split: option.splits if_splits)
qed

section \<open>Disabled stores\<close>

definition shut ::
  "('c \<Rightarrow> (u32 \<rightharpoonup> ('g, 'w) delegates)) \<Rightarrow> ('d \<Rightarrow> (u32 \<rightharpoonup> string set)) \<Rightarrow> u32 \<Rightarrow> string \<Rightarrow> ('k, 'c, 'd) AutoCache \<Rightarrow> bool" where
  "shut view dview t key s \<longleftrightarrow> (\<exists>keys. dview (ac_disables s) t = Some keys \<and> key \<in> keys) \<and>
     (\<forall>ds. view (ac_stores s) t = Some ds \<longrightarrow> map_of ds key = None)"

lemma shut_frame:
  "shut view dview t key s \<Longrightarrow> dview (ac_disables s') t = dview (ac_disables s) t \<Longrightarrow>
   (\<And>ds. view (ac_stores s') t = Some ds \<Longrightarrow> \<exists>ds0. view (ac_stores s) t = Some ds0 \<and> fst ` set ds \<subseteq> fst ` set ds0) \<Longrightarrow>
   shut view dview t key s'"
  by (simp add: shut_def map_of_eq_None_iff) blast

lemma CloseStore_shut:
  assumes "concurrent_map M view" "shut view dview t key s"
  shows "shut view dview t key (fst (CloseStore M E t' path name s))"
  by (rule shut_frame [OF assms(2)])
    (auto simp: CloseStore_def concurrent_map.Find [OF assms(1)] concurrent_map.view_Compute [OF assms(1)] keep_entry_def close_chosen_def
      split_beta Let_def split: option.splits if_splits)

lemma GetDBStore_shut:
  assumes ok: "concurrent_map M view" "concurrent_map N dview" and sh: "shut view dview t key s"
  shows "shut view dview t key (fst (snd (GetDBStore M N E meta ws opt s)))"
proof (cases "GetDBStore_refused N E meta s")
  case (Some r) thus ?thesis using sh by (simp add: GetDBStore_def)
next
  case None
  let ?key = "GenerateKey (sm_dataDir meta) (sm_storeId meta)"
  let ?stores = "case view (ac_stores s) (sm_tokenId meta) of Some m \<Rightarrow> m | None \<Rightarrow> []"
  have other: "\<not> (sm_tokenId meta = t \<and> ?key = key)"
    using None sh by (auto simp: GetDBStore_refused_def concurrent_map.Find [OF ok(2)] shut_def Let_def split: if_splits)
  have put: "shut view dview t key (s\<lparr>ac_stores := cm_Compute M (ac_stores s) (sm_tokenId meta) (\<lambda>_. keep_entry m)\<rparr>)"
    if "\<And>k. k \<noteq> ?key \<Longrightarrow> map_of m k = map_of ?stores k" for m
  proof (cases "sm_tokenId meta = t")
    case True
    hence "map_of m key = map_of ?stores key" using other that by metis
    thus ?thesis using sh True by (auto simp: shut_def concurrent_map.view_Compute [OF ok(1)] keep_entry_def split: option.splits if_splits)
  next
    case False thus ?thesis using sh by (simp add: shut_def concurrent_map.view_Compute [OF ok(1)])
  qed
  have tm: "shut view dview t key (StartTimer M E s') = shut view dview t key s'" for s'
    by (simp add: StartTimer_def shut_def)
  show ?thesis
  proof (cases "map_of ?stores ?key")
    case (Some d)
    thus ?thesis using None put
      by (simp add: GetDBStore_def GetDBStore_open_def concurrent_map.Find [OF ok(1)] Let_def split_beta)
  next
    case absent: None
    obtain ret made where c: "ce_create E (the (ac_creators s (sint (sm_storeType meta)))) meta opt = (ret, made)" by force
    show ?thesis using None absent c put
      by (cases made) (simp_all add: GetDBStore_def GetDBStore_open_def concurrent_map.Find [OF ok(1)] Let_def split_beta tm)
  qed
qed

lemma cache_step_shut:
  assumes ok: "concurrent_map M view" "concurrent_map N dview" and sh: "shut view dview t key (fst r)"
    and e: "\<And>path name. e \<noteq> EnableEv t path name"
  shows "shut view dview t key (fst (cache_step M N r e))"
proof -
  obtain s past where r: "r = (s, past)" by force
  note sh = sh [unfolded r, simplified]
  show ?thesis
  proof (cases e)
    case (GetEv E meta ws opt)
    thus ?thesis using GetDBStore_shut [OF ok sh] r by (simp add: with_acts_def)
  next
    case (CloseEv E tk path name)
    thus ?thesis using CloseStore_shut [OF ok(1) sh] r by (simp add: with_acts_def)
  next
    case (DisableEv E tk path name)
    show ?thesis unfolding DisableEv r cache_step.simps with_acts_def ac_Disable_def Let_def fst_conv
      by (rule CloseStore_shut [OF ok(1)])
        (use sh in \<open>auto simp: shut_def concurrent_map.view_Compute [OF ok(2)] split: option.split\<close>)
  next
    case (TimerEv E)
    show ?thesis unfolding TimerEv r
      by (rule shut_frame [OF sh]) (auto simp: with_acts_def timer_task_def GarbageCollect_def StartTimer_def view_erase_empty [OF ok(1)]
          keep_entry_def collect_def split: option.splits if_splits)
  next
    case (PresentEv E tk path name)
    show ?thesis unfolding PresentEv r
      by (rule shut_frame [OF sh]) (force simp: with_acts_def GetStoresIfPresent_def concurrent_map.Find [OF ok(1)]
          concurrent_map.view_Compute [OF ok(1)] Let_def split_beta take_stores_def split: option.splits if_splits)+
  next
    case (CloseByEv E f)
    show ?thesis unfolding CloseByEv r
      by (rule shut_frame [OF sh]) (auto simp: with_acts_def CloseStore_filter_def view_erase_empty [OF ok(1)] keep_entry_def close_chosen_def
          split: option.splits if_splits)
  next
    case (ObserveEv tk ws path name)
    show ?thesis unfolding ObserveEv r
      by (rule shut_frame [OF sh]) (force simp: SetObserver_def concurrent_map.Find [OF ok(1)] concurrent_map.view_Compute [OF ok(1)] Let_def
          split: option.splits if_splits)+
  next
    case (EnableEv tk path name)
    hence "tk \<noteq> t" using e by metis
    thus ?thesis unfolding EnableEv r
      by (intro shut_frame [OF sh]) (auto simp: ac_Enable_def Let_def concurrent_map.view_Compute [OF ok(2)] split: option.splits)
  next
    case (ConfigureEv E n)
    show ?thesis unfolding ConfigureEv r by (rule shut_frame [OF sh]) (auto simp: Configure_def Let_def split: if_splits)
  next
    case (BindEv b)
    show ?thesis unfolding BindEv r by (rule shut_frame [OF sh]) (auto simp: ac_Bind_def split: if_splits)
  next
    case (RegEv ty cr)
    show ?thesis unfolding RegEv r by (rule shut_frame [OF sh]) (auto simp: RegCreator_def split: if_splits)
  qed
qed

lemma Disable_shut:
  assumes ok: "concurrent_map M view" "concurrent_map N dview" and "\<not> ce_IsLocked E"
  shows "shut view dview t (GenerateKey path name) (fst (ac_Disable M N E t path name s))"
  using assms(3) by (auto simp: shut_def ac_Disable_def CloseStore_def concurrent_map.Find [OF ok(1)] concurrent_map.view_Compute [OF ok(1)]
      concurrent_map.view_Compute [OF ok(2)] Let_def split_beta keep_entry_def close_chosen_def map_of_eq_None_iff split: option.splits if_splits)

text \<open>
  The check of the disabled stores and the opening are two steps. A store that is disabled between them is
  opened all the same.
\<close>

lemma disable_race:
  assumes ok: "concurrent_map M view" "concurrent_map N dview" and "\<not> ce_IsLocked E"
    and "ce_create E (the (ac_creators s (sint (sm_storeType meta)))) meta opt = (ret, Some g)"
  shows "\<not> shut view dview (sm_tokenId meta) (GenerateKey (sm_dataDir meta) (sm_storeId meta))
    (fst (snd (GetDBStore_open M E meta ws opt (fst (ac_Disable M N E (sm_tokenId meta) (sm_dataDir meta) (sm_storeId meta) s)))))"
proof -
  let ?key = "GenerateKey (sm_dataDir meta) (sm_storeId meta)"
  define s1 where "s1 = fst (ac_Disable M N E (sm_tokenId meta) (sm_dataDir meta) (sm_storeId meta) s)"
  have "shut view dview (sm_tokenId meta) ?key s1" unfolding s1_def by (rule Disable_shut [OF assms(1-3)])
  hence "map_of (case view (ac_stores s1) (sm_tokenId meta) of Some m \<Rightarrow> m | None \<Rightarrow> []) ?key = None"
    by (auto simp: shut_def split: option.split)
  moreover have "ac_creators s1 = ac_creators s"
    by (simp add: s1_def ac_Disable_def CloseStore_def Let_def split_beta split: option.split)
  ultimately show ?thesis using assms(4)
    by (simp add: GetDBStore_open_def concurrent_map.Find [OF ok(1)] concurrent_map.view_Compute [OF ok(1)] Let_def split_beta keep_entry_def
        s1_def [symmetric] shut_def)
qed

section \<open>Results\<close>

text \<open>
  C13: In every run of the cache from its start, whatever is opened, asked for, closed, collected, disabled
  or reconfigured and whatever the stores answer, each open store is filed under the token and the key
  of its metadata, and for every store the number of times it was created equals the number of times the
  cache has released it plus the number of delegates that hold it: no store is leaked or released twice.
\<close>

theorem cache_balanced:
  assumes "concurrent_map M view"
  shows "cache_inv view (run_steps (cache_step M N) (AutoCache_new M N, []) es)"
proof -
  have "cache_inv view (AutoCache_new M N, [])"
    using concurrent_map.view_new [OF assms] by (simp add: cache_inv_def AutoCache_new_def all_filed_def open_total_def)
  thus ?thesis using cache_runs.inv_run [of M view "(AutoCache_new M N, [])" N es] assms by blast
qed

definition sample_env :: "(nat, unit) cache_env" where
  "sample_env = \<lparr>ce_now = 0, ce_IsLocked = False, ce_IsDeactivating = (\<lambda>_. False), ce_IsVerified = (\<lambda>_. True), ce_Close = (\<lambda>_. E_OK),
     ce_create = (\<lambda>_ _ _. (E_OK, Some 5))\<rparr>"

definition sample_store :: StoreMetaData where
  "sample_store = StoreMetaData_new\<lparr>sm_storeType := 0, sm_tokenId := 7, sm_dataDir := ''/d'', sm_storeId := ''s'', sm_user := ''100''\<rparr>"

definition sample_events :: "(nat, unit, unit) cache_event list" where
  "sample_events = [RegEv 0 (Some ()), BindEv True, GetEv sample_env sample_store [] False,
     TimerEv (sample_env\<lparr>ce_now := 60000000001\<rparr>)]"

theorem cache_balanced_witness:
  "cache_inv map_of (run_steps (cache_step alist_cmap alist_cmap) (AutoCache_new alist_cmap alist_cmap, []) sample_events)"
  by (rule cache_balanced) unfold_locales

text \<open>
  C25: When the executor is bound before the first store is opened, then after every run an open store
  means an armed timer, and what the timer task leaves open is only what the locked screen protects, what
  was asked for within its interval, and what answered that it is busy.
\<close>

theorem idle_stores_closed:
  assumes "concurrent_map M view" "r = run_steps (cache_step M N) (ac_Bind True (AutoCache_new M N), []) es"
  shows "(view (ac_stores (fst r)) = Map.empty \<or> ac_taskId (fst r) \<noteq> None) \<and>
    (\<forall>E t ds k d. view (ac_stores (fst (timer_task M E (fst r)))) t = Some ds \<longrightarrow> (k, d) \<in> set ds \<longrightarrow>
       ce_IsLocked E \<and> Delegate_GetArea d = EL4 \<or> ce_now E \<le> dl_time d \<or> (\<exists>g. dl_store d = Some g \<and> ce_Close E g = E_BUSY))"
proof -
  have "timer_inv view (ac_Bind True (AutoCache_new M N))"
    using concurrent_map.view_new [OF assms(1)] by (simp add: timer_inv_def ac_Bind_def AutoCache_new_def)
  hence "timer_inv view (fst r)"
    using timer_runs.inv_run [of M view "(ac_Bind True (AutoCache_new M N), [])" N es] assms by simp
  moreover have "ac_stores (fst (timer_task M E (fst r))) = ac_stores (fst (GarbageCollect M E False (fst r)))" for E
    by (simp add: timer_task_def split_beta)
  ultimately show ?thesis using GarbageCollect_leaves [OF assms(1), of _ False "fst r"]
    by (fastforce simp: timer_inv_def collectable_def Delegate_less_def)
qed

theorem idle_stores_closed_witness:
  "\<exists>r. r = run_steps (cache_step alist_cmap alist_cmap) (ac_Bind True (AutoCache_new alist_cmap alist_cmap), []) sample_events \<and>
    (map_of (ac_stores (fst r)) = Map.empty \<or> ac_taskId (fst r) \<noteq> None)"
  using idle_stores_closed [OF alist_map.concurrent_map_axioms refl, of alist_cmap sample_events] by blast

text \<open>
  C26: After a store is disabled while the screen is not locked, no sequence of operations without an
  enabling of its token opens it again, and asking for it is an error.
\<close>

theorem disabled_stays_closed:
  assumes "concurrent_map M view" "concurrent_map N dview" "\<not> ce_IsLocked E"
    "list_all (\<lambda>e. \<forall>path name. e \<noteq> EnableEv (sm_tokenId meta) path name) es"
    "r = run_steps (cache_step M N) (ac_Disable M N E (sm_tokenId meta) (sm_dataDir meta) (sm_storeId meta) s) es"
  shows "(\<forall>ds. view (ac_stores (fst r)) (sm_tokenId meta) = Some ds \<longrightarrow> map_of ds (GenerateKey (sm_dataDir meta) (sm_storeId meta)) = None) \<and>
    fst (GetDBStore M N E' meta ws opt (fst r)) = (E_ERROR, None)"
proof -
  have "shut view dview (sm_tokenId meta) (GenerateKey (sm_dataDir meta) (sm_storeId meta)) (fst (run_steps (cache_step M N) r0 es))"
    if "shut view dview (sm_tokenId meta) (GenerateKey (sm_dataDir meta) (sm_storeId meta)) (fst r0)" for r0
    using that assms(4) by (rule run_steps_guarded) (blast intro: cache_step_shut [OF assms(1,2)])
  hence sh: "shut view dview (sm_tokenId meta) (GenerateKey (sm_dataDir meta) (sm_storeId meta)) (fst r)"
    unfolding assms(5) using Disable_shut [OF assms(1-3)] by blast
  hence "GetDBStore_refused N E' meta (fst r) = Some E_ERROR"
    by (auto simp: GetDBStore_refused_def shut_def concurrent_map.Find [OF assms(2)] Let_def)
  thus ?thesis using sh by (simp add: GetDBStore_def shut_def)
qed

theorem disabled_stays_closed_witness:
  "fst (GetDBStore alist_cmap alist_cmap sample_env sample_store [] False
     (fst (run_steps (cache_step alist_cmap alist_cmap)
        (ac_Disable alist_cmap alist_cmap sample_env 7 ''/d'' ''s'' (AutoCache_new alist_cmap alist_cmap)) sample_events))) = (E_ERROR, None)"
  using disabled_stays_closed [OF alist_map.concurrent_map_axioms alist_map.concurrent_map_axioms, of sample_env sample_store sample_events
      _ "AutoCache_new alist_cmap alist_cmap", OF _ _ refl, of sample_env "[]" False]
  by (simp add: sample_store_def sample_env_def sample_events_def)

text \<open>
  C30: Asking for a store of a token that is not open drops the whole entry of the token: all its other
  stores are closed by force, unwatched and released, and the cache forgets them.
\<close>

theorem GetStoresIfPresent_closes_others:
  fixes ds :: "('b, 'c) delegates"
  assumes "concurrent_map M view" "view (ac_stores s) tokenId = Some ds" "GenerateKey path storeName \<noteq> []"
    "map_of ds (GenerateKey path storeName) = None" "r = GetStoresIfPresent M E tokenId path storeName s"
  shows "fst r = [] \<and> view (ac_stores (fst (snd r))) tokenId = None \<and>
    (\<forall>k d g. (k, d) \<in> set ds \<longrightarrow> dl_store d = Some g \<longrightarrow> CloseStore_of g True \<in> set (snd (snd r)) \<and> ReleaseBy_cache g \<in> set (snd (snd r)))"
proof -
  have "filter (\<lambda>(k, d). k = GenerateKey path storeName) ds = []"
    using assms(4) by (force simp: filter_empty_conv map_of_eq_None_iff)
  hence r: "r = ([], s\<lparr>ac_stores := cm_Compute M (ac_stores s) tokenId (\<lambda>_. None)\<rparr>, concat (map (\<lambda>(k, d). Delegate_destroy d) ds))"
    using assms(2,3,5) by (simp add: GetStoresIfPresent_def concurrent_map.Find [OF assms(1)] take_stores_def)
  have "set (Delegate_destroy d) \<subseteq> set (snd (snd r))" if "(k, d) \<in> set ds" for k d
    unfolding r using that by (auto intro!: bexI [of _ "(k, d)"])
  moreover have "CloseStore_of g True \<in> set (Delegate_destroy d) \<and> ReleaseBy_cache g \<in> set (Delegate_destroy d)"
    if "dl_store d = Some g" for d :: "('b, 'c) Delegate" and g
    using that by (simp add: Delegate_destroy_def)
  moreover have "fst r = []" "view (ac_stores (fst (snd r))) tokenId = None"
    unfolding r by (simp_all add: concurrent_map.view_Compute [OF assms(1)])
  ultimately show ?thesis by blast
qed

theorem GetStoresIfPresent_closes_others_witness:
  "ReleaseBy_cache 5 \<in> set (snd (snd (GetStoresIfPresent alist_cmap sample_env 7 ''/d'' ''other''
     ((AutoCache_new alist_cmap (alist_cmap :: (u32, string set, _) cmap) :: (unit, _, _) AutoCache)
        \<lparr>ac_stores := [(7, [(''/d###s'', fst (Delegate_new sample_env (Some 5) ([] :: unit option list) sample_store 0))])]\<rparr>))))"
  using GetStoresIfPresent_closes_others [OF alist_map.concurrent_map_axioms, of
      "(AutoCache_new alist_cmap (alist_cmap :: (u32, string set, _) cmap) :: (unit, _, _) AutoCache)
        \<lparr>ac_stores := [(7, [(''/d###s'', fst (Delegate_new sample_env (Some 5) ([] :: unit option list) sample_store 0))])]\<rparr>" 7,
      OF _ _ _ refl, of _ "''/d''" "''other''" sample_env]
  by (simp add: GenerateKey_def KEY_SEPARATOR_def Delegate_new_def)

end
