(* ===== verification/Data_Share_Subscribers.thy ===== *)
theory Data_Share_Subscribers
  imports Store_Meta Serializable_Maps Concurrent_Map "HOL-Library.Char_ord" "HOL-Library.List_Lexorder"
begin

text \<open>
  Subscriptions to shared data and the reminders of their templates:
  service/data_share/subscriber_managers/rdb_subscriber_manager.cpp and
  service/data_share/common/scheduler_manager.cpp, with the function of rdb_delegate.cpp that the
  database calls back. Subscribers are kept per key; a change is sent to those that are enabled, and those
  that are not are told when they are enabled again. A template may ask the time service for a reminder;
  there is at most one timer for a key. The templates, the database and the time service are parameters:
  what the evaluation of a statement does to the manager is the list of the calls of \<open>remindTimer\<close> it makes.
\<close>

section \<open>Keys\<close>

datatype Key = Key (key_uri: string) (key_subscriberId: int) (key_bundleName: string)

text \<open>The comparison operator of the keys, and the order it gives to the maps that use them.\<close>

definition Key_less :: "Key \<Rightarrow> Key \<Rightarrow> bool" where
  "Key_less a b =
     (if key_uri a < key_uri b then True
      else if key_uri b < key_uri a then False
      else if key_subscriberId a < key_subscriberId b then True
      else if key_subscriberId b < key_subscriberId a then False
      else key_bundleName a < key_bundleName b)"

instantiation Key :: linorder
begin

definition less_Key :: "Key \<Rightarrow> Key \<Rightarrow> bool" where
  "less_Key a b = Key_less a b"

definition less_eq_Key :: "Key \<Rightarrow> Key \<Rightarrow> bool" where
  "less_eq_Key a b = (\<not> b < a)"

lemmas Key_order = less_eq_Key_def less_Key_def Key_less_def

instance
proof
  fix a b c :: Key
  show "(a < b) = (a \<le> b \<and> \<not> b \<le> a)" by (auto simp: Key_order)
  show "a \<le> a" by (simp add: Key_order)
  show "a \<le> b \<Longrightarrow> b \<le> c \<Longrightarrow> a \<le> c" by (auto simp: Key_order split: if_splits)
  show "a \<le> b \<Longrightarrow> b \<le> a \<Longrightarrow> a = b" by (cases a; cases b) (auto simp: Key_order split: if_splits)
  show "a \<le> b \<or> b \<le> a" by (auto simp: Key_order)
qed

end

section \<open>State and environment\<close>

record 'o ObserverNode =
  on_observer :: "'o option"
  on_firstCallerTokenId :: u32
  on_callerTokenId :: u32
  on_callerPid :: u32
  on_enabled :: bool
  on_isNotifyOnEnabled :: bool
  on_userId :: int

definition ObserverNode_new :: "'o option \<Rightarrow> u32 \<Rightarrow> u32 \<Rightarrow> u32 \<Rightarrow> int \<Rightarrow> 'o ObserverNode" where
  "ObserverNode_new observer firstCallerTokenId callerTokenId callerPid userId =
     \<lparr>on_observer = observer, on_firstCallerTokenId = firstCallerTokenId, on_callerTokenId = callerTokenId, on_callerPid = callerPid,
      on_enabled = True, on_isNotifyOnEnabled = False, on_userId = userId\<rparr>"

record Template =
  tp_update :: string
  tp_predicates :: "(string \<times> string) list"
  tp_scheduler :: string

record ShareContext =
  cx_visitedUserId :: int
  cx_accountId :: int
  cx_haMode :: u32
  cx_callerTokenId :: u32
  cx_calledTokenId :: u32
  cx_calledBundleName :: string
  cx_calledStoreName :: string
  cx_calledSourceDir :: string
  cx_isEncryptDb :: bool

record RdbChangeNode =
  cn_uri :: string
  cn_subscriberId :: int
  cn_bundleName :: string
  cn_data :: "string list"

datatype share_status = SHARE_OK | SHARE_ERROR | TEMPLATE_NOT_EXIST | SUBSCRIBER_NOT_EXIST

datatype 'o share_out = OnChangeFromRdb 'o RdbChangeNode | UpdateSql StoreMetaData string

record share_env =
  se_callingTokenId :: u32
  se_callingPid :: u32
  se_loadDataInfo :: "ShareContext \<Rightarrow> bool \<times> ShareContext"
  se_Template :: "Key \<Rightarrow> int \<Rightarrow> Template option"
  se_Create :: "StoreMetaData \<Rightarrow> string \<Rightarrow> int \<Rightarrow> bool"
  se_Query :: "StoreMetaData \<Rightarrow> string \<Rightarrow> string"
  se_QuerySql :: "StoreMetaData \<Rightarrow> string \<Rightarrow> string list list"
  se_wallTime :: int
  se_CreateTimer :: "int list \<Rightarrow> int"

text \<open>A timer of the time service: its id, when it is due, and what its callback has captured.\<close>

type_synonym timer = "int \<times> int \<times> Key \<times> StoreMetaData \<times> int"

record ('o, 'c) share =
  sh_rdbCache :: 'c
  sh_timerCache :: "(Key \<times> int) list"
  sh_statusCache :: "(Key \<times> bool) list"
  sh_executor :: bool
  sh_timers :: "timer list"
  sh_tasks :: "(Key \<times> 'o ObserverNode \<times> ShareContext \<times> bool) list"

type_synonym ('o, 'c) nodes_map = "(Key, 'o ObserverNode list, 'c) cmap"

definition DATA_PROXY_SCHEMA :: string where "DATA_PROXY_SCHEMA = ''datashareproxy://''"
definition MAX_MILLISECONDS :: int where "MAX_MILLISECONDS = 31536000000"
definition DELAYED_MILLISECONDS :: int where "DELAYED_MILLISECONDS = 200"
definition REMIND_TIMER_FUNC :: string where "REMIND_TIMER_FUNC = ''remindTimer(''"

definition IsDataProxyURI :: "string \<Rightarrow> bool" where
  "IsDataProxyURI uri \<longleftrightarrow> take (length DATA_PROXY_SCHEMA) uri = DATA_PROXY_SCHEMA"

section \<open>Timers\<close>

definition ResetTimerTask :: "int \<Rightarrow> int \<Rightarrow> ('o, 'c) share \<Rightarrow> ('o, 'c) share" where
  "ResetTimerTask timerId reminderTime s =
     s\<lparr>sh_timers := map (\<lambda>(i, due, cb). (i, if i = timerId then reminderTime else due, cb)) (sh_timers s)\<rparr>"

definition DestoryTimerTask :: "int \<Rightarrow> ('o, 'c) share \<Rightarrow> ('o, 'c) share" where
  "DestoryTimerTask timerId s = (if timerId > 0 then s\<lparr>sh_timers := filter (\<lambda>(i, _). i \<noteq> timerId) (sh_timers s)\<rparr> else s)"

definition SetTimerTask ::
  "share_env \<Rightarrow> Key \<times> StoreMetaData \<times> int \<Rightarrow> int \<Rightarrow> ('o, 'c) share \<Rightarrow> int option \<times> ('o, 'c) share" where
  "SetTimerTask E callback reminderTime s =
     (let timerId = se_CreateTimer E (map fst (sh_timers s))
      in if timerId = 0 then (None, s) else (Some timerId, s\<lparr>sh_timers := sh_timers s @ [(timerId, reminderTime, callback)]\<rparr>))"

definition EraseTimerTaskId :: "Key \<Rightarrow> ('o, 'c) share \<Rightarrow> int \<times> ('o, 'c) share" where
  "EraseTimerTaskId key s =
     (case map_of (sh_timerCache s) key of
        Some timerId \<Rightarrow> (timerId, s\<lparr>sh_timerCache := filter (\<lambda>(k, _). k \<noteq> key) (sh_timerCache s)\<rparr>)
      | None \<Rightarrow> (- 1, s))"

definition GetSchedulerStatus :: "Key \<Rightarrow> ('o, 'c) share \<Rightarrow> bool" where
  "GetSchedulerStatus key s = (case map_of (sh_statusCache s) key of Some enabled \<Rightarrow> enabled | None \<Rightarrow> False)"

definition SetTimer :: "share_env \<Rightarrow> int \<Rightarrow> StoreMetaData \<Rightarrow> Key \<Rightarrow> int \<Rightarrow> ('o, 'c) share \<Rightarrow> ('o, 'c) share" where
  "SetTimer E userId metaData key reminderTime s =
     (if \<not> sh_executor s then s
      else if reminderTime \<le> se_wallTime E \<or> reminderTime - se_wallTime E \<ge> MAX_MILLISECONDS then s
      else case map_of (sh_timerCache s) key of
             Some timerId \<Rightarrow> ResetTimerTask timerId reminderTime s
           | None \<Rightarrow>
               (case SetTimerTask E (key, metaData, userId) reminderTime s of
                  (None, s) \<Rightarrow> s
                | (Some timerId, s) \<Rightarrow> s\<lparr>sh_timerCache := map_put key timerId (sh_timerCache s)\<rparr>))"

definition RemoveTimer :: "Key \<Rightarrow> ('o, 'c) share \<Rightarrow> ('o, 'c) share" where
  "RemoveTimer key s =
     (if \<not> sh_executor s then s
      else case map_of (sh_timerCache s) key of
             Some timerId \<Rightarrow> (DestoryTimerTask timerId s)\<lparr>sh_timerCache := filter (\<lambda>(k, _). k \<noteq> key) (sh_timerCache s)\<rparr>
           | None \<Rightarrow> s)"

definition ClearTimer :: "('o, 'c) share \<Rightarrow> ('o, 'c) share" where
  "ClearTimer s =
     (if \<not> sh_executor s then s
      else (fold (\<lambda>(k, timerId). DestoryTimerTask timerId) (sh_timerCache s) s)\<lparr>sh_timerCache := []\<rparr>)"

definition ReExecuteAll :: "share_env \<Rightarrow> ('o, 'c) share \<Rightarrow> ('o, 'c) share" where
  "ReExecuteAll E s = fold (\<lambda>(k, timerId). ResetTimerTask timerId (se_wallTime E + DELAYED_MILLISECONDS)) (sh_timerCache s) s"

definition SetExecutorPool :: "bool \<Rightarrow> ('o, 'c) share \<Rightarrow> ('o, 'c) share" where
  "SetExecutorPool executor s = s\<lparr>sh_executor := executor\<rparr>"

section \<open>The scheduler\<close>

definition GenRemindTimerFuncParams :: "int \<Rightarrow> StoreMetaData \<Rightarrow> Key \<Rightarrow> string \<Rightarrow> string" where
  "GenRemindTimerFuncParams userId metaData key schedulerSQL =
     (case str_find schedulerSQL REMIND_TIMER_FUNC 0 of
        None \<Rightarrow> schedulerSQL
      | Some index \<Rightarrow>
          (let index = index + 12;
               quote = CHR 0x27;
               keyStr = quote # sm_dataDir metaData @ quote # '', '' @ to_string (uint (sm_tokenId metaData)) @ '', '' @ quote # key_uri key @
                        quote # '', '' @ to_string (key_subscriberId key) @ '', '' @ quote # key_bundleName key @ quote # '', '' @
                        to_string userId @ '', '' @ quote # sm_storeId metaData @ quote # '', '' @ to_string (sint (sm_haMode metaData)) @ '', ''
           in str_replace schedulerSQL index 0 keyStr))"

definition RemindTimerFunc :: "share_env \<Rightarrow> string list \<Rightarrow> ('o, 'c) share \<Rightarrow> ('o, 'c) share" where
  "RemindTimerFunc E args s =
     (if length args \<noteq> 9 then s
      else
        (let metaData = StoreMetaData_new\<lparr>sm_tokenId := word_of_int (atoi (args ! 1)), sm_storeId := args ! 6, sm_dataDir := args ! 0,
               sm_haMode := word_of_int (atoi (args ! 7))\<rparr>;
             key = Key (args ! 2) (atoi (args ! 3)) (args ! 4)
         in SetTimer E (atoi (args ! 5)) metaData key (atoi (args ! 8)) s))"

definition ExecuteSchedulerSQL :: "share_env \<Rightarrow> int \<Rightarrow> StoreMetaData \<Rightarrow> Key \<Rightarrow> ('o, 'c) share \<Rightarrow> ('o, 'c) share" where
  "ExecuteSchedulerSQL E userId metaData key s =
     (case se_Template E key userId of
        None \<Rightarrow> s
      | Some tpl \<Rightarrow>
          if tp_scheduler tpl = [] then s
          else fold (RemindTimerFunc E) (se_QuerySql E metaData (GenRemindTimerFuncParams userId metaData key (tp_scheduler tpl))) s)"

definition GetKeysByUri :: "('o, 'c) nodes_map \<Rightarrow> string \<Rightarrow> ('o, 'c) share \<Rightarrow> Key list" where
  "GetKeysByUri M uri s = filter (\<lambda>k. key_uri k = uri) (map fst (cm_entries M (sh_rdbCache s)))"

definition Execute_uri :: "('o, 'c) nodes_map \<Rightarrow> share_env \<Rightarrow> string \<Rightarrow> int \<Rightarrow> StoreMetaData \<Rightarrow> ('o, 'c) share \<Rightarrow> ('o, 'c) share" where
  "Execute_uri M E uri userId metaData s =
     (if \<not> IsDataProxyURI uri then s
      else let metaData = metaData\<lparr>sm_user := to_string userId\<rparr>
           in if \<not> se_Create E metaData [] (- 1) then s
              else fold (ExecuteSchedulerSQL E userId metaData) (GetKeysByUri M uri s) s)"

definition Execute_key :: "share_env \<Rightarrow> Key \<Rightarrow> int \<Rightarrow> StoreMetaData \<Rightarrow> ('o, 'c) share \<Rightarrow> ('o, 'c) share" where
  "Execute_key E key userId metaData s =
     (let meta = metaData\<lparr>sm_bundleName := key_bundleName key, sm_user := to_string userId\<rparr>
      in if \<not> se_Create E meta [] (- 1) then s else ExecuteSchedulerSQL E userId meta key s)"

definition Scheduler_Add :: "Key \<Rightarrow> ('o, 'c) share \<Rightarrow> bool \<times> ('o, 'c) share" where
  "Scheduler_Add key s =
     (case map_of (sh_statusCache s) key of
        Some _ \<Rightarrow> (False, s)
      | None \<Rightarrow> (True, s\<lparr>sh_statusCache := map_put key True (sh_statusCache s)\<rparr>))"

definition Scheduler_Start :: "share_env \<Rightarrow> Key \<Rightarrow> int \<Rightarrow> StoreMetaData \<Rightarrow> ('o, 'c) share \<Rightarrow> ('o, 'c) share" where
  "Scheduler_Start E key userId metaData s =
     (case Scheduler_Add key s of (added, s) \<Rightarrow> if added then Execute_key E key userId metaData s else s)"

definition Scheduler_Stop :: "Key \<Rightarrow> ('o, 'c) share \<Rightarrow> ('o, 'c) share" where
  "Scheduler_Stop key s =
     (let s = RemoveTimer key s in s\<lparr>sh_statusCache := filter (\<lambda>(k, _). k \<noteq> key) (sh_statusCache s)\<rparr>)"

definition Scheduler_Disable :: "Key \<Rightarrow> ('o, 'c) share \<Rightarrow> ('o, 'c) share" where
  "Scheduler_Disable key s =
     (case map_of (sh_statusCache s) key of Some _ \<Rightarrow> s\<lparr>sh_statusCache := map_put key False (sh_statusCache s)\<rparr> | None \<Rightarrow> s)"

section \<open>Subscribers\<close>

definition GenMetaDataFromContext :: "ShareContext \<Rightarrow> StoreMetaData" where
  "GenMetaDataFromContext context =
     StoreMetaData_new\<lparr>sm_tokenId := cx_calledTokenId context, sm_dataDir := cx_calledSourceDir context,
       sm_storeId := cx_calledStoreName context, sm_haMode := cx_haMode context, sm_isEncrypt := cx_isEncryptDb context,
       sm_bundleName := cx_calledBundleName context\<rparr>"

text \<open>A node is called when the users allow it and it is enabled and has an observer.\<close>

definition notified :: "int \<Rightarrow> 'o ObserverNode \<Rightarrow> bool" where
  "notified userId node \<longleftrightarrow> \<not> (on_userId node \<noteq> userId \<and> userId \<noteq> 0 \<and> on_userId node \<noteq> 0) \<and> on_enabled node \<and> on_observer node \<noteq> None"

definition change_data :: "share_env \<Rightarrow> StoreMetaData \<Rightarrow> (string \<times> string) list \<Rightarrow> string list" where
  "change_data E meta predicates =
     map (\<lambda>(k, sql). ''{'' @ [CHR 0x22] @ k @ [CHR 0x22] @ '':'' @ se_Query E meta sql @ ''}'')
       (filter (\<lambda>(k, sql). se_Query E meta sql \<noteq> []) predicates)"

definition Rdb_Notify ::
  "share_env \<Rightarrow> Key \<Rightarrow> int \<Rightarrow> 'o ObserverNode list \<Rightarrow> StoreMetaData \<Rightarrow> int \<Rightarrow> share_status \<times> 'o share_out list" where
  "Rdb_Notify E key userId val metaData accountId =
     (case se_Template E key userId of
        None \<Rightarrow> (TEMPLATE_NOT_EXIST, [])
      | Some tpl \<Rightarrow>
          (let meta = metaData\<lparr>sm_user := to_string userId\<rparr>
           in if \<not> se_Create E meta (key_uri key) accountId then (SHARE_ERROR, [])
              else
                (let changeNode = \<lparr>cn_uri = key_uri key, cn_subscriberId = key_subscriberId key, cn_bundleName = key_bundleName key,
                       cn_data = change_data E meta (tp_predicates tpl)\<rparr>
                 in (SHARE_OK,
                     (if tp_update tpl \<noteq> [] then [UpdateSql meta (tp_update tpl)] else []) @
                     map (\<lambda>node. OnChangeFromRdb (the (on_observer node)) changeNode) (filter (notified userId) val)))))"

definition SetObserverNotifyOnEnabled :: "'o ObserverNode list \<Rightarrow> 'o ObserverNode list" where
  "SetObserverNotifyOnEnabled nodes = map (\<lambda>node. if \<not> on_enabled node then node\<lparr>on_isNotifyOnEnabled := True\<rparr> else node) nodes"

definition Rdb_Add ::
  "('o, 'c) nodes_map \<Rightarrow> share_env \<Rightarrow> Key \<Rightarrow> 'o option \<Rightarrow> ShareContext \<Rightarrow> bool \<Rightarrow> ('o, 'c) share \<Rightarrow> share_status \<times> ('o, 'c) share" where
  "Rdb_Add M E key observer context enabled s =
     (let node = (ObserverNode_new observer (cx_callerTokenId context) (se_callingTokenId E) (se_callingPid E) (cx_visitedUserId context))
            \<lparr>on_enabled := enabled\<rparr>;
          value = (case cm_Find M (sh_rdbCache s) key of Some v \<Rightarrow> v | None \<Rightarrow> []);
          (isFirstSubscribe, s) = Scheduler_Add key s
      in (SHARE_OK, s\<lparr>sh_rdbCache := cm_Compute M (sh_rdbCache s) key (\<lambda>_. Some (value @ [node])),
                      sh_tasks := sh_tasks s @ [(key, node, context, isFirstSubscribe)]\<rparr>))"

text \<open>The task that \<open>Add\<close> gives to the executor: the first notification, and the first run of the scheduler.\<close>

definition Rdb_Add_task ::
  "share_env \<Rightarrow> Key \<times> 'o ObserverNode \<times> ShareContext \<times> bool \<Rightarrow> ('o, 'c) share \<Rightarrow> ('o, 'c) share \<times> 'o share_out list" where
  "Rdb_Add_task E = (\<lambda>(key, node, context, isFirstSubscribe) s.
     case se_loadDataInfo E context of
       (False, _) \<Rightarrow> (s, [])
     | (True, context) \<Rightarrow>
         (let metaData = GenMetaDataFromContext context; outs = snd (Rdb_Notify E key (cx_visitedUserId context) [node] metaData (- 1))
          in (if isFirstSubscribe then Execute_key E key (cx_visitedUserId context) metaData s else s, outs)))"

definition Rdb_Delete :: "('o, 'c) nodes_map \<Rightarrow> Key \<Rightarrow> u32 \<Rightarrow> ('o, 'c) share \<Rightarrow> share_status \<times> ('o, 'c) share" where
  "Rdb_Delete M key firstCallerTokenId s =
     (case cm_Find M (sh_rdbCache s) key of
        None \<Rightarrow> (SUBSCRIBER_NOT_EXIST, s)
      | Some value \<Rightarrow>
          (let value = filter (\<lambda>n. on_firstCallerTokenId n \<noteq> firstCallerTokenId) value;
               s = (if value = [] then Scheduler_Stop key s else s)
           in (SHARE_OK, s\<lparr>sh_rdbCache := cm_Compute M (sh_rdbCache s) key (\<lambda>_. if value \<noteq> [] then Some value else None)\<rparr>)))"

definition of_process :: "u32 \<Rightarrow> u32 \<Rightarrow> 'o ObserverNode \<Rightarrow> bool" where
  "of_process callerTokenId callerPid n \<longleftrightarrow> on_callerTokenId n = callerTokenId \<and> on_callerPid n = callerPid"

definition Rdb_Delete_process :: "('o, 'c) nodes_map \<Rightarrow> u32 \<Rightarrow> u32 \<Rightarrow> ('o, 'c) share \<Rightarrow> ('o, 'c) share" where
  "Rdb_Delete_process M callerTokenId callerPid s =
     (let rest = filter (\<lambda>n. \<not> of_process callerTokenId callerPid n);
          gone = map fst (filter (\<lambda>(k, value). rest value = []) (cm_entries M (sh_rdbCache s)));
          s = fold Scheduler_Stop gone s
      in s\<lparr>sh_rdbCache := fold (\<lambda>k c. cm_Erase M c k) gone (cm_replace M (sh_rdbCache s) (\<lambda>_. rest))\<rparr>)"

definition Rdb_Disable :: "('o, 'c) nodes_map \<Rightarrow> Key \<Rightarrow> u32 \<Rightarrow> ('o, 'c) share \<Rightarrow> share_status \<times> ('o, 'c) share" where
  "Rdb_Disable M key firstCallerTokenId s =
     (case cm_Find M (sh_rdbCache s) key of
        None \<Rightarrow> (SUBSCRIBER_NOT_EXIST, Scheduler_Disable key s)
      | Some value \<Rightarrow>
          (let value = map (\<lambda>n. if on_firstCallerTokenId n = firstCallerTokenId then n\<lparr>on_enabled := False, on_isNotifyOnEnabled := False\<rparr> else n) value;
               s = s\<lparr>sh_rdbCache := cm_Compute M (sh_rdbCache s) key (\<lambda>_. Some value)\<rparr>
           in (SHARE_OK, if list_all (\<lambda>n. \<not> on_enabled n) value then Scheduler_Disable key s else s)))"

text \<open>
  The loop of \<open>Enable\<close> over the nodes of a key: it stops at the first node whose data cannot be loaded.
  The nodes to be told have the observer and the token only, every other member its default.
\<close>

fun enable_loop ::
  "share_env \<Rightarrow> ShareContext \<Rightarrow> 'o ObserverNode list \<Rightarrow> 'o ObserverNode list \<times> 'o ObserverNode list \<times> StoreMetaData option \<times> ShareContext" where
  "enable_loop E context [] = ([], [], None, context)"
| "enable_loop E context (n # ns) =
     (if on_firstCallerTokenId n \<noteq> cx_callerTokenId context
      then (case enable_loop E context ns of (ns, obs, meta, context) \<Rightarrow> (n # ns, obs, meta, context))
      else case se_loadDataInfo E context of
             (False, context) \<Rightarrow> (n\<lparr>on_enabled := True\<rparr> # ns, [], None, context)
           | (True, context) \<Rightarrow>
               (case enable_loop E context ns of (ns, obs, meta, context') \<Rightarrow>
                  (n\<lparr>on_enabled := True\<rparr> # ns,
                   (if on_isNotifyOnEnabled n then [ObserverNode_new (on_observer n) (cx_callerTokenId context) 0 0 0] else []) @ obs,
                   Some (case meta of Some m \<Rightarrow> m | None \<Rightarrow> GenMetaDataFromContext context), context')))"

definition EmitByKey ::
  "('o, 'c) nodes_map \<Rightarrow> share_env \<Rightarrow> Key \<Rightarrow> int \<Rightarrow> StoreMetaData \<Rightarrow> ('o, 'c) share \<Rightarrow> ('o, 'c) share \<times> 'o share_out list" where
  "EmitByKey M E key userId metaData s =
     (if \<not> IsDataProxyURI (key_uri key) then (s, [])
      else case cm_Find M (sh_rdbCache s) key of
             None \<Rightarrow> (s, [])
           | Some val \<Rightarrow>
               (s\<lparr>sh_rdbCache := cm_Compute M (sh_rdbCache s) key (\<lambda>_. Some (SetObserverNotifyOnEnabled val))\<rparr>,
                if val \<noteq> [] then snd (Rdb_Notify E key userId val metaData (- 1)) else []))"

definition Scheduler_Enable ::
  "('o, 'c) nodes_map \<Rightarrow> share_env \<Rightarrow> Key \<Rightarrow> int \<Rightarrow> StoreMetaData \<Rightarrow> ('o, 'c) share \<Rightarrow> ('o, 'c) share \<times> 'o share_out list" where
  "Scheduler_Enable M E key userId metaData s =
     (case se_Template E key userId of
        None \<Rightarrow> (s, [])
      | Some tpl \<Rightarrow>
          if tp_scheduler tpl = [] \<or> str_find (tp_scheduler tpl) REMIND_TIMER_FUNC 0 = None then (s, [])
          else
            (let s = (case map_of (sh_statusCache s) key of Some _ \<Rightarrow> s\<lparr>sh_statusCache := map_put key True (sh_statusCache s)\<rparr> | None \<Rightarrow> s)
             in if map_of (sh_timerCache s) key = None
                then EmitByKey M E key userId metaData (Execute_key E key userId metaData s)
                else (s, [])))"

definition Rdb_Enable ::
  "('o, 'c) nodes_map \<Rightarrow> share_env \<Rightarrow> Key \<Rightarrow> ShareContext \<Rightarrow> ('o, 'c) share \<Rightarrow> share_status \<times> ('o, 'c) share \<times> 'o share_out list" where
  "Rdb_Enable M E key context s =
     (case cm_Find M (sh_rdbCache s) key of
        None \<Rightarrow> (SUBSCRIBER_NOT_EXIST, s, [])
      | Some value \<Rightarrow>
          (case enable_loop E context value of (value, observers, meta, context) \<Rightarrow>
             (let s = s\<lparr>sh_rdbCache := cm_Compute M (sh_rdbCache s) key (\<lambda>_. Some value)\<rparr>;
                  metaData = (case meta of Some m \<Rightarrow> m | None \<Rightarrow> StoreMetaData_new);
                  outs = (if observers \<noteq> [] then snd (Rdb_Notify E key (cx_visitedUserId context) observers metaData (- 1)) else []);
                  (s, outs') = (if meta \<noteq> None then Scheduler_Enable M E key (cx_visitedUserId context) metaData s else (s, []))
              in (SHARE_OK, s, outs @ outs'))))"

section \<open>Changes\<close>

text \<open>
  A change goes through all keys: the nodes of the chosen keys are copied, then those of the keys that
  match are marked. The copies are a \<open>std::map\<close>, so they are told in the order of the keys.
\<close>

definition emit_nodes :: "('o, 'c) nodes_map \<Rightarrow> (Key \<Rightarrow> 'o ObserverNode list \<Rightarrow> bool) \<Rightarrow> ('o, 'c) share \<Rightarrow> (Key \<times> 'o ObserverNode list) list" where
  "emit_nodes M P s = fold (\<lambda>(k, v) m. map_put k v m) (filter (\<lambda>(k, v). P k v) (cm_entries M (sh_rdbCache s))) []"

definition mark_nodes :: "('o, 'c) nodes_map \<Rightarrow> (Key \<Rightarrow> bool) \<Rightarrow> ('o, 'c) share \<Rightarrow> ('o, 'c) share" where
  "mark_nodes M P s = s\<lparr>sh_rdbCache := cm_replace M (sh_rdbCache s) (\<lambda>k v. if P k then SetObserverNotifyOnEnabled v else v)\<rparr>"

definition notify_all :: "share_env \<Rightarrow> int \<Rightarrow> StoreMetaData \<Rightarrow> int \<Rightarrow> (Key \<times> 'o ObserverNode list) list \<Rightarrow> 'o share_out list" where
  "notify_all E userId metaData accountId obsMap = concat (map (\<lambda>(k, v). snd (Rdb_Notify E k userId v metaData accountId)) obsMap)"

definition loaded :: "share_env \<Rightarrow> ShareContext \<Rightarrow> ShareContext" where
  "loaded E context = (if cx_calledSourceDir context = [] then snd (se_loadDataInfo E context) else context)"

definition Emit_context ::
  "('o, 'c) nodes_map \<Rightarrow> share_env \<Rightarrow> string \<Rightarrow> ShareContext \<Rightarrow> ('o, 'c) share \<Rightarrow> ('o, 'c) share \<times> 'o share_out list" where
  "Emit_context M E uri context s =
     (if \<not> IsDataProxyURI uri then (s, [])
      else
        (let context = loaded E context; metaData = GenMetaDataFromContext context; user = cx_visitedUserId context;
             obsMap = emit_nodes M (\<lambda>k v. key_uri k = uri \<and> list_ex on_enabled v) s;
             s = mark_nodes M (\<lambda>k. key_uri k = uri) s
         in (Execute_uri M E uri user metaData s, notify_all E user metaData (- 1) obsMap)))"

definition Emit_user ::
  "('o, 'c) nodes_map \<Rightarrow> share_env \<Rightarrow> string \<Rightarrow> int \<Rightarrow> StoreMetaData \<Rightarrow> ('o, 'c) share \<Rightarrow> ('o, 'c) share \<times> 'o share_out list" where
  "Emit_user M E uri userId metaData s =
     (if \<not> IsDataProxyURI uri then (s, [])
      else
        (let obsMap = emit_nodes M (\<lambda>k v. key_uri k = uri) s; s = mark_nodes M (\<lambda>k. key_uri k = uri) s
         in if obsMap = [] then (s, []) else (Execute_uri M E uri userId metaData s, notify_all E userId metaData (- 1) obsMap)))"

definition Emit_template ::
  "('o, 'c) nodes_map \<Rightarrow> share_env \<Rightarrow> string \<Rightarrow> int \<Rightarrow> string \<Rightarrow> ShareContext \<Rightarrow> ('o, 'c) share \<Rightarrow> ('o, 'c) share \<times> 'o share_out list" where
  "Emit_template M E uri subscriberId bundleName context s =
     (if \<not> IsDataProxyURI uri then (s, [])
      else
        (let context = loaded E context; metaData = GenMetaDataFromContext context; user = cx_visitedUserId context;
             matches = (\<lambda>k. key_uri k = uri \<and> key_subscriberId k = subscriberId);
             obsMap = emit_nodes M (\<lambda>k v. matches k) s;
             s = mark_nodes M matches s
         in (Scheduler_Start E (Key uri subscriberId bundleName) user metaData s, notify_all E user metaData (cx_accountId context) obsMap)))"

definition Rdb_Clear :: "('o, 'c) nodes_map \<Rightarrow> ('o, 'c) share \<Rightarrow> ('o, 'c) share" where
  "Rdb_Clear M s = s\<lparr>sh_rdbCache := cm_new M\<rparr>"

definition GetEnableObserverCount :: "('o, 'c) nodes_map \<Rightarrow> Key \<Rightarrow> ('o, 'c) share \<Rightarrow> nat" where
  "GetEnableObserverCount M key s = (case cm_Find M (sh_rdbCache s) key of None \<Rightarrow> 0 | Some v \<Rightarrow> length (filter on_enabled v))"

text \<open>The callback of a timer.\<close>

definition timer_callback ::
  "('o, 'c) nodes_map \<Rightarrow> share_env \<Rightarrow> Key \<Rightarrow> StoreMetaData \<Rightarrow> int \<Rightarrow> ('o, 'c) share \<Rightarrow> ('o, 'c) share \<times> 'o share_out list" where
  "timer_callback M E key metaData userId s =
     (case EraseTimerTaskId key s of (timerId, s) \<Rightarrow>
        (let s = DestoryTimerTask timerId s
         in if GetSchedulerStatus key s then EmitByKey M E key userId metaData (Execute_key E key userId metaData s) else (s, [])))"

text \<open>Deleting a template stops its scheduler; the store of the templates answers whether it was deleted.\<close>

definition Template_Delete :: "bool \<Rightarrow> Key \<Rightarrow> ('o, 'c) share \<Rightarrow> share_status \<times> ('o, 'c) share" where
  "Template_Delete deleted key s = (if \<not> deleted then (SHARE_ERROR, s) else (SHARE_OK, Scheduler_Stop key s))"

end
