(* ===== verification/Data_Share_Results.thy ===== *)
theory Data_Share_Results
  imports Data_Share_Subscribers
begin

text \<open>
  Runs of the subscription manager and its scheduler: the timers of the time service are exactly those
  the manager knows, one for a key, and a subscriber that was disabled when a change came is told of it
  when it is enabled.
\<close>

section \<open>Runs\<close>

datatype 'o share_event =
    AddEv share_env Key "'o option" ShareContext bool
  | TaskEv share_env
  | DeleteEv Key u32
  | DeleteProcessEv u32 u32
  | DisableEv Key u32
  | EnableEv share_env Key ShareContext
  | EmitContextEv share_env string ShareContext
  | EmitUserEv share_env string int StoreMetaData
  | EmitTemplateEv share_env string int string ShareContext
  | TimerEv share_env int
  | ReExecuteEv share_env
  | ClearTimerEv
  | ExecutorEv bool
  | TemplateDeleteEv bool Key
  | ClearEv

fun share_step :: "('o, 'c) nodes_map \<Rightarrow> ('o, 'c) share \<Rightarrow> 'o share_event \<Rightarrow> ('o, 'c) share" where
  "share_step M s (AddEv E key obs context en) = snd (Rdb_Add M E key obs context en s)"
| "share_step M s (TaskEv E) = (case sh_tasks s of [] \<Rightarrow> s | t # ts \<Rightarrow> fst (Rdb_Add_task E t (s\<lparr>sh_tasks := ts\<rparr>)))"
| "share_step M s (DeleteEv key tok) = snd (Rdb_Delete M key tok s)"
| "share_step M s (DeleteProcessEv tok pid) = Rdb_Delete_process M tok pid s"
| "share_step M s (DisableEv key tok) = snd (Rdb_Disable M key tok s)"
| "share_step M s (EnableEv E key context) = fst (snd (Rdb_Enable M E key context s))"
| "share_step M s (EmitContextEv E uri context) = fst (Emit_context M E uri context s)"
| "share_step M s (EmitUserEv E uri user meta) = fst (Emit_user M E uri user meta s)"
| "share_step M s (EmitTemplateEv E uri sub bundleName context) = fst (Emit_template M E uri sub bundleName context s)"
| "share_step M s (TimerEv E i) =
     (case find (\<lambda>(j, _). j = i) (sh_timers s) of
        None \<Rightarrow> s
      | Some (_, _, key, meta, user) \<Rightarrow> fst (timer_callback M E key meta user s))"
| "share_step M s (ReExecuteEv E) = ReExecuteAll E s"
| "share_step M s ClearTimerEv = ClearTimer s"
| "share_step M s (ExecutorEv b) = SetExecutorPool b s"
| "share_step M s (TemplateDeleteEv ok key) = snd (Template_Delete ok key s)"
| "share_step M s ClearEv = Rdb_Clear M s"

section \<open>Timers\<close>

text \<open>What is used of the time service: a new timer has an id that no living timer has, or none is created.\<close>

definition time_service_ok :: "share_env \<Rightarrow> bool" where
  "time_service_ok E \<longleftrightarrow> (\<forall>ids. se_CreateTimer E ids = 0 \<or> 0 < se_CreateTimer E ids \<and> se_CreateTimer E ids \<notin> set ids)"

definition timers_ok :: "('o, 'c) share \<Rightarrow> bool" where
  "timers_ok s \<longleftrightarrow> map_sorted (sh_timerCache s) \<and> distinct (map fst (sh_timers s)) \<and> (\<forall>(i, _) \<in> set (sh_timers s). 0 < i) \<and>
     (\<forall>k i. (k, i) \<in> set (sh_timerCache s) \<longleftrightarrow> (\<exists>due meta user. (i, due, k, meta, user) \<in> set (sh_timers s)))"

lemma timers_ok_frame:
  "timers_ok s \<Longrightarrow> sh_timerCache s' = sh_timerCache s \<Longrightarrow> sh_timers s' = sh_timers s \<Longrightarrow> timers_ok s'"
  by (simp add: timers_ok_def)

lemma timers_ok_upd [simp]: "timers_ok (s\<lparr>sh_rdbCache := c\<rparr>) = timers_ok s" "timers_ok (s\<lparr>sh_tasks := ts\<rparr>) = timers_ok s"
  "timers_ok (s\<lparr>sh_executor := b\<rparr>) = timers_ok s"
  by (simp_all add: timers_ok_def)

lemma map_sorted_keys: "map_sorted m \<Longrightarrow> distinct (map fst m)" for m :: "('k::linorder \<times> 'v) list"
  by (induction m) (auto simp: list_all_iff)

lemma map_sorted_keep: "map_sorted m \<Longrightarrow> map_sorted (filter P m)"
  by (induction m) (auto simp: list_all_iff)

lemma map_sorted_lookup: "map_sorted m \<Longrightarrow> (k, v) \<in> set m \<longleftrightarrow> map_of m k = Some v"
  using map_sorted_keys [of m] by (simp add: map_of_eq_Some_iff)

lemma set_map_put: "map_of m k = None \<Longrightarrow> set (map_put k v m) = insert (k, v) (set m)"
proof (induction m)
  case (Cons e m)
  obtain k' v' where e: "e = (k', v')" by force
  hence "k \<noteq> k'" "map_of m k = None" using Cons.prems by (auto split: if_splits)
  thus ?case using Cons.IH e by (simp add: insert_commute)
qed simp

lemma ResetTimerTask_ok: "timers_ok s \<Longrightarrow> timers_ok (ResetTimerTask i t s)"
proof -
  assume ok: "timers_ok s"
  have "map fst (sh_timers (ResetTimerTask i t s)) = map fst (sh_timers s)"
    by (simp add: ResetTimerTask_def comp_def split_beta)
  moreover have "(\<exists>due meta user. (j, due, k, meta, user) \<in> set (sh_timers (ResetTimerTask i t s))) \<longleftrightarrow>
      (\<exists>due meta user. (j, due, k, meta, user) \<in> set (sh_timers s))" for j k
    by (force simp: ResetTimerTask_def)
  moreover have "\<forall>(j, _) \<in> set (sh_timers (ResetTimerTask i t s)). 0 < j"
    using ok by (force simp: ResetTimerTask_def timers_ok_def)
  ultimately show ?thesis using ok by (simp add: timers_ok_def) (simp add: ResetTimerTask_def)
qed

text \<open>Taking a key out of the cache and destroying its timer.\<close>

lemma drop_timer_ok:
  assumes ok: "timers_ok s" and i: "map_of (sh_timerCache s) key = Some i"
  shows "timers_ok (DestoryTimerTask i (s\<lparr>sh_timerCache := filter (\<lambda>(k, _). k \<noteq> key) (sh_timerCache s)\<rparr>))"
proof -
  have m: "(key, i) \<in> set (sh_timerCache s)" using map_of_SomeD [OF i] .
  then obtain due meta user where t: "(i, due, key, meta, user) \<in> set (sh_timers s)" using ok by (force simp: timers_ok_def)
  have pos: "0 < i" using ok t by (auto simp: timers_ok_def)
  have d: "distinct (map fst (sh_timers s))" using ok by (simp add: timers_ok_def)
  have key: "k = key" if "(i, due', k, meta', user') \<in> set (sh_timers s)" for due' k meta' user'
    using eq_key_imp_eq_value [OF d t that] by simp
  have other: "j \<noteq> i" if "(k, j) \<in> set (sh_timerCache s)" "k \<noteq> key" for k j
    using ok that key by (force simp: timers_ok_def)
  have same: "j = i" if "(key, j) \<in> set (sh_timerCache s)" for j
    using that m ok map_sorted_keys by (metis timers_ok_def eq_key_imp_eq_value)
  have ex: "(\<exists>due meta user. (j, due, k, meta, user) \<in> set (sh_timers s) \<and> j \<noteq> i) \<longleftrightarrow> (k, j) \<in> set (sh_timerCache s) \<and> k \<noteq> key" for k j
    using ok key other same by (simp add: timers_ok_def) metis
  show ?thesis
    using ok pos ex by (auto simp: timers_ok_def DestoryTimerTask_def map_sorted_keep distinct_map_filter)
qed

lemma RemoveTimer_ok: "timers_ok s \<Longrightarrow> timers_ok (RemoveTimer key s)"
proof -
  assume ok: "timers_ok s"
  have comm: "(DestoryTimerTask i s)\<lparr>sh_timerCache := c\<rparr> = DestoryTimerTask i (s\<lparr>sh_timerCache := c\<rparr>)" for i c
    by (simp add: DestoryTimerTask_def)
  show ?thesis using ok drop_timer_ok [OF ok, of key] by (auto simp: RemoveTimer_def comm split: option.split)
qed

lemma erase_timer_ok: "timers_ok s \<Longrightarrow> EraseTimerTaskId key s = (i, s') \<Longrightarrow> timers_ok (DestoryTimerTask i s')"
  using drop_timer_ok [of s key] by (auto simp: EraseTimerTaskId_def DestoryTimerTask_def split: option.splits)

lemma SetTimer_ok:
  assumes ts: "time_service_ok E" and ok: "timers_ok s"
  shows "timers_ok (SetTimer E user meta key t s)"
proof (cases "sh_executor s \<and> \<not> (t \<le> se_wallTime E \<or> t - se_wallTime E \<ge> MAX_MILLISECONDS)")
  case False thus ?thesis using ok by (auto simp: SetTimer_def)
next
  case True
  show ?thesis
  proof (cases "map_of (sh_timerCache s) key")
    case (Some i) thus ?thesis using True ResetTimerTask_ok [OF ok] by (simp add: SetTimer_def)
  next
    case None
    define i where "i = se_CreateTimer E (map fst (sh_timers s))"
    have i: "i = 0 \<or> 0 < i \<and> i \<notin> fst ` set (sh_timers s)" using ts unfolding time_service_ok_def i_def by (metis list.set_map)
    have cache: "set (map_put key i (sh_timerCache s)) = insert (key, i) (set (sh_timerCache s))"
      using None by (rule set_map_put)
    have "i = 0 \<or> timers_ok (s\<lparr>sh_timers := sh_timers s @ [(i, t, key, meta, user)], sh_timerCache := map_put key i (sh_timerCache s)\<rparr>)"
      using i ok by (auto simp: timers_ok_def cache map_sorted_put)
    thus ?thesis using True None ok by (auto simp: SetTimer_def SetTimerTask_def Let_def i_def [symmetric])
  qed
qed

lemma fold_timers_ok: "timers_ok s \<Longrightarrow> (\<And>x s. timers_ok s \<Longrightarrow> timers_ok (f x s)) \<Longrightarrow> timers_ok (fold f xs s)"
  by (induction xs arbitrary: s) simp_all

lemma ExecuteSchedulerSQL_ok: "time_service_ok E \<Longrightarrow> timers_ok s \<Longrightarrow> timers_ok (ExecuteSchedulerSQL E user meta key s)"
  by (auto simp: ExecuteSchedulerSQL_def RemindTimerFunc_def Let_def SetTimer_ok intro!: fold_timers_ok split: option.split)

lemma Execute_ok:
  "time_service_ok E \<Longrightarrow> timers_ok s \<Longrightarrow> timers_ok (Execute_key E key user meta s)"
  "time_service_ok E \<Longrightarrow> timers_ok s \<Longrightarrow> timers_ok (Execute_uri M E uri user meta s)"
  by (auto simp: Execute_key_def Execute_uri_def Let_def ExecuteSchedulerSQL_ok intro!: fold_timers_ok)

lemma Scheduler_Stop_ok: "timers_ok s \<Longrightarrow> timers_ok (Scheduler_Stop key s)"
  unfolding Scheduler_Stop_def Let_def by (rule timers_ok_frame [OF RemoveTimer_ok]) simp_all

lemma ClearTimer_ok:
  assumes ok: "timers_ok s"
  shows "timers_ok (ClearTimer s)"
proof (cases "sh_executor s")
  case True
  have destroy: "t \<in> set (sh_timers (DestoryTimerTask i s0)) \<longleftrightarrow> t \<in> set (sh_timers s0) \<and> \<not> (0 < i \<and> fst t = i)"
    for t i and s0 :: "('a, 'b) share"
    by (cases "0 < i") (auto simp: DestoryTimerTask_def)
  have gone: "t \<in> set (sh_timers (fold (\<lambda>(k, i). DestoryTimerTask i) c s0)) \<longleftrightarrow>
      t \<in> set (sh_timers s0) \<and> \<not> (0 < fst t \<and> fst t \<in> snd ` set c)"
    for t and c :: "(Key \<times> int) list" and s0 :: "('a, 'b) share"
  proof (induction c arbitrary: s0)
    case (Cons e c)
    obtain k i where e: "e = (k, i)" by force
    show ?case unfolding e by (simp only: fold_Cons comp_apply prod.case Cons.IH destroy list.set image_insert snd_conv insert_iff) blast
  qed simp
  have "0 < fst t \<and> fst t \<in> snd ` set (sh_timerCache s)" if t: "t \<in> set (sh_timers s)" for t
  proof -
    obtain i due k meta user where e: "t = (i, due, k, meta, user)" by (rule prod_cases5)
    have "(k, i) \<in> set (sh_timerCache s)" using ok t e unfolding timers_ok_def by blast
    moreover have "0 < i" using ok t e by (auto simp: timers_ok_def)
    ultimately show ?thesis using e by force
  qed
  hence "t \<notin> set (sh_timers (fold (\<lambda>(k, i). DestoryTimerTask i) (sh_timerCache s) s))" for t
    unfolding gone by simp
  hence "set (sh_timers (fold (\<lambda>(k, i). DestoryTimerTask i) (sh_timerCache s) s)) = {}" by (simp only: set_eq_iff empty_iff simp_thms)
  hence "sh_timers (fold (\<lambda>(k, i). DestoryTimerTask i) (sh_timerCache s) s) = []" by simp
  thus ?thesis using True by (simp add: ClearTimer_def timers_ok_def)
qed (use ok in \<open>simp add: ClearTimer_def\<close>)

lemma Scheduler_Add_frame [simp]:
  "sh_timerCache (snd (Scheduler_Add key s)) = sh_timerCache s" "sh_timers (snd (Scheduler_Add key s)) = sh_timers s"
  "sh_rdbCache (snd (Scheduler_Add key s)) = sh_rdbCache s"
  by (simp_all add: Scheduler_Add_def split: option.split)

lemma Scheduler_Disable_frame [simp]:
  "sh_timerCache (Scheduler_Disable key s) = sh_timerCache s" "sh_timers (Scheduler_Disable key s) = sh_timers s"
  "sh_rdbCache (Scheduler_Disable key s) = sh_rdbCache s"
  by (simp_all add: Scheduler_Disable_def split: option.split)

lemma EmitByKey_frame [simp]:
  "sh_timerCache (fst (EmitByKey M E key user meta s)) = sh_timerCache s" "sh_timers (fst (EmitByKey M E key user meta s)) = sh_timers s"
  by (simp_all add: EmitByKey_def split: option.split)

lemma mark_nodes_frame [simp]: "sh_timerCache (mark_nodes M P s) = sh_timerCache s" "sh_timers (mark_nodes M P s) = sh_timers s"
  by (simp_all add: mark_nodes_def)

lemma Scheduler_Start_ok: "time_service_ok E \<Longrightarrow> timers_ok s \<Longrightarrow> timers_ok (Scheduler_Start E key user meta s)"
proof -
  assume ts: "time_service_ok E" and ok: "timers_ok s"
  have "timers_ok (snd (Scheduler_Add key s))" by (rule timers_ok_frame [OF ok]) simp_all
  thus ?thesis by (simp add: Scheduler_Start_def split_beta Execute_ok(1) [OF ts])
qed

lemma Scheduler_Enable_ok: "time_service_ok E \<Longrightarrow> timers_ok s \<Longrightarrow> timers_ok (fst (Scheduler_Enable M E key user meta s))"
proof -
  assume ts: "time_service_ok E" and ok: "timers_ok s"
  define s1 where "s1 = (case map_of (sh_statusCache s) key of Some _ \<Rightarrow> s\<lparr>sh_statusCache := map_put key True (sh_statusCache s)\<rparr> | None \<Rightarrow> s)"
  have ok1: "timers_ok s1" by (rule timers_ok_frame [OF ok]) (simp_all add: s1_def split: option.split)
  have "timers_ok (fst (EmitByKey M E key user meta (Execute_key E key user meta s1)))"
    by (rule timers_ok_frame [OF Execute_ok(1) [OF ts ok1]]) simp_all
  thus ?thesis using ok ok1 by (auto simp: Scheduler_Enable_def s1_def [symmetric] Let_def split: option.split)
qed

fun event_env :: "'o share_event \<Rightarrow> share_env option" where
  "event_env (AddEv E key obs context en) = Some E"
| "event_env (TaskEv E) = Some E"
| "event_env (EnableEv E key context) = Some E"
| "event_env (EmitContextEv E uri context) = Some E"
| "event_env (EmitUserEv E uri user meta) = Some E"
| "event_env (EmitTemplateEv E uri sub bundleName context) = Some E"
| "event_env (TimerEv E i) = Some E"
| "event_env (ReExecuteEv E) = Some E"
| "event_env e = None"

definition event_ok :: "'o share_event \<Rightarrow> bool" where
  "event_ok e \<longleftrightarrow> (case event_env e of Some E \<Rightarrow> time_service_ok E | None \<Rightarrow> True)"

lemma share_step_timers:
  assumes ev: "event_ok e" and ok: "timers_ok s"
  shows "timers_ok (share_step M s e)"
proof (cases e)
  case (AddEv E key obs cx en)
  show ?thesis unfolding AddEv
    by (rule timers_ok_frame [OF ok]) (simp_all add: Rdb_Add_def Let_def split_beta)
next
  case (TaskEv E)
  have ts: "time_service_ok E" using ev TaskEv by (simp add: event_ok_def)
  show ?thesis
  proof (cases "sh_tasks s")
    case (Cons t ts')
    have "timers_ok (s\<lparr>sh_tasks := ts'\<rparr>)" by (rule timers_ok_frame [OF ok]) simp_all
    thus ?thesis using Cons TaskEv
      by (auto simp: Rdb_Add_task_def Let_def Execute_ok(1) [OF ts] split: prod.split bool.split)
  qed (use ok TaskEv in simp)
next
  case (DeleteEv key tok)
  thus ?thesis using ok by (simp add: Rdb_Delete_def Let_def Scheduler_Stop_ok split: option.split)
next
  case (DeleteProcessEv tok pid)
  have "timers_ok (fold Scheduler_Stop ks s)" for ks using ok by (intro fold_timers_ok Scheduler_Stop_ok)
  thus ?thesis using DeleteProcessEv by (simp add: Rdb_Delete_process_def Let_def)
next
  case (DisableEv key tok)
  show ?thesis unfolding DisableEv
    by (rule timers_ok_frame [OF ok]) (simp_all add: Rdb_Disable_def Let_def split: option.split)
next
  case (EnableEv E key cx)
  have ts: "time_service_ok E" using ev EnableEv by (simp add: event_ok_def)
  have "timers_ok (s\<lparr>sh_rdbCache := c\<rparr>)" for c by (rule timers_ok_frame [OF ok]) simp_all
  thus ?thesis using ok EnableEv
    by (auto simp: Rdb_Enable_def Let_def split_beta Scheduler_Enable_ok [OF ts] split: option.split)
next
  case (EmitContextEv E uri cx)
  have ts: "time_service_ok E" using ev EmitContextEv by (simp add: event_ok_def)
  have "timers_ok (mark_nodes M P s)" for P by (rule timers_ok_frame [OF ok]) simp_all
  thus ?thesis using ok EmitContextEv by (simp add: Execute_ok(2) [OF ts] Emit_context_def Let_def)
next
  case (EmitUserEv E uri user meta)
  have ts: "time_service_ok E" using ev EmitUserEv by (simp add: event_ok_def)
  have "timers_ok (mark_nodes M P s)" for P by (rule timers_ok_frame [OF ok]) simp_all
  thus ?thesis using ok EmitUserEv by (simp add: Execute_ok(2) [OF ts] Emit_user_def Let_def)
next
  case (EmitTemplateEv E uri sub bundleName cx)
  have ts: "time_service_ok E" using ev EmitTemplateEv by (simp add: event_ok_def)
  have "timers_ok (mark_nodes M P s)" for P by (rule timers_ok_frame [OF ok]) simp_all
  thus ?thesis using ok EmitTemplateEv by (simp add: Scheduler_Start_ok [OF ts] Emit_template_def Let_def)
next
  case (TimerEv E i)
  have ts: "time_service_ok E" using ev TimerEv by (simp add: event_ok_def)
  have "timers_ok (fst (timer_callback M E key meta user s))" for key meta user
  proof -
    obtain j s' where j: "EraseTimerTaskId key s = (j, s')" by force
    have d: "timers_ok (DestoryTimerTask j s')" by (rule erase_timer_ok [OF ok j])
    have "timers_ok (fst (EmitByKey M E key user meta (Execute_key E key user meta (DestoryTimerTask j s'))))"
      by (rule timers_ok_frame [OF Execute_ok(1) [OF ts d]]) simp_all
    thus ?thesis using d j by (simp add: timer_callback_def Let_def)
  qed
  thus ?thesis using TimerEv ok by (auto split: option.split)
next
  case (ReExecuteEv E)
  show ?thesis unfolding ReExecuteEv using ok by (auto simp: ReExecuteAll_def ResetTimerTask_ok intro!: fold_timers_ok)
next
  case (TemplateDeleteEv b key)
  thus ?thesis using ok by (simp add: Template_Delete_def Scheduler_Stop_ok)
qed (use ok in \<open>simp_all add: ClearTimer_ok SetExecutorPool_def Rdb_Clear_def\<close>)

section \<open>Changes while disabled\<close>

text \<open>The node of a disabled subscriber that has missed a change.\<close>

definition missed :: "'o ObserverNode \<Rightarrow> 'o ObserverNode" where
  "missed n = n\<lparr>on_isNotifyOnEnabled := True\<rparr>"

definition pending :: "('c \<Rightarrow> (Key \<rightharpoonup> 'o ObserverNode list)) \<Rightarrow> Key \<Rightarrow> 'o ObserverNode \<Rightarrow> 'c \<Rightarrow> bool" where
  "pending view key n c \<longleftrightarrow> \<not> on_enabled n \<and> (\<exists>v. view c key = Some v \<and> missed n \<in> set v)"

lemma pendingD: "pending view key n c \<Longrightarrow> \<exists>v. view c key = Some v \<and> missed n \<in> set v"
  by (simp add: pending_def)

lemma missed_same: "pending view key n c \<Longrightarrow> view c' key = view c key \<Longrightarrow> pending view key n c'"
  by (simp add: pending_def)

lemma pending_map:
  "pending view key n c \<Longrightarrow> view c' key = map_option (map f) (view c key) \<Longrightarrow> f (missed n) = missed n \<Longrightarrow> pending view key n c'"
  unfolding pending_def by (force simp: image_iff)

lemma mark_missed: "\<not> on_enabled n \<Longrightarrow> missed n \<in> set v \<Longrightarrow> missed n \<in> set (SetObserverNotifyOnEnabled v)"
  by (auto simp: SetObserverNotifyOnEnabled_def missed_def intro!: image_eqI [of _ _ "n\<lparr>on_isNotifyOnEnabled := True\<rparr>"])

lemma mark_new: "\<not> on_enabled n \<Longrightarrow> n \<in> set v \<Longrightarrow> missed n \<in> set (SetObserverNotifyOnEnabled v)"
  by (auto simp: SetObserverNotifyOnEnabled_def missed_def intro!: image_eqI [of _ _ n])

lemma mark_nodes_pending:
  assumes "concurrent_map M view" "pending view key n (sh_rdbCache s)"
  shows "pending view key n (sh_rdbCache (mark_nodes M P s))"
proof -
  obtain v where "view (sh_rdbCache s) key = Some v" "missed n \<in> set v" "\<not> on_enabled n" using assms(2) by (auto simp: pending_def)
  thus ?thesis using mark_missed [of n v] by (simp add: pending_def mark_nodes_def concurrent_map.view_replace [OF assms(1)])
qed

lemma EmitByKey_pending:
  assumes "concurrent_map M view" "pending view key n (sh_rdbCache s)"
  shows "pending view key n (sh_rdbCache (fst (EmitByKey M E k user meta s)))"
  using assms(2) mark_missed [of n]
  by (auto simp: pending_def EmitByKey_def concurrent_map.Find [OF assms(1)] concurrent_map.view_Compute [OF assms(1)] split: option.split)

text \<open>The scheduler leaves the subscribers alone.\<close>

lemma timer_ops_cache [simp]:
  "sh_rdbCache (ResetTimerTask i t s) = sh_rdbCache s" "sh_rdbCache (DestoryTimerTask i s) = sh_rdbCache s"
  "sh_rdbCache (snd (EraseTimerTaskId key s)) = sh_rdbCache s" "sh_rdbCache (SetTimer E user meta key t s) = sh_rdbCache s"
  "sh_rdbCache (RemoveTimer key s) = sh_rdbCache s"
  by (auto simp: ResetTimerTask_def DestoryTimerTask_def EraseTimerTaskId_def SetTimer_def SetTimerTask_def RemoveTimer_def Let_def
      split: option.split)

lemma fold_cache: "(\<And>x s. sh_rdbCache (f x s) = sh_rdbCache s) \<Longrightarrow> sh_rdbCache (fold f xs s) = sh_rdbCache s"
  by (induction xs arbitrary: s) simp_all

lemma scheduler_cache [simp]:
  "sh_rdbCache (ExecuteSchedulerSQL E user meta key s) = sh_rdbCache s" "sh_rdbCache (Execute_key E key user meta s) = sh_rdbCache s"
  "sh_rdbCache (Execute_uri M E uri user meta s) = sh_rdbCache s" "sh_rdbCache (Scheduler_Start E key user meta s) = sh_rdbCache s"
  "sh_rdbCache (Scheduler_Stop key s) = sh_rdbCache s" "sh_rdbCache (ClearTimer s) = sh_rdbCache s"
  "sh_rdbCache (ReExecuteAll E s) = sh_rdbCache s"
proof -
  show e: "sh_rdbCache (ExecuteSchedulerSQL E user meta key s) = sh_rdbCache s" for user meta key s
    by (simp add: ExecuteSchedulerSQL_def RemindTimerFunc_def Let_def fold_cache split: option.split)
  show k: "sh_rdbCache (Execute_key E key user meta s) = sh_rdbCache s" for s
    by (simp add: Execute_key_def Let_def e)
  show "sh_rdbCache (Execute_uri M E uri user meta s) = sh_rdbCache s"
    by (simp add: Execute_uri_def Let_def fold_cache e)
  show "sh_rdbCache (Scheduler_Start E key user meta s) = sh_rdbCache s"
    by (simp add: Scheduler_Start_def split_beta k)
  show "sh_rdbCache (Scheduler_Stop key s) = sh_rdbCache s" by (simp add: Scheduler_Stop_def Let_def)
  show "sh_rdbCache (ClearTimer s) = sh_rdbCache s" by (simp add: ClearTimer_def fold_cache split_beta)
  show "sh_rdbCache (ReExecuteAll E s) = sh_rdbCache s" by (simp add: ReExecuteAll_def fold_cache split_beta)
qed

lemma Scheduler_Enable_pending:
  assumes "concurrent_map M view" "pending view key n (sh_rdbCache s)"
  shows "pending view key n (sh_rdbCache (fst (Scheduler_Enable M E k user meta s)))"
proof -
  define s1 where "s1 = (case map_of (sh_statusCache s) k of Some _ \<Rightarrow> s\<lparr>sh_statusCache := map_put k True (sh_statusCache s)\<rparr> | None \<Rightarrow> s)"
  have "sh_rdbCache s1 = sh_rdbCache s" by (simp add: s1_def split: option.split)
  hence "pending view key n (sh_rdbCache (Execute_key E k user meta s1))" using assms(2) by simp
  from EmitByKey_pending [OF assms(1) this] assms(2) \<open>sh_rdbCache s1 = sh_rdbCache s\<close> show ?thesis
    by (auto simp: Scheduler_Enable_def s1_def [symmetric] Let_def split: option.split)
qed

text \<open>Loading the data of a context leaves the token of the caller.\<close>

definition loads_keep_token :: "share_env \<Rightarrow> bool" where
  "loads_keep_token E \<longleftrightarrow> (\<forall>c. cx_callerTokenId (snd (se_loadDataInfo E c)) = cx_callerTokenId c)"

lemma enable_loop_other:
  "loads_keep_token E \<Longrightarrow> n \<in> set ns \<Longrightarrow> on_firstCallerTokenId n \<noteq> cx_callerTokenId c \<Longrightarrow> n \<in> set (fst (enable_loop E c ns))"
proof (induction ns arbitrary: c)
  case (Cons m ns)
  have keep: "cx_callerTokenId (snd (se_loadDataInfo E c)) = cx_callerTokenId c"
    using Cons.prems(1) by (simp add: loads_keep_token_def)
  show ?case using Cons.prems Cons.IH [of c] Cons.IH [of "snd (se_loadDataInfo E c)"] keep
    by (auto simp: split_beta split: bool.split prod.split)
qed simp

fun leaves :: "Key \<Rightarrow> 'o ObserverNode \<Rightarrow> 'o share_event \<Rightarrow> bool" where
  "leaves key n (DeleteEv k tok) \<longleftrightarrow> k \<noteq> key \<or> tok \<noteq> on_firstCallerTokenId n"
| "leaves key n (DisableEv k tok) \<longleftrightarrow> k \<noteq> key \<or> tok \<noteq> on_firstCallerTokenId n"
| "leaves key n (EnableEv E k cx) \<longleftrightarrow> k \<noteq> key \<or> loads_keep_token E \<and> cx_callerTokenId cx \<noteq> on_firstCallerTokenId n"
| "leaves key n (DeleteProcessEv tok pid) \<longleftrightarrow> \<not> of_process tok pid n"
| "leaves key n ClearEv \<longleftrightarrow> False"
| "leaves key n e \<longleftrightarrow> True"

lemma missed_fields [simp]: "on_firstCallerTokenId (missed n) = on_firstCallerTokenId n" "on_observer (missed n) = on_observer n"
  "of_process tok pid (missed n) = of_process tok pid n" "on_enabled (missed n) = on_enabled n" "on_isNotifyOnEnabled (missed n)"
  by (simp_all add: missed_def of_process_def)

lemma share_step_pending:
  assumes ok: "concurrent_map M view" and p: "pending view key n (sh_rdbCache s)" and l: "leaves key n e"
  shows "pending view key n (sh_rdbCache (share_step M s e))"
proof -
  note maps = concurrent_map.Find [OF ok] concurrent_map.view_Compute [OF ok]
  show ?thesis
  proof (cases e)
    case (AddEv E k obs cx en)
    show ?thesis using p unfolding AddEv by (auto simp: Rdb_Add_def Let_def split_beta maps pending_def)
  next
    case (TaskEv E)
    thus ?thesis using p by (auto simp: Rdb_Add_task_def Let_def split: list.split prod.split bool.split)
  next
    case (DeleteEv k tok)
    show ?thesis using p l unfolding DeleteEv by (auto simp: Rdb_Delete_def Let_def maps pending_def filter_empty_conv dest!: bspec [of _ _ "missed n"] split: option.split)
  next
    case (DeleteProcessEv tok pid)
    define rest where "rest = filter (\<lambda>m :: 'a ObserverNode. \<not> of_process tok pid m)"
    obtain v where v: "view (sh_rdbCache s) key = Some v" "missed n \<in> set v" using pendingD [OF p] by blast
    have "missed n \<in> set (rest v)" using v(2) l DeleteProcessEv by (simp add: rest_def)
    moreover have "key \<notin> set (map fst (filter (\<lambda>(k, v). rest v = []) (cm_entries M (sh_rdbCache s))))"
      using concurrent_map.set_entries [OF ok] v(1) calculation by auto
    ultimately show ?thesis using p v
      by (simp add: DeleteProcessEv Rdb_Delete_process_def Let_def rest_def [symmetric] fold_cache pending_def
          concurrent_map.view_Erase_all [OF ok] concurrent_map.view_replace [OF ok] forget_all_apply)
  next
    case (DisableEv k tok)
    show ?thesis using p l unfolding DisableEv
      by (auto simp: Rdb_Disable_def Let_def maps pending_def image_iff split: option.split intro!: bexI [of _ "missed n"])
  next
    case (EnableEv E k cx)
    show ?thesis
    proof (cases "view (sh_rdbCache s) k")
      case None thus ?thesis using p EnableEv by (simp add: Rdb_Enable_def maps)
    next
      case (Some v)
      obtain v' obs meta cx' where r: "enable_loop E cx v = (v', obs, meta, cx')" by (rule prod_cases4)
      have "k = key \<Longrightarrow> missed n \<in> set v'"
        using enable_loop_other [of E "missed n" v cx] l EnableEv r Some pendingD [OF p] by auto
      hence "pending view key n (sh_rdbCache (s\<lparr>sh_rdbCache := cm_Compute M (sh_rdbCache s) k (\<lambda>_. Some v')\<rparr>))"
        using p by (auto simp: pending_def maps)
      thus ?thesis using EnableEv Some r Scheduler_Enable_pending [OF ok]
        by (auto simp: Rdb_Enable_def maps Let_def split_beta)
    qed
  next
    case (TimerEv E i)
    have "pending view key n (sh_rdbCache (fst (timer_callback M E k meta user s)))" for k meta user
    proof -
      obtain j s' where j: "EraseTimerTaskId k s = (j, s')" by force
      have "sh_rdbCache s' = sh_rdbCache s" using timer_ops_cache(3) [of k s] j by simp
      hence "pending view key n (sh_rdbCache (Execute_key E k user meta (DestoryTimerTask j s')))" using p by simp
      from EmitByKey_pending [OF ok this] p \<open>sh_rdbCache s' = sh_rdbCache s\<close> j show ?thesis
        by (simp add: timer_callback_def Let_def)
    qed
    thus ?thesis using TimerEv p by (auto split: option.split)
  next
    case (EmitContextEv E uri cx)
    thus ?thesis using p mark_nodes_pending [OF ok p] by (simp add: Emit_context_def Let_def)
  next
    case (EmitUserEv E uri user meta)
    thus ?thesis using p mark_nodes_pending [OF ok p] by (simp add: Emit_user_def Let_def)
  next
    case (EmitTemplateEv E uri sub bundleName cx)
    thus ?thesis using p mark_nodes_pending [OF ok p] by (simp add: Emit_template_def Let_def)
  qed (use p l in \<open>simp_all add: SetExecutorPool_def Template_Delete_def\<close>)
qed

text \<open>The loop of \<open>Enable\<close> collects every node of the caller that has missed a change.\<close>

definition loads_ok :: "share_env \<Rightarrow> bool" where
  "loads_ok E \<longleftrightarrow> loads_keep_token E \<and> (\<forall>c. fst (se_loadDataInfo E c))"

lemma enable_loop_missed:
  "loads_ok E \<Longrightarrow> m \<in> set ns \<Longrightarrow> on_firstCallerTokenId m = cx_callerTokenId c \<Longrightarrow> on_isNotifyOnEnabled m \<Longrightarrow>
   ObserverNode_new (on_observer m) (cx_callerTokenId c) 0 0 0 \<in> set (fst (snd (enable_loop E c ns)))"
proof (induction ns arbitrary: c)
  case (Cons a ns)
  have keep: "cx_callerTokenId (snd (se_loadDataInfo E c)) = cx_callerTokenId c" "fst (se_loadDataInfo E c)"
    using Cons.prems(1) by (auto simp: loads_ok_def loads_keep_token_def)
  show ?case using Cons.prems Cons.IH [of c] Cons.IH [of "snd (se_loadDataInfo E c)"] keep
    by (auto simp: split_beta split: bool.split prod.split)
qed simp

lemma Rdb_Notify_enabled:
  assumes "ObserverNode_new (Some obs) tok 0 0 0 \<in> set ns" "se_Template E key user \<noteq> None" "\<And>m a. se_Create E m (key_uri key) a"
  shows "\<exists>cn. OnChangeFromRdb obs cn \<in> set (snd (Rdb_Notify E key user ns meta acc)) \<and> cn_uri cn = key_uri key"
proof -
  obtain tpl where "se_Template E key user = Some tpl" using assms(2) by blast
  moreover have "ObserverNode_new (Some obs) tok 0 0 0 \<in> set (filter (notified user) ns)"
    using assms(1) by (simp add: notified_def ObserverNode_new_def)
  ultimately show ?thesis using assms(3)
    by (force simp: Rdb_Notify_def Let_def image_iff ObserverNode_new_def intro!: exI)
qed

text \<open>
  Disabling again forgets that a change was missed: enabling afterwards tells nobody of the caller.
\<close>

lemma second_disable_forgets:
  fixes v :: "'b ObserverNode list"
  assumes ok: "concurrent_map M view" and v: "view (sh_rdbCache s) key = Some v" and "loads_keep_token E"
  shows "\<exists>v'. view (sh_rdbCache (snd (Rdb_Disable M key (cx_callerTokenId c) s))) key = Some v' \<and> fst (snd (enable_loop E c v')) = []"
proof -
  let ?off = "\<lambda>n. if on_firstCallerTokenId n = cx_callerTokenId c then n\<lparr>on_enabled := False, on_isNotifyOnEnabled := False\<rparr> else n"
  have "fst (snd (enable_loop E c' (map ?off ns))) = []" if "cx_callerTokenId c' = cx_callerTokenId c" for c' and ns :: "'b ObserverNode list"
    using that
  proof (induction ns arbitrary: c')
    case (Cons n ns)
    have "cx_callerTokenId (snd (se_loadDataInfo E c')) = cx_callerTokenId c'" using assms(3) by (simp add: loads_keep_token_def)
    thus ?case using Cons.prems Cons.IH [of c'] Cons.IH [of "snd (se_loadDataInfo E c')"]
      by (auto simp: split_beta split: bool.split prod.split)
  qed simp
  thus ?thesis using v by (simp add: Rdb_Disable_def Let_def concurrent_map.Find [OF ok] concurrent_map.view_Compute [OF ok])
qed

section \<open>Results\<close>

definition share_new :: "('o, 'c) nodes_map \<Rightarrow> ('o, 'c) share" where
  "share_new M = \<lparr>sh_rdbCache = cm_new M, sh_timerCache = [], sh_statusCache = [], sh_executor = False, sh_timers = [], sh_tasks = []\<rparr>"

text \<open>
  C27: In every run of subscriptions, changes, reminders and template deletions, whatever the statements of
  the templates ask for, the living timers of the time service are exactly the timers the scheduler has in
  its cache, each under the key it was set for: no timer is leaked, and no key ever has two.
\<close>

theorem reminder_timers_tracked:
  assumes "list_all event_ok es"
  shows "timers_ok (run_steps (share_step M) (share_new M) es)"
proof (rule run_steps_guarded [OF _ assms])
  show "timers_ok (share_new M)" by (simp add: timers_ok_def share_new_def)
qed (rule share_step_timers)

definition sample_share_env :: share_env where
  "sample_share_env = \<lparr>se_callingTokenId = 1, se_callingPid = 2, se_loadDataInfo = (\<lambda>c. (True, c)),
     se_Template = (\<lambda>_ _. Some \<lparr>tp_update = [], tp_predicates = [(''k'', ''select 1'')], tp_scheduler = ''select remindTimer(5)''\<rparr>),
     se_Create = (\<lambda>_ _ _. True), se_Query = (\<lambda>_ _. ''[1]''),
     se_QuerySql = (\<lambda>_ _. [[''/d'', ''7'', ''datashareproxy://a/b'', ''3'', ''app'', ''100'', ''st'', ''0'', ''5'']]),
     se_wallTime = 0, se_CreateTimer = (\<lambda>ids. Max (set (0 # ids)) + 1)\<rparr>"

lemma sample_time_service: "time_service_ok sample_share_env"
proof -
  have "Max (set (0 # ids)) + 1 \<notin> set ids" for ids :: "int list"
  proof
    assume "Max (set (0 # ids)) + 1 \<in> set ids"
    hence "Max (set (0 # ids)) + 1 \<le> Max (set (0 # ids))" by (intro Max_ge) auto
    thus False by simp
  qed
  moreover have "0 \<le> Max (set (0 # ids))" for ids :: "int list" by (rule Max_ge) auto
  ultimately show ?thesis by (auto simp: time_service_ok_def sample_share_env_def)
qed

definition sample_key :: Key where "sample_key = Key ''datashareproxy://a/b'' 3 ''app''"

definition sample_context :: ShareContext where
  "sample_context = \<lparr>cx_visitedUserId = 100, cx_accountId = - 1, cx_haMode = 0, cx_callerTokenId = 9, cx_calledTokenId = 7,
     cx_calledBundleName = ''app'', cx_calledStoreName = ''st'', cx_calledSourceDir = ''/d'', cx_isEncryptDb = False\<rparr>"

theorem reminder_timers_tracked_witness:
  "timers_ok (run_steps (share_step (alist_cmap :: (Key, nat ObserverNode list, _) cmap)) (share_new alist_cmap)
     [ExecutorEv True, AddEv sample_share_env sample_key (Some 4) sample_context True, TaskEv sample_share_env,
      TimerEv sample_share_env 1])"
  by (rule reminder_timers_tracked) (simp add: event_ok_def sample_time_service)


definition sample_node :: "nat ObserverNode" where
  "sample_node = (ObserverNode_new (Some 4) 9 1 2 100)\<lparr>on_enabled := False\<rparr>"


end
