(* ===== verification/Spec2Isabelle.thy ===== *)
theory Spec2Isabelle
  imports Device_Matrix_Results Object_Assets_Results Asset_Loader Route_Head_Results Base64 Sync_Manager Flow_Control Cloud_Schema Bootstrap Value_Proxy Query_Results Auto_Cache_Results Data_Share_Results
begin

text \<open>
  Verification of the distributed data manager service. Paths below are relative to
  src/services/distributeddataservice/.

  \<^bold>\<open>The program.\<close> The service keeps the databases of applications and synchronises them between devices
  and with a cloud. Its start reads a configuration and hands every section to the manager it belongs
  to. Metadata of stores, users, devices and accounts lie in one key-value store behind the metadata
  manager. The device matrix remembers which applications have changes a peer has not received. Sessions
  and the head of messages decide which users exchange data. Schedulers delay and limit work. The cache of
  stores keeps databases open, the backup manager copies them, and the data share service tells
  subscribers about changes. Objects have assets that are transferred by a state machine and a loader.

  \<^bold>\<open>Style of the model.\<close> A class is a record of its fields, a method a definition that takes and
  returns the record; errors are values, a read outside of a container is \<open>None\<close>. Machine integers keep
  their width as words where arithmetic or bits matter. A std::map is the list of its entries in the order
  of the keys, where the order is visible, and a map otherwise. Code outside of the repository (the
  database, the JSON library, the LRU bucket, the concurrent map, the executor pool, the file system, the
  token, account, time and bundle services) is a record of operations passed as an argument; predicates
  such as \<open>db_ok\<close>, \<open>lru_ok\<close>, \<open>concurrent_map\<close>, \<open>pool_ok\<close> and \<open>io_ok\<close> state what the sources rely on, and each has
  a plain instance that the witnesses use. What happens in several threads is a sequence of atomic steps,
  one for each section under a lock or for each task of the pool; a run is \<open>run_steps\<close> over a list of
  events, and an invariant is lifted to all runs by the locale \<open>transition_system\<close>.

  \<^bold>\<open>Shared theories.\<close> \<open>DDS_Prelude\<close> has the types, rule collections, map facts and the locale of runs.
  \<open>DDS_External\<close> and \<open>Concurrent_Map\<close> have the interfaces of other libraries and their contracts. \<open>CPP_String\<close>
  has the string operations of the standard library, \<open>Timeline\<close> the containers ordered by time.

  \<^bold>\<open>Records and their text.\<close> \<open>Serializable\<close> and \<open>Serializable_Maps\<close> model framework/serializable; the locales
  \<open>json_field\<close> and \<open>json_object\<close> state when a field or an object survives writing and reading, and every record
  interprets them: \<open>Store_Meta\<close> and \<open>Meta_Records\<close> (framework/metadata), \<open>Cloud_Schema\<close> and \<open>Cloud_Info\<close>
  (framework/cloud), \<open>Config_Records\<close> (service/config). Besides round trips, the theorems show which fields
  the keys separate and which fields the comparisons leave out. \<open>Text_Utils\<close> models utils/constant.cpp,
  \<open>Base64\<close> the codec, \<open>General_Value\<close> and \<open>Value_Proxy\<close> the values and their passage through other libraries.

  \<^bold>\<open>Metadata.\<close> \<open>Meta_Data_Manager\<close> models framework/metadata/meta_data_manager.cpp: the cache in front of the
  store is never stale in any run, and loads return what was saved. \<open>Meta_Codec\<close> composes it with the
  serializer and the records.

  \<^bold>\<open>Devices, users and sessions.\<close> \<open>Matrix_Levels\<close>, \<open>Device_Matrix\<close> and \<open>Device_Matrix_Results\<close> model
  service/matrix: a change stays pending for a peer until it is exchanged with it, and no device is online
  and offline at once. \<open>User_Access\<close> models the users, capabilities and access decisions, with a refinement
  to a service without a cache. \<open>Session_Manager\<close>, \<open>Route_Head\<close> and \<open>Route_Head_Results\<close> model
  app/src/session_manager down to the bytes: what is packed is read, inside the buffer, and delivered
  to permitted users only.

  \<^bold>\<open>Scheduling.\<close> \<open>Sync_Manager\<close> models service/kvdb/kvstore_sync_manager.cpp and \<open>Flow_Control\<close> models
  framework/flow_control_manager: a waiting operation always has a timer in time, every delayed
  synchronisation is called exactly once, and the rate limit holds.

  \<^bold>\<open>Configuration.\<close> \<open>Config_Managers\<close>, \<open>Checkers\<close>, \<open>Directory_Manager\<close> and \<open>Bootstrap\<close> model the managers that
  hold the configuration, the identification of applications, the paths of stores and the start. After
  loading, the checkers with their cache answer like a specification without one, and with the shipped
  configuration different users, applications and clones never share a directory.

  \<^bold>\<open>Stores.\<close> \<open>Auto_Cache\<close> and \<open>Auto_Cache_Results\<close> model framework/store/auto_cache.cpp: every store created is
  released once or is still filed under its token and key, idle stores are closed, and a disabled store
  stays closed. \<open>Backup_Manager\<close> models service/backup on the level of single effects on the disk: a backup
  survives the service being stopped at any moment. \<open>Query_Helper\<close> and \<open>Query_Results\<close> model
  service/kvdb/query_helper.cpp: every text is answered, the replacement loops equal one-pass scanners, and
  a query that was written in the language is read as written.

  \<^bold>\<open>Sharing and objects.\<close> \<open>Data_Share_Subscribers\<close> and \<open>Data_Share_Results\<close> model the subscriber manager and the
  scheduler of service/data_share: no timer is lost, and a missed change is delivered when the subscriber
  is enabled. \<open>Object_Assets\<close>, \<open>Object_Assets_Results\<close> and \<open>Asset_Loader\<close> model the assets of service/object: a remote
  change is transferred at once or after the running activity, and every request of the loader is answered.

  \<^bold>\<open>Defects.\<close> Where the code does not do what it means to, the theorem states what it does: a short head
  is read outside of its buffer, an encrypted backup can be lost, a device filter can be lost in a query,
  asking for a store that is not open closes the others of its token. Smaller ones are lemmas next to the
  definition they concern.

  \<^bold>\<open>Bounds and fuel.\<close> The limits are those of the sources: a query text has at most 5120 characters and the
  loop over it handles at most 501 keywords, which is also the bound of its recursion; the loader remembers at
  most 200 assets; a level has sixteen bits. Loops recurse on lists or have a termination proof. Only
  splitting a text at an empty delimiter does not end: it is a partial function whose result is then \<open>None\<close>.

  \<^bold>\<open>Not modelled.\<close> Calls between processes and the stubs that unpack them; the general stores over the
  relational and key-value libraries; the cloud service with its synchronisation manager, which mostly
  passes callbacks between the cloud extension, the stores and the metadata; the preprocessing and life
  cycle of drag and drop data; the object manager; communication over the soft bus; key storage and
  encryption; reports and dumps; the extension in Rust. These parts call interfaces outside of the
  repository nearly line by line, so that a model of them would consist of its parameters. Memory management,
  log output and the interleaving of unlocked statements are left out everywhere; the races that are shown
  are between locked sections.
\<close>

end
